(* ===== verification/Prelude.thy ===== *)
theory Prelude
  imports Main "HOL-Library.AList" "HOL-Library.Sublist" "HOL-Library.List_Lexorder"
    "HOL-Library.Char_ord"
begin

text \<open>
  Shared vocabulary of the development: the result type of fallible Python code, loops that stop
  at the first exception, insertion-ordered dictionaries as association lists, JSON values and
  the decimal and JSON printers the tools rely on, and the list lemmas several components use.

  Strings are byte lists; the tools' identifiers, operators and paths are ASCII, and for UTF-8
  text the byte order used by \<open>sorted\<close> below is the code-point order of Python.
\<close>

named_theorems result_simps \<open>inversion of successful fallible computations\<close>

section \<open>Fallible computations\<close>

text \<open>A raise is \<open>Inl\<close>, a normal result is \<open>Inr\<close>.\<close>

type_synonym ('e, 'a) result = "'e + 'a"

definition bindE :: "('e, 'a) result \<Rightarrow> ('a \<Rightarrow> ('e, 'b) result) \<Rightarrow> ('e, 'b) result" where
  "bindE m f = (case m of Inl e \<Rightarrow> Inl e | Inr x \<Rightarrow> f x)"

definition ensure :: "bool \<Rightarrow> 'e \<Rightarrow> ('e, unit) result" where
  "ensure P e = (if P then Inr () else Inl e)"

lemma bindE_simps [simp]: "bindE (Inl e) f = Inl e" "bindE (Inr x) f = f x"
  by (simp_all add: bindE_def)

lemma bindE_Inr [result_simps]: "bindE m f = Inr y \<longleftrightarrow> (\<exists>x. m = Inr x \<and> f x = Inr y)"
  by (cases m) auto

lemma bindE_Inl: "bindE m f = Inl e \<longleftrightarrow> m = Inl e \<or> (\<exists>x. m = Inr x \<and> f x = Inl e)"
  by (cases m) auto

lemma bindE_cong [fundef_cong]:
  assumes "m = m'" and "\<And>x. m' = Inr x \<Longrightarrow> f x = g x"
  shows "bindE m f = bindE m' g"
  using assms by (cases m') auto

lemma ensure_Inr [result_simps, simp]: "ensure P e = Inr u \<longleftrightarrow> P"
  by (simp add: ensure_def)

lemma ensure_Inl [simp]: "ensure P e = Inl e' \<longleftrightarrow> \<not> P \<and> e' = e"
  by (auto simp: ensure_def)

lemma if_Inl_Inr [result_simps]:
  "(if P then Inl e else m) = Inr x \<longleftrightarrow> \<not> P \<and> m = Inr x"
  by simp

text \<open>A \<open>for\<close> loop whose body may raise, threading a state.\<close>

fun foldE :: "('s \<Rightarrow> 'a \<Rightarrow> ('e, 's) result) \<Rightarrow> 's \<Rightarrow> 'a list \<Rightarrow> ('e, 's) result" where
  "foldE f s [] = Inr s"
| "foldE f s (x # xs) = bindE (f s x) (\<lambda>s'. foldE f s' xs)"

text \<open>A \<open>for\<close> loop that only checks.\<close>

fun checkE :: "('a \<Rightarrow> ('e, unit) result) \<Rightarrow> 'a list \<Rightarrow> ('e, unit) result" where
  "checkE f [] = Inr ()"
| "checkE f (x # xs) = bindE (f x) (\<lambda>_. checkE f xs)"

text \<open>A comprehension whose element expression may raise.\<close>

fun mapE :: "('a \<Rightarrow> ('e, 'b) result) \<Rightarrow> 'a list \<Rightarrow> ('e, 'b list) result" where
  "mapE f [] = Inr []"
| "mapE f (x # xs) = bindE (f x) (\<lambda>y. bindE (mapE f xs) (\<lambda>ys. Inr (y # ys)))"

lemma checkE_Inr [result_simps, simp]: "checkE f xs = Inr u \<longleftrightarrow> (\<forall>x\<in>set xs. f x = Inr ())"
  by (induction xs) (auto simp: bindE_Inr)

lemma mapE_Inr [result_simps]: "mapE f xs = Inr ys \<longleftrightarrow> list_all2 (\<lambda>x y. f x = Inr y) xs ys"
  by (induction xs arbitrary: ys) (auto simp: bindE_Inr list_all2_Cons1)

lemma mapE_member: "mapE f xs = Inr ys \<Longrightarrow> y \<in> set ys \<Longrightarrow> \<exists>x\<in>set xs. f x = Inr y"
  by (induction xs arbitrary: ys) (auto simp: bindE_Inr)

lemma mapE_length: "mapE f xs = Inr ys \<Longrightarrow> length ys = length xs"
  by (auto simp: mapE_Inr dest: list_all2_lengthD)

lemma mapE_cong [fundef_cong]:
  "xs = ys \<Longrightarrow> (\<And>x. x \<in> set ys \<Longrightarrow> f x = g x) \<Longrightarrow> mapE f xs = mapE g ys"
  by (induction xs arbitrary: ys) (auto simp: bindE_def split: sum.splits)

lemma foldE_append: "foldE f s (xs @ ys) = bindE (foldE f s xs) (\<lambda>s'. foldE f s' ys)"
  by (induction xs arbitrary: s) (auto simp: bindE_def split: sum.splits)

lemma foldE_invariant:
  assumes "foldE f s xs = Inr t" and "I s"
    and "\<And>u x v. x \<in> set xs \<Longrightarrow> I u \<Longrightarrow> f u x = Inr v \<Longrightarrow> I v"
  shows "I t"
  using assms
proof (induction xs arbitrary: s)
  case Nil
  then show ?case by simp
next
  case (Cons x xs)
  from Cons.prems(1) obtain u where u: "f s x = Inr u" "foldE f u xs = Inr t"
    by (auto simp: bindE_Inr)
  from Cons.prems(3)[OF _ Cons.prems(2) u(1)] have "I u" by simp
  with u(2) show ?case
    using Cons.prems(3) by (intro Cons.IH) auto
qed

lemma foldE_foldl:
  assumes "\<And>u x. x \<in> set xs \<Longrightarrow> f u x = Inr (g u x)"
  shows "foldE f s xs = Inr (foldl g s xs)"
  using assms by (induction xs arbitrary: s) auto

section \<open>Dictionaries, first occurrences, sorting\<close>

text \<open>
  A Python dictionary keeps insertion order, and an assignment to a present key keeps its place:
  exactly \<open>AList.update\<close>. \<open>dict_of key xs\<close> is \<open>{key(x): x for x in xs}\<close>.
\<close>

type_synonym ('k, 'v) dict = "('k \<times> 'v) list"

definition dict_of :: "('a \<Rightarrow> 'k) \<Rightarrow> 'a list \<Rightarrow> ('k, 'a) dict" where
  "dict_of key xs = fold (\<lambda>x d. AList.update (key x) x d) xs []"

lemma update_new: "k \<notin> fst ` set d \<Longrightarrow> AList.update k v d = d @ [(k, v)]"
  by (induction d) auto

lemma length_update_le: "length (AList.update k v d) \<le> Suc (length d)"
  by (induction d) auto

lemma length_update_old: "k \<in> fst ` set d \<Longrightarrow> length (AList.update k v d) = length d"
  by (induction d) auto

lemma set_update:
  assumes "distinct (map fst d)"
  shows "set (AList.update k v d) = insert (k, v) {x \<in> set d. fst x \<noteq> k}"
  using assms by (induction d) (auto simp: image_iff)

lemma keys_except: "fst ` {x \<in> d. fst x \<noteq> k} = fst ` d - {k}"
  by auto

lemma fold_update_keys:
  "fst ` set (fold (\<lambda>x d. AList.update (key x) x d) xs d) = fst ` set d \<union> key ` set xs"
  by (induction xs arbitrary: d) (auto simp: dom_update)

lemma fold_update_length:
  "length (fold (\<lambda>x d. AList.update (key x) x d) xs d) \<le> length d + length xs"
proof (induction xs arbitrary: d)
  case (Cons x xs)
  show ?case
    using Cons.IH[of "AList.update (key x) x d"] length_update_le[of "key x" x d] by simp
qed simp

lemma fold_update_distinct:
  assumes "distinct (map key xs)" and "key ` set xs \<inter> fst ` set d = {}"
  shows "fold (\<lambda>x d. AList.update (key x) x d) xs d = d @ map (\<lambda>x. (key x, x)) xs"
  using assms by (induction xs arbitrary: d) (auto simp: update_new)

lemma dict_of_distinct:
  "distinct (map key xs) \<Longrightarrow> dict_of key xs = map (\<lambda>x. (key x, x)) xs"
  by (simp add: dict_of_def fold_update_distinct)

lemma fold_update_length_eqD:
  "length (fold (\<lambda>x d. AList.update (key x) x d) xs d) = length d + length xs \<Longrightarrow>
   distinct (map key xs) \<and> key ` set xs \<inter> fst ` set d = {}"
proof (induction xs arbitrary: d)
  case (Cons x xs)
  let ?d = "AList.update (key x) x d"
  have le: "length (fold (\<lambda>x d. AList.update (key x) x d) xs ?d) \<le> length ?d + length xs"
    by (rule fold_update_length)
  have new: "key x \<notin> fst ` set d"
  proof
    assume "key x \<in> fst ` set d"
    with le Cons.prems show False by (simp add: length_update_old)
  qed
  then have "length ?d = Suc (length d)" by (simp add: update_new)
  with Cons.prems have "distinct (map key xs) \<and> key ` set xs \<inter> fst ` set ?d = {}"
    by (intro Cons.IH) simp
  with new show ?case by (auto simp: dom_update)
qed simp

text \<open>The duplicate test of the tools: a dictionary shorter than its source.\<close>

lemma dict_of_length [simp]: "length (dict_of key xs) = length xs \<longleftrightarrow> distinct (map key xs)"
  using fold_update_length_eqD[of key xs "[]"] by (auto simp: dict_of_def fold_update_distinct)

text \<open>\<open>list(dict.fromkeys(xs))\<close>: first occurrences in order.\<close>

fun uniq :: "'a list \<Rightarrow> 'a list" where
  "uniq [] = []"
| "uniq (x # xs) = x # filter (\<lambda>y. y \<noteq> x) (uniq xs)"

lemma set_uniq [simp]: "set (uniq xs) = set xs"
  by (induction xs) auto

lemma distinct_uniq [simp]: "distinct (uniq xs)"
  by (induction xs) auto

lemma uniq_distinct: "distinct xs \<Longrightarrow> uniq xs = xs"
proof (induction xs)
  case (Cons x xs)
  then have "filter (\<lambda>y. y \<noteq> x) (uniq xs) = xs"
    by (simp add: filter_id_conv) metis
  then show ?case by simp
qed simp

text \<open>\<open>len(set(xs)) != len(xs)\<close>.\<close>

definition has_duplicates :: "'a list \<Rightarrow> bool" where
  "has_duplicates xs \<longleftrightarrow> length (uniq xs) \<noteq> length xs"

lemma has_duplicates_iff [simp]: "has_duplicates xs \<longleftrightarrow> \<not> distinct xs"
proof
  show "has_duplicates xs \<Longrightarrow> \<not> distinct xs"
    by (auto simp: has_duplicates_def uniq_distinct)
next
  assume nd: "\<not> distinct xs"
  show "has_duplicates xs"
  proof (rule ccontr)
    assume "\<not> has_duplicates xs"
    then have "card (set xs) = length xs"
      using distinct_card[of "uniq xs"] by (simp add: has_duplicates_def)
    with nd show False by (simp add: card_distinct)
  qed
qed

text \<open>The position of an element, and "occurs earlier in".\<close>

definition before :: "'a list \<Rightarrow> 'a \<Rightarrow> 'a \<Rightarrow> bool" where
  "before xs a b \<longleftrightarrow> (\<exists>us vs. xs = us @ a # vs \<and> b \<in> set vs)"

lemma before_in_set: "before xs a b \<Longrightarrow> a \<in> set xs \<and> b \<in> set xs"
  by (auto simp: before_def)

lemma before_append_right: "b \<in> set ys \<Longrightarrow> a \<in> set xs \<Longrightarrow> before (xs @ ys) a b"
  by (fastforce simp: before_def dest!: split_list)


text \<open>
  \<open>max(xs, key=key, default=None)\<close>: the first of the elements with the greatest key.
\<close>

definition max_by :: "('a \<Rightarrow> 'k::linorder) \<Rightarrow> 'a list \<Rightarrow> 'a option" where
  "max_by key xs = (case xs of [] \<Rightarrow> None
     | y # ys \<Rightarrow> Some (foldl (\<lambda>b x. if key b < key x then x else b) y ys))"

lemma foldl_max_by:
  "foldl (\<lambda>b x. if key b < key x then x else b) y ys \<in> set (y # ys) \<and>
   (\<forall>x\<in>set (y # ys). key x \<le> (key (foldl (\<lambda>b x. if key b < key x then x else b) y ys) :: 'k::linorder))"
proof (induction ys arbitrary: y)
  case (Cons z zs)
  define y' where "y' = (if key y < key z then z else y)"
  let ?m = "foldl (\<lambda>b x. if key b < key x then x else b) y' zs"
  from Cons.IH[of y'] have "?m \<in> set (y' # zs)" and "\<forall>x\<in>set (y' # zs). key x \<le> key ?m" by auto
  moreover have "key y \<le> key y'" "key z \<le> key y'" "y' \<in> {y, z}"
    by (auto simp: y'_def)
  ultimately show ?case
    by (auto simp: y'_def[symmetric] intro: order_trans)
qed simp

lemma max_by_Nil [simp]: "max_by key [] = None"
  by (simp add: max_by_def)

lemma max_by_None [simp]: "max_by key xs = None \<longleftrightarrow> xs = []"
  by (auto simp: max_by_def split: list.splits)

lemma max_by_Some:
  assumes "max_by key xs = Some m"
  shows "m \<in> set xs" and "\<forall>x\<in>set xs. key x \<le> key m"
  using assms foldl_max_by[of key "hd xs" "tl xs"]
  by (auto simp: max_by_def split: list.splits)

section \<open>JSON values and printing\<close>

text \<open>Decimal printing, as in \<open>str(n)\<close> and f-strings.\<close>

definition digit :: "nat \<Rightarrow> char" where
  "digit d = char_of (48 + d)"

lemma digit_simps [simp]:
  "digit 0 = CHR ''0''" "digit (Suc 0) = CHR ''1''" "digit 2 = CHR ''2''" "digit (Suc (Suc 0)) = CHR ''2''" "digit 3 = CHR ''3''"
  "digit 4 = CHR ''4''" "digit 5 = CHR ''5''" "digit 6 = CHR ''6''" "digit 7 = CHR ''7''"
  "digit 8 = CHR ''8''" "digit 9 = CHR ''9''"
  by code_simp+

fun show_nat :: "nat \<Rightarrow> string" where
  "show_nat n = (if n < 10 then [digit n] else show_nat (n div 10) @ [digit (n mod 10)])"

declare show_nat.simps [simp del]

text \<open>ASCII character classes of the regular expressions.\<close>

definition in_range :: "string \<Rightarrow> char \<Rightarrow> bool" where
  "in_range ends c \<longleftrightarrow> hd ends \<le> c \<and> c \<le> last ends"

abbreviation "is_lower \<equiv> in_range ''az''"
abbreviation "is_upper \<equiv> in_range ''AZ''"
abbreviation "is_digit \<equiv> in_range ''09''"

definition word_char :: "char \<Rightarrow> bool" where
  "word_char c \<longleftrightarrow> is_lower c \<or> is_upper c \<or> is_digit c \<or> c = CHR ''_''"

text \<open>\<open>[A-Za-z_][A-Za-z0-9_]*\<close>.\<close>

definition c_identifier :: "string \<Rightarrow> bool" where
  "c_identifier s = (case s of [] \<Rightarrow> False | c # cs \<Rightarrow> word_char c \<and> \<not> is_digit c \<and> list_all word_char cs)"

definition show_int :: "int \<Rightarrow> string" where
  "show_int i = (if i < 0 then CHR ''-'' # show_nat (nat (- i)) else show_nat (nat i))"

text \<open>Decimal digits read back, as \<open>int(s)\<close> does.\<close>

definition digit_value :: "char \<Rightarrow> nat" where
  "digit_value c = of_char c - 48"

definition read_nat :: "string \<Rightarrow> nat" where
  "read_nat s = foldl (\<lambda>n c. 10 * n + digit_value c) 0 s"

lemma digit_facts:
  assumes "d < 10"
  shows "digit_value (digit d) = d" and "is_digit (digit d)"
proof -
  have "d \<in> {0, 1, 2, 3, 4, 5, 6, 7, 8, 9}" using assms by auto
  then show "digit_value (digit d) = d" "is_digit (digit d)"
    by (auto simp: digit_value_def in_range_def less_eq_char_def)
qed

lemma read_show_nat [simp]: "read_nat (show_nat n) = n"
proof (induction n rule: show_nat.induct)
  case (1 n)
  show ?case
  proof (cases "n < 10")
    case True
    then show ?thesis by (subst show_nat.simps) (simp add: read_nat_def digit_facts)
  next
    case False
    with 1 have "read_nat (show_nat (n div 10)) = n div 10" by simp
    with False show ?thesis
      by (subst show_nat.simps) (simp add: read_nat_def digit_facts)
  qed
qed

lemma show_nat_inj [simp]: "show_nat m = show_nat n \<longleftrightarrow> m = n"
  by (metis read_show_nat)

lemma show_nat_digits: "list_all is_digit (show_nat n) \<and> show_nat n \<noteq> []"
proof (induction n rule: show_nat.induct)
  case (1 n)
  then show ?case
    by (subst (1 2) show_nat.simps) (auto simp: digit_facts)
qed

text \<open>Finite doubles are \<open>m * 2 ^ e\<close>; Python's decoder also accepts infinities and NaN.\<close>

datatype double = Finite int int | Infinite bool | NaN

datatype json = JNull | JBool bool | JInt int | JFloat double | JStr string
  | JArr "json list" | JObj "(string \<times> json) list"

definition is_int :: "json \<Rightarrow> bool" where
  \<comment> \<open>\<open>type(x) is int\<close>, so a Boolean is not an integer here\<close>
  "is_int v = (case v of JInt _ \<Rightarrow> True | _ \<Rightarrow> False)"

definition as_int :: "json \<Rightarrow> int" where
  "as_int v = (case v of JInt i \<Rightarrow> i | _ \<Rightarrow> 0)"

text \<open>\<open>x == i\<close> for an integer literal: Python equates \<open>True\<close> with 1 and \<open>1.0\<close> with 1.\<close>

definition eq_int :: "json \<Rightarrow> int \<Rightarrow> bool" where
  "eq_int v i = (case v of
      JInt j \<Rightarrow> j = i
    | JBool b \<Rightarrow> (if b then 1 else 0) = i
    | JFloat (Finite m e) \<Rightarrow>
        (if 0 \<le> e then m * 2 ^ nat e = i else m = i * 2 ^ nat (- e))
    | _ \<Rightarrow> False)"

definition truthy :: "json \<Rightarrow> bool" where
  "truthy v = (case v of
      JNull \<Rightarrow> False | JBool b \<Rightarrow> b | JInt i \<Rightarrow> i \<noteq> 0 | JStr s \<Rightarrow> s \<noteq> []
    | JFloat (Finite m _) \<Rightarrow> m \<noteq> 0 | JFloat _ \<Rightarrow> True
    | JArr xs \<Rightarrow> xs \<noteq> [] | JObj xs \<Rightarrow> xs \<noteq> [])"

definition truthy_opt :: "json option \<Rightarrow> bool" where
  "truthy_opt v = (case v of None \<Rightarrow> False | Some x \<Rightarrow> truthy x)"

lemma is_int_iff: "is_int v \<longleftrightarrow> v = JInt (as_int v)"
  by (cases v) (auto simp: is_int_def as_int_def)

lemma as_int_JInt [simp]: "as_int (JInt i) = i" "is_int (JInt i)"
  by (simp_all add: as_int_def is_int_def)


text \<open>
  \<open>json.dumps\<close> with the separators \<open>(",", ":")\<close> on ASCII strings; the shortest decimal of a
  float is the parameter \<open>repr\<close>. The tools dump dictionaries with \<open>sort_keys\<close>, so keys print
  in ascending order.
\<close>

definition hex_digit :: "nat \<Rightarrow> char" where
  "hex_digit d = (if d < 10 then char_of (48 + d) else char_of (87 + d))"

fun hex_string :: "nat \<Rightarrow> string" where
  "hex_string n =
     (if n < 16 then [hex_digit n] else hex_string (n div 16) @ [hex_digit (n mod 16)])"

declare hex_string.simps [simp del]

definition hex_value :: "char \<Rightarrow> nat" where
  "hex_value c = (if c \<le> CHR ''9'' then of_char c - 48 else of_char c - 87)"

lemma hex_value_digit [simp]: "d < 16 \<Longrightarrow> hex_value (hex_digit d) = d"
proof -
  assume "d < 16"
  then have "d \<in> {0..<16}" by simp
  then show ?thesis
    by (auto simp: hex_value_def hex_digit_def less_eq_char_def atLeastLessThan_nat_numeral)
qed

definition escape_char :: "char \<Rightarrow> string" where
  "escape_char c = (
     if c = CHR 0x22 then [CHR 0x5C, CHR 0x22]
     else if c = CHR 0x5C then [CHR 0x5C, CHR 0x5C]
     else if c = CHR 0x0A then [CHR 0x5C, CHR ''n'']
     else if c = CHR 0x0D then [CHR 0x5C, CHR ''r'']
     else if c = CHR 0x09 then [CHR 0x5C, CHR ''t'']
     else if c = CHR 0x08 then [CHR 0x5C, CHR ''b'']
     else if c = CHR 0x0C then [CHR 0x5C, CHR ''f'']
     else if of_char c < (32 :: nat) \<or> of_char c = (127 :: nat)
       then [CHR 0x5C, CHR ''u'', CHR ''0'', CHR ''0'',
             hex_digit (of_char c div 16), hex_digit (of_char c mod 16)]
     else [c])"

definition quote_string :: "string \<Rightarrow> string" where
  "quote_string s = [CHR 0x22] @ concat (map escape_char s) @ [CHR 0x22]"

fun comma_separated :: "string list \<Rightarrow> string" where
  "comma_separated [] = []"
| "comma_separated [x] = x"
| "comma_separated (x # xs) = x @ '','' @ comma_separated xs"

fun dumps :: "(double \<Rightarrow> string) \<Rightarrow> json \<Rightarrow> string" where
  "dumps repr JNull = ''null''"
| "dumps repr (JBool b) = (if b then ''true'' else ''false'')"
| "dumps repr (JInt i) = show_int i"
| "dumps repr (JFloat d) = repr d"
| "dumps repr (JStr s) = quote_string s"
| "dumps repr (JArr xs) = ''['' @ comma_separated (map (dumps repr) xs) @ '']''"
| "dumps repr (JObj kvs) = ''{'' @ comma_separated (map (\<lambda>(k, text). quote_string k @ '':'' @ text)
     (sort_key fst (map (\<lambda>(k, v). (k, dumps repr v)) kvs))) @ ''}''"

section \<open>Splitting and joining\<close>

text \<open>\<open>s.split(d)\<close> and \<open>d.join(words)\<close> for a one-character delimiter.\<close>

fun split_on :: "char \<Rightarrow> string \<Rightarrow> string list" where
  "split_on d [] = [[]]"
| "split_on d (c # cs) =
     (if c = d then [] # split_on d cs
      else case split_on d cs of [] \<Rightarrow> [[c]] | w # ws \<Rightarrow> (c # w) # ws)"

fun join_on :: "char \<Rightarrow> string list \<Rightarrow> string" where
  "join_on d [] = []"
| "join_on d [w] = w"
| "join_on d (w # ws) = w @ d # join_on d ws"

lemma split_on_nonempty [simp]: "split_on d s \<noteq> []"
  by (cases s) (auto split: list.splits)

lemma join_split [simp]: "join_on d (split_on d s) = s"
proof (induction s)
  case (Cons c s)
  obtain w ws where "split_on d s = w # ws"
    by (cases "split_on d s") auto
  with Cons show ?case by (cases ws) auto
qed simp

lemma split_no_delimiter: "d \<notin> set w \<Longrightarrow> split_on d w = [w]"
  by (induction w) auto

lemma split_append: "d \<notin> set w \<Longrightarrow> split_on d (w @ d # s) = w # split_on d s"
  by (induction w) auto

lemma split_join: "ws \<noteq> [] \<Longrightarrow> \<forall>w\<in>set ws. d \<notin> set w \<Longrightarrow> split_on d (join_on d ws) = ws"
  by (induction d ws rule: join_on.induct) (auto simp: split_no_delimiter split_append)

lemma split_parts: "w \<in> set (split_on d s) \<Longrightarrow> d \<notin> set w"
  by (induction s arbitrary: w) (auto split: if_splits list.splits)

end
