(* ===== verification/Profile.thy ===== *)
theory Profile
  imports Prelude "HOL-Library.Product_Lexorder"
begin

text \<open>
  Timing profiles (\<open>tools/erl_hls_tools/hls_profile.py\<close>): the saved graph of tracks, events,
  causal edges, resource-order edges and counters, and its validation. Validation ends with a
  queue-driven topological sort, whose result the path queries use.

  A profile is the decoded JSON document with its required keys present; the values whose type
  the code inspects stay JSON values. Absent optional keys are \<open>None\<close>, or the default the code
  reads (an empty list or dictionary).
\<close>

section \<open>Data\<close>

record track =
  track_id :: string
  track_name :: string
  track_group :: "string option"

record event =
  event_id :: string
  event_track :: string
  event_name :: string
  event_ts :: json
  event_dur :: json
  event_display :: "json option"
  event_category :: "string option"
  event_args :: "(string, json) dict"

record edge =
  edge_source :: string
  edge_target :: string
  edge_kind :: string
  edge_delay :: "json option"
  edge_evidence :: "json option"
  edge_resource :: "json option"

record counter =
  counter_track :: string
  counter_series :: string
  counter_ts :: json
  counter_value :: json
  counter_original_ts :: "json option"

record profile =
  schema :: json
  time_unit :: json
  tracks :: "track list"
  events :: "event list"
  edges :: "edge list"
  resource_dependencies :: "edge list"
  counters :: "counter list"
  metadata :: "(string, json) dict"

datatype profile_error = Bad_Schema | Duplicate_Track | Duplicate_Event | Reserved_Arguments
  | Unknown_Track | Bad_Time string | Bad_Display | Time_Too_Large | Overlapping_Slices
  | Bad_Counter | Inexact_Counter | Counter_Overflow | Counter_Type_Error
  | Unnamed_Resource | Unknown_Or_Duplicate_Dependency | Late_Dependency | Missing_Evidence
  | Cyclic_Dependencies | Unknown_Path_Target string | Empty_Window | Scope_Type_Error
  | Existing_Overlay | Key_Error | Out_Of_Fuel

abbreviation ts :: "event \<Rightarrow> int" where "ts e \<equiv> as_int (event_ts e)"
abbreviation dur :: "event \<Rightarrow> int" where "dur e \<equiv> as_int (event_dur e)"

definition display_duration :: "event \<Rightarrow> json" where
  "display_duration e = (case event_display e of None \<Rightarrow> event_dur e | Some d \<Rightarrow> d)"

abbreviation shown :: "event \<Rightarrow> int" where "shown e \<equiv> as_int (display_duration e)"

definition delay_ns :: "edge \<Rightarrow> json" where
  "delay_ns e = (case edge_delay e of None \<Rightarrow> JInt 0 | Some d \<Rightarrow> d)"

abbreviation delay :: "edge \<Rightarrow> int" where "delay e \<equiv> as_int (delay_ns e)"

section \<open>Validation of events and counters\<close>

definition reserved_arguments :: "string list" where
  "reserved_arguments = [''event_id'', ''duration_ns'', ''display_duration_ns'',
     ''profile_dependencies'', ''profile_resource_dependencies'']"

definition check_time :: "string \<Rightarrow> json \<Rightarrow> (profile_error, unit) result" where
  "check_time field v = ensure (is_int v \<and> 0 \<le> as_int v) (Bad_Time field)"

definition check_event :: "string list \<Rightarrow> event \<Rightarrow> (profile_error, unit) result" where
  "check_event track_ids e =
     bindE (ensure (\<not> list_ex (\<lambda>k. k \<in> fst ` set (event_args e)) reserved_arguments)
                   Reserved_Arguments) (\<lambda>_.
     bindE (ensure (event_track e \<in> set track_ids) Unknown_Track) (\<lambda>_.
     bindE (check_time ''ts'' (event_ts e)) (\<lambda>_.
     bindE (check_time ''dur'' (event_dur e)) (\<lambda>_.
     let display = display_duration e in
     bindE (ensure (\<not> (\<not> is_int display \<or> as_int display < dur e
                       \<or> as_int display \<noteq> dur e \<and> dur e \<noteq> 0)) Bad_Display) (\<lambda>_.
     ensure (\<not> ts e + as_int display > 2 ^ 52) Time_Too_Large)))))"

text \<open>The events of one track by start time; equal starts keep their order in the document.\<close>

definition lane :: "event list \<Rightarrow> string \<Rightarrow> event list" where
  "lane evs t = sort_key ts (filter (\<lambda>e. event_track e = t) evs)"

definition overlapping :: "event list \<Rightarrow> bool" where
  "overlapping l \<longleftrightarrow>
     list_ex (\<lambda>(a, b). ts a + shown a > ts b \<or> ts a = ts b) (zip l (tl l))"

definition check_lane :: "event list \<Rightarrow> (profile_error, unit) result" where
  "check_lane l = ensure (\<not> overlapping l) Overlapping_Slices"

text \<open>
  An integer is a double when its odd part has at most 53 bits. \<open>math.isfinite\<close> raises on an
  integer that rounds beyond the largest double, and on values that are not numbers.
\<close>

fun odd_part :: "nat \<Rightarrow> nat" where
  "odd_part n = (if n = 0 then 0 else if even n then odd_part (n div 2) else n)"

declare odd_part.simps [simp del]

definition check_value :: "json \<Rightarrow> (profile_error, unit) result" where
  "check_value v = (case v of
      JInt i \<Rightarrow> (if \<bar>i\<bar> \<ge> 2 ^ 1024 - 2 ^ 970 then Inl Counter_Overflow
                else ensure (odd_part (nat \<bar>i\<bar>) < 2 ^ 53) Inexact_Counter)
    | JBool _ \<Rightarrow> Inr ()
    | JFloat (Finite _ _) \<Rightarrow> Inr ()
    | JFloat _ \<Rightarrow> Inl Inexact_Counter
    | _ \<Rightarrow> Inl Counter_Type_Error)"

definition check_counter :: "string list \<Rightarrow> counter \<Rightarrow> (profile_error, unit) result" where
  "check_counter track_ids c =
     bindE (ensure (\<not> (counter_track c \<notin> set track_ids \<or> \<not> is_int (counter_ts c)
                    \<or> \<not> (0 \<le> as_int (counter_ts c) \<and> as_int (counter_ts c) \<le> 2 ^ 52)))
              Bad_Counter) (\<lambda>_.
     check_value (counter_value c))"

section \<open>Validation of dependencies\<close>

text \<open>The edge loop accumulates the seen pairs, the in-degrees and the successor lists.\<close>

record degrees =
  pairs :: "(string \<times> string) list"
  incoming :: "(string, int) dict"
  outgoing :: "string \<Rightarrow> string list"

definition check_edge ::
  "(string, event) dict \<Rightarrow> degrees \<Rightarrow> edge \<times> bool \<Rightarrow> (profile_error, degrees) result" where
  "check_edge evs d er = (let (e, is_resource) = er; s = edge_source e; t = edge_target e in
     bindE (ensure (\<not> (is_resource \<and> \<not> truthy_opt (edge_resource e))) Unnamed_Resource) (\<lambda>_.
     case (map_of evs s, map_of evs t) of
       (Some a, Some b) \<Rightarrow>
         bindE (ensure ((s, t) \<notin> set (pairs d)) Unknown_Or_Duplicate_Dependency) (\<lambda>_.
         bindE (ensure (\<not> (\<not> is_int (delay_ns e) \<or> delay e < 0 \<or> ts a + dur a + delay e > ts b))
                  Late_Dependency) (\<lambda>_.
         bindE (ensure (truthy_opt (edge_evidence e)) Missing_Evidence) (\<lambda>_.
         Inr (d\<lparr>pairs := pairs d @ [(s, t)],
               incoming := AList.update t (the (map_of (incoming d) t) + 1) (incoming d),
               outgoing := (outgoing d)(s := outgoing d s @ [t])\<rparr>))))
     | _ \<Rightarrow> Inl Unknown_Or_Duplicate_Dependency))"

definition initial_degrees :: "(string, event) dict \<Rightarrow> degrees" where
  "initial_degrees evs = \<lparr>pairs = [], incoming = map (\<lambda>(k, _). (k, 0)) evs, outgoing = (\<lambda>_. [])\<rparr>"

definition tagged_edges :: "profile \<Rightarrow> (edge \<times> bool) list" where
  "tagged_edges p =
     map (\<lambda>e. (e, False)) (edges p) @ map (\<lambda>e. (e, True)) (resource_dependencies p)"

text \<open>One decrement of the sort: a target whose in-degree reaches zero joins the queue.\<close>

definition release :: "(string, int) dict \<times> string list \<Rightarrow> string \<Rightarrow> (string, int) dict \<times> string list"
  where "release st t = (let (inc, ready) = st in
     case map_of inc t of
       None \<Rightarrow> st
     | Some n \<Rightarrow> (AList.update t (n - 1) inc, if n - 1 = 0 then ready @ [t] else ready))"

definition pending_degree :: "(string, int) dict \<Rightarrow> nat" where
  "pending_degree inc = sum_list (map (\<lambda>(_, n). nat n) inc)"

lemma pending_degree_update:
  "map_of inc t = Some n \<Longrightarrow>
   pending_degree (AList.update t m inc) + nat n = pending_degree inc + nat m"
  by (induction inc) (auto simp: pending_degree_def)

lemma release_measure:
  "release (inc, ready) t = (inc', ready') \<Longrightarrow>
   length ready' + pending_degree inc' \<le> length ready + pending_degree inc"
  using pending_degree_update[of inc t "the (map_of inc t)" "the (map_of inc t) - 1"]
  by (auto simp: release_def split: option.splits if_splits)

lemma release_fold_measure:
  "foldl release (inc, ready) outs = (inc', ready') \<Longrightarrow>
   length ready' + pending_degree inc' \<le> length ready + pending_degree inc"
proof (induction outs arbitrary: inc ready)
  case (Cons t outs)
  obtain i r where ir: "release (inc, ready) t = (i, r)" by fastforce
  with Cons.prems have "foldl release (i, r) outs = (inc', ready')" by simp
  from Cons.IH[OF this] release_measure[OF ir] show ?case by simp
qed simp

function topological :: "(string \<Rightarrow> string list) \<Rightarrow> (string, int) dict \<Rightarrow> string list \<Rightarrow> string list \<Rightarrow> string list"
  where
  "topological outs inc [] order = order"
| "topological outs inc (s # ready) order =
     (let st = foldl release (inc, ready) (outs s)
      in topological outs (fst st) (snd st) (order @ [s]))"
  by pat_completeness auto
termination
proof (relation "measure (\<lambda>(_, inc, ready, _). length ready + pending_degree inc)", goal_cases)
  case (2 outs inc s ready order st)
  then show ?case
    using release_fold_measure[of inc ready "outs s" "fst st" "snd st"] by auto
qed simp

definition validate :: "profile \<Rightarrow> (profile_error, string list) result" where
  "validate p =
     bindE (ensure (eq_int (schema p) 1 \<and> time_unit p = JStr ''ns'') Bad_Schema) (\<lambda>_.
     bindE (ensure (\<not> has_duplicates (map track_id (tracks p))) Duplicate_Track) (\<lambda>_.
     let track_ids = map track_id (tracks p); evs = dict_of event_id (events p) in
     bindE (ensure (length evs = length (events p)) Duplicate_Event) (\<lambda>_.
     bindE (checkE (check_event track_ids) (map snd evs)) (\<lambda>_.
     bindE (checkE (\<lambda>t. check_lane (lane (map snd evs) t)) (uniq (map event_track (map snd evs)))) (\<lambda>_.
     bindE (checkE (check_counter track_ids) (counters p)) (\<lambda>_.
     bindE (foldE (check_edge evs) (initial_degrees evs) (tagged_edges p)) (\<lambda>d.
     let ready = sort (map fst (filter (\<lambda>(_, n). n = 0) (incoming d)));
         order = topological (outgoing d) (incoming d) ready [] in
     bindE (ensure (length order = length evs) Cyclic_Dependencies) (\<lambda>_. Inr order))))))))"

end
