(* ===== verification/Profile_Valid.thy ===== *)
theory Profile_Valid
  imports Profile
begin

text \<open>
  What an accepted profile guarantees: the dependency loop's bookkeeping is the degree summary of
  the edges, the topological sort returns every event exactly once with each dependency pointing
  forward, and \<open>validate\<close> accepts exactly the profiles of the declarative \<open>well_formed\<close>
  with an acyclic dependency graph.
\<close>

section \<open>The dependency loop\<close>

definition ends :: "edge \<times> bool \<Rightarrow> string \<times> string" where
  "ends er = (edge_source (fst er), edge_target (fst er))"

definition dependency_ok :: "(string, event) dict \<Rightarrow> edge \<times> bool \<Rightarrow> bool" where
  "dependency_ok evs er \<longleftrightarrow> (let e = fst er in
     (snd er \<longrightarrow> truthy_opt (edge_resource e)) \<and>
     truthy_opt (edge_evidence e) \<and> is_int (delay_ns e) \<and> 0 \<le> delay e \<and>
     (\<exists>a b. map_of evs (edge_source e) = Some a \<and> map_of evs (edge_target e) = Some b \<and>
            ts a + dur a + delay e \<le> ts b))"

text \<open>The bookkeeping after the edges \<open>es\<close>.\<close>

definition degrees_of :: "(string, event) dict \<Rightarrow> (edge \<times> bool) list \<Rightarrow> degrees" where
  "degrees_of evs es = \<lparr>pairs = map ends es,
     incoming = map (\<lambda>(k, _). (k, int (length (filter (\<lambda>p. snd p = k) (map ends es))))) evs,
     outgoing = (\<lambda>s. map snd (filter (\<lambda>p. fst p = s) (map ends es)))\<rparr>"

lemma degrees_of_Nil: "initial_degrees evs = degrees_of evs []"
  by (simp add: initial_degrees_def degrees_of_def)

lemma update_map_keys:
  assumes "distinct (map fst evs)" and "k \<in> fst ` set evs"
  shows "AList.update k v (map (\<lambda>(k, _). (k, f k)) evs) = map (\<lambda>(k', _). (k', if k' = k then v else f k')) evs"
  using assms by (induction evs) (auto simp: image_iff split: prod.splits)

lemma map_of_map_keys:
  "k \<in> fst ` set evs \<Longrightarrow> map_of (map (\<lambda>(k, _). (k, f k)) evs) k = Some (f k)"
  by (induction evs) auto

lemma degrees_of_snoc:
  fixes es :: "(edge \<times> bool) list"
  assumes "distinct (map fst evs)" and "edge_target (fst er) \<in> fst ` set evs"
  defines "d \<equiv> degrees_of evs es" and "s \<equiv> edge_source (fst er)" and "t \<equiv> edge_target (fst er)"
  shows "d\<lparr>pairs := pairs d @ [(s, t)],
           incoming := AList.update t (the (map_of (incoming d) t) + 1) (incoming d),
           outgoing := (outgoing d)(s := outgoing d s @ [t])\<rparr> = degrees_of evs (es @ [er])"
proof -
  let ?f = "\<lambda>k. int (length (filter (\<lambda>p. snd p = k) (map ends es)))"
  have upd: "AList.update t (the (map_of (incoming d) t) + 1) (incoming d)
      = incoming (degrees_of evs (es @ [er]))"
    using assms(2) update_map_keys[OF assms(1,2), of "?f t + 1" ?f] map_of_map_keys[OF assms(2), of ?f]
    by (auto simp: degrees_of_def ends_def d_def t_def split: prod.splits)
  have out: "(outgoing d)(s := outgoing d s @ [t]) = outgoing (degrees_of evs (es @ [er]))"
    by (auto simp: degrees_of_def ends_def fun_eq_iff d_def s_def t_def)
  show ?thesis
    unfolding upd out by (simp add: degrees_of_def ends_def d_def s_def t_def)
qed

lemma check_edge_step:
  assumes "distinct (map fst evs)"
  shows "check_edge evs (degrees_of evs es) er = Inr d \<longleftrightarrow>
    dependency_ok evs er \<and> ends er \<notin> set (map ends es) \<and> d = degrees_of evs (es @ [er])"
proof (cases "\<exists>a b. map_of evs (edge_source (fst er)) = Some a \<and> map_of evs (edge_target (fst er)) = Some b")
  case True
  then obtain a b where ab: "map_of evs (edge_source (fst er)) = Some a"
    "map_of evs (edge_target (fst er)) = Some b" by blast
  have t: "edge_target (fst er) \<in> fst ` set evs" using ab(2) by (metis domI dom_map_of_conv_image_fst)
  have pairs: "pairs (degrees_of evs es) = map ends es" by (simp add: degrees_of_def)
  note snoc = degrees_of_snoc[OF assms t, of es]
  have "check_edge evs (degrees_of evs es) er = Inr d \<longleftrightarrow>
    dependency_ok evs er \<and> ends er \<notin> set (pairs (degrees_of evs es)) \<and> Inr d =
      (Inr (degrees_of evs (es @ [er])) :: (profile_error, degrees) result)"
    unfolding check_edge_def dependency_ok_def Let_def split_beta snoc
    using ab by (auto simp: bindE_Inr ends_def)
  then show ?thesis by (simp add: pairs)
next
  case False
  then show ?thesis
    by (cases er) (auto simp: check_edge_def dependency_ok_def Let_def bindE_Inr split: option.splits)
qed

lemma check_edges:
  assumes "distinct (map fst evs)" and "distinct (map ends es0)"
  shows "foldE (check_edge evs) (degrees_of evs es0) es = Inr d \<longleftrightarrow>
    (\<forall>er\<in>set es. dependency_ok evs er) \<and> distinct (map ends (es0 @ es)) \<and> d = degrees_of evs (es0 @ es)"
  using assms(2)
proof (induction es arbitrary: es0)
  case Nil
  then show ?case by auto
next
  case (Cons er es)
  show ?case
  proof (cases "dependency_ok evs er \<and> ends er \<notin> set (map ends es0)")
    case True
    then have "check_edge evs (degrees_of evs es0) er = Inr (degrees_of evs (es0 @ [er]))"
      using check_edge_step[OF assms(1), of es0 er] by blast
    moreover have "distinct (map ends (es0 @ [er]))" using True Cons.prems by auto
    ultimately show ?thesis
      using Cons.IH[of "es0 @ [er]"] True by auto
  next
    case False
    then have "\<nexists>d. check_edge evs (degrees_of evs es0) er = Inr d"
      using check_edge_step[OF assms(1), of es0 er] by blast
    then show ?thesis using False by (auto simp: bindE_Inr)
  qed
qed

section \<open>The topological sort\<close>

text \<open>Effect of one dequeued event: decrement its successors, enqueue those at zero.\<close>

lemma release_fold:
  assumes "distinct outs" and "\<forall>t\<in>set outs. map_of inc t = Some (f t)"
  shows "\<exists>inc'. foldl release (inc, ready) outs = (inc', ready @ filter (\<lambda>t. f t = 1) outs) \<and>
    (\<forall>t. map_of inc' t = (if t \<in> set outs then Some (f t - 1) else map_of inc t))"
  using assms
proof (induction outs arbitrary: inc ready)
  case (Cons t outs)
  let ?inc = "AList.update t (f t - 1) inc"
  let ?ready = "if f t = 1 then ready @ [t] else ready"
  have upd: "map_of ?inc k = (if k = t then Some (f t - 1) else map_of inc k)" for k
    by (simp add: update_conv')
  have step: "release (inc, ready) t = (?inc, ?ready)"
    using Cons.prems(2) by (simp add: release_def)
  have "\<forall>k\<in>set outs. map_of ?inc k = Some (f k)"
    using Cons.prems by (auto simp: upd)
  then obtain inc' where
    fold: "foldl release (?inc, ?ready) outs = (inc', ?ready @ filter (\<lambda>t. f t = 1) outs)" and
    inc': "\<forall>k. map_of inc' k = (if k \<in> set outs then Some (f k - 1) else map_of ?inc k)"
    using Cons.IH[of ?inc ?ready] Cons.prems(1) by auto
  have "foldl release (inc, ready) (t # outs) = (inc', ready @ filter (\<lambda>t. f t = 1) (t # outs))"
    unfolding foldl_Cons step fold by simp
  moreover have "\<forall>k. map_of inc' k = (if k \<in> set (t # outs) then Some (f k - 1) else map_of inc k)"
    using inc' Cons.prems(1) unfolding upd by auto
  ultimately show ?case by blast
qed auto

text \<open>
  The invariant of the queue loop, over the vertex set \<open>V\<close> and the edge set \<open>E\<close>:
  the in-degree of an event counts its predecessors not yet in the order, the events of degree
  zero are exactly those in the order or in the queue, and every predecessor of an ordered or
  queued event is already in the order.
\<close>

definition unordered_preds :: "(string \<times> string) set \<Rightarrow> string list \<Rightarrow> string \<Rightarrow> string set" where
  "unordered_preds E order v = {u. (u, v) \<in> E \<and> u \<notin> set order}"

definition sort_invariant ::
  "string set \<Rightarrow> (string \<times> string) set \<Rightarrow> (string, int) dict \<Rightarrow> string list \<Rightarrow> string list \<Rightarrow> bool" where
  "sort_invariant V E inc ready order \<longleftrightarrow>
     distinct (order @ ready) \<and> set (order @ ready) \<subseteq> V \<and>
     (\<forall>v\<in>V. map_of inc v = Some (int (card (unordered_preds E order v)))) \<and>
     (\<forall>v\<in>V. unordered_preds E order v = {} \<longleftrightarrow> v \<in> set (order @ ready)) \<and>
     (\<forall>(u, v)\<in>E. v \<in> set order \<longrightarrow> before order u v)"

lemma before_snoc: "before (xs @ [x]) a b \<longleftrightarrow> before xs a b \<or> (a \<in> set xs \<and> b = x)"
proof
  assume "before (xs @ [x]) a b"
  then obtain us vs where uv: "xs @ [x] = us @ a # vs" "b \<in> set vs" by (auto simp: before_def)
  then show "before xs a b \<or> (a \<in> set xs \<and> b = x)"
    by (cases vs rule: rev_cases) (auto simp: before_def)
next
  assume "before xs a b \<or> (a \<in> set xs \<and> b = x)"
  then show "before (xs @ [x]) a b"
  proof
    assume "before xs a b"
    then obtain us vs where "xs = us @ a # vs" "b \<in> set vs" by (auto simp: before_def)
    then have "xs @ [x] = us @ a # (vs @ [x])" "b \<in> set (vs @ [x])" by auto
    then show ?thesis unfolding before_def by blast
  qed (auto simp: before_append_right)
qed

lemma unordered_preds_snoc: "unordered_preds E (order @ [s]) v = unordered_preds E order v - {s}"
  by (auto simp: unordered_preds_def)

lemma sort_invariant_step:
  assumes inv: "sort_invariant V E inc (s # ready) order"
    and fin: "finite E" and E: "E \<subseteq> V \<times> V"
    and outs: "distinct (outs s)" "set (outs s) = {t. (s, t) \<in> E}"
  shows "sort_invariant V E (fst (foldl release (inc, ready) (outs s)))
           (snd (foldl release (inc, ready) (outs s))) (order @ [s])"
proof -
  let ?f = "\<lambda>t. int (card (unordered_preds E order t))"
  have finp: "finite (unordered_preds E order v)" for v
    by (rule finite_subset[of _ "fst ` E"]) (use fin in \<open>force simp: unordered_preds_def\<close>)+
  have sub: "set (outs s) \<subseteq> V" using outs E by auto
  with inv have "\<forall>t\<in>set (outs s). map_of inc t = Some (?f t)"
    by (auto simp: sort_invariant_def)
  from release_fold[OF outs(1) this] obtain inc' where
    fold: "foldl release (inc, ready) (outs s) = (inc', ready @ filter (\<lambda>t. ?f t = 1) (outs s))" and
    inc': "\<forall>t. map_of inc' t = (if t \<in> set (outs s) then Some (?f t - 1) else map_of inc t)"
    by blast
  have s: "s \<in> V" "s \<notin> set order" "s \<notin> set ready" using inv by (auto simp: sort_invariant_def)
  have in_s: "s \<in> unordered_preds E order t \<longleftrightarrow> t \<in> set (outs s)" for t
    using s outs(2) by (auto simp: unordered_preds_def)
  have card': "int (card (unordered_preds E (order @ [s]) t)) = (if t \<in> set (outs s) then ?f t - 1 else ?f t)" for t
    using finp[of t] in_s[of t] card_gt_0_iff[of "unordered_preds E order t"]
    by (auto simp: unordered_preds_snoc card_Diff_singleton_if)
  have zero: "unordered_preds E (order @ [s]) t = {} \<longleftrightarrow> unordered_preds E order t = {} \<or> (t \<in> set (outs s) \<and> ?f t = 1)" for t
  proof (cases "t \<in> set (outs s)")
    case True
    then have "s \<in> unordered_preds E order t" by (simp add: in_s)
    then have "unordered_preds E order t - {s} = {} \<longleftrightarrow> unordered_preds E order t = {s}" by blast
    also have "\<dots> \<longleftrightarrow> card (unordered_preds E order t) = 1"
      using \<open>s \<in> unordered_preds E order t\<close> by (metis card_1_singletonE card.empty card.insert empty_iff
        finite.emptyI insert_iff One_nat_def insertE)
    finally show ?thesis using True \<open>s \<in> unordered_preds E order t\<close> by (auto simp: unordered_preds_snoc)
  next
    case False
    then have "unordered_preds E order t - {s} = unordered_preds E order t" using in_s[of t] by blast
    with False show ?thesis by (simp add: unordered_preds_snoc)
  qed
  have queued: "t \<in> set (outs s) \<Longrightarrow> t \<notin> set (order @ s # ready)" for t
    using inv in_s[of t] sub unfolding sort_invariant_def by blast
  have earlier: "(u, s) \<in> E \<Longrightarrow> u \<in> set order" for u
    using inv s(1) unfolding sort_invariant_def unordered_preds_def by auto
  show ?thesis
    unfolding fold fst_conv snd_conv sort_invariant_def
  proof (intro conjI)
    show "distinct ((order @ [s]) @ ready @ filter (\<lambda>t. ?f t = 1) (outs s))"
      using inv outs(1) queued by (auto simp: sort_invariant_def)
    show "set ((order @ [s]) @ ready @ filter (\<lambda>t. ?f t = 1) (outs s)) \<subseteq> V"
      using inv sub by (auto simp: sort_invariant_def)
    show "\<forall>v\<in>V. map_of inc' v = Some (int (card (unordered_preds E (order @ [s]) v)))"
      using inv inc' by (auto simp: sort_invariant_def card')
    show "\<forall>v\<in>V. (unordered_preds E (order @ [s]) v = {}) =
        (v \<in> set ((order @ [s]) @ ready @ filter (\<lambda>t. ?f t = 1) (outs s)))"
      using inv by (auto simp: sort_invariant_def zero)
    show "\<forall>(u, v)\<in>E. v \<in> set (order @ [s]) \<longrightarrow> before (order @ [s]) u v"
      using inv earlier by (auto simp: sort_invariant_def before_snoc)
  qed
qed

lemma topological_invariant:
  assumes "sort_invariant V E inc ready order" and "finite E" and "E \<subseteq> V \<times> V"
    and "\<forall>s\<in>V. distinct (outs s) \<and> set (outs s) = {t. (s, t) \<in> E}"
  shows "\<exists>inc'. sort_invariant V E inc' [] (topological outs inc ready order)"
  using assms
proof (induction outs inc ready order rule: topological.induct)
  case (1 outs inc order)
  then show ?case by auto
next
  case (2 outs inc s ready order)
  from 2(2) have "s \<in> V" by (simp add: sort_invariant_def)
  with 2 sort_invariant_step[OF 2(2-4), of outs] show ?case
    by (auto simp: Let_def)
qed

text \<open>A nonempty set closed under "has a predecessor in it" refutes acyclicity.\<close>

lemma predecessor_closed_cyclic:
  assumes "finite E" and "A \<noteq> {}" and "\<forall>v\<in>A. \<exists>u\<in>A. (u, v) \<in> E"
  shows "\<not> acyclic E"
proof
  assume "acyclic E"
  with assms(1) have "wf E" by (rule finite_acyclic_wf)
  then obtain m where "m \<in> A" "\<forall>u. (u, m) \<in> E \<longrightarrow> u \<notin> A"
    using assms(2) by (metis wf_eq_minimal all_not_in_conv)
  with assms(3) show False by blast
qed

text \<open>Conversely an order with every edge pointing forward has no cycle.\<close>

lemma forward_order_acyclic:
  assumes "distinct order" and "\<forall>(u, v)\<in>E. before order u v"
  shows "acyclic E"
proof -
  define pos where "pos v = (LEAST i. order ! i = v)" for v
  have idx: "pos u < pos v" if b: "before order u v" for u v
  proof -
    from b obtain us vs where split: "order = us @ u # vs" and v: "v \<in> set vs" by (auto simp: before_def)
    then obtain ws zs where vs: "vs = ws @ v # zs" by (auto dest: split_list)
    have nth_u: "order ! length us = u" and nth_v: "order ! (length us + Suc (length ws)) = v"
      by (auto simp: split vs nth_append)
    have "pos u \<le> length us" unfolding pos_def by (rule Least_le) (rule nth_u)
    moreover have "order ! pos v = v" unfolding pos_def by (rule LeastI) (rule nth_v)
    moreover have "pos v \<le> length us + Suc (length ws)" unfolding pos_def by (rule Least_le) (rule nth_v)
    ultimately have "pos v = length us + Suc (length ws)"
      using nth_v assms(1) by (intro nth_eq_iff_index_eq[THEN iffD1, of order]) (auto simp: split vs)
    with \<open>pos u \<le> length us\<close> show ?thesis by simp
  qed
  have "E \<subseteq> measure pos" using assms(2) idx by auto
  then show ?thesis by (meson acyclic_subset wf_acyclic wf_measure)
qed

definition start_degrees :: "string set \<Rightarrow> (string \<times> string) set \<Rightarrow> (string, int) dict \<Rightarrow> bool" where
  "start_degrees V E inc \<longleftrightarrow> (\<forall>v\<in>V. map_of inc v = Some (int (card {u. (u, v) \<in> E})))"

theorem topological_correct:
  assumes "finite V" and "finite E" and "E \<subseteq> V \<times> V" and "start_degrees V E inc"
    and outs: "\<forall>s\<in>V. distinct (outs s) \<and> set (outs s) = {t. (s, t) \<in> E}"
    and ready: "distinct ready" "set ready = {v \<in> V. map_of inc v = Some 0}"
  defines "order \<equiv> topological outs inc ready []"
  shows "distinct order" and "set order \<subseteq> V" and "\<forall>(u, v)\<in>E. v \<in> set order \<longrightarrow> before order u v"
    and "set order = V \<longleftrightarrow> acyclic E"
proof -
  have fin: "finite {u. (u, v) \<in> E}" for v
    by (rule finite_subset[of _ "fst ` E"]) (use assms(2) in force)+
  have "sort_invariant V E inc ready []"
    using assms(4) ready fin
    by (auto simp: sort_invariant_def start_degrees_def unordered_preds_def)
  from topological_invariant[OF this assms(2,3) outs]
  obtain inc' where inv: "sort_invariant V E inc' [] order" by (auto simp: order_def)
  then show d: "distinct order" and sub: "set order \<subseteq> V"
    and fwd: "\<forall>(u, v)\<in>E. v \<in> set order \<longrightarrow> before order u v"
    by (auto simp: sort_invariant_def)
  show "set order = V \<longleftrightarrow> acyclic E"
  proof
    assume "set order = V"
    with fwd assms(3) have "\<forall>(u, v)\<in>E. before order u v" by blast
    with d show "acyclic E" by (rule forward_order_acyclic)
  next
    assume ac: "acyclic E"
    have closed: "\<forall>v\<in>V - set order. \<exists>u\<in>V - set order. (u, v) \<in> E"
    proof
      fix v assume v: "v \<in> V - set order"
      from inv v have "unordered_preds E order v \<noteq> {}" by (simp add: sort_invariant_def)
      then obtain u where u: "(u, v) \<in> E" "u \<notin> set order" by (auto simp: unordered_preds_def)
      moreover from u(1) assms(3) have "u \<in> V" by blast
      ultimately show "\<exists>u\<in>V - set order. (u, v) \<in> E" by blast
    qed
    have "V - set order = {}"
    proof (rule ccontr)
      assume "V - set order \<noteq> {}"
      from predecessor_closed_cyclic[OF assms(2) this closed] ac show False by contradiction
    qed
    with sub show "set order = V" by blast
  qed
qed

section \<open>Declarative well-formedness\<close>

definition event_ok :: "string list \<Rightarrow> event \<Rightarrow> bool" where
  "event_ok track_ids e \<longleftrightarrow>
     set reserved_arguments \<inter> fst ` set (event_args e) = {} \<and> event_track e \<in> set track_ids \<and>
     is_int (event_ts e) \<and> 0 \<le> ts e \<and> is_int (event_dur e) \<and> 0 \<le> dur e \<and>
     is_int (display_duration e) \<and> dur e \<le> shown e \<and> (shown e = dur e \<or> dur e = 0) \<and>
     ts e + shown e \<le> 2 ^ 52"

lemma check_event_iff: "check_event tids e = Inr () \<longleftrightarrow> event_ok tids e"
  by (auto simp: check_event_def event_ok_def check_time_def bindE_Inr Let_def list_ex_iff)

text \<open>Slices of one track, displayed widths included, never overlap or start together.\<close>

definition precedes :: "event \<Rightarrow> event \<Rightarrow> bool" where
  "precedes a b \<longleftrightarrow> ts a < ts b \<and> ts a + shown a \<le> ts b"

definition separated :: "event list \<Rightarrow> bool" where
  "separated evs \<longleftrightarrow> (\<forall>a\<in>set evs. \<forall>b\<in>set evs.
     a \<noteq> b \<and> event_track a = event_track b \<longrightarrow> precedes a b \<or> precedes b a)"

lemma transp_precedes: "transp precedes"
  by (auto simp: transp_def precedes_def)

lemma not_overlapping_successively:
  "sorted (map ts l) \<Longrightarrow> \<not> overlapping l \<longleftrightarrow> successively precedes l"
proof (induction l)
  case (Cons a l)
  then show ?case
    by (cases l) (auto simp: overlapping_def precedes_def)
qed (simp add: overlapping_def)

lemma not_overlapping_iff:
  "sorted (map ts l) \<Longrightarrow> \<not> overlapping l \<longleftrightarrow> sorted_wrt precedes l"
  using transp_precedes by (simp add: not_overlapping_successively successively_conv_sorted_wrt)

lemma sorted_wrt_precedes_iff:
  assumes "sorted (map ts l)" and "distinct l"
  shows "sorted_wrt precedes l \<longleftrightarrow> (\<forall>a\<in>set l. \<forall>b\<in>set l. a \<noteq> b \<longrightarrow> precedes a b \<or> precedes b a)"
  using assms
proof (induction l)
  case (Cons x xs)
  have later: "b \<in> set xs \<Longrightarrow> \<not> precedes b x" for b
    using Cons.prems(1) by (auto simp: precedes_def)
  have "sorted_wrt precedes (x # xs) \<longleftrightarrow> (\<forall>b\<in>set xs. precedes x b) \<and>
      (\<forall>a\<in>set xs. \<forall>b\<in>set xs. a \<noteq> b \<longrightarrow> precedes a b \<or> precedes b a)"
    using Cons by simp
  also have "\<dots> \<longleftrightarrow> (\<forall>a\<in>set (x # xs). \<forall>b\<in>set (x # xs). a \<noteq> b \<longrightarrow> precedes a b \<or> precedes b a)"
    using later Cons.prems(2) by (auto simp: ball_conj_distrib)
  finally show ?case .
qed simp

lemma lanes_separated:
  assumes "distinct evs"
  shows "(\<forall>t\<in>set (map event_track evs). \<not> overlapping (lane evs t)) \<longleftrightarrow> separated evs"
proof -
  have "\<not> overlapping (lane evs t) \<longleftrightarrow>
      (\<forall>a\<in>set (lane evs t). \<forall>b\<in>set (lane evs t). a \<noteq> b \<longrightarrow> precedes a b \<or> precedes b a)" for t
    using assms not_overlapping_iff[of "lane evs t"] sorted_wrt_precedes_iff[of "lane evs t"]
    by (simp add: lane_def)
  then have "(\<forall>t\<in>set (map event_track evs). \<not> overlapping (lane evs t)) \<longleftrightarrow>
      (\<forall>t\<in>set (map event_track evs). \<forall>a\<in>set (lane evs t). \<forall>b\<in>set (lane evs t).
         a \<noteq> b \<longrightarrow> precedes a b \<or> precedes b a)" by simp
  also have "\<dots> \<longleftrightarrow> separated evs"
    unfolding separated_def lane_def set_sort set_filter set_map by blast
  finally show ?thesis .
qed

definition depends :: "profile \<Rightarrow> (string \<times> string) set" where
  "depends p = set (map ends (tagged_edges p))"

definition well_formed :: "profile \<Rightarrow> bool" where
  "well_formed p \<longleftrightarrow>
     eq_int (schema p) 1 \<and> time_unit p = JStr ''ns'' \<and>
     distinct (map track_id (tracks p)) \<and> distinct (map event_id (events p)) \<and>
     (\<forall>e\<in>set (events p). event_ok (map track_id (tracks p)) e) \<and>
     separated (events p) \<and>
     (\<forall>c\<in>set (counters p). check_counter (map track_id (tracks p)) c = Inr ()) \<and>
     (\<forall>er\<in>set (tagged_edges p). dependency_ok (dict_of event_id (events p)) er) \<and>
     distinct (map ends (tagged_edges p))"

abbreviation event_ids :: "profile \<Rightarrow> string list" where
  "event_ids p \<equiv> map event_id (events p)"

lemma dict_events:
  assumes "distinct (event_ids p)"
  shows "dict_of event_id (events p) = map (\<lambda>e. (event_id e, e)) (events p)"
    and "map fst (dict_of event_id (events p)) = event_ids p"
    and "map snd (dict_of event_id (events p)) = events p"
  using dict_of_distinct[OF assms] by (simp_all add: comp_def)

lemma depends_events:
  assumes "well_formed p"
  shows "depends p \<subseteq> set (event_ids p) \<times> set (event_ids p)"
proof -
  have d: "distinct (event_ids p)" using assms by (simp add: well_formed_def)
  have "edge_source (fst er) \<in> set (event_ids p) \<and> edge_target (fst er) \<in> set (event_ids p)"
    if "er \<in> set (tagged_edges p)" for er
  proof -
    from assms that have "dependency_ok (dict_of event_id (events p)) er" by (simp add: well_formed_def)
    then have "edge_source (fst er) \<in> fst ` set (dict_of event_id (events p))"
      "edge_target (fst er) \<in> fst ` set (dict_of event_id (events p))"
      by (auto simp: dependency_ok_def Let_def dest: map_of_SomeD intro: rev_image_eqI)
    then show ?thesis unfolding dict_events(1)[OF d] by auto
  qed
  then show ?thesis by (auto simp: depends_def ends_def)
qed

text \<open>The degree summary of a well-formed profile starts the sort in its invariant.\<close>

lemma count_preds:
  "distinct ps \<Longrightarrow> card {u. (u, v) \<in> set ps} = length (filter (\<lambda>p. snd p = v) ps)"
proof -
  assume d: "distinct ps"
  have "card {u. (u, v) \<in> set ps} = card ((\<lambda>u. (u, v)) ` {u. (u, v) \<in> set ps})"
    by (rule card_image[symmetric]) (auto simp: inj_on_def)
  also have "(\<lambda>u. (u, v)) ` {u. (u, v) \<in> set ps} = set (filter (\<lambda>p. snd p = v) ps)" by auto
  finally show ?thesis using d by (metis distinct_card distinct_filter)
qed

lemma successors: "set (map snd (filter (\<lambda>q. fst q = s) ps)) = {t. (s, t) \<in> set ps}"
  by force

lemma sort_of_profile:
  assumes "well_formed p"
  defines "d \<equiv> degrees_of (dict_of event_id (events p)) (tagged_edges p)"
  defines "order \<equiv> topological (outgoing d) (incoming d)
             (sort (map fst (filter (\<lambda>(_, n). n = 0) (incoming d)))) []"
  shows "distinct order" and "set order \<subseteq> set (event_ids p)"
    and "\<forall>(u, v)\<in>depends p. v \<in> set order \<longrightarrow> before order u v"
    and "set order = set (event_ids p) \<longleftrightarrow> acyclic (depends p)"
proof -
  let ?evs = "dict_of event_id (events p)" and ?ps = "map ends (tagged_edges p)"
  have ids: "distinct (event_ids p)" and ps: "distinct ?ps"
    using assms(1) by (simp_all add: well_formed_def)
  note keys = dict_events(2)[OF ids]
  have inc: "incoming d = map (\<lambda>k. (k, int (length (filter (\<lambda>q. snd q = k) ?ps)))) (event_ids p)"
    unfolding keys[symmetric] by (simp add: d_def degrees_of_def comp_def split_beta)
  have lookup: "map_of (incoming d) v = Some (int (card {u. (u, v) \<in> depends p}))"
    if "v \<in> set (event_ids p)" for v
    unfolding inc map_of_map_restrict depends_def count_preds[OF ps]
    using that by (simp add: restrict_map_def)
  then have start: "start_degrees (set (event_ids p)) (depends p) (incoming d)"
    by (simp add: start_degrees_def)
  have outs: "\<forall>s\<in>set (event_ids p). distinct (outgoing d s) \<and> set (outgoing d s) = {t. (s, t) \<in> depends p}"
  proof
    fix s assume "s \<in> set (event_ids p)"
    have "inj_on snd (set (filter (\<lambda>q. fst q = s) ?ps))" by (auto simp: inj_on_def)
    with ps have "distinct (outgoing d s)"
      by (simp add: d_def degrees_of_def distinct_map)
    moreover have "set (outgoing d s) = {t. (s, t) \<in> depends p}"
      unfolding d_def degrees_of_def depends_def by (simp only: successors degrees.simps)
    ultimately show "distinct (outgoing d s) \<and> set (outgoing d s) = {t. (s, t) \<in> depends p}" ..
  qed
  have keys_inc: "map fst (incoming d) = event_ids p" by (simp add: inc comp_def)
  have dk: "distinct (map fst (filter (\<lambda>(_, n). n = 0) (incoming d)))"
    using keys_inc ids by (metis distinct_map_filter)
  have zeros: "set (map fst (filter (\<lambda>(_, n). n = 0) (incoming d))) =
      {v \<in> set (event_ids p). map_of (incoming d) v = Some 0}"
  proof -
    have "set (map fst (filter (\<lambda>(_, n). n = 0) (incoming d))) = {v. (v, 0) \<in> set (incoming d)}"
      by force
    moreover have "(v, 0) \<in> set (incoming d) \<longleftrightarrow> map_of (incoming d) v = Some 0" for v
      using keys_inc ids by simp
    moreover have "(v, 0) \<in> set (incoming d) \<Longrightarrow> v \<in> set (event_ids p)" for v
      using keys_inc by (metis fst_conv image_eqI list.set_map)
    ultimately show ?thesis by blast
  qed
  have fin: "finite (set (event_ids p))" "finite (depends p)"
    by (simp_all add: depends_def)
  have ready: "distinct (sort (map fst (filter (\<lambda>(_, n). n = 0) (incoming d))))"
    "set (sort (map fst (filter (\<lambda>(_, n). n = 0) (incoming d)))) =
      {v \<in> set (event_ids p). map_of (incoming d) v = Some 0}"
    using dk zeros by simp_all
  note R = topological_correct[OF fin depends_events[OF assms(1)] start outs ready, folded order_def]
  show "distinct order" by (rule R)
  show "set order \<subseteq> set (event_ids p)" by (rule R)
  show "\<forall>(u, v)\<in>depends p. v \<in> set order \<longrightarrow> before order u v" by (rule R)
  show "set order = set (event_ids p) \<longleftrightarrow> acyclic (depends p)" by (rule R)
qed

lemma validate_unfold:
  "validate p = Inr order \<longleftrightarrow> well_formed p \<and>
     (let d = degrees_of (dict_of event_id (events p)) (tagged_edges p) in
      order = topological (outgoing d) (incoming d)
                (sort (map fst (filter (\<lambda>(_, n). n = 0) (incoming d)))) [] \<and>
      length order = length (events p))"
proof (cases "distinct (event_ids p)")
  case True
  note de = dict_events[OF True]
  have distinct_evs: "distinct (events p)" using True by (simp add: distinct_map)
  have lanes: "(\<forall>t\<in>event_track ` set (events p). \<not> overlapping (lane (events p) t)) \<longleftrightarrow> separated (events p)"
    using lanes_separated[OF distinct_evs] by simp
  have dk: "distinct (map fst (dict_of event_id (events p)))" using de(2) True by simp
  have len: "length (dict_of event_id (events p)) = length (events p)" using True by simp
  note edges = check_edges[OF dk, of "[]", simplified, folded degrees_of_Nil]
  show ?thesis
    unfolding validate_def Let_def bindE_Inr well_formed_def
    using True lanes
    by (auto simp: de(3) len bindE_Inr check_event_iff check_lane_def edges depends_def)
next
  case False
  then show ?thesis by (auto simp: validate_def well_formed_def Let_def bindE_Inr)
qed

lemma validate_order:
  assumes "validate p = Inr order"
  shows "well_formed p" and "acyclic (depends p)" and "distinct order"
    and "set order = set (event_ids p)" and "\<forall>(u, v)\<in>depends p. before order u v"
proof -
  from assms show wf: "well_formed p" unfolding validate_unfold by blast
  have len: "length order = length (events p)" using assms unfolding validate_unfold Let_def by blast
  have ord: "order = topological (outgoing (degrees_of (dict_of event_id (events p)) (tagged_edges p)))
      (incoming (degrees_of (dict_of event_id (events p)) (tagged_edges p)))
      (sort (map fst (filter (\<lambda>(_, n). n = 0)
        (incoming (degrees_of (dict_of event_id (events p)) (tagged_edges p)))))) []"
    using assms by (simp add: validate_unfold Let_def)
  note R = sort_of_profile[OF wf, folded ord]
  show "distinct order" by (rule R(1))
  have "card (set order) = card (set (event_ids p))"
    using R(1) len wf distinct_card[of order] distinct_card[of "event_ids p"]
    by (simp add: well_formed_def)
  with R(2) show all: "set order = set (event_ids p)"
    by (intro card_subset_eq) auto
  with R(4) show "acyclic (depends p)" by simp
  show "\<forall>(u, v)\<in>depends p. before order u v"
    using R(3) depends_events[OF wf] all by blast
qed

lemma validate_accepts:
  assumes "well_formed p" and "acyclic (depends p)"
  shows "\<exists>order. validate p = Inr order"
proof -
  let ?d = "degrees_of (dict_of event_id (events p)) (tagged_edges p)"
  let ?order = "topological (outgoing ?d) (incoming ?d) (sort (map fst (filter (\<lambda>(_, n). n = 0) (incoming ?d)))) []"
  note R = sort_of_profile[OF assms(1)]
  from R(4) assms(2) have "set ?order = set (event_ids p)" by simp
  moreover have "distinct (event_ids p)" using assms(1) by (simp add: well_formed_def)
  ultimately have "length ?order = length (event_ids p)"
    using R(1) by (metis distinct_card)
  with assms(1) show ?thesis by (auto simp: validate_unfold Let_def)
qed

end
