(* ===== verification/Profile_Paths.thy ===== *)
theory Profile_Paths
  imports Profile_Valid
begin

text \<open>
  Queries over an accepted profile: \<open>longest_path\<close> (the longest declared work and delay chain
  ending at an event) and \<open>observed_predecessors\<close> (the latest recorded prerequisites of one
  observed schedule, followed backwards).
\<close>

section \<open>Definitions\<close>

record path_report =
  path_events :: "string list"
  path_edges :: "edge list"
  accounted_ns :: int
  elapsed_ns :: int
  unassigned_ns :: int

definition event_at :: "profile \<Rightarrow> string \<Rightarrow> event" where
  "event_at p k = the (map_of (dict_of event_id (events p)) k)"

definition incoming_edges :: "profile \<Rightarrow> string \<Rightarrow> edge list" where
  "incoming_edges p k = filter (\<lambda>e. edge_target e = k) (edges p)"

text \<open>
  One iteration of the scoring loop. Every source of an incoming edge precedes the event in the
  order, so its score is present.
\<close>

type_synonym scoring = "(string \<rightharpoonup> int) \<times> (string \<rightharpoonup> edge)"

definition score_event :: "profile \<Rightarrow> scoring \<Rightarrow> string \<Rightarrow> scoring" where
  "score_event p st k = (let (scores, previous) = st;
     candidates = incoming_edges p k;
     best = max_by (\<lambda>e. (the (scores (edge_source e)) + delay e, edge_source e)) candidates
   in case best of
        None \<Rightarrow> (scores(k \<mapsto> dur (event_at p k)), previous(k := None))
      | Some e \<Rightarrow> (scores(k \<mapsto> dur (event_at p k) + (the (scores (edge_source e)) + delay e)),
                   previous(k \<mapsto> e)))"

text \<open>The backward walk: the visited nodes and edges, most recent last.\<close>

fun walk_back :: "nat \<Rightarrow> (string \<rightharpoonup> edge) \<Rightarrow> string \<Rightarrow> string list \<Rightarrow> edge list \<Rightarrow>
    (string \<times> string list \<times> edge list) option" where
  "walk_back 0 previous node path es = None"
| "walk_back (Suc fuel) previous node path es =
     (let path' = path @ [node] in
      case previous node of
        None \<Rightarrow> Some (node, path', es)
      | Some e \<Rightarrow> walk_back fuel previous (edge_source e) path' (es @ [e]))"

definition longest_path :: "profile \<Rightarrow> string \<Rightarrow> (profile_error, path_report) result" where
  "longest_path p target =
     bindE (validate p) (\<lambda>order.
     bindE (ensure (target \<in> fst ` set (dict_of event_id (events p))) (Unknown_Path_Target target)) (\<lambda>_.
     let (scores, previous) = foldl (score_event p) (Map.empty, Map.empty) order in
     case walk_back (length order) previous target [] [] of
       None \<Rightarrow> Inl Out_Of_Fuel
     | Some (node, path, es) \<Rightarrow>
         let elapsed = ts (event_at p target) + dur (event_at p target) - ts (event_at p node);
             accounted = the (scores target) in
         Inr \<lparr>path_events = rev path, path_edges = rev es, accounted_ns = accounted,
              elapsed_ns = elapsed, unassigned_ns = elapsed - accounted\<rparr>))"

section \<open>Chains\<close>

text \<open>
  A chain is a starting event and consecutive causal edges; its weight is the work of its events
  and the declared delays of its edges.
\<close>

fun chain :: "profile \<Rightarrow> string \<Rightarrow> edge list \<Rightarrow> string \<Rightarrow> bool" where
  "chain p a [] b \<longleftrightarrow> a = b"
| "chain p a (e # es) b \<longleftrightarrow> e \<in> set (edges p) \<and> edge_source e = a \<and> chain p (edge_target e) es b"

definition weight :: "profile \<Rightarrow> string \<Rightarrow> edge list \<Rightarrow> int" where
  "weight p a es = dur (event_at p a) +
     sum_list (map (\<lambda>e. delay e + dur (event_at p (edge_target e))) es)"

lemma chain_snoc:
  "chain p a (es @ [e]) b \<longleftrightarrow> e \<in> set (edges p) \<and> edge_target e = b \<and> chain p a es (edge_source e)"
  by (induction es arbitrary: a) auto

lemma weight_snoc: "weight p a (es @ [e]) = weight p a es + delay e + dur (event_at p (edge_target e))"
  by (simp add: weight_def)

lemma event_at_id:
  assumes "well_formed p" and "e \<in> set (events p)"
  shows "event_at p (event_id e) = e"
proof -
  have "distinct (event_ids p)" using assms(1) by (simp add: well_formed_def)
  then have "map_of (dict_of event_id (events p)) (event_id e) = Some e"
    using assms(2) dict_events(1,2)[of p] by (simp add: comp_def)
  then show ?thesis by (simp add: event_at_def)
qed

lemma edge_facts:
  assumes "well_formed p" and "e \<in> set (edges p)"
  shows "0 \<le> delay e"
    and "ts (event_at p (edge_source e)) + dur (event_at p (edge_source e)) + delay e
           \<le> ts (event_at p (edge_target e))"
    and "edge_source e \<in> set (event_ids p)" and "edge_target e \<in> set (event_ids p)"
    and "(edge_source e, edge_target e) \<in> depends p"
proof -
  have t: "(e, False) \<in> set (tagged_edges p)" using assms(2) by (simp add: tagged_edges_def)
  then have ok: "dependency_ok (dict_of event_id (events p)) (e, False)"
    using assms(1) by (auto simp: well_formed_def)
  from ok show "0 \<le> delay e"
    "ts (event_at p (edge_source e)) + dur (event_at p (edge_source e)) + delay e
       \<le> ts (event_at p (edge_target e))"
    by (auto simp: dependency_ok_def Let_def event_at_def)
  show "(edge_source e, edge_target e) \<in> depends p"
    using t by (auto simp: depends_def ends_def image_iff intro!: bexI[of _ "(e, False)"])
  then show "edge_source e \<in> set (event_ids p)" "edge_target e \<in> set (event_ids p)"
    using depends_events[OF assms(1)] by auto
qed

lemma event_durations:
  assumes "well_formed p" and "k \<in> set (event_ids p)"
  shows "0 \<le> dur (event_at p k)" and "0 \<le> ts (event_at p k)"
  using assms event_at_id[OF assms(1)] by (auto simp: well_formed_def event_ok_def)

text \<open>A chain fits between the start of its first event and the end of its last one.\<close>

lemma chain_elapsed:
  assumes "well_formed p" and "chain p a es b" and "b \<in> set (event_ids p)"
  shows "weight p a es \<le> ts (event_at p b) + dur (event_at p b) - ts (event_at p a)"
  using assms(2,3)
proof (induction es arbitrary: b rule: rev_induct)
  case Nil
  then show ?case by (simp add: weight_def)
next
  case (snoc e es)
  then have e: "e \<in> set (edges p)" "edge_target e = b" "chain p a es (edge_source e)"
    by (auto simp: chain_snoc)
  have "weight p a es \<le> ts (event_at p (edge_source e)) + dur (event_at p (edge_source e)) - ts (event_at p a)"
    using snoc.IH e(3) edge_facts(3)[OF assms(1) e(1)] by blast
  with edge_facts(2)[OF assms(1) e(1)] e(2) show ?case
    by (simp add: weight_snoc)
qed

section \<open>The scores are longest chain weights\<close>

text \<open>
  After the events \<open>done\<close>: every one has a score, and a recorded best edge whose source is
  scored, or no incoming edge at all; the score accounts for that edge and dominates the others.
\<close>

definition node_scored :: "profile \<Rightarrow> string list \<Rightarrow> scoring \<Rightarrow> string \<Rightarrow> bool" where
  "node_scored p done st k \<longleftrightarrow>
     (case snd st k of
        None \<Rightarrow> incoming_edges p k = [] \<and> fst st k = Some (dur (event_at p k))
      | Some e \<Rightarrow> e \<in> set (incoming_edges p k) \<and> before done (edge_source e) k \<and>
          fst st k = Some (dur (event_at p k) + (the (fst st (edge_source e)) + delay e)) \<and>
          (\<forall>e'\<in>set (incoming_edges p k).
             the (fst st (edge_source e')) + delay e' \<le> the (fst st (edge_source e)) + delay e))"

definition scored :: "profile \<Rightarrow> string list \<Rightarrow> scoring \<Rightarrow> bool" where
  "scored p done st \<longleftrightarrow> (\<forall>k\<in>set done. node_scored p done st k)"

lemma node_scored_keep:
  assumes "node_scored p done st j" and "fst st' j = fst st j" "snd st' j = snd st j"
    and "\<And>e. e \<in> set (incoming_edges p j) \<Longrightarrow> fst st' (edge_source e) = fst st (edge_source e)"
  shows "node_scored p (done @ [k]) st' j"
  using assms by (auto simp: node_scored_def before_snoc split: option.splits)

lemma node_scored_new:
  assumes st: "st = (scores, previous)" and sources: "\<forall>e\<in>set (incoming_edges p k). edge_source e \<in> set done"
    and "k \<notin> set done"
  shows "node_scored p (done @ [k]) (score_event p st k) k"
proof (cases "max_by (\<lambda>e. (the (scores (edge_source e)) + delay e, edge_source e)) (incoming_edges p k)")
  case None
  then show ?thesis by (simp add: score_event_def st node_scored_def)
next
  case (Some e)
  note m = max_by_Some[OF Some]
  have new: "score_event p st k =
      (scores(k \<mapsto> dur (event_at p k) + (the (scores (edge_source e)) + delay e)), previous(k \<mapsto> e))"
    using Some by (simp add: score_event_def st)
  have ne: "edge_source e' \<noteq> k" if "e' \<in> set (incoming_edges p k)" for e'
    using sources assms(3) that by blast
  have "the (scores (edge_source e')) + delay e' \<le> the (scores (edge_source e)) + delay e"
    if "e' \<in> set (incoming_edges p k)" for e'
    using m(2) that by (auto simp: less_eq_prod_def)
  moreover have "before (done @ [k]) (edge_source e) k"
    using sources m(1) by (simp add: before_snoc)
  ultimately show ?thesis
    using m(1) ne by (simp add: node_scored_def new)
qed

lemma score_event_step:
  assumes "scored p done st" and "k \<notin> set done"
    and sources: "\<forall>e\<in>set (incoming_edges p k). edge_source e \<in> set done"
    and closed: "\<forall>j\<in>set done. \<forall>e\<in>set (incoming_edges p j). edge_source e \<in> set done"
  shows "scored p (done @ [k]) (score_event p st k)"
proof -
  obtain scores previous where st: "st = (scores, previous)" by fastforce
  have other: "fst (score_event p st k) j = fst st j \<and> snd (score_event p st k) j = snd st j"
    if "j \<noteq> k" for j
    using that by (auto simp: score_event_def st split: option.split)
  have "node_scored p (done @ [k]) (score_event p st k) j" if j: "j \<in> set done" for j
  proof (rule node_scored_keep)
    show "node_scored p done st j" using assms(1) j by (simp add: scored_def)
    have "j \<noteq> k" using assms(2) j by blast
    then show "fst (score_event p st k) j = fst st j" "snd (score_event p st k) j = snd st j"
      using other by simp_all
    show "fst (score_event p st k) (edge_source e) = fst st (edge_source e)"
      if "e \<in> set (incoming_edges p j)" for e
    proof -
      have "edge_source e \<noteq> k" using closed j that assms(2) by blast
      then show ?thesis using other by blast
    qed
  qed
  with node_scored_new[OF st sources assms(2)] show ?thesis by (simp add: scored_def)
qed

lemma before_take: "before (xs @ ys) a b \<Longrightarrow> distinct (xs @ ys) \<Longrightarrow> b \<in> set xs \<Longrightarrow> before xs a b"
proof (induction ys rule: rev_induct)
  case (snoc y ys)
  then have "before (xs @ ys) a b" using before_snoc[of "xs @ ys" y a b] by auto
  with snoc show ?case by simp
qed simp

lemma scored_fold:
  assumes order: "distinct (done @ todo)" "\<forall>e\<in>set (edges p). before (done @ todo) (edge_source e) (edge_target e)"
    and "scored p done st"
  shows "scored p (done @ todo) (foldl (score_event p) st todo)"
  using assms
proof (induction todo arbitrary: "done" st)
  case Nil
  then show ?case by simp
next
  case (Cons k todo)
  have pre: "before ((done @ [k]) @ todo) (edge_source e) j"
    if "e \<in> set (incoming_edges p j)" for e j
    using Cons.prems(2) that by (auto simp: incoming_edges_def)
  have early: "edge_source e \<in> set done" if "e \<in> set (incoming_edges p j)" "j \<in> set (done @ [k])" for e j
  proof -
    have "before (done @ [k]) (edge_source e) j"
      using before_take[OF pre[OF that(1)] _ that(2)] Cons.prems(1) by simp
    then have "before done (edge_source e) j \<or> edge_source e \<in> set done" by (auto simp: before_snoc)
    then show ?thesis using before_in_set by metis
  qed
  have "scored p (done @ [k]) (score_event p st k)"
    using Cons.prems(1) early by (intro score_event_step[OF Cons.prems(3)]) auto
  from Cons.IH[OF _ _ this] Cons.prems show ?case by simp
qed

lemma validated_before:
  assumes "validate p = Inr order" and "e \<in> set (edges p)"
  shows "before order (edge_source e) (edge_target e)"
  using validate_order(5)[OF assms(1)] edge_facts(5)[OF validate_order(1)[OF assms(1)] assms(2)] by auto

lemma scored_profile:
  assumes "validate p = Inr order"
  shows "scored p order (foldl (score_event p) (Map.empty, Map.empty) order)"
  using scored_fold[of "[]" order p] validated_before[OF assms] validate_order(3)[OF assms]
  by (simp add: scored_def)

text \<open>The recorded best edges form a chain whose weight is the score, and the walk returns it.\<close>

definition nodes :: "string \<Rightarrow> edge list \<Rightarrow> string list" where
  "nodes a es = a # map edge_target es"

lemma before_position:
  "before order s k \<Longrightarrow> distinct order \<Longrightarrow> order = us @ k # vs \<Longrightarrow>
   \<exists>us' vs'. order = us' @ s # vs' \<and> length us' < length us"
proof -
  assume b: "before order s k" and d: "distinct order" and o: "order = us @ k # vs"
  have "before (us @ [k]) s k"
    by (rule before_take[of _ vs]) (use b d o in auto)
  then have "s \<in> set us" using before_in_set[of us s k] d o by (auto simp: before_snoc)
  then obtain us' vs' where "us = us' @ s # vs'" by (auto dest: split_list)
  with o show ?thesis by (intro exI[of _ us'] exI[of _ "vs' @ k # vs"]) simp
qed

lemma walk_back_chain:
  assumes sc: "scored p order (scores, previous)" and d: "distinct order"
    and "order = us @ k # vs" and "length us < fuel"
  shows "\<exists>a es. walk_back fuel previous k path acc = Some (a, path @ rev (nodes a es), acc @ rev es) \<and>
    chain p a es k \<and> weight p a es = the (scores k) \<and> incoming_edges p a = []"
  using assms(3,4)
proof (induction us arbitrary: k vs fuel path acc rule: length_induct)
  case (1 us)
  then obtain f where fuel: "fuel = Suc f" by (cases fuel) auto
  have ns: "node_scored p order (scores, previous) k"
    using sc 1(2) by (simp add: scored_def)
  show ?case
  proof (cases "previous k")
    case None
    with ns have "incoming_edges p k = []" "scores k = Some (dur (event_at p k))"
      by (simp_all add: node_scored_def)
    with None fuel show ?thesis
      by (intro exI[of _ k] exI[of _ "[]"]) (simp add: weight_def nodes_def)
  next
    case (Some e)
    with ns have e: "e \<in> set (edges p)" "edge_target e = k" "before order (edge_source e) k"
      and score: "scores k = Some (dur (event_at p k) + (the (scores (edge_source e)) + delay e))"
      by (simp_all add: node_scored_def incoming_edges_def)
    obtain us' vs' where pos: "order = us' @ edge_source e # vs'" "length us' < length us"
      using before_position[OF e(3) d 1(2)] by blast
    with 1(3) fuel have "length us' < f" by simp
    from 1(1)[rule_format, OF pos(2,1) this, of "path @ [k]" "acc @ [e]"]
    obtain a es where w: "walk_back f previous (edge_source e) (path @ [k]) (acc @ [e]) =
        Some (a, (path @ [k]) @ rev (nodes a es), (acc @ [e]) @ rev es)"
      and c: "chain p a es (edge_source e)" "weight p a es = the (scores (edge_source e))"
        "incoming_edges p a = []" by blast
    have "walk_back fuel previous k path acc =
        Some (a, path @ rev (nodes a (es @ [e])), acc @ rev (es @ [e]))"
      using w Some fuel e(2) by (simp add: nodes_def)
    moreover have "chain p a (es @ [e]) k" using c(1) e by (simp add: chain_snoc)
    moreover have "weight p a (es @ [e]) = the (scores k)"
      using c(2) score e(2) by (simp add: weight_snoc)
    ultimately show ?thesis using c(3) by blast
  qed
qed

text \<open>No chain into an event outweighs its score.\<close>

lemma weight_nonneg:
  assumes "well_formed p" and "chain p a es b" and "a \<in> set (event_ids p)"
  shows "0 \<le> weight p a es"
  using assms(2)
proof (induction es arbitrary: b rule: rev_induct)
  case Nil
  then show ?case using event_durations(1)[OF assms(1,3)] by (simp add: weight_def)
next
  case (snoc e es)
  then have "e \<in> set (edges p)" and "0 \<le> weight p a es" by (auto simp: chain_snoc)
  with edge_facts(1,4)[OF assms(1)] event_durations(1)[OF assms(1)] show ?case
    by (simp add: weight_snoc)
qed

lemma chain_start:
  assumes "well_formed p" and "chain p a es b" and "b \<in> set (event_ids p)"
  shows "a \<in> set (event_ids p)"
  using assms edge_facts(3)[OF assms(1)] by (cases es) auto

lemma score_dominates:
  assumes v: "validate p = Inr order" and sc: "scored p order (scores, previous)"
    and "chain p a es b" and "b \<in> set (event_ids p)"
  shows "weight p a es \<le> the (scores b)"
  using assms(3,4)
proof (induction es arbitrary: b rule: rev_induct)
  case Nil
  note wf = validate_order(1)[OF v]
  have ns: "node_scored p order (scores, previous) b"
    using sc Nil.prems(2) unfolding scored_def validate_order(4)[OF v] by blast
  show ?case
  proof (cases "previous b")
    case None
    with ns Nil show ?thesis by (simp add: weight_def node_scored_def)
  next
    case (Some e)
    with ns have e: "e \<in> set (edges p)" and
      score: "scores b = Some (dur (event_at p b) + (the (scores (edge_source e)) + delay e))"
      by (simp_all add: node_scored_def incoming_edges_def)
    have "edge_source e \<in> set order" using edge_facts(3)[OF wf e] validate_order(4)[OF v] by simp
    then obtain us vs where "order = us @ edge_source e # vs" by (auto dest: split_list)
    from walk_back_chain[OF sc validate_order(3)[OF v] this lessI]
    obtain a' es' where c: "chain p a' es' (edge_source e)" "weight p a' es' = the (scores (edge_source e))"
      by blast
    have "0 \<le> the (scores (edge_source e))"
      using weight_nonneg[OF wf c(1) chain_start[OF wf c(1) edge_facts(3)[OF wf e]]] c(2) by simp
    with score edge_facts(1)[OF wf e] Nil show ?thesis by (simp add: weight_def)
  qed
next
  case (snoc e es)
  note wf = validate_order(1)[OF v]
  from snoc.prems have e: "e \<in> set (edges p)" "edge_target e = b" "chain p a es (edge_source e)"
    by (auto simp: chain_snoc)
  have ns: "node_scored p order (scores, previous) b"
    using sc snoc.prems(2) unfolding scored_def validate_order(4)[OF v] by blast
  have inc: "e \<in> set (incoming_edges p b)" using e by (simp add: incoming_edges_def)
  from ns inc have "dur (event_at p b) + (the (scores (edge_source e)) + delay e) \<le> the (scores b)"
    by (auto simp: node_scored_def split: option.splits)
  with snoc.IH[OF e(3) edge_facts(3)[OF wf e(1)]] e(2) show ?case by (simp add: weight_snoc)
qed

text \<open>The query as a whole.\<close>

lemma longest_path_spec:
  assumes v: "validate p = Inr order" and t: "target \<in> set (event_ids p)"
  shows "\<exists>r a. longest_path p target = Inr r \<and> path_events r = nodes a (path_edges r) \<and>
    chain p a (path_edges r) target \<and> accounted_ns r = weight p a (path_edges r) \<and>
    incoming_edges p a = [] \<and>
    (\<forall>a' es'. chain p a' es' target \<longrightarrow> weight p a' es' \<le> accounted_ns r) \<and>
    elapsed_ns r = ts (event_at p target) + dur (event_at p target) - ts (event_at p a) \<and>
    unassigned_ns r = elapsed_ns r - accounted_ns r"
proof -
  obtain scores previous where fold:
    "foldl (score_event p) (Map.empty, Map.empty) order = (scores, previous)" by fastforce
  have sc: "scored p order (scores, previous)" using scored_profile[OF v] fold by simp
  have "target \<in> set order" using t validate_order(4)[OF v] by simp
  then obtain us vs where o: "order = us @ target # vs" by (auto dest: split_list)
  obtain a es where w: "walk_back (length order) previous target [] [] = Some (a, rev (nodes a es), rev es)"
    and c: "chain p a es target" "weight p a es = the (scores target)" "incoming_edges p a = []"
    using walk_back_chain[OF sc validate_order(3)[OF v] o, of "length order" "[]" "[]"] o by auto
  have "target \<in> fst ` set (dict_of event_id (events p))"
    using t dict_events(2)[of p] validate_order(1)[OF v] by (metis well_formed_def list.set_map)
  then have "longest_path p target = Inr \<lparr>path_events = nodes a es, path_edges = es,
      accounted_ns = the (scores target),
      elapsed_ns = ts (event_at p target) + dur (event_at p target) - ts (event_at p a),
      unassigned_ns = ts (event_at p target) + dur (event_at p target) - ts (event_at p a) - the (scores target)\<rparr>"
    using v fold w by (simp add: longest_path_def Let_def ensure_def)
  moreover have "\<forall>a' es'. chain p a' es' target \<longrightarrow> weight p a' es' \<le> the (scores target)"
    using score_dominates[OF v sc _ t] by blast
  ultimately show ?thesis using c by (intro exI[of _ a] exI conjI) (assumption | simp)+
qed


section \<open>Observed prerequisites\<close>

datatype relation = Causal | Resource_Order

record gap =
  gap_target :: string
  gap_ts :: int
  gap_dur :: int

record observation =
  obs_events :: "string list"
  obs_relations :: "(edge \<times> relation) list"
  obs_gaps :: "gap list"
  obs_roots :: "string list"

text \<open>
  \<open>incoming\<close> of the query: causal edges first, then the resource edges when asked for.
\<close>

definition prerequisites :: "profile \<Rightarrow> bool \<Rightarrow> string \<Rightarrow> (edge \<times> relation) list" where
  "prerequisites p resources k =
     map (\<lambda>e. (e, Causal)) (filter (\<lambda>e. edge_target e = k) (edges p)) @
     (if resources
      then map (\<lambda>e. (e, Resource_Order)) (filter (\<lambda>e. edge_target e = k) (resource_dependencies p))
      else [])"

definition finish :: "profile \<Rightarrow> edge \<times> relation \<Rightarrow> int" where
  "finish p er = (let e = fst er in
     ts (event_at p (edge_source e)) + dur (event_at p (edge_source e)) + delay e)"

definition latest :: "profile \<Rightarrow> bool \<Rightarrow> string \<Rightarrow> (edge \<times> relation) list" where
  "latest p resources k = (let candidates = prerequisites p resources k;
     ready = Max (set (map (finish p) candidates)) in
     filter (\<lambda>er. finish p er = ready) candidates)"

text \<open>
  The worklist loop. \<open>pending\<close> is the Python stack with its top first, so \<open>pop\<close> takes the
  head and \<open>extend\<close> pushes in reverse; a popped identifier outside the profile (impossible after
  validation) ends the loop, where Python would raise \<open>KeyError\<close>.
\<close>

lemma unselected_decreases:
  assumes "x \<in> set xs" and "x \<notin> set selected"
  shows "card (set xs - set (selected @ [x])) < card (set xs - set selected)"
  by (rule psubset_card_mono) (use assms in auto)

function observe :: "profile \<Rightarrow> bool \<Rightarrow> string list \<Rightarrow> string list \<Rightarrow> observation \<Rightarrow> observation option" where
  "observe p resources [] selected obs = Some (obs\<lparr>obs_events := selected\<rparr>)"
| "observe p resources (ident # pending) selected obs =
     (if ident \<in> set selected then observe p resources pending selected obs
      else if ident \<notin> set (event_ids p) then None
      else let selected' = selected @ [ident]; candidates = prerequisites p resources ident in
        if candidates = []
        then observe p resources pending selected' (obs\<lparr>obs_roots := obs_roots obs @ [ident]\<rparr>)
        else let ready = Max (set (map (finish p) candidates));
                 selection = latest p resources ident;
                 obs' = obs\<lparr>obs_relations := obs_relations obs @ selection\<rparr>;
                 start = ts (event_at p ident);
                 obs'' = (if ready < start
                   then obs'\<lparr>obs_gaps := obs_gaps obs' @
                     [\<lparr>gap_target = ident, gap_ts = ready, gap_dur = start - ready\<rparr>]\<rparr>
                   else obs') in
             observe p resources (rev (map (\<lambda>er. edge_source (fst er)) selection) @ pending) selected' obs'')"
  by pat_completeness auto
termination
proof (relation "measures [\<lambda>(p, _, _, selected, _). card (set (event_ids p) - set selected),
    \<lambda>(_, _, pending, _). length pending]", goal_cases)
  case 1
  show ?case by simp
next
  case 2
  then show ?case by simp
next
  case (3 p resources ident pending selected obs)
  then show ?case using unselected_decreases[of ident "event_ids p" selected] by simp
next
  case (4 p resources ident pending selected obs)
  then show ?case using unselected_decreases[of ident "event_ids p" selected] by simp
qed

definition empty_observation :: observation where
  "empty_observation = \<lparr>obs_events = [], obs_relations = [], obs_gaps = [], obs_roots = []\<rparr>"

definition observed_predecessors ::
  "profile \<Rightarrow> string \<Rightarrow> bool \<Rightarrow> (profile_error, observation) result" where
  "observed_predecessors p target resources =
     bindE (validate p) (\<lambda>_.
     bindE (ensure (target \<in> fst ` set (dict_of event_id (events p))) (Unknown_Path_Target target)) (\<lambda>_.
     case observe p resources [target] [] empty_observation of
       None \<Rightarrow> Inl Key_Error
     | Some obs \<Rightarrow>
         Inr (obs\<lparr>obs_events := sort_key (\<lambda>k. (ts (event_at p k), k)) (obs_events obs),
                  obs_roots := sort (obs_roots obs)\<rparr>)))"


section \<open>The observation is the backward closure\<close>

definition latest_rel :: "profile \<Rightarrow> bool \<Rightarrow> (string \<times> string) set" where
  "latest_rel p resources = {(edge_source (fst er), k) | er k. er \<in> set (latest p resources k)}"

definition ready_at :: "profile \<Rightarrow> bool \<Rightarrow> string \<Rightarrow> int" where
  "ready_at p resources k = Max (set (map (finish p) (prerequisites p resources k)))"

definition gaps_of :: "profile \<Rightarrow> bool \<Rightarrow> string set \<Rightarrow> gap set" where
  "gaps_of p resources K =
     {\<lparr>gap_target = k, gap_ts = ready_at p resources k,
       gap_dur = ts (event_at p k) - ready_at p resources k\<rparr> | k.
      k \<in> K \<and> prerequisites p resources k \<noteq> [] \<and> ready_at p resources k < ts (event_at p k)}"

definition roots_of :: "profile \<Rightarrow> bool \<Rightarrow> string set \<Rightarrow> string set" where
  "roots_of p resources K = {k \<in> K. prerequisites p resources k = []}"

definition relations_of :: "profile \<Rightarrow> bool \<Rightarrow> string set \<Rightarrow> (edge \<times> relation) set" where
  "relations_of p resources K = (\<Union>k\<in>K. set (latest p resources k))"

text \<open>The sets grow by the contribution of one event.\<close>

lemma closure_sets_insert:
  "roots_of p r (insert k K) = (if prerequisites p r k = [] then {k} else {}) \<union> roots_of p r K"
  "relations_of p r (insert k K) = set (latest p r k) \<union> relations_of p r K"
  "gaps_of p r (insert k K) =
     (if prerequisites p r k \<noteq> [] \<and> ready_at p r k < ts (event_at p k)
      then {\<lparr>gap_target = k, gap_ts = ready_at p r k, gap_dur = ts (event_at p k) - ready_at p r k\<rparr>}
      else {}) \<union> gaps_of p r K"
  by (auto simp: roots_of_def relations_of_def gaps_of_def)

lemma closure_sets_empty [simp]:
  "roots_of p r {} = {}" "relations_of p r {} = {}" "gaps_of p r {} = {}"
  by (auto simp: roots_of_def relations_of_def gaps_of_def)

definition observation_of :: "profile \<Rightarrow> bool \<Rightarrow> string set \<Rightarrow> observation \<Rightarrow> bool" where
  "observation_of p r K obs \<longleftrightarrow> set (obs_relations obs) = relations_of p r K \<and>
     set (obs_roots obs) = roots_of p r K \<and> set (obs_gaps obs) = gaps_of p r K"

definition worklist_inv :: "profile \<Rightarrow> bool \<Rightarrow> string \<Rightarrow> string list \<Rightarrow> string list \<Rightarrow> bool" where
  "worklist_inv p r target pending selected \<longleftrightarrow>
     set selected \<union> set pending \<subseteq> {k. (k, target) \<in> (latest_rel p r)\<^sup>*} \<inter> set (event_ids p) \<and>
     target \<in> set selected \<union> set pending \<and>
     (\<forall>v\<in>set selected. \<forall>u. (u, v) \<in> latest_rel p r \<longrightarrow> u \<in> set selected \<union> set pending)"

lemma latest_Nil [simp]: "prerequisites p r k = [] \<Longrightarrow> latest p r k = []"
  by (simp add: latest_def)

lemma latest_sources:
  "(u, k) \<in> latest_rel p r \<longleftrightarrow> (\<exists>er\<in>set (latest p r k). u = edge_source (fst er))"
  by (force simp: latest_rel_def)

lemma prerequisite_tagged:
  "er \<in> set (prerequisites p r k) \<Longrightarrow>
   (fst er, snd er = Resource_Order) \<in> set (tagged_edges p) \<and> edge_target (fst er) = k"
  by (auto simp: prerequisites_def tagged_edges_def split: if_splits)

lemma prerequisite_source:
  assumes "well_formed p" and "er \<in> set (prerequisites p r k)"
  shows "edge_source (fst er) \<in> set (event_ids p)"
proof -
  from prerequisite_tagged[OF assms(2)] have "(edge_source (fst er), edge_target (fst er)) \<in> depends p"
    by (force simp: depends_def ends_def)
  then show ?thesis using depends_events[OF assms(1)] by blast
qed

lemma worklist_skip:
  "worklist_inv p r t (k # pending) selected \<Longrightarrow> k \<in> set selected \<Longrightarrow> worklist_inv p r t pending selected"
  by (auto simp: worklist_inv_def)

lemma worklist_select:
  assumes "well_formed p" and "worklist_inv p r t (k # pending) selected"
  shows "worklist_inv p r t (rev (map (\<lambda>er. edge_source (fst er)) (latest p r k)) @ pending) (selected @ [k])"
proof -
  have preds: "edge_source (fst er) \<in> set (event_ids p) \<and> (edge_source (fst er), t) \<in> (latest_rel p r)\<^sup>*"
    if "er \<in> set (latest p r k)" for er
  proof
    from that show "edge_source (fst er) \<in> set (event_ids p)"
      by (intro prerequisite_source[OF assms(1)]) (auto simp: latest_def Let_def)
    have "(edge_source (fst er), k) \<in> latest_rel p r" using that by (auto simp: latest_sources)
    moreover have "(k, t) \<in> (latest_rel p r)\<^sup>*" using assms(2) by (simp add: worklist_inv_def)
    ultimately show "(edge_source (fst er), t) \<in> (latest_rel p r)\<^sup>*"
      by (rule converse_rtrancl_into_rtrancl)
  qed
  have closed: "u \<in> set (selected @ [k]) \<union> set (rev (map (\<lambda>er. edge_source (fst er)) (latest p r k)) @ pending)"
    if "v \<in> set (selected @ [k])" "(u, v) \<in> latest_rel p r" for u v
  proof (cases "v = k")
    case True
    with that(2) show ?thesis by (auto simp: latest_sources)
  next
    case False
    with that assms(2) have "u \<in> set selected \<union> set (k # pending)"
      unfolding worklist_inv_def by auto
    then show ?thesis by auto
  qed
  show ?thesis
    unfolding worklist_inv_def
  proof (intro conjI)
    show "\<forall>v\<in>set (selected @ [k]). \<forall>u. (u, v) \<in> latest_rel p r \<longrightarrow>
        u \<in> set (selected @ [k]) \<union> set (rev (map (\<lambda>er. edge_source (fst er)) (latest p r k)) @ pending)"
      using closed by blast
  qed (use assms(2) preds in \<open>auto simp: worklist_inv_def\<close>)
qed

lemma worklist_done:
  assumes "worklist_inv p r t [] selected"
  shows "set selected = {k. (k, t) \<in> (latest_rel p r)\<^sup>*}"
proof
  show "set selected \<subseteq> {k. (k, t) \<in> (latest_rel p r)\<^sup>*}"
    using assms by (auto simp: worklist_inv_def)
  have "k \<in> set selected" if "(k, t) \<in> (latest_rel p r)\<^sup>*" for k
    using that by (induction rule: converse_rtrancl_induct) (use assms in \<open>auto simp: worklist_inv_def\<close>)
  then show "{k. (k, t) \<in> (latest_rel p r)\<^sup>*} \<subseteq> set selected" by blast
qed

lemma observe_spec:
  assumes "well_formed p" and "worklist_inv p r t pending selected"
    and "observation_of p r (set selected) obs"
  shows "\<exists>obs'. observe p r pending selected obs = Some obs' \<and>
    set (obs_events obs') = {k. (k, t) \<in> (latest_rel p r)\<^sup>*} \<and>
    observation_of p r (set (obs_events obs')) obs'"
  using assms
proof (induction p r pending selected obs rule: observe.induct)
  case (1 p r selected obs)
  then show ?case using worklist_done[OF 1(2)] by (simp add: observation_of_def)
next
  case (2 p r k pending selected obs)
  have ids: "k \<in> set (event_ids p)" using 2(5) by (simp add: worklist_inv_def)
  show ?case
  proof (cases "k \<in> set selected")
    case True
    with 2(1)[OF True 2(4) worklist_skip[OF 2(5) True] 2(6)] show ?thesis by simp
  next
    case new: False
    note sel = worklist_select[OF 2(4,5)]
    show ?thesis
    proof (cases "prerequisites p r k = []")
      case True
      have obs: "observation_of p r (set (selected @ [k])) (obs\<lparr>obs_roots := obs_roots obs @ [k]\<rparr>)"
        using 2(6) True by (auto simp: observation_of_def closure_sets_insert)
      with 2(2)[OF new _ refl refl True 2(4) _ obs] sel ids new True show ?thesis by simp
    next
      case False
      let ?obs' = "obs\<lparr>obs_relations := obs_relations obs @ latest p r k\<rparr>"
      let ?obs'' = "if ready_at p r k < ts (event_at p k)
        then ?obs'\<lparr>obs_gaps := obs_gaps ?obs' @ [\<lparr>gap_target = k, gap_ts = ready_at p r k,
               gap_dur = ts (event_at p k) - ready_at p r k\<rparr>]\<rparr> else ?obs'"
      have obs: "observation_of p r (set (selected @ [k])) ?obs''"
        using 2(6) False by (auto simp: observation_of_def closure_sets_insert)
      have "observe p r (k # pending) selected obs =
          observe p r (rev (map (\<lambda>er. edge_source (fst er)) (latest p r k)) @ pending) (selected @ [k]) ?obs''"
        using new ids False by (simp add: Let_def ready_at_def)
      with 2(3)[OF new _ refl refl False refl refl refl refl refl 2(4) sel, folded ready_at_def, OF _ obs] ids
      show ?thesis by simp
    qed
  qed
qed

lemma worklist_start:
  "t \<in> set (event_ids p) \<Longrightarrow> worklist_inv p r t [t] []"
  by (simp add: worklist_inv_def)

lemma observed_predecessors_closure:
  assumes v: "validate p = Inr order" and t: "target \<in> set (event_ids p)"
  shows "\<exists>obs. observed_predecessors p target r = Inr obs \<and>
    set (obs_events obs) = {k. (k, target) \<in> (latest_rel p r)\<^sup>*} \<and>
    observation_of p r (set (obs_events obs)) obs"
proof -
  note wf = validate_order(1)[OF v]
  have "observation_of p r (set []) empty_observation"
    by (simp add: observation_of_def empty_observation_def)
  from observe_spec[OF wf worklist_start[OF t] this] obtain obs where
    o: "observe p r [target] [] empty_observation = Some obs"
      "set (obs_events obs) = {k. (k, target) \<in> (latest_rel p r)\<^sup>*}"
      "observation_of p r (set (obs_events obs)) obs" by blast
  have "target \<in> fst ` set (dict_of event_id (events p))"
    using t dict_events(2)[of p] wf by (metis well_formed_def list.set_map)
  then have "observed_predecessors p target r = Inr (obs\<lparr>
      obs_events := sort_key (\<lambda>k. (ts (event_at p k), k)) (obs_events obs), obs_roots := sort (obs_roots obs)\<rparr>)"
    using v o(1) by (simp add: observed_predecessors_def ensure_def)
  with o(2,3) show ?thesis by (simp add: observation_of_def)
qed

text \<open>A prerequisite never finishes after its consumer starts, so a gap is exactly the rest.\<close>

lemma ready_before_start:
  assumes "well_formed p" and "prerequisites p r k \<noteq> []"
  shows "ready_at p r k \<le> ts (event_at p k)"
proof -
  have "finish p er \<le> ts (event_at p k)" if "er \<in> set (prerequisites p r k)" for er
  proof -
    have "dependency_ok (dict_of event_id (events p)) (fst er, snd er = Resource_Order)"
      using assms(1) prerequisite_tagged[OF that] by (auto simp: well_formed_def)
    with prerequisite_tagged[OF that] show ?thesis by (auto simp: dependency_ok_def finish_def event_at_def Let_def)
  qed
  with assms(2) show ?thesis by (simp add: ready_at_def)
qed

end
