(* ===== verification/Profile_Window.thy ===== *)
theory Profile_Window
  imports Profile_Paths
begin

text \<open>
  Derived profiles of \<open>tools/erl_hls_tools/hls_profile.py\<close>: \<open>window\<close> keeps the complete events of an
  interval, with what it left out counted and the counter values at its start carried over;
  \<open>observed_overlay\<close> adds visually separate copies of the latest prerequisites of an event.
\<close>

section \<open>Windows\<close>

definition complete_in :: "int \<Rightarrow> int \<Rightarrow> event \<Rightarrow> bool" where
  "complete_in start stop e \<longleftrightarrow> start \<le> ts e \<and> ts e + shown e < stop"

definition inside_edge :: "string list \<Rightarrow> edge \<Rightarrow> bool" where
  "inside_edge ids e \<longleftrightarrow> edge_source e \<in> set ids \<and> edge_target e \<in> set ids"

definition boundary_count :: "string list \<Rightarrow> edge list \<Rightarrow> nat" where
  "boundary_count ids es = length (filter (\<lambda>e. (edge_source e \<in> set ids) \<noteq> (edge_target e \<in> set ids)) es)"

definition series :: "counter \<Rightarrow> string \<times> string" where
  "series c = (counter_track c, counter_series c)"

abbreviation sample_ts :: "counter \<Rightarrow> int" where "sample_ts c \<equiv> as_int (counter_ts c)"

text \<open>The loop over the samples: those inside, and the last one of each series before the window.\<close>

definition sort_sample ::
  "int \<Rightarrow> int \<Rightarrow> counter list \<times> (string \<times> string, counter) dict \<Rightarrow> counter \<Rightarrow>
   counter list \<times> (string \<times> string, counter) dict" where
  "sort_sample start stop st c = (let (inside, prior) = st in
     if start \<le> sample_ts c \<and> sample_ts c < stop then (inside @ [c], prior)
     else if sample_ts c < start
     then (case map_of prior (series c) of
         None \<Rightarrow> (inside, AList.update (series c) c prior)
       | Some old \<Rightarrow> if sample_ts old < sample_ts c then (inside, AList.update (series c) c prior) else st)
     else st)"

definition carried :: "int \<Rightarrow> counter \<Rightarrow> counter" where
  "carried start c = c\<lparr>counter_ts := JInt start, counter_original_ts := Some (counter_ts c)\<rparr>"

definition window_counters :: "int \<Rightarrow> int \<Rightarrow> counter list \<Rightarrow> counter list" where
  "window_counters start stop cs =
     (let (inside, prior) = foldl (sort_sample start stop) ([], []) cs in
      inside @ map (carried start) (filter (\<lambda>s. \<not> list_ex (\<lambda>c. series c = series s \<and> sample_ts c = start) inside)
        (map snd prior)))"

definition scope_of :: "(string, json) dict \<Rightarrow> string \<Rightarrow> (profile_error, string) result" where
  "scope_of meta fallback = (case map_of meta ''dependency_scope'' of
      None \<Rightarrow> Inr fallback | Some (JStr s) \<Rightarrow> Inr s | Some _ \<Rightarrow> Inl Scope_Type_Error)"

definition window :: "profile \<Rightarrow> int \<Rightarrow> int \<Rightarrow> (profile_error, profile) result" where
  "window p start stop =
     bindE (validate p) (\<lambda>_.
     bindE (ensure (\<not> stop \<le> start) Empty_Window) (\<lambda>_.
     let kept = filter (complete_in start stop) (events p); ids = map event_id kept;
         boundary = boundary_count ids (edges p);
         meta = AList.update ''omitted_resource_boundaries'' (JInt (int (boundary_count ids (resource_dependencies p))))
           (AList.update ''omitted_boundary_edges'' (JInt (int boundary))
           (AList.update ''window_ns'' (JArr [JInt start, JInt stop]) (metadata p))) in
     bindE (scope_of meta ''recorded dependencies only'') (\<lambda>scope.
     Inr (p\<lparr>events := kept, edges := filter (inside_edge ids) (edges p),
       counters := window_counters start stop (counters p),
       resource_dependencies := filter (inside_edge ids) (resource_dependencies p),
       metadata := AList.update ''dependency_scope''
         (JStr (''window ('' @ show_nat boundary @ '' boundary dependencies omitted); '' @ scope)) meta\<rparr>))))"

section \<open>Overlays\<close>

definition edge_json :: "edge \<times> relation \<Rightarrow> json" where
  "edge_json er = (let e = fst er; field = (\<lambda>k v. case v of None \<Rightarrow> [] | Some x \<Rightarrow> [(k, x)]) in
     JObj ([(''source'', JStr (edge_source e)), (''target'', JStr (edge_target e)), (''kind'', JStr (edge_kind e))] @
       field ''delay_ns'' (edge_delay e) @ field ''evidence'' (edge_evidence e) @ field ''resource'' (edge_resource e) @
       [(''relation'', JStr (case snd er of Causal \<Rightarrow> ''causal'' | Resource_Order \<Rightarrow> ''resource''))]))"

definition observation_json :: "profile \<Rightarrow> string \<Rightarrow> bool \<Rightarrow> observation \<Rightarrow> json" where
  "observation_json p target resources obs = JObj
     [(''target'', JStr target), (''events'', JArr (map JStr (obs_events obs))),
      (''relations'', JArr (map edge_json (obs_relations obs))),
      (''unexplained_gaps'', JArr (map (\<lambda>g. JObj [(''target'', JStr (gap_target g)), (''ts'', JInt (gap_ts g)),
         (''dur'', JInt (gap_dur g))]) (obs_gaps obs))),
      (''boundary_roots'', JArr (map JStr (obs_roots obs))), (''includes_resource_order'', JBool resources),
      (''scope'', case map_of (metadata p) ''dependency_scope'' of None \<Rightarrow> JStr ''recorded prerequisites only'' | Some s \<Rightarrow> s)]"

definition overlay_prefix :: string where "overlay_prefix = ''observed-overlay/''"

definition overlay_event :: "profile \<Rightarrow> string \<Rightarrow> observation \<Rightarrow> string \<Rightarrow> event" where
  "overlay_event p target obs k = (let e = event_at p k in
     e\<lparr>event_id := overlay_prefix @ k, event_track := overlay_prefix @ event_track e,
       event_args := [(''original_args'', JObj (event_args e)), (''original_event'', JStr k),
         (''overlay_target'', JStr target),
         (''unexplained_before_ns'', JInt (case map_of (dict_of gap_target (obs_gaps obs)) k of None \<Rightarrow> 0 | Some g \<Rightarrow> gap_dur g))]\<rparr>)"

definition observed_overlay :: "profile \<Rightarrow> string \<Rightarrow> bool \<Rightarrow> (profile_error, profile) result" where
  "observed_overlay p target resources =
     bindE (observed_predecessors p target resources) (\<lambda>obs.
     let chosen = map (\<lambda>k. event_track (event_at p k)) (obs_events obs) in
     bindE (ensure (\<not> (list_ex (\<lambda>t. prefix overlay_prefix (track_id t)) (tracks p) \<or>
        list_ex (\<lambda>e. prefix overlay_prefix (event_id e)) (events p))) Existing_Overlay) (\<lambda>_.
     let group = (if resources then ''Observed schedule overlay'' else ''Latest causal predecessors overlay'');
         copies = map (\<lambda>t. t\<lparr>track_id := overlay_prefix @ track_id t, track_group := Some group\<rparr>)
           (filter (\<lambda>t. track_id t \<in> set chosen) (tracks p))
     in Inr (p\<lparr>tracks := copies @ tracks p,
          events := map (overlay_event p target obs) (obs_events obs) @ events p,
          metadata := AList.update ''observed_overlay'' (observation_json p target resources obs) (metadata p)\<rparr>)))"

section \<open>The counters of a window\<close>

text \<open>After the loop: the samples inside, in order, and for each series its earliest latest sample before.\<close>

definition latest_before :: "int \<Rightarrow> counter list \<Rightarrow> counter \<Rightarrow> bool" where
  "latest_before start cs c \<longleftrightarrow> c \<in> set cs \<and> sample_ts c < start \<and>
     (\<forall>d\<in>set cs. series d = series c \<longrightarrow> sample_ts d < start \<longrightarrow> sample_ts d \<le> sample_ts c)"

definition sorted_samples ::
  "int \<Rightarrow> int \<Rightarrow> counter list \<Rightarrow> counter list \<times> (string \<times> string, counter) dict \<Rightarrow> bool" where
  "sorted_samples start stop cs st \<longleftrightarrow>
     fst st = filter (\<lambda>c. start \<le> sample_ts c \<and> sample_ts c < stop) cs \<and>
     distinct (map fst (snd st)) \<and>
     (\<forall>(k, c)\<in>set (snd st). k = series c \<and> latest_before start cs c) \<and>
     (\<forall>c\<in>set cs. sample_ts c < start \<longrightarrow> series c \<in> fst ` set (snd st))"

lemma latest_before_snoc:
  "latest_before start (cs @ [c]) d \<longleftrightarrow>
     (if d \<in> set cs \<or> d = c then sample_ts d < start \<and>
        (\<forall>e\<in>set cs. series e = series d \<longrightarrow> sample_ts e < start \<longrightarrow> sample_ts e \<le> sample_ts d) \<and>
        (series c = series d \<longrightarrow> sample_ts c < start \<longrightarrow> sample_ts c \<le> sample_ts d) else False)"
  by (auto simp: latest_before_def)

lemma sort_sample_step:
  assumes "sorted_samples start stop cs st"
  shows "sorted_samples start stop (cs @ [c]) (sort_sample start stop st c)"
proof -
  obtain kept prior where st: "st = (kept, prior)" by fastforce
  from assms have d: "distinct (map fst prior)"
    and vals: "\<And>k s. (k, s) \<in> set prior \<Longrightarrow> k = series s \<and> latest_before start cs s"
    and keys: "\<And>s. s \<in> set cs \<Longrightarrow> sample_ts s < start \<Longrightarrow> series s \<in> fst ` set prior"
    and kept: "kept = filter (\<lambda>c. start \<le> sample_ts c \<and> sample_ts c < stop) cs"
    by (auto simp: sorted_samples_def st)
  consider "start \<le> sample_ts c" | "sample_ts c < start" "map_of prior (series c) = None"
    | old where "sample_ts c < start" "map_of prior (series c) = Some old"
    by (cases "map_of prior (series c)") force+
  then show ?thesis
  proof cases
    case 1
    then have "latest_before start (cs @ [c]) s" if "(k, s) \<in> set prior" for k s
      using vals[OF that] by (auto simp: latest_before_def)
    with 1 d vals keys kept show ?thesis
      by (auto simp: sorted_samples_def sort_sample_def st)
  next
    case 2
    then have new: "series c \<notin> fst ` set prior" by (simp add: map_of_eq_None_iff)
    have absent: "series d \<noteq> series c" if "d \<in> set cs" "sample_ts d < start" for d
      using keys[OF that] new by metis
    have first: "latest_before start (cs @ [c]) c"
      using 2 absent by (auto simp: latest_before_def)
    have "latest_before start (cs @ [c]) s" if "(k, s) \<in> set prior" for k s
      using vals[OF that] absent[of s] by (auto simp: latest_before_def)
    with first 2 d vals keys kept new show ?thesis
      by (auto simp: sorted_samples_def sort_sample_def st update_new)
  next
    case (3 old)
    then have old: "(series c, old) \<in> set prior" by (simp add: map_of_SomeD)
    show ?thesis
    proof (cases "sample_ts old < sample_ts c")
      case True
      have first: "latest_before start (cs @ [c]) c"
        using 3 vals[OF old] True by (fastforce simp: latest_before_def)
      have "latest_before start (cs @ [c]) s" if "(k, s) \<in> set prior" "k \<noteq> series c" for k s
        using vals[OF that(1)] that(2) by (auto simp: latest_before_def)
      with first 3 True d vals keys kept show ?thesis
        by (auto simp: sorted_samples_def sort_sample_def st set_update keys_except distinct_update)
    next
      case False
      have "latest_before start (cs @ [c]) s" if "(k, s) \<in> set prior" for k s
      proof (cases "series s = series c")
        case True
        then have "s = old" using vals[OF that] old that d by (metis map_of_is_SomeI option.inject)
        with vals[OF that] False show ?thesis by (auto simp: latest_before_def)
      next
        case False
        with vals[OF that] show ?thesis by (auto simp: latest_before_def)
      qed
      with 3 False d vals keys kept old show ?thesis
        by (auto simp: sorted_samples_def sort_sample_def st intro: rev_image_eqI)
    qed
  qed
qed

lemma sort_samples: "sorted_samples start stop cs (foldl (sort_sample start stop) ([], []) cs)"
  by (induction cs rule: rev_induct) (simp_all add: sort_sample_step, simp add: sorted_samples_def)

text \<open>The samples of the result: those inside, and at the start the latest earlier one of every series.\<close>

lemma window_counters_iff:
  "c \<in> set (window_counters start stop cs) \<longleftrightarrow>
     c \<in> set cs \<and> start \<le> sample_ts c \<and> sample_ts c < stop \<or>
     (\<exists>s. c = carried start s \<and> (series s, s) \<in> set (snd (foldl (sort_sample start stop) ([], []) cs)) \<and>
        \<not> (\<exists>d\<in>set cs. start \<le> sample_ts d \<and> sample_ts d < stop \<and> series d = series s \<and> sample_ts d = start))"
proof -
  obtain kept prior where st: "foldl (sort_sample start stop) ([], []) cs = (kept, prior)" by fastforce
  with sort_samples[of start stop cs] have
    "kept = filter (\<lambda>c. start \<le> sample_ts c \<and> sample_ts c < stop) cs"
    and keyed: "\<And>k s. (k, s) \<in> set prior \<Longrightarrow> k = series s"
    by (auto simp: sorted_samples_def)
  then have kept: "d \<in> set kept \<longleftrightarrow> d \<in> set cs \<and> start \<le> sample_ts d \<and> sample_ts d < stop" for d by simp
  from keyed have prior: "s \<in> snd ` set prior \<longleftrightarrow> (series s, s) \<in> set prior" for s by force
  have "c \<in> set (window_counters start stop cs) \<longleftrightarrow> c \<in> set kept \<or>
      (\<exists>s. c = carried start s \<and> s \<in> snd ` set prior \<and> \<not> (\<exists>d\<in>set kept. series d = series s \<and> sample_ts d = start))"
    unfolding window_counters_def st Let_def prod.case set_append set_map set_filter list_ex_iff
      Un_iff image_iff[of c] mem_Collect_eq Bex_def[of "{x \<in> snd ` set prior. P x}" for P] by (rule disj_cong) auto
  then show ?thesis by (simp add: kept prior st Bex_def conj_assoc)
qed

lemma carried_simps [simp]:
  "series (carried start c) = series c" "counter_value (carried start c) = counter_value c"
  "counter_ts (carried start c) = JInt start" "counter_track (carried start c) = counter_track c"
  by (simp_all add: carried_def series_def)

lemma window_counters_sources:
  assumes "c \<in> set (window_counters start stop cs)" and "start < stop"
  shows "start \<le> sample_ts c \<and> sample_ts c < stop \<and>
    (c \<in> set cs \<or> (\<exists>s. c = carried start s \<and> latest_before start cs s))"
proof -
  from sort_samples[of start stop cs] have
    "(k, s) \<in> set (snd (foldl (sort_sample start stop) ([], []) cs)) \<Longrightarrow> latest_before start cs s" for k s
    by (auto simp: sorted_samples_def)
  moreover have "sample_ts (carried start s) = start" for s by (simp add: as_int_def)
  ultimately show ?thesis using assms unfolding window_counters_iff by (metis order_refl)
qed

text \<open>A series sampled before the window has a sample at its start.\<close>

lemma window_counters_start:
  assumes "c \<in> set cs" and "sample_ts c < start" and "start < stop"
  shows "\<exists>d\<in>set (window_counters start stop cs). series d = series c \<and> sample_ts d = start"
proof -
  from sort_samples[of start stop cs] assms(1,2) have
    "series c \<in> fst ` set (snd (foldl (sort_sample start stop) ([], []) cs))"
    by (simp add: sorted_samples_def)
  then obtain s where s: "(series c, s) \<in> set (snd (foldl (sort_sample start stop) ([], []) cs))" by force
  with sort_samples[of start stop cs] have keyed: "series s = series c"
    by (fastforce simp: sorted_samples_def)
  show ?thesis
  proof (cases "\<exists>d\<in>set cs. start \<le> sample_ts d \<and> sample_ts d < stop \<and> series d = series s \<and> sample_ts d = start")
    case True
    with keyed show ?thesis by (metis window_counters_iff)
  next
    case False
    with s keyed have "carried start s \<in> set (window_counters start stop cs)"
      unfolding window_counters_iff by metis
    then show ?thesis using keyed by (intro bexI[of _ "carried start s"]) (simp_all add: as_int_def)
  qed
qed

lemma window_counters_valid:
  assumes "\<forall>c\<in>set cs. check_counter tids c = Inr ()" and "start < stop" and "start \<le> 2 ^ 52"
  shows "\<forall>c\<in>set (window_counters start stop cs). check_counter tids c = Inr ()"
proof
  fix c assume c: "c \<in> set (window_counters start stop cs)"
  from window_counters_sources[OF c assms(2)] consider "c \<in> set cs"
    | s where "c = carried start s" "latest_before start cs s" by blast
  then show "check_counter tids c = Inr ()"
  proof cases
    case 1
    with assms(1) show ?thesis by blast
  next
    case (2 s)
    then have "check_counter tids s = Inr ()" "sample_ts s < start"
      using assms(1) by (auto simp: latest_before_def)
    with 2 assms(3) show ?thesis
      by (auto simp: check_counter_def bindE_Inr is_int_def as_int_def)
  qed
qed

section \<open>A window of a valid profile is a valid profile\<close>

lemma map_of_events:
  assumes "distinct (map event_id es)"
  shows "map_of (dict_of event_id es) k = Some e \<longleftrightarrow> e \<in> set es \<and> event_id e = k"
proof -
  have "distinct (map fst (map (\<lambda>e. (event_id e, e)) es))" using assms by (simp add: comp_def)
  then show ?thesis by (auto simp: dict_of_distinct[OF assms])
qed

text \<open>Restricting the events keeps a dependency between two of those that stay.\<close>

lemma dependency_ok_restrict:
  assumes "dependency_ok (dict_of event_id es) er" and "distinct (map event_id es)"
    and "inside_edge (map event_id (filter P es)) (fst er)"
  shows "dependency_ok (dict_of event_id (filter P es)) er"
proof -
  have d: "distinct (map event_id (filter P es))" using assms(2) by (simp add: distinct_map_filter)
  have same: "e \<in> set (filter P es)" if "e \<in> set es" "event_id e \<in> set (map event_id (filter P es))" for e
    using that assms(2) by (auto simp: distinct_map inj_on_def)
  have keep: "map_of (dict_of event_id (filter P es)) k = Some e"
    if "map_of (dict_of event_id es) k = Some e" "k \<in> set (map event_id (filter P es))" for k e
    using that same[of e] unfolding map_of_events[OF d] map_of_events[OF assms(2)] by blast
  obtain a b where ab: "map_of (dict_of event_id es) (edge_source (fst er)) = Some a"
    "map_of (dict_of event_id es) (edge_target (fst er)) = Some b"
    "ts a + dur a + delay (fst er) \<le> ts b"
    using assms(1) unfolding dependency_ok_def Let_def by blast
  with keep[OF ab(1)] keep[OF ab(2)] assms(1,3) show ?thesis
    unfolding dependency_ok_def Let_def inside_edge_def by blast
qed

lemma window_tagged:
  assumes "edges w = filter P (edges p)" and "resource_dependencies w = filter P (resource_dependencies p)"
  shows "tagged_edges w = filter (\<lambda>er. P (fst er)) (tagged_edges p)"
  using assms by (simp add: tagged_edges_def filter_map comp_def)

lemma window_parts:
  assumes "window p start stop = Inr w"
  shows "start < stop" and "events w = filter (complete_in start stop) (events p)"
    and "edges w = filter (inside_edge (event_ids w)) (edges p)"
    and "resource_dependencies w = filter (inside_edge (event_ids w)) (resource_dependencies p)"
    and "counters w = window_counters start stop (counters p)"
    and "schema w = schema p" and "time_unit w = time_unit p" and "tracks w = tracks p"
  using assms by (auto simp: window_def bindE_Inr Let_def)

lemma window_well_formed:
  assumes wf: "well_formed p" and w: "window p start stop = Inr w" and "start \<le> 2 ^ 52"
  shows "well_formed w" and "depends w \<subseteq> depends p"
proof -
  note parts = window_parts[OF w]
  note tagged = window_tagged[OF parts(3,4)]
  from wf have d: "distinct (event_ids p)" by (simp add: well_formed_def)
  have "\<forall>er\<in>set (tagged_edges w). dependency_ok (dict_of event_id (events w)) er"
    using wf dependency_ok_restrict[OF _ d] unfolding tagged parts(2) well_formed_def by auto
  moreover have "separated (events w)"
    using wf unfolding well_formed_def separated_def parts(2) by simp
  moreover have "distinct (map ends (tagged_edges w))"
    unfolding tagged using wf by (simp add: well_formed_def distinct_map_filter)
  moreover have "\<forall>c\<in>set (counters w). check_counter (map track_id (tracks w)) c = Inr ()"
    unfolding parts by (rule window_counters_valid[OF _ parts(1) assms(3)]) (use wf in \<open>simp add: well_formed_def\<close>)
  moreover have "distinct (event_ids w)" "\<forall>e\<in>set (events w). event_ok (map track_id (tracks p)) e"
    using wf by (auto simp: well_formed_def parts(2) distinct_map_filter)
  ultimately show "well_formed w"
    using wf by (simp add: well_formed_def parts(6-8))
  show "depends w \<subseteq> depends p"
    unfolding depends_def tagged by auto
qed

lemma window_validates:
  assumes "validate p = Inr order" and "window p start stop = Inr w" and "start \<le> 2 ^ 52"
  shows "\<exists>order'. validate w = Inr order'"
proof -
  note W = window_well_formed[OF validate_order(1)[OF assms(1)] assms(2,3)]
  with validate_order(2)[OF assms(1)] have "acyclic (depends w)" by (blast intro: acyclic_subset)
  with W(1) show ?thesis by (rule validate_accepts)
qed

text \<open>A start beyond the largest time makes the carried samples late, and the window invalid.\<close>

lemma carried_late: "2 ^ 52 < start \<Longrightarrow> check_counter tids (carried start c) \<noteq> Inr ()"
  by (auto simp: check_counter_def bindE_Inr as_int_def)

section \<open>An overlay keeps a profile valid\<close>

lemma observe_distinct:
  "observe p r pending selected obs = Some obs' \<Longrightarrow> distinct selected \<Longrightarrow> distinct (obs_events obs')"
  by (induction p r pending selected obs rule: observe.induct) (auto simp: Let_def split: if_splits)

lemma observed_distinct:
  "observed_predecessors p target r = Inr obs \<Longrightarrow> distinct (obs_events obs)"
  by (auto simp: observed_predecessors_def bindE_Inr simp del: observe.simps split: option.splits
      dest!: observe_distinct)

lemma observed_members:
  assumes "validate p = Inr order" and "observed_predecessors p target r = Inr obs"
  shows "set (obs_events obs) \<subseteq> set (event_ids p)"
proof -
  note wf = validate_order(1)[OF assms(1)]
  have "target \<in> fst ` set (dict_of event_id (events p))"
    using assms(2) by (auto simp: observed_predecessors_def bindE_Inr ensure_def split: if_splits)
  with wf have t: "target \<in> set (event_ids p)" using dict_events(2)[of p] by (metis well_formed_def list.set_map)
  have "set (obs_events obs) = {k. (k, target) \<in> (latest_rel p r)\<^sup>*}"
    using observed_predecessors_closure[OF assms(1) t, of r] assms(2) by auto
  moreover have "k \<in> set (event_ids p)" if "(k, target) \<in> (latest_rel p r)\<^sup>*" for k
    using that
  proof (induction rule: converse_rtrancl_induct)
    case (step u v)
    then obtain er where "er \<in> set (prerequisites p r v)" "u = edge_source (fst er)"
      by (auto simp: latest_sources latest_def Let_def)
    with prerequisite_source[OF wf] show ?case by blast
  qed (rule t)
  ultimately show ?thesis by blast
qed

lemma event_at_member:
  assumes "distinct (event_ids p)" and "k \<in> set (event_ids p)"
  shows "event_at p k \<in> set (events p)" and "event_id (event_at p k) = k"
proof -
  from assms obtain e where e: "e \<in> set (events p)" "event_id e = k" by auto
  then have "map_of (dict_of event_id (events p)) k = Some e" by (simp add: map_of_events[OF assms(1)])
  then have "event_at p k = e" by (simp add: event_at_def)
  with e show "event_at p k \<in> set (events p)" "event_id (event_at p k) = k" by simp_all
qed

lemma overlay_event_simps [simp]:
  "event_id (overlay_event p t obs k) = overlay_prefix @ k"
  "event_track (overlay_event p t obs k) = overlay_prefix @ event_track (event_at p k)"
  "event_ts (overlay_event p t obs k) = event_ts (event_at p k)"
  "event_dur (overlay_event p t obs k) = event_dur (event_at p k)"
  "display_duration (overlay_event p t obs k) = display_duration (event_at p k)"
  by (simp_all add: overlay_event_def display_duration_def Let_def split: option.split)

lemma overlay_event_args:
  "set reserved_arguments \<inter> fst ` set (event_args (overlay_event p t obs k)) = {}"
  by (simp add: overlay_event_def Let_def reserved_arguments_def)

lemma overlay_precedes:
  "precedes (overlay_event p t obs j) (overlay_event p t obs k) \<longleftrightarrow> precedes (event_at p j) (event_at p k)"
  by (simp add: precedes_def)

lemma overlay_parts:
  assumes "observed_overlay p target r = Inr q"
  obtains obs copies where "observed_predecessors p target r = Inr obs"
    and "\<forall>t\<in>set (tracks p). \<not> prefix overlay_prefix (track_id t)"
    and "\<forall>e\<in>set (events p). \<not> prefix overlay_prefix (event_id e)"
    and "map track_id copies = map ((@) overlay_prefix)
      (filter (\<lambda>t. t \<in> set (map (\<lambda>k. event_track (event_at p k)) (obs_events obs))) (map track_id (tracks p)))"
    and "tracks q = copies @ tracks p" and "events q = map (overlay_event p target obs) (obs_events obs) @ events p"
    and "edges q = edges p" and "resource_dependencies q = resource_dependencies p"
    and "counters q = counters p" and "schema q = schema p" and "time_unit q = time_unit p"
  using assms
  by (force simp: observed_overlay_def bindE_Inr Let_def list_ex_iff filter_map comp_def)

lemma overlay_separated:
  assumes wf: "well_formed p" and ks: "set ks \<subseteq> set (event_ids p)"
    and free: "\<forall>t\<in>set (tracks p). \<not> prefix overlay_prefix (track_id t)"
  shows "separated (map (overlay_event p t obs) ks @ events p)"
proof -
  have d: "distinct (event_ids p)" and sep: "separated (events p)" using wf by (simp_all add: well_formed_def)
  have known: "event_track e \<in> set (map track_id (tracks p))" if "e \<in> set (events p)" for e
    using wf that by (auto simp: well_formed_def event_ok_def)
  have apart: "event_track e \<noteq> overlay_prefix @ x" if "e \<in> set (events p)" for e x
    using known[OF that] free by (metis (no_types, lifting) image_iff list.set_map prefixI)
  have copies: "precedes (overlay_event p t obs j) (overlay_event p t obs k) \<or>
      precedes (overlay_event p t obs k) (overlay_event p t obs j)"
    if "j \<in> set ks" "k \<in> set ks" "j \<noteq> k" "event_track (event_at p j) = event_track (event_at p k)" for j k
  proof -
    have "event_at p j \<in> set (events p)" "event_at p k \<in> set (events p)" "event_at p j \<noteq> event_at p k"
      using event_at_member[OF d] that ks by (metis subsetD)+
    with sep that(4) show ?thesis unfolding separated_def overlay_precedes by blast
  qed
  show ?thesis
    unfolding separated_def
  proof (intro ballI impI)
    fix a b assume a: "a \<in> set (map (overlay_event p t obs) ks @ events p)"
      and b: "b \<in> set (map (overlay_event p t obs) ks @ events p)"
      and ab: "a \<noteq> b \<and> event_track a = event_track b"
    from a consider j where "j \<in> set ks" "a = overlay_event p t obs j" | "a \<in> set (events p)" by auto
    then show "precedes a b \<or> precedes b a"
    proof cases
      case (1 j)
      with ab have "b \<notin> set (events p)" using apart[of b] by (metis overlay_event_simps(2))
      with b obtain k where "k \<in> set ks" "b = overlay_event p t obs k" by auto
      with 1 ab show ?thesis using copies[of j k] by auto
    next
      case 2
      with ab have "\<nexists>k. b = overlay_event p t obs k" using apart[of a] by (metis overlay_event_simps(2))
      with b have "b \<in> set (events p)" by auto
      with 2 ab sep show ?thesis unfolding separated_def by blast
    qed
  qed
qed

lemma check_counter_mono:
  "check_counter tids c = Inr () \<Longrightarrow> set tids \<subseteq> set tids' \<Longrightarrow> check_counter tids' c = Inr ()"
  by (auto simp: check_counter_def bindE_Inr)

lemma event_ok_mono: "event_ok tids e \<Longrightarrow> set tids \<subseteq> set tids' \<Longrightarrow> event_ok tids' e"
  by (auto simp: event_ok_def)

lemma overlay_event_ok:
  assumes "event_ok tids (event_at p k)" and "overlay_prefix @ event_track (event_at p k) \<in> set tids'"
  shows "event_ok tids' (overlay_event p t obs k)"
  using assms by (simp add: event_ok_def overlay_event_args)

lemma dependency_ok_extend:
  assumes "dependency_ok (dict_of event_id es) er" and "distinct (map event_id (es' @ es))"
  shows "dependency_ok (dict_of event_id (es' @ es)) er"
proof -
  have d: "distinct (map event_id es)" using assms(2) by simp
  have "map_of (dict_of event_id (es' @ es)) k = Some e" if "map_of (dict_of event_id es) k = Some e" for k e
    using that unfolding map_of_events[OF d] map_of_events[OF assms(2)] by simp
  with assms(1) show ?thesis unfolding dependency_ok_def Let_def by blast
qed

lemma overlay_validates:
  assumes v: "validate p = Inr order" and q: "observed_overlay p target r = Inr q"
  shows "\<exists>order'. validate q = Inr order'"
proof -
  note wf = validate_order(1)[OF v]
  from q obtain obs copies where o: "observed_predecessors p target r = Inr obs"
    and free: "\<forall>t\<in>set (tracks p). \<not> prefix overlay_prefix (track_id t)"
      "\<forall>e\<in>set (events p). \<not> prefix overlay_prefix (event_id e)"
    and copies: "map track_id copies = map ((@) overlay_prefix)
      (filter (\<lambda>t. t \<in> set (map (\<lambda>k. event_track (event_at p k)) (obs_events obs))) (map track_id (tracks p)))"
    and parts: "tracks q = copies @ tracks p" "events q = map (overlay_event p target obs) (obs_events obs) @ events p"
      "edges q = edges p" "resource_dependencies q = resource_dependencies p" "counters q = counters p"
      "schema q = schema p" "time_unit q = time_unit p"
    by (rule overlay_parts)
  have tagged: "tagged_edges q = tagged_edges p" by (simp add: tagged_edges_def parts)
  note ks = observed_members[OF v o] and dks = observed_distinct[OF o]
  have d: "distinct (event_ids p)" "distinct (map track_id (tracks p))" using wf by (simp_all add: well_formed_def)
  have unused: "event_id e \<noteq> overlay_prefix @ x" if "e \<in> set (events p)" for e x
    using free(2) that by (metis prefixI)
  have ids: "distinct (event_ids q)"
    unfolding parts map_append distinct_append
  proof (intro conjI)
    show "distinct (map event_id (map (overlay_event p target obs) (obs_events obs)))"
      using dks by (simp add: comp_def distinct_map inj_on_def)
    show "set (map event_id (map (overlay_event p target obs) (obs_events obs))) \<inter> set (event_ids p) = {}"
      using unused unfolding disjoint_iff by (auto dest: sym)
  qed (rule d(1))
  have tids: "distinct (map track_id (tracks q))"
    unfolding parts map_append copies distinct_append
  proof (intro conjI)
    have fresh: "overlay_prefix @ x \<notin> set (map track_id (tracks p))" for x
      using free(1) by (metis (no_types, lifting) image_iff list.set_map prefixI)
    show "set (map ((@) overlay_prefix) (filter Q (map track_id (tracks p)))) \<inter> set (map track_id (tracks p)) = {}" for Q
      using fresh unfolding disjoint_iff by auto
    show "distinct (map ((@) overlay_prefix) (filter Q (map track_id (tracks p))))" for Q
      using d(2) by (simp add: distinct_map inj_on_def del: map_map)
  qed (rule d(2))
  have old: "event_ok (map track_id (tracks p)) e" if "e \<in> set (events p)" for e
    using wf that by (simp add: well_formed_def)
  have track: "overlay_prefix @ event_track (event_at p k) \<in> set (map track_id copies)" if "k \<in> set (obs_events obs)" for k
    using old[OF event_at_member(1)[OF d(1)]] ks that unfolding copies by (auto simp: event_ok_def)
  have new: "event_ok (map track_id (tracks q)) (overlay_event p target obs k)" if "k \<in> set (obs_events obs)" for k
  proof (rule overlay_event_ok)
    show "event_ok (map track_id (tracks p)) (event_at p k)"
      using old[OF event_at_member(1)[OF d(1)]] ks that by blast
    show "overlay_prefix @ event_track (event_at p k) \<in> set (map track_id (tracks q))"
      using track[OF that] unfolding parts map_append set_append by blast
  qed
  have kept: "event_ok (map track_id (tracks q)) e" if "e \<in> set (events p)" for e
    using old[OF that] by (rule event_ok_mono) (simp add: parts)
  have "event_ok (map track_id (tracks q)) e" if "e \<in> set (events q)" for e
    using that new kept unfolding parts(2) by auto
  moreover have "separated (events q)"
    unfolding parts by (rule overlay_separated[OF wf ks free(1)])
  moreover have "check_counter (map track_id (tracks q)) c = Inr ()" if "c \<in> set (counters q)" for c
    using that wf by (auto simp: well_formed_def parts intro: check_counter_mono)
  moreover have "dependency_ok (dict_of event_id (events q)) er" if "er \<in> set (tagged_edges q)" for er
    using that wf dependency_ok_extend[OF _ ids[unfolded parts]] by (simp add: well_formed_def tagged parts)
  ultimately have "well_formed q"
    using wf ids tids by (simp add: well_formed_def tagged parts(6,7))
  moreover have "acyclic (depends q)" using validate_order(2)[OF v] by (simp add: depends_def tagged)
  ultimately show ?thesis by (rule validate_accepts)
qed

end
