(* ===== verification/Profile_Perfetto.thy ===== *)
theory Profile_Perfetto
  imports Profile_Window
begin

text \<open>
  The export of a profile to a Chrome trace (\<open>perfetto\<close> of \<open>tools/erl_hls_tools/hls_profile.py\<close>): process and
  thread names, one slice per event, a pair of flow rows per causal edge and one row per counter sample.

  A row is the dictionary of the trace with its optional keys as options. Times stay integers: the code divides
  them by 1000, and up to \<open>2 ^ 52\<close> quotients of different integers are different doubles in the same order.
  The keys of an edge come in the order of \<open>edge_object\<close>, as in the other exports.
\<close>

section \<open>Compact JSON in document order\<close>

fun compact_json :: "(double \<Rightarrow> string) \<Rightarrow> json \<Rightarrow> string" where
  "compact_json repr JNull = ''null''"
| "compact_json repr (JBool b) = (if b then ''true'' else ''false'')"
| "compact_json repr (JInt i) = show_int i"
| "compact_json repr (JFloat d) = repr d"
| "compact_json repr (JStr s) = quote_string s"
| "compact_json repr (JArr xs) = ''['' @ comma_separated (map (compact_json repr) xs) @ '']''"
| "compact_json repr (JObj kvs) =
     ''{'' @ comma_separated (map (\<lambda>(k, v). quote_string k @ '':'' @ compact_json repr v) kvs) @ ''}''"

text \<open>With \<open>ensure_ascii=False\<close> only quotes, backslashes and the characters below the space are escaped.\<close>

definition escape_plain :: "char \<Rightarrow> string" where
  "escape_plain c = (if of_char c = (127 :: nat) then [c] else escape_char c)"

definition quote_plain :: "string \<Rightarrow> string" where
  "quote_plain s = [CHR 0x22] @ concat (map escape_plain s) @ [CHR 0x22]"

definition counter_name :: "counter \<Rightarrow> string" where
  "counter_name c = ''['' @ quote_plain (counter_track c) @ '','' @ quote_plain (counter_series c) @ '']''"

section \<open>The trace\<close>

datatype phase = Slice | Flow_Start | Flow_End | Sample

fun phase_rank :: "phase \<Rightarrow> int" where
  "phase_rank Slice = 0"
| "phase_rank Flow_Start = 1"
| "phase_rank Flow_End = 2"
| "phase_rank Sample = 3"

record trace_row =
  row_phase :: phase
  row_name :: string
  row_category :: "string option"
  row_flow :: "nat option"
  row_place :: "nat \<times> nat"
  row_ts :: int
  row_dur :: "int option"
  row_encloses :: bool
  row_args :: json

datatype name_row = Process_Name nat string | Thread_Name nat nat string

record trace =
  trace_names :: "name_row list"
  trace_rows :: "trace_row list"
  trace_metadata :: "(string, json) dict"

definition key_at :: "('k, 'v) dict \<Rightarrow> 'k \<Rightarrow> (profile_error, 'v) result" where
  "key_at d k = (case map_of d k of None \<Rightarrow> Inl Key_Error | Some v \<Rightarrow> Inr v)"

definition group_of :: "track \<Rightarrow> string" where
  "group_of t = (case track_group t of None \<Rightarrow> ''HLS'' | Some g \<Rightarrow> g)"

definition processes :: "profile \<Rightarrow> (string, nat) dict" where
  "processes p = map (\<lambda>(i, g). (g, i + 1)) (enumerate 0 (uniq (map group_of (tracks p))))"

text \<open>The process and the thread of every track; identifiers are unique by now.\<close>

definition places :: "profile \<Rightarrow> (profile_error, (string, nat \<times> nat) dict) result" where
  "places p = mapE (\<lambda>(i, t). bindE (key_at (processes p) (group_of t)) (\<lambda>pid. Inr (track_id t, (pid, i + 1))))
     (enumerate 0 (tracks p))"

definition thread_name :: "(string, nat \<times> nat) dict \<Rightarrow> track \<Rightarrow> (profile_error, name_row) result" where
  "thread_name at t = bindE (key_at at (track_id t)) (\<lambda>(pid, tid). Inr (Thread_Name pid tid (track_name t)))"

definition edge_object :: "edge \<Rightarrow> json" where
  "edge_object e = (let field = (\<lambda>k v. case v of None \<Rightarrow> [] | Some x \<Rightarrow> [(k, x)]) in
     JObj ([(''source'', JStr (edge_source e)), (''target'', JStr (edge_target e)), (''kind'', JStr (edge_kind e))] @
       field ''delay_ns'' (edge_delay e) @ field ''evidence'' (edge_evidence e) @ field ''resource'' (edge_resource e)))"

definition evidence_text :: "(double \<Rightarrow> string) \<Rightarrow> string \<Rightarrow> edge list \<Rightarrow> json" where
  "evidence_text repr k es = JStr (compact_json repr (JArr (map edge_object (filter (\<lambda>e. edge_target e = k) es))))"

definition slice_args :: "(double \<Rightarrow> string) \<Rightarrow> profile \<Rightarrow> event \<Rightarrow> (string, json) dict" where
  "slice_args repr p e = foldl (\<lambda>d (k, v). AList.update k v d) (event_args e)
     [(''event_id'', JStr (event_id e)), (''duration_ns'', event_dur e), (''display_duration_ns'', display_duration e),
      (''profile_dependencies'', evidence_text repr (event_id e) (edges p)),
      (''profile_resource_dependencies'', evidence_text repr (event_id e) (resource_dependencies p))]"

definition slice_row :: "(double \<Rightarrow> string) \<Rightarrow> profile \<Rightarrow> event \<Rightarrow> nat \<times> nat \<Rightarrow> trace_row" where
  "slice_row repr p e place = \<lparr>row_phase = Slice, row_name = event_name e,
     row_category = Some (case event_category e of None \<Rightarrow> ''work'' | Some c \<Rightarrow> c), row_flow = None, row_place = place,
     row_ts = ts e, row_dur = Some (shown e), row_encloses = False, row_args = JObj (slice_args repr p e)\<rparr>"

definition flow_row :: "phase \<Rightarrow> nat \<Rightarrow> edge \<Rightarrow> event \<Rightarrow> nat \<times> nat \<Rightarrow> trace_row" where
  "flow_row ph i e ev place = \<lparr>row_phase = ph, row_name = edge_kind e, row_category = Some ''dependency'', row_flow = Some i,
     row_place = place, row_ts = ts ev, row_dur = None, row_encloses = (ph = Flow_End), row_args = edge_object e\<rparr>"

definition sample_row :: "counter \<Rightarrow> nat \<times> nat \<Rightarrow> trace_row" where
  "sample_row c place = \<lparr>row_phase = Sample, row_name = counter_name c, row_category = None, row_flow = None,
     row_place = place, row_ts = as_int (counter_ts c), row_dur = None, row_encloses = False,
     row_args = JObj [(''value'', counter_value c)]\<rparr>"

text \<open>One end of a flow: its event, then the place of the event's track.\<close>

definition flow_end ::
  "(string, event) dict \<Rightarrow> (string, nat \<times> nat) dict \<Rightarrow> nat \<Rightarrow> edge \<Rightarrow> phase \<times> string \<Rightarrow> (profile_error, trace_row) result" where
  "flow_end evs at i e pe = bindE (key_at evs (snd pe)) (\<lambda>ev. bindE (key_at at (event_track ev)) (\<lambda>place.
     Inr (flow_row (fst pe) i e ev place)))"

definition flow_rows ::
  "(string, event) dict \<Rightarrow> (string, nat \<times> nat) dict \<Rightarrow> nat \<times> edge \<Rightarrow> (profile_error, trace_row list) result" where
  "flow_rows evs at ie = (let (i, e) = ie in
     mapE (flow_end evs at i e) [(Flow_Start, edge_source e), (Flow_End, edge_target e)])"

definition row_key :: "trace_row \<Rightarrow> int \<times> int" where
  "row_key r = (row_ts r, phase_rank (row_phase r))"

definition perfetto :: "(double \<Rightarrow> string) \<Rightarrow> profile \<Rightarrow> (profile_error, trace) result" where
  "perfetto repr p =
     bindE (validate p) (\<lambda>_.
     bindE (places p) (\<lambda>at.
     bindE (mapE (thread_name at) (tracks p)) (\<lambda>threads.
     let evs = dict_of event_id (events p) in
     bindE (mapE (\<lambda>e. bindE (key_at at (event_track e)) (\<lambda>place. Inr (slice_row repr p e place))) (map snd evs)) (\<lambda>slices.
     bindE (mapE (flow_rows evs at) (enumerate 1 (edges p))) (\<lambda>flows.
     bindE (mapE (\<lambda>c. bindE (key_at at (counter_track c)) (\<lambda>place. Inr (sample_row c place))) (counters p)) (\<lambda>samples.
     Inr \<lparr>trace_names = map (\<lambda>(name, pid). Process_Name pid name) (processes p) @ threads,
       trace_rows = sort_key row_key (slices @ concat flows @ samples), trace_metadata = metadata p\<rparr>))))))"

section \<open>Counter names can be read back\<close>

lemma hex_digit_inj: "a < 16 \<Longrightarrow> b < 16 \<Longrightarrow> hex_digit a = hex_digit b \<Longrightarrow> a = b"
  by (metis hex_value_digit)

lemma control_char_inj:
  assumes "hex_digit (of_char c div 16) = hex_digit (of_char d div 16)" and "hex_digit (of_char c mod 16) = hex_digit (of_char d mod 16)"
  shows "c = d"
proof -
  have "of_char x < (256 :: nat)" for x :: char by (simp add: of_char_def)
  then have "(of_char c :: nat) div 16 = of_char d div 16"
    using hex_digit_inj[OF _ _ assms(1)] by (simp add: less_mult_imp_div_less)
  moreover have "(of_char c :: nat) mod 16 = of_char d mod 16" using hex_digit_inj[OF _ _ assms(2)] by simp
  ultimately have "(of_char c :: nat) = of_char d" by (metis div_mult_mod_eq)
  then show ?thesis by simp
qed

text \<open>The escapes are a prefix code none of whose words starts with a quote.\<close>

lemma escape_plain_prefix_free:
  assumes "escape_plain c @ r = escape_plain d @ s"
  shows "c = d \<and> r = s"
proof (cases "of_char c < (32 :: nat) \<and> of_char d < (32 :: nat)")
  case True
  with assms control_char_inj[of c d] show ?thesis
    by (auto simp: escape_plain_def escape_char_def split: if_splits)
next
  case False
  with assms show ?thesis by (auto simp: escape_plain_def escape_char_def split: if_splits)
qed

lemma escape_plain_no_quote: "escape_plain c @ r \<noteq> CHR 0x22 # s"
  by (simp add: escape_plain_def escape_char_def)

lemma quoted_end:
  "concat (map escape_plain s) @ CHR 0x22 # r = concat (map escape_plain s') @ CHR 0x22 # r' \<Longrightarrow> s = s' \<and> r = r'"
proof (induction s arbitrary: s')
  case Nil
  then show ?case by (cases s') (use escape_plain_no_quote in \<open>auto dest: sym\<close>)
next
  case (Cons c s)
  show ?case
  proof (cases s')
    case Nil
    with Cons.prems escape_plain_no_quote show ?thesis by auto
  next
    case (Cons d s'')
    with Cons.prems escape_plain_prefix_free have "c = d"
      "concat (map escape_plain s) @ CHR 0x22 # r = concat (map escape_plain s'') @ CHR 0x22 # r'"
      by auto
    with Cons Cons.IH show ?thesis by blast
  qed
qed

lemma counter_name_inj: "counter_name c = counter_name d \<longleftrightarrow> series c = series d"
proof
  assume "counter_name c = counter_name d"
  then have "concat (map escape_plain (counter_track c)) @ CHR 0x22 # CHR '','' # CHR 0x22 # concat (map escape_plain (counter_series c)) @ CHR 0x22 # '']'' =
      concat (map escape_plain (counter_track d)) @ CHR 0x22 # CHR '','' # CHR 0x22 # concat (map escape_plain (counter_series d)) @ CHR 0x22 # '']''"
    by (simp add: counter_name_def quote_plain_def)
  from quoted_end[OF this] have "counter_track c = counter_track d"
    "concat (map escape_plain (counter_series c)) @ CHR 0x22 # '']'' = concat (map escape_plain (counter_series d)) @ CHR 0x22 # '']''"
    by simp_all
  with quoted_end[OF this(2)] show "series c = series d" by (simp add: series_def)
qed (simp add: counter_name_def series_def)

section \<open>The rows of an accepted profile\<close>

lemma mapE_total: "(\<And>x. x \<in> set xs \<Longrightarrow> f x = Inr (g x)) \<Longrightarrow> mapE f xs = Inr (map g xs)"
  by (induction xs) auto

definition place_of :: "profile \<Rightarrow> string \<Rightarrow> nat \<times> nat" where
  "place_of p k = (case places p of Inl _ \<Rightarrow> (0, 0) | Inr at \<Rightarrow> the (map_of at k))"

text \<open>The two rows of the \<open>i\<close>-th flow.\<close>

definition flow_pair :: "profile \<Rightarrow> nat \<Rightarrow> edge \<Rightarrow> trace_row list" where
  "flow_pair p i e = map (\<lambda>(ph, k). flow_row ph i e (event_at p k) (place_of p (event_track (event_at p k))))
     [(Flow_Start, edge_source e), (Flow_End, edge_target e)]"

lemma processes_keys: "map fst (processes p) = uniq (map group_of (tracks p))"
  by (simp add: processes_def comp_def case_prod_unfold)

lemma processes_total: "t \<in> set (tracks p) \<Longrightarrow> \<exists>pid. map_of (processes p) (group_of t) = Some pid"
proof -
  assume "t \<in> set (tracks p)"
  then have "group_of t \<in> set (map fst (processes p))" by (simp add: processes_keys)
  then show ?thesis by (metis list.set_map map_of_eq_None_iff not_None_eq)
qed

lemma places_total: "\<exists>at. places p = Inr at \<and> at = map (\<lambda>(i, t). (track_id t, (the (map_of (processes p) (group_of t)), i + 1)))
    (enumerate 0 (tracks p))"
proof -
  have "places p = Inr (map (\<lambda>(i, t). (track_id t, (the (map_of (processes p) (group_of t)), i + 1))) (enumerate 0 (tracks p)))"
    unfolding places_def
  proof (rule mapE_total, clarify)
    fix i t
    assume "(i, t) \<in> set (enumerate 0 (tracks p))"
    then have "t \<in> set (tracks p)" by (auto simp: in_set_enumerate_eq)
    then show "bindE (key_at (processes p) (group_of t)) (\<lambda>pid. Inr (track_id t, pid, i + 1)) =
        Inr (track_id t, the (map_of (processes p) (group_of t)), i + 1)"
      using processes_total by (fastforce simp: key_at_def)
  qed
  then show ?thesis by blast
qed

lemma place_of_key:
  assumes "places p = Inr at" and "k \<in> set (map track_id (tracks p))"
  shows "key_at at k = Inr (place_of p k)"
proof -
  from places_total[of p] assms(1) have "map fst at = map track_id (tracks p)"
    by (auto simp: comp_def case_prod_unfold intro!: nth_equalityI simp: nth_enumerate_eq)
  with assms(2) have "k \<in> set (map fst at)" by simp
  then obtain v where "map_of at k = Some v" by (metis list.set_map map_of_eq_None_iff not_None_eq)
  with assms(1) show ?thesis by (simp add: key_at_def place_of_def)
qed

text \<open>Different tracks have different threads.\<close>

lemma place_of_nth:
  assumes "distinct (map track_id (tracks p))" and "i < length (tracks p)"
  shows "place_of p (track_id (tracks p ! i)) = (the (map_of (processes p) (group_of (tracks p ! i))), i + 1)"
proof -
  obtain at where at: "places p = Inr at"
    "at = map (\<lambda>(i, t). (track_id t, (the (map_of (processes p) (group_of t)), i + 1))) (enumerate 0 (tracks p))"
    using places_total by blast
  have keys: "map fst at = map track_id (tracks p)"
    unfolding at(2) by (auto simp: comp_def case_prod_unfold intro!: nth_equalityI simp: nth_enumerate_eq)
  have "(track_id (tracks p ! i), (the (map_of (processes p) (group_of (tracks p ! i))), i + 1)) \<in> set at"
    unfolding at(2) using assms(2) by (auto simp: in_set_enumerate_eq intro!: image_eqI[of _ _ "(i, tracks p ! i)"])
  with keys assms(1) show ?thesis by (simp add: place_of_def at(1))
qed

lemma place_of_inj:
  assumes "distinct (map track_id (tracks p))" and "a \<in> set (map track_id (tracks p))" and "b \<in> set (map track_id (tracks p))"
  shows "place_of p a = place_of p b \<longleftrightarrow> a = b"
proof
  assume same: "place_of p a = place_of p b"
  from assms(2) obtain i where "i < length (tracks p)" "a = track_id (tracks p ! i)" by (auto simp: in_set_conv_nth)
  moreover from assms(3) obtain j where "j < length (tracks p)" "b = track_id (tracks p ! j)" by (auto simp: in_set_conv_nth)
  moreover note same
  ultimately show "a = b" using place_of_nth[OF assms(1)] by simp
qed simp

text \<open>What validation knows of the events at the ends of an edge.\<close>

lemma edge_ends:
  assumes wf: "well_formed p" and e: "e \<in> set (edges p)"
  shows "map_of (dict_of event_id (events p)) (edge_source e) = Some (event_at p (edge_source e)) \<and>
    map_of (dict_of event_id (events p)) (edge_target e) = Some (event_at p (edge_target e)) \<and>
    event_at p (edge_source e) \<in> set (events p) \<and> event_at p (edge_target e) \<in> set (events p) \<and>
    ts (event_at p (edge_source e)) \<le> ts (event_at p (edge_target e))"
proof -
  have d: "distinct (event_ids p)" using wf by (simp add: well_formed_def)
  from e have "(e, False) \<in> set (tagged_edges p)" by (simp add: tagged_edges_def)
  with wf have ok: "dependency_ok (dict_of event_id (events p)) (e, False)" by (simp add: well_formed_def)
  then obtain a b where ab: "map_of (dict_of event_id (events p)) (edge_source e) = Some a"
    "map_of (dict_of event_id (events p)) (edge_target e) = Some b" "0 \<le> delay e" "ts a + dur a + delay e \<le> ts b"
    by (auto simp: dependency_ok_def Let_def)
  have "a \<in> set (events p)" "b \<in> set (events p)"
    using map_of_SomeD[OF ab(1)] map_of_SomeD[OF ab(2)] by (auto simp: dict_events(1)[OF d])
  moreover from this(1) wf have "0 \<le> dur a" by (simp add: well_formed_def event_ok_def)
  ultimately show ?thesis using ab by (simp add: event_at_def)
qed

lemma perfetto_rows:
  assumes "validate p = Inr order"
  shows "\<exists>t. perfetto repr p = Inr t \<and> trace_metadata t = metadata p \<and>
    trace_rows t = sort_key row_key (map (\<lambda>e. slice_row repr p e (place_of p (event_track e))) (events p) @
      concat (map (\<lambda>(i, e). flow_pair p i e) (enumerate 1 (edges p))) @
      map (\<lambda>c. sample_row c (place_of p (counter_track c))) (counters p))"
proof -
  have wf: "well_formed p" using assms by (rule validate_order)
  then have d: "distinct (event_ids p)" by (simp add: well_formed_def)
  obtain at where at: "places p = Inr at" using places_total by blast
  note key = place_of_key[OF at]
  have tracked: "event_track e \<in> set (map track_id (tracks p))" if "e \<in> set (events p)" for e
    using wf that by (simp add: well_formed_def event_ok_def)
  have threads: "mapE (thread_name at) (tracks p) = Inr (map (\<lambda>t. case place_of p (track_id t) of (pid, tid) \<Rightarrow> Thread_Name pid tid (track_name t)) (tracks p))"
    by (rule mapE_total) (simp add: thread_name_def key split: prod.split)
  have slices: "mapE (\<lambda>e. bindE (key_at at (event_track e)) (\<lambda>place. Inr (slice_row repr p e place))) (events p) =
      Inr (map (\<lambda>e. slice_row repr p e (place_of p (event_track e))) (events p))"
    by (rule mapE_total) (simp add: key[OF tracked])
  have flows: "mapE (flow_rows (dict_of event_id (events p)) at) (enumerate 1 (edges p)) =
      Inr (map (\<lambda>(i, e). flow_pair p i e) (enumerate 1 (edges p)))"
  proof (rule mapE_total, clarify)
    fix i e
    assume "(i, e) \<in> set (enumerate 1 (edges p))"
    then have "e \<in> set (edges p)" by (metis in_set_enumerate_eq nth_mem snd_conv fst_conv length_enumerate less_diff_conv2 add.commute)
    note E = edge_ends[OF wf this]
    then show "flow_rows (dict_of event_id (events p)) at (i, e) = Inr (flow_pair p i e)"
      by (simp add: flow_rows_def flow_end_def flow_pair_def key_at_def[of "dict_of event_id (events p)"] key[OF tracked])
  qed
  have samples: "mapE (\<lambda>c. bindE (key_at at (counter_track c)) (\<lambda>place. Inr (sample_row c place))) (counters p) =
      Inr (map (\<lambda>c. sample_row c (place_of p (counter_track c))) (counters p))"
  proof (rule mapE_total)
    fix c
    assume "c \<in> set (counters p)"
    with wf have "check_counter (map track_id (tracks p)) c = Inr ()" by (simp add: well_formed_def)
    then have "counter_track c \<in> set (map track_id (tracks p))" by (simp add: check_counter_def bindE_Inr)
    then show "bindE (key_at at (counter_track c)) (\<lambda>place. Inr (sample_row c place)) = Inr (sample_row c (place_of p (counter_track c)))"
      by (simp add: key)
  qed
  show ?thesis
    by (simp add: perfetto_def assms at threads dict_events(3)[OF d] slices flows[simplified] samples Let_def)
qed

section \<open>Sorting and selecting rows\<close>

lemma insort_key_image: "insort_key f (h x) (map h xs) = map h (insort_key (\<lambda>x. f (h x)) x xs)"
  by (induction xs) simp_all

lemma sort_key_image: "sort_key f (map h xs) = map h (sort_key (\<lambda>x. f (h x)) xs)"
  by (induction xs) (simp_all add: insort_key_image)

lemma insort_key_order: "(\<And>x y. (f x \<le> f y) = (g x \<le> g y)) \<Longrightarrow> insort_key f x xs = insort_key g x xs"
  by (induction xs) simp_all

lemma sort_key_order: "(\<And>x y. (f x \<le> f y) = (g x \<le> g y)) \<Longrightarrow> sort_key f xs = sort_key g xs"
  by (induction xs) (simp_all add: insort_key_order[of f g])

lemma select_enumerated:
  assumes "\<And>j x r. r \<in> set (F j x) \<Longrightarrow> k r = Some j"
  shows "i < length xs \<Longrightarrow> filter (\<lambda>r. k r = Some (n + i)) (concat (map (\<lambda>(j, x). F j x) (enumerate n xs))) = F (n + i) (xs ! i)"
proof (induction xs arbitrary: n i)
  case (Cons x xs)
  have here: "filter (\<lambda>r. k r = Some j) (F j' x) = (if j = j' then F j' x else [])" for j j'
    using assms by (auto simp: filter_id_conv filter_empty_conv)
  have later: "filter (\<lambda>r. k r = Some n) (concat (map (\<lambda>(j, x). F j x) (enumerate (Suc n) xs))) = []"
    using assms by (fastforce simp: filter_empty_conv in_set_enumerate_eq)
  show ?case
  proof (cases i)
    case 0
    then show ?thesis using here later by simp
  next
    case (Suc m)
    with Cons.IH[of m "Suc n"] Cons.prems here show ?thesis by simp
  qed
qed simp

lemma select_phase:
  assumes "\<And>x. x \<in> set xs \<Longrightarrow> row_phase x = ph" and "\<And>x. x \<in> set ys \<Longrightarrow> row_phase x \<noteq> ph"
  shows "filter (\<lambda>r. row_phase r = ph) xs = xs" and "filter (\<lambda>r. row_phase r = ph) ys = []"
  using assms by (simp_all add: filter_id_conv filter_empty_conv)

lemma flow_pair_rows: "r \<in> set (flow_pair p i e) \<Longrightarrow> row_flow r = Some i \<and> row_phase r \<in> {Flow_Start, Flow_End}"
  by (auto simp: flow_pair_def flow_row_def)

lemma sort_rows_of_phase:
  assumes "\<And>x. row_phase (h x) = ph" and "\<And>x. row_ts (h x) = f x"
  shows "sort_key row_key (map h xs) = map h (sort_key f xs)"
proof -
  have "sort_key (\<lambda>x. row_key (h x)) xs = sort_key f xs"
    by (rule sort_key_order) (auto simp: row_key_def assms less_eq_prod_def)
  then show ?thesis by (simp add: sort_key_image)
qed

end
