(* ===== verification/Profile_Properties.thy ===== *)
theory Profile_Properties
  imports Profile_Perfetto
begin

text \<open>The properties of timing profiles, with a recorded example.\<close>

section \<open>A small capture\<close>

text \<open>A producer, a channel and a consumer on two tracks; the channel also waits for an arbiter.\<close>

definition sample_event :: "string \<Rightarrow> string \<Rightarrow> int \<Rightarrow> int \<Rightarrow> event" where
  "sample_event k track start d = \<lparr>event_id = k, event_track = track, event_name = k,
     event_ts = JInt start, event_dur = JInt d, event_display = None, event_category = None,
     event_args = []\<rparr>"

definition sample_edge :: "string \<Rightarrow> string \<Rightarrow> int \<Rightarrow> string option \<Rightarrow> edge" where
  "sample_edge s t d res = \<lparr>edge_source = s, edge_target = t, edge_kind = ''message'',
     edge_delay = Some (JInt d), edge_evidence = Some (JStr ''log''),
     edge_resource = map_option JStr res\<rparr>"

definition sample_profile :: profile where
  "sample_profile = \<lparr>schema = JInt 1, time_unit = JStr ''ns'',
     tracks = [\<lparr>track_id = ''x'', track_name = ''x'', track_group = None\<rparr>,
               \<lparr>track_id = ''y'', track_name = ''y'', track_group = None\<rparr>],
     events = [sample_event ''c'' ''y'' 9 2, sample_event ''a'' ''x'' 0 3,
               sample_event ''b'' ''x'' 4 3],
     edges = [sample_edge ''a'' ''b'' 0 None, sample_edge ''b'' ''c'' 1 None],
     resource_dependencies = [sample_edge ''a'' ''c'' 2 (Some ''arbiter'')],
     counters = [], metadata = []\<rparr>"

lemma sample_validates: "validate sample_profile = Inr [''a'', ''b'', ''c'']"
  by code_simp

section \<open>Properties\<close>

text \<open>
  C5. A profile is accepted exactly when it is well formed (schema, unique identifiers, typed and
  bounded times, separated slices per track, valid counters, every dependency between known
  events, evidenced, and finishing before its consumer starts) and its causal and resource-order
  edges together have no cycle.
\<close>

theorem validate_accepts_exactly:
  "(\<exists>order. validate p = Inr order) \<longleftrightarrow> well_formed p \<and> acyclic (depends p)"
  using validate_order(1,2) validate_accepts by blast

text \<open>
  The order an accepted profile returns lists every event exactly once, and each dependency,
  causal or resource-order, has its source strictly earlier than its target.
\<close>

theorem validated_order_is_topological:
  assumes "validate p = Inr order"
  shows "distinct order \<and> set order = set (map event_id (events p)) \<and>
    (\<forall>er\<in>set (tagged_edges p). before order (edge_source (fst er)) (edge_target (fst er)))"
  using validate_order(3-5)[OF assms] by (auto simp: depends_def ends_def)

theorem validated_order_is_topological_witness:
  "distinct [''a'', ''b'', ''c''] \<and>
   set [''a'', ''b'', ''c''] = set (map event_id (events sample_profile)) \<and>
   before [''a'', ''b'', ''c''] ''a'' ''b'' \<and> before [''a'', ''b'', ''c''] ''b'' ''c'' \<and>
   before [''a'', ''b'', ''c''] ''a'' ''c''"
  using validated_order_is_topological[OF sample_validates]
  by (simp add: tagged_edges_def sample_profile_def sample_event_def sample_edge_def)

text \<open>
  C25. For every event of an accepted profile the longest-path query returns, without running out
  of its walk bound, a chain of recorded causal edges ending at the event and starting at an event
  without causal predecessors; its accounted time is the work and declared delays along that
  chain, no other chain into the event accounts for more, and the unassigned time is the rest of
  the elapsed time and never negative.
\<close>

theorem longest_path_optimal:
  assumes "validate p = Inr order" and "target \<in> set (map event_id (events p))"
  shows "\<exists>r a. longest_path p target = Inr r \<and> path_events r = nodes a (path_edges r) \<and>
    chain p a (path_edges r) target \<and> incoming_edges p a = [] \<and>
    accounted_ns r = weight p a (path_edges r) \<and>
    (\<forall>a' es'. chain p a' es' target \<longrightarrow> weight p a' es' \<le> accounted_ns r) \<and>
    elapsed_ns r = ts (event_at p target) + dur (event_at p target) - ts (event_at p a) \<and>
    unassigned_ns r = elapsed_ns r - accounted_ns r \<and> 0 \<le> unassigned_ns r"
proof -
  obtain r a where r: "longest_path p target = Inr r" "path_events r = nodes a (path_edges r)"
    "chain p a (path_edges r) target" "accounted_ns r = weight p a (path_edges r)"
    "incoming_edges p a = []"
    "\<forall>a' es'. chain p a' es' target \<longrightarrow> weight p a' es' \<le> accounted_ns r"
    "elapsed_ns r = ts (event_at p target) + dur (event_at p target) - ts (event_at p a)"
    "unassigned_ns r = elapsed_ns r - accounted_ns r"
    using longest_path_spec[OF assms] by blast
  moreover have "0 \<le> unassigned_ns r"
    using chain_elapsed[OF validate_order(1)[OF assms(1)] r(3) assms(2)] r by simp
  ultimately show ?thesis by blast
qed

theorem longest_path_optimal_witness:
  "\<exists>r a. longest_path sample_profile ''c'' = Inr r \<and> path_events r = nodes a (path_edges r) \<and>
    chain sample_profile a (path_edges r) ''c'' \<and> incoming_edges sample_profile a = [] \<and>
    accounted_ns r = weight sample_profile a (path_edges r) \<and>
    (\<forall>a' es'. chain sample_profile a' es' ''c'' \<longrightarrow> weight sample_profile a' es' \<le> accounted_ns r) \<and>
    elapsed_ns r = ts (event_at sample_profile ''c'') + dur (event_at sample_profile ''c'')
      - ts (event_at sample_profile a) \<and>
    unassigned_ns r = elapsed_ns r - accounted_ns r \<and> 0 \<le> unassigned_ns r"
  by (rule longest_path_optimal[OF sample_validates]) (simp add: sample_profile_def sample_event_def)

text \<open>
  C26. The observed-predecessor query of an accepted profile always returns. Its events are exactly
  those from which latest prerequisite edges lead to the target, its relations are all the tied
  latest edges between them, its roots the events with no recorded prerequisite, and its gaps
  record, for each event whose latest prerequisite finishes early, exactly the time to its start;
  no prerequisite ever finishes later than that start.
\<close>

theorem observed_predecessors_exact:
  assumes "validate p = Inr order" and "target \<in> set (map event_id (events p))"
  shows "\<exists>obs. observed_predecessors p target resources = Inr obs \<and>
    set (obs_events obs) = {k. (k, target) \<in> (latest_rel p resources)\<^sup>*} \<and>
    set (obs_relations obs) = (\<Union>k\<in>set (obs_events obs). set (latest p resources k)) \<and>
    set (obs_roots obs) = {k \<in> set (obs_events obs). prerequisites p resources k = []} \<and>
    set (obs_gaps obs) = {\<lparr>gap_target = k, gap_ts = ready_at p resources k,
        gap_dur = ts (event_at p k) - ready_at p resources k\<rparr> | k.
      k \<in> set (obs_events obs) \<and> prerequisites p resources k \<noteq> [] \<and>
      ready_at p resources k \<noteq> ts (event_at p k)}"
proof -
  note wf = validate_order(1)[OF assms(1)]
  have "ready_at p resources k \<noteq> ts (event_at p k) \<longleftrightarrow> ready_at p resources k < ts (event_at p k)"
    if "prerequisites p resources k \<noteq> []" for k
    using ready_before_start[OF wf that] by auto
  then have gaps: "gaps_of p resources K = {\<lparr>gap_target = k, gap_ts = ready_at p resources k,
        gap_dur = ts (event_at p k) - ready_at p resources k\<rparr> | k.
      k \<in> K \<and> prerequisites p resources k \<noteq> [] \<and> ready_at p resources k \<noteq> ts (event_at p k)}" for K
    unfolding gaps_of_def by blast
  show ?thesis
    using observed_predecessors_closure[OF assms, of resources]
    by (simp add: observation_of_def gaps roots_of_def relations_of_def)
qed

theorem observed_predecessors_exact_witness:
  "\<exists>obs. observed_predecessors sample_profile ''c'' True = Inr obs \<and>
    set (obs_events obs) = {k. (k, ''c'') \<in> (latest_rel sample_profile True)\<^sup>*} \<and>
    set (obs_relations obs) = (\<Union>k\<in>set (obs_events obs). set (latest sample_profile True k)) \<and>
    set (obs_roots obs) = {k \<in> set (obs_events obs). prerequisites sample_profile True k = []} \<and>
    set (obs_gaps obs) = {\<lparr>gap_target = k, gap_ts = ready_at sample_profile True k,
        gap_dur = ts (event_at sample_profile k) - ready_at sample_profile True k\<rparr> | k.
      k \<in> set (obs_events obs) \<and> prerequisites sample_profile True k \<noteq> [] \<and>
      ready_at sample_profile True k \<noteq> ts (event_at sample_profile k)}"
  by (rule observed_predecessors_exact[OF sample_validates]) (simp add: sample_profile_def sample_event_def)

text \<open>
  A window taken from an accepted profile, at a start no later than the largest representable
  time, is itself an accepted profile: its events are exactly those starting and visibly ending
  inside the interval, its dependencies those between kept events, every counter sample lies in
  the interval and is a recorded one or the latest earlier one of its series moved to the start,
  and every series sampled before the window has a sample at its start.
\<close>

theorem window_bounds:
  assumes "validate p = Inr order" and "window p start stop = Inr w" and "start \<le> 2 ^ 52"
  shows "(\<exists>order'. validate w = Inr order') \<and>
    set (events w) = {e \<in> set (events p). start \<le> ts e \<and> ts e + shown e < stop} \<and>
    set (edges w) = {e \<in> set (edges p). edge_source e \<in> set (event_ids w) \<and> edge_target e \<in> set (event_ids w)} \<and>
    (\<forall>c\<in>set (counters w). start \<le> sample_ts c \<and> sample_ts c < stop \<and>
       (c \<in> set (counters p) \<or> (\<exists>s. c = carried start s \<and> latest_before start (counters p) s))) \<and>
    (\<forall>c\<in>set (counters p). sample_ts c < start \<longrightarrow>
       (\<exists>d\<in>set (counters w). series d = series c \<and> sample_ts d = start))"
proof -
  note parts = window_parts[OF assms(2)]
  have "set (edges w) = {e \<in> set (edges p). inside_edge (event_ids w) e}"
    by (subst parts(3)) auto
  with window_validates[OF assms] window_counters_sources[OF _ parts(1)] window_counters_start[OF _ _ parts(1)]
  show ?thesis
    unfolding parts(2,5) set_filter complete_in_def inside_edge_def by (intro conjI) blast+
qed

definition sampled_profile :: profile where
  "sampled_profile = sample_profile\<lparr>counters := map (\<lambda>(t, v). \<lparr>counter_track = ''x'', counter_series = ''depth'',
     counter_ts = JInt t, counter_value = JFloat (Finite v (-1)), counter_original_ts = None\<rparr>) [(1, 4), (2, 5), (8, 6)]\<rparr>"

theorem window_bounds_witness:
  "case window sampled_profile 3 12 of Inl _ \<Rightarrow> False | Inr w \<Rightarrow>
     event_ids w = [''c'', ''b''] \<and> map edge_source (edges w) = [''b''] \<and>
     map (\<lambda>c. (counter_ts c, counter_value c)) (counters w) = [(JInt 8, JFloat (Finite 6 (-1))), (JInt 3, JFloat (Finite 5 (-1)))] \<and>
     (\<exists>order. validate w = Inr order)"
proof -
  have v: "validate sampled_profile = Inr [''a'', ''b'', ''c'']" by code_simp
  obtain w where w: "window sampled_profile 3 12 = Inr w"
    and parts: "event_ids w = [''c'', ''b''] \<and> map edge_source (edges w) = [''b''] \<and>
     map (\<lambda>c. (counter_ts c, counter_value c)) (counters w) = [(JInt 8, JFloat (Finite 6 (-1))), (JInt 3, JFloat (Finite 5 (-1)))]"
  proof -
    have "case window sampled_profile 3 12 of Inl _ \<Rightarrow> False | Inr w \<Rightarrow>
      event_ids w = [''c'', ''b''] \<and> map edge_source (edges w) = [''b''] \<and>
      map (\<lambda>c. (counter_ts c, counter_value c)) (counters w) = [(JInt 8, JFloat (Finite 6 (-1))), (JInt 3, JFloat (Finite 5 (-1)))]" by code_simp
    then show thesis using that by (auto split: sum.splits)
  qed
  with window_bounds[OF v w] show ?thesis by simp
qed

text \<open>
  Adding the observed overlay to an accepted profile gives an accepted profile with the same
  dependencies and counters: the copies of the observed events, each once and at its recorded
  time, stand on copies of their tracks beside everything recorded.
\<close>

theorem overlay_preserves_validity:
  assumes "validate p = Inr order" and "observed_overlay p target resources = Inr q"
  shows "(\<exists>order'. validate q = Inr order') \<and> tagged_edges q = tagged_edges p \<and> counters q = counters p \<and>
    (\<exists>obs. observed_predecessors p target resources = Inr obs \<and>
       map (\<lambda>e. (event_id e, event_track e, ts e, shown e)) (events q) =
         map (\<lambda>k. let e = event_at p k in (''observed-overlay/'' @ k, ''observed-overlay/'' @ event_track e, ts e, shown e))
           (obs_events obs) @ map (\<lambda>e. (event_id e, event_track e, ts e, shown e)) (events p))"
  using assms(2)
proof (rule overlay_parts)
  fix obs copies
  assume "observed_predecessors p target resources = Inr obs"
    "events q = map (overlay_event p target obs) (obs_events obs) @ events p"
    "edges q = edges p" "resource_dependencies q = resource_dependencies p" "counters q = counters p"
  then show ?thesis
    using overlay_validates[OF assms] by (simp add: tagged_edges_def overlay_prefix_def Let_def)
qed

theorem overlay_preserves_validity_witness:
  "case observed_overlay sample_profile ''c'' True of Inl _ \<Rightarrow> False | Inr q \<Rightarrow>
     (\<exists>order. validate q = Inr order) \<and> length (events q) = 6"
proof -
  have "case observed_overlay sample_profile ''c'' True of Inl _ \<Rightarrow> False | Inr q \<Rightarrow> length (events q) = 6"
    by code_simp
  then obtain q where "observed_overlay sample_profile ''c'' True = Inr q" "length (events q) = 6"
    by (auto split: sum.splits)
  with overlay_preserves_validity[OF sample_validates, of "''c''" True q] show ?thesis by simp
qed

section \<open>Chrome traces\<close>

text \<open>
  C19. Every accepted profile is exported, and its rows come by time, slices before flows before samples. There is one
  slice per event, in order of start, on the thread of its track, and tracks share no thread. The rows of the
  \<open>i\<close>-th flow are exactly a start at the source's slice followed by an end at the target's, for the \<open>i\<close>-th
  causal edge. There is one row per sample, and two samples have rows of one name exactly when they are of one series.
\<close>

theorem perfetto_exact:
  assumes "validate p = Inr order"
  shows "\<exists>t. perfetto repr p = Inr t \<and> sorted (map row_key (trace_rows t)) \<and>
    length (trace_rows t) = length (events p) + 2 * length (edges p) + length (counters p) \<and>
    filter (\<lambda>r. row_phase r = Slice) (trace_rows t) =
      map (\<lambda>e. slice_row repr p e (place_of p (event_track e))) (sort_key ts (events p)) \<and>
    (\<forall>i<length (edges p). filter (\<lambda>r. row_flow r = Some (1 + i)) (trace_rows t) = flow_pair p (1 + i) (edges p ! i)) \<and>
    filter (\<lambda>r. row_phase r = Sample) (trace_rows t) =
      map (\<lambda>c. sample_row c (place_of p (counter_track c))) (sort_key sample_ts (counters p)) \<and>
    (\<forall>a\<in>set (tracks p). \<forall>b\<in>set (tracks p). place_of p (track_id a) = place_of p (track_id b) \<longleftrightarrow> track_id a = track_id b) \<and>
    (\<forall>c d. counter_name c = counter_name d \<longleftrightarrow> series c = series d)"
proof -
  have wf: "well_formed p" using assms by (rule validate_order)
  then have d: "distinct (map track_id (tracks p))" by (simp add: well_formed_def)
  let ?slice = "\<lambda>e. slice_row repr p e (place_of p (event_track e))"
    and ?flows = "concat (map (\<lambda>(i, e). flow_pair p i e) (enumerate 1 (edges p)))"
    and ?sample = "\<lambda>c. sample_row c (place_of p (counter_track c))"
  obtain t where t: "perfetto repr p = Inr t"
    "trace_rows t = sort_key row_key (map ?slice (events p) @ ?flows @ map ?sample (counters p))"
    using perfetto_rows[OF assms] by blast
  have flow: "row_phase r \<in> {Flow_Start, Flow_End}" if "r \<in> set ?flows" for r
    using that flow_pair_rows by fastforce
  have slices: "filter (\<lambda>r. row_phase r = Slice) (trace_rows t) = map ?slice (sort_key ts (events p))"
  proof -
    have "filter (\<lambda>r. row_phase r = Slice) ?flows = []" using flow by (fastforce simp: filter_empty_conv)
    then have "filter (\<lambda>r. row_phase r = Slice) (trace_rows t) = sort_key row_key (map ?slice (events p))"
      by (simp add: t(2) filter_sort filter_map comp_def slice_row_def sample_row_def)
    then show ?thesis by (simp add: sort_rows_of_phase[where ph = Slice and f = ts] slice_row_def)
  qed
  have samples: "filter (\<lambda>r. row_phase r = Sample) (trace_rows t) = map ?sample (sort_key sample_ts (counters p))"
  proof -
    have "filter (\<lambda>r. row_phase r = Sample) ?flows = []" using flow by (fastforce simp: filter_empty_conv)
    then have "filter (\<lambda>r. row_phase r = Sample) (trace_rows t) = sort_key row_key (map ?sample (counters p))"
      by (simp add: t(2) filter_sort filter_map comp_def slice_row_def sample_row_def)
    then show ?thesis by (simp add: sort_rows_of_phase[where ph = Sample and f = sample_ts] sample_row_def)
  qed
  have flows: "filter (\<lambda>r. row_flow r = Some (1 + i)) (trace_rows t) = flow_pair p (1 + i) (edges p ! i)" if i: "i < length (edges p)" for i
  proof -
    have "filter (\<lambda>r. row_flow r = Some (1 + i)) ?flows = flow_pair p (1 + i) (edges p ! i)"
      by (rule select_enumerated[OF _ i]) (simp add: flow_pair_rows)
    then have "filter (\<lambda>r. row_flow r = Some (1 + i)) (trace_rows t) = sort_key row_key (flow_pair p (1 + i) (edges p ! i))"
      by (simp add: t(2) filter_sort filter_map comp_def slice_row_def sample_row_def)
    also have "\<dots> = flow_pair p (1 + i) (edges p ! i)"
      using edge_ends[OF wf nth_mem[OF i]]
      by (simp add: flow_pair_def flow_row_def row_key_def less_eq_prod_def sort_key_id_if_sorted)
    finally show ?thesis .
  qed
  have "length ?flows = 2 * length (edges p)"
    by (simp add: length_concat comp_def case_prod_unfold flow_pair_def sum_list_triv)
  then have "length (trace_rows t) = length (events p) + 2 * length (edges p) + length (counters p)" by (simp add: t(2))
  moreover have "sorted (map row_key (trace_rows t))" by (simp add: t(2))
  moreover have "\<forall>a\<in>set (tracks p). \<forall>b\<in>set (tracks p). place_of p (track_id a) = place_of p (track_id b) \<longleftrightarrow> track_id a = track_id b"
    using place_of_inj[OF d] by simp
  ultimately show ?thesis using t(1) slices flows samples counter_name_inj by blast
qed

theorem perfetto_exact_witness:
  "case perfetto (\<lambda>_. []) sample_profile of Inl _ \<Rightarrow> False | Inr t \<Rightarrow>
     filter (\<lambda>r. row_flow r = Some (1 + 1)) (trace_rows t) = flow_pair sample_profile (1 + 1) (sample_edge ''b'' ''c'' 1 None)"
  using perfetto_exact[OF sample_validates, of "\<lambda>_. []"] by (auto simp: sample_profile_def)

end
