(* ===== verification/Profile_Verify.thy ===== *)
theory Profile_Verify
  imports Complex_Main Profile_Perfetto "HOL-Library.Multiset"
begin

text \<open>
  The check of an exported trace after its native import (\<open>tools/verify_perfetto_profile.py\<close>). The rows are the
  answers of the Trace Processor's query, in any order and with their texts decoded from hexadecimal; \<open>decode\<close>
  stands for \<open>json.loads\<close>. Decoded evidence and counter values compare as Python compares them; \<open>Bad_Value\<close> stands for
  values that no exported profile has.
\<close>

section \<open>The check\<close>

datatype imported =
    Imported_Slice string string int int string
  | Imported_Flow string string
  | Imported_Counter string int rat

datatype verify_error = Changed_Slices | Changed_Resources | Changed_Evidence | Changed_Endpoints | Changed_Counters
  | Bad_Evidence | Bad_Value

definition number_of :: "json \<Rightarrow> rat option" where
  "number_of j = (case j of JInt i \<Rightarrow> Some (of_int i) | JBool b \<Rightarrow> Some (if b then 1 else 0)
     | JFloat (Finite m e) \<Rightarrow> Some (if 0 \<le> e then of_int m * 2 ^ nat e else of_int m / 2 ^ nat (- e)) | _ \<Rightarrow> None)"

text \<open>
  Python's \<open>==\<close> of decoded JSON: numbers compare by value whatever their type, truth values included, objects without
  regard to the order of their keys, and a value with a NaN in it equals nothing.
\<close>

datatype plain_value = V_Null | V_Number rat | V_Infinite bool | V_Nan | V_Text string
  | V_List "plain_value list" | V_Dict "(string \<times> plain_value) list"

fun value_of :: "json \<Rightarrow> plain_value" where
  "value_of JNull = V_Null"
| "value_of (JBool b) = V_Number (if b then 1 else 0)"
| "value_of (JInt i) = V_Number (of_int i)"
| "value_of (JFloat (Finite m e)) = V_Number (if 0 \<le> e then of_int m * 2 ^ nat e else of_int m / 2 ^ nat (- e))"
| "value_of (JFloat (Infinite b)) = V_Infinite b"
| "value_of (JFloat NaN) = V_Nan"
| "value_of (JStr s) = V_Text s"
| "value_of (JArr xs) = V_List (map value_of xs)"
| "value_of (JObj kvs) = V_Dict (sort_key fst (map (\<lambda>(k, v). (k, value_of v)) kvs))"

fun ordered_value :: "json \<Rightarrow> bool" where
  "ordered_value (JFloat d) \<longleftrightarrow> d \<noteq> NaN"
| "ordered_value (JArr xs) \<longleftrightarrow> list_all ordered_value xs"
| "ordered_value (JObj kvs) \<longleftrightarrow> list_all (\<lambda>(_, v). ordered_value v) kvs"
| "ordered_value _ \<longleftrightarrow> True"

definition same_value :: "json \<Rightarrow> json \<Rightarrow> bool" where
  "same_value a b \<longleftrightarrow> ordered_value a \<and> value_of a = value_of b"

definition slices_in :: "imported list \<Rightarrow> (string \<times> int \<times> int) list" where
  "slices_in rows = concat (map (\<lambda>r. case r of Imported_Slice k _ t d _ \<Rightarrow> [(k, t, d)] | _ \<Rightarrow> []) rows)"

definition flows_in :: "imported list \<Rightarrow> (string \<times> string) list" where
  "flows_in rows = concat (map (\<lambda>r. case r of Imported_Flow s t \<Rightarrow> [(s, t)] | _ \<Rightarrow> []) rows)"

definition counters_in :: "imported list \<Rightarrow> (string \<times> int \<times> rat) list" where
  "counters_in rows = concat (map (\<lambda>r. case r of Imported_Counter n t x \<Rightarrow> [(n, t, x)] | _ \<Rightarrow> []) rows)"

definition expected_slices :: "profile \<Rightarrow> (string \<times> int \<times> int) list" where
  "expected_slices p = map (\<lambda>e. (event_id e, ts e, shown e)) (events p)"

definition expected_edges :: "profile \<Rightarrow> (string \<times> string) list" where
  "expected_edges p = map (\<lambda>e. (edge_source e, edge_target e)) (edges p)"

definition expected_counters :: "profile \<Rightarrow> (verify_error, (string \<times> int \<times> rat) list) result" where
  "expected_counters p = mapE (\<lambda>c. case number_of (counter_value c) of None \<Rightarrow> Inl Bad_Value
     | Some x \<Rightarrow> Inr (counter_name c @ '' value'', sample_ts c, x)) (counters p)"

definition edges_into :: "string \<Rightarrow> edge list \<Rightarrow> edge list" where
  "edges_into k es = filter (\<lambda>e. edge_target e = k) es"

definition decoded ::
  "(string \<Rightarrow> json option) \<Rightarrow> string \<Rightarrow> edge list \<Rightarrow> verify_error \<Rightarrow> (verify_error, unit) result" where
  "decoded decode s es err = (case decode s of None \<Rightarrow> Inl Bad_Evidence
     | Some found \<Rightarrow> ensure (same_value found (JArr (map edge_object es))) err)"

definition check_evidence ::
  "(string \<Rightarrow> json option) \<Rightarrow> profile \<Rightarrow> imported \<Rightarrow> (verify_error, unit) result" where
  "check_evidence decode p r = (case r of
       Imported_Slice k causal _ _ resource \<Rightarrow>
         bindE (decoded decode (if resource = [] then ''[]'' else resource) (edges_into k (resource_dependencies p)) Changed_Resources)
           (\<lambda>_. decoded decode causal (edges_into k (edges p)) Changed_Evidence)
     | _ \<Rightarrow> Inr ())"

definition verify_import ::
  "(string \<Rightarrow> json option) \<Rightarrow> profile \<Rightarrow> imported list \<Rightarrow> (verify_error, nat \<times> nat \<times> nat) result" where
  "verify_import decode p rows =
     bindE (ensure (sort (slices_in rows) = sort (expected_slices p)) Changed_Slices) (\<lambda>_.
     bindE (checkE (check_evidence decode p) rows) (\<lambda>_.
     bindE (ensure (sort (flows_in rows) = sort (expected_edges p)) Changed_Endpoints) (\<lambda>_.
     bindE (expected_counters p) (\<lambda>samples.
     bindE (ensure (sort (counters_in rows) = sort samples) Changed_Counters) (\<lambda>_.
     Inr (length (slices_in rows), length (flows_in rows), length (counters_in rows)))))))"

section \<open>What a passed check establishes\<close>

lemma sort_eq_mset: "sort xs = sort ys \<longleftrightarrow> mset xs = mset ys" for xs ys :: "'a::linorder list"
  by (metis mset_sort properties_for_sort sorted_sort)

lemma verify_import_Inr:
  "verify_import decode p rows = Inr n \<longleftrightarrow>
     mset (slices_in rows) = mset (expected_slices p) \<and> (\<forall>r\<in>set rows. check_evidence decode p r = Inr ()) \<and>
     mset (flows_in rows) = mset (expected_edges p) \<and>
     (\<exists>samples. expected_counters p = Inr samples \<and> mset (counters_in rows) = mset samples) \<and>
     n = (length (slices_in rows), length (flows_in rows), length (counters_in rows))"
  by (auto simp: verify_import_def bindE_Inr sort_eq_mset)

lemma verify_import_counts:
  assumes "verify_import decode p rows = Inr n"
  shows "n = (length (events p), length (edges p), length (counters p))"
proof -
  from assms obtain samples where *: "mset (slices_in rows) = mset (expected_slices p)"
    "mset (flows_in rows) = mset (expected_edges p)" "expected_counters p = Inr samples"
    "mset (counters_in rows) = mset samples" "n = (length (slices_in rows), length (flows_in rows), length (counters_in rows))"
    unfolding verify_import_Inr by blast
  from *(3) have "length samples = length (counters p)" by (simp add: expected_counters_def mapE_length)
  with *(1,2,4) have "length (slices_in rows) = length (events p)" "length (flows_in rows) = length (edges p)"
    "length (counters_in rows) = length (counters p)"
    using mset_eq_length[OF *(1)] mset_eq_length[OF *(2)] mset_eq_length[OF *(4)]
    by (simp_all add: expected_slices_def expected_edges_def)
  with *(5) show ?thesis by simp
qed

text \<open>The evidence of a slice is read back from the imported row alone.\<close>

definition edge_value :: "edge \<Rightarrow> plain_value" where
  "edge_value e = value_of (edge_object e)"

lemma decoded_Inr:
  "decoded decode s es err = Inr u \<Longrightarrow> \<exists>found. decode s = Some found \<and> value_of found = V_List (map edge_value es)"
  by (auto simp: decoded_def same_value_def edge_value_def[abs_def] comp_def split: option.splits)

lemma slice_row_of:
  assumes "verify_import decode p rows = Inr n" and "k \<in> set (event_ids p)"
  shows "\<exists>causal t d resource. Imported_Slice k causal t d resource \<in> set rows"
proof -
  from assms(1) have "mset (slices_in rows) = mset (expected_slices p)" unfolding verify_import_Inr by blast
  then have "set (slices_in rows) = set (expected_slices p)" by (rule mset_eq_setD)
  moreover from assms(2) have "\<exists>t d. (k, t, d) \<in> set (expected_slices p)" by (auto simp: expected_slices_def)
  ultimately obtain t d where "(k, t, d) \<in> set (slices_in rows)" by blast
  then show ?thesis by (auto simp: slices_in_def split: imported.splits)
qed

lemma slice_evidence:
  assumes "verify_import decode p rows = Inr n" and "Imported_Slice k causal t d resource \<in> set rows"
  shows "map_option value_of (decode causal) = Some (V_List (map edge_value (edges_into k (edges p))))"
    and "map_option value_of (decode (if resource = [] then ''[]'' else resource)) =
      Some (V_List (map edge_value (edges_into k (resource_dependencies p))))"
proof -
  from assms have "check_evidence decode p (Imported_Slice k causal t d resource) = Inr ()"
    unfolding verify_import_Inr by blast
  then have "decoded decode causal (edges_into k (edges p)) Changed_Evidence = Inr ()"
    and "decoded decode (if resource = [] then ''[]'' else resource) (edges_into k (resource_dependencies p)) Changed_Resources = Inr ()"
    by (simp_all add: check_evidence_def bindE_Inr)
  from decoded_Inr[OF this(1)] decoded_Inr[OF this(2)]
  show "map_option value_of (decode causal) = Some (V_List (map edge_value (edges_into k (edges p))))"
    and "map_option value_of (decode (if resource = [] then ''[]'' else resource)) =
      Some (V_List (map edge_value (edges_into k (resource_dependencies p))))"
    by auto
qed

lemma same_evidence:
  assumes "verify_import decode p rows = Inr n" and "verify_import decode q rows = Inr m" and "k \<in> set (event_ids p)"
  shows "map edge_value (edges_into k (edges p)) = map edge_value (edges_into k (edges q)) \<and>
    map edge_value (edges_into k (resource_dependencies p)) = map edge_value (edges_into k (resource_dependencies q))"
proof -
  obtain causal t d resource where "Imported_Slice k causal t d resource \<in> set rows"
    using slice_row_of[OF assms(1,3)] by blast
  from slice_evidence[OF assms(1) this] slice_evidence[OF assms(2) this] show ?thesis by simp
qed

text \<open>Edges sorted by their targets make up all the edges.\<close>

lemma mset_by_key:
  fixes xs ys :: "('a \<times> 'b) list"
  assumes "\<And>x. x \<in> set xs \<Longrightarrow> fst x \<in> K" and "\<And>x. x \<in> set ys \<Longrightarrow> fst x \<in> K"
    and "\<And>k. k \<in> K \<Longrightarrow> filter (\<lambda>x. fst x = k) xs = filter (\<lambda>x. fst x = k) ys"
  shows "mset xs = mset ys"
proof (rule multiset_eqI)
  fix e :: "'a \<times> 'b"
  have into: "count (mset (filter (\<lambda>x. fst x = fst e) zs)) e = count (mset zs) e" for zs :: "('a \<times> 'b) list"
    by simp
  show "count (mset xs) e = count (mset ys) e"
  proof (cases "fst e \<in> K")
    case True
    with assms(3) into[of xs] into[of ys] show ?thesis by simp
  next
    case False
    with assms(1,2) have "e \<notin> set xs" "e \<notin> set ys" by blast+
    then have "e \<notin># mset xs" "e \<notin># mset ys" by simp_all
    then show ?thesis by (simp only: not_in_iff)
  qed
qed

lemma mset_by_target:
  assumes "\<And>e. e \<in> set es \<Longrightarrow> edge_target e \<in> K" and "\<And>e. e \<in> set es' \<Longrightarrow> edge_target e \<in> K"
    and same: "\<And>k. k \<in> K \<Longrightarrow> map edge_value (edges_into k es) = map edge_value (edges_into k es')"
  shows "mset (map edge_value es) = mset (map edge_value es')"
proof -
  let ?at = "\<lambda>e. (edge_target e, edge_value e)"
  have into: "filter (\<lambda>x. fst x = k) (map ?at xs) = map (Pair k) (map edge_value (edges_into k xs))" for k xs
    by (induction xs) (simp_all add: edges_into_def)
  have "mset (map ?at es) = mset (map ?at es')"
    by (rule mset_by_key[where K = K]) (use assms(1,2) in \<open>auto simp only: into same set_map image_iff fst_conv\<close>)
  then have "mset (map snd (map ?at es)) = mset (map snd (map ?at es'))" by (simp only: mset_map)
  then show ?thesis by (simp add: comp_def)
qed

text \<open>Every dependency of an accepted profile ends at an event.\<close>

lemma targets_known:
  assumes "validate p = Inr order" and "e \<in> set (edges p) \<or> e \<in> set (resource_dependencies p)"
  shows "edge_target e \<in> set (event_ids p)"
proof -
  note wf = validate_order(1)[OF assms(1)]
  from assms(2) obtain r where "(e, r) \<in> set (tagged_edges p)" by (auto simp: tagged_edges_def)
  then have "(edge_source e, edge_target e) \<in> depends p" by (force simp: depends_def ends_def)
  with depends_events[OF wf] show ?thesis by blast
qed

end
