(* ===== verification/Verify_Properties.thy ===== *)
theory Verify_Properties
  imports Profile_Properties Profile_Verify
begin

text \<open>The property of the check of an imported trace, with the answers for the recorded example.\<close>

section \<open>The rows of the small capture\<close>

definition evidence :: "edge list \<Rightarrow> string" where
  "evidence es = compact_json (\<lambda>_. ''0.0'') (JArr (map edge_object es))"

text \<open>The texts of the four lists of edges of the capture, read back.\<close>

definition sample_decode :: "string \<Rightarrow> json option" where
  "sample_decode = map_of (map (\<lambda>es. (evidence es, JArr (map edge_object es)))
     ([] # map (\<lambda>e. [e]) (edges sample_profile @ resource_dependencies sample_profile)))"

definition sample_slice :: "event \<Rightarrow> imported" where
  "sample_slice e = Imported_Slice (event_id e) (evidence (edges_into (event_id e) (edges sample_profile))) (ts e) (shown e)
     (let es = edges_into (event_id e) (resource_dependencies sample_profile) in if es = [] then [] else evidence es)"

definition sample_rows :: "imported list" where
  "sample_rows = map sample_slice (rev (events sample_profile)) @
     [Imported_Flow ''b'' ''c'', Imported_Flow ''a'' ''b''] @
     map (\<lambda>(t, x). Imported_Counter (''['' @ [CHR 0x22] @ ''x'' @ [CHR 0x22] @ '','' @ [CHR 0x22] @ ''depth'' @ [CHR 0x22] @ ''] value'') t x)
       [(1, 2), (8, 3), (2, 5 / 2)]"

text \<open>The same capture with its lists in another order and one sample written differently.\<close>

definition shuffled_profile :: profile where
  "shuffled_profile = sampled_profile\<lparr>events := rev (events sampled_profile), edges := rev (edges sampled_profile),
     counters := rev (map (\<lambda>c. if counter_ts c = JInt 1 then c\<lparr>counter_value := JFloat (Finite 1 1)\<rparr> else c) (counters sampled_profile))\<rparr>"

lemma shuffled_validates: "case validate shuffled_profile of Inl _ \<Rightarrow> False | Inr _ \<Rightarrow> True"
  by code_simp

lemma sampled_validates: "case validate sampled_profile of Inl _ \<Rightarrow> False | Inr _ \<Rightarrow> True"
  by code_simp

lemma sampled_imported: "verify_import sample_decode sampled_profile sample_rows = Inr (3, 2, 3)"
  by code_simp

lemma shuffled_imported: "verify_import sample_decode shuffled_profile sample_rows = Inr (3, 2, 3)"
  by code_simp

section \<open>Properties\<close>

text \<open>
  C20. What the check of an imported trace pins down: when the rows of one import pass it against two accepted
  profiles, these have the same event identifiers with their start times and shown durations, as many causal and
  resource-order edges with fields that are equal in Python's sense (\<open>edge_value\<close>: numbers by value, keys in any
  order), and the same counter samples by name, time and value; the reported numbers are those of the profile. Names,
  tracks, arguments and the durations behind the shown ones are not compared by the code.
\<close>

theorem import_identifies_profile:
  assumes "validate p = Inr order" and "validate q = Inr order'"
    and "verify_import decode p rows = Inr n" and "verify_import decode q rows = Inr m"
  shows "mset (expected_slices p) = mset (expected_slices q) \<and> mset (map edge_value (edges p)) = mset (map edge_value (edges q)) \<and>
    mset (map edge_value (resource_dependencies p)) = mset (map edge_value (resource_dependencies q)) \<and>
    (\<exists>cs ds. expected_counters p = Inr cs \<and> expected_counters q = Inr ds \<and> mset cs = mset ds) \<and>
    n = (length (events p), length (edges p), length (counters p)) \<and> m = n"
proof -
  note p = assms(3)[unfolded verify_import_Inr] and q = assms(4)[unfolded verify_import_Inr]
  from p q have slices: "mset (expected_slices p) = mset (expected_slices q)" by simp
  then have "set (map fst (expected_slices p)) = set (map fst (expected_slices q))"
    by (auto dest: mset_eq_setD simp del: set_map simp add: image_set[symmetric])
  then have "set (event_ids p) = set (event_ids q)" by (simp add: expected_slices_def comp_def)
  then have ids: "edge_target e \<in> set (event_ids p)"
    if "e \<in> set (edges p) \<or> e \<in> set (resource_dependencies p) \<or> e \<in> set (edges q) \<or> e \<in> set (resource_dependencies q)" for e
    using targets_known[OF assms(1)] targets_known[OF assms(2)] that by blast
  note same = same_evidence[OF assms(3,4)]
  have "mset (map edge_value (edges p)) = mset (map edge_value (edges q))"
    by (rule mset_by_target[where K = "set (event_ids p)"]) (use ids same in blast)+
  moreover have "mset (map edge_value (resource_dependencies p)) = mset (map edge_value (resource_dependencies q))"
    by (rule mset_by_target[where K = "set (event_ids p)"]) (use ids same in blast)+
  moreover from p q have "\<exists>cs ds. expected_counters p = Inr cs \<and> expected_counters q = Inr ds \<and> mset cs = mset ds"
    by metis
  moreover from p q have "m = n" by simp
  ultimately show ?thesis using slices verify_import_counts[OF assms(3)] by blast
qed

theorem import_identifies_profile_witness:
  "mset (expected_slices sampled_profile) = mset (expected_slices shuffled_profile) \<and>
   mset (map edge_value (edges sampled_profile)) = mset (map edge_value (edges shuffled_profile)) \<and>
   mset (map edge_value (resource_dependencies sampled_profile)) =
     mset (map edge_value (resource_dependencies shuffled_profile)) \<and>
   (\<exists>cs ds. expected_counters sampled_profile = Inr cs \<and> expected_counters shuffled_profile = Inr ds \<and> mset cs = mset ds)"
proof -
  from sampled_validates obtain order where "validate sampled_profile = Inr order" by (auto split: sum.splits)
  moreover from shuffled_validates obtain order' where "validate shuffled_profile = Inr order'" by (auto split: sum.splits)
  ultimately show ?thesis using import_identifies_profile[OF _ _ sampled_imported shuffled_imported] by blast
qed

end
