(* ===== verification/Build_Paths.thy ===== *)
theory Build_Paths
  imports Prelude
begin

text \<open>
  Relative POSIX paths as the build tools read them: \<open>pathlib.Path\<close> drops empty and \<open>.\<close> components,
  and \<open>str(path)\<close> joins what is left. \<open>relative\<close> of \<open>priv/tools/compile_xls.py\<close> asks for a path that
  is already in this form, \<open>relative\<close> of \<open>priv/tools/compile_source_build.py\<close> returns the form.
\<close>

datatype build_error =
    Bad_Path string
  | Reserved_Input string
  | Missing_File string
  | Diagnostics_Shadow_Input
  | Duplicate_Stage string string
  | Invalid_Tool string
  | No_Stages
  | Stage_Failed string
  | Empty_Product
  | Rejection_Mismatch
  | Bad_Pattern string
  | Publication_Interrupted
  | Group_Lookup
  | Tool_Exit int
  | Stage_Timeout
  | Interrupted
  | Compiler_Changed
  | Malformed_Entry
  | Frozen_Input_Modified
  | Publication_Shadow
  | Bad_Build_Name
  | Bad_Timeout
  | Unmanaged_Output
  | Build_Active
  | Missing_Executable string
  | Bad_Flags
  | Owned_Flags
  | Delay_Table_Mismatch
  | Callback string
  | Source_Build string
  | Missing_Input_Directory
  | Cyclic_Input "string list"

section \<open>Paths\<close>

definition path_parts :: "string \<Rightarrow> string list" where
  "path_parts s = filter (\<lambda>w. w \<noteq> [] \<and> w \<noteq> ''.'') (split_on (CHR ''/'') s)"

definition is_absolute :: "string \<Rightarrow> bool" where
  "is_absolute s \<longleftrightarrow> prefix ''/'' s"

text \<open>\<open>str(Path(s))\<close> for a path that is not absolute.\<close>

definition path_string :: "string \<Rightarrow> string" where
  "path_string s = (if path_parts s = [] then ''.'' else join_on (CHR ''/'') (path_parts s))"

text \<open>\<open>str(Path(a) / b)\<close> for relative paths.\<close>

definition path_join :: "string \<Rightarrow> string \<Rightarrow> string" where
  "path_join a b = path_string (a @ ''/'' @ b)"

text \<open>\<open>Path.name\<close>, \<open>Path.suffix\<close> and \<open>Path.stem\<close>; a name that starts or ends with its last dot has no suffix.\<close>

definition path_name :: "string \<Rightarrow> string" where
  "path_name s = (if path_parts s = [] then [] else last (path_parts s))"

definition name_suffix :: "string \<Rightarrow> string" where
  "name_suffix name = (let ext = takeWhile (\<lambda>c. c \<noteq> CHR ''.'') (rev name) in
     if CHR ''.'' \<in> set name \<and> ext \<noteq> [] \<and> length ext + 1 < length name then CHR ''.'' # rev ext else [])"

definition path_suffix :: "string \<Rightarrow> string" where
  "path_suffix s = name_suffix (path_name s)"

definition path_stem :: "string \<Rightarrow> string" where
  "path_stem s = take (length (path_name s) - length (path_suffix s)) (path_name s)"

definition relative :: "bool \<Rightarrow> string \<Rightarrow> (build_error, string) result" where
  "relative directory name =
     (if name = [] \<or> is_absolute name \<or> ''..'' \<in> set (path_parts name) \<or> path_string name \<noteq> name \<or>
         name = ''.'' \<and> \<not> directory
      then Inl (Bad_Path name) else Inr name)"

definition source_relative :: "string \<Rightarrow> (build_error, string) result" where
  "source_relative raw =
     (if raw = [] \<or> is_absolute raw \<or> ''..'' \<in> set (path_parts raw) \<or>
         path_parts raw \<noteq> [] \<and> hd (path_parts raw) = ''_stdlib''
      then Inl (Bad_Path raw) else Inr (path_string raw))"

section \<open>Normal forms\<close>

definition part_ok :: "string \<Rightarrow> bool" where
  "part_ok w \<longleftrightarrow> w \<noteq> [] \<and> w \<noteq> ''.'' \<and> w \<noteq> ''..'' \<and> CHR ''/'' \<notin> set w"

definition normal_path :: "string \<Rightarrow> bool" where
  "normal_path s \<longleftrightarrow> (\<exists>ws. ws \<noteq> [] \<and> list_all part_ok ws \<and> s = join_on (CHR ''/'') ws)"

lemma normal_single: "part_ok s \<Longrightarrow> normal_path s"
  unfolding normal_path_def by (intro exI[of _ "[s]"]) simp

lemma path_parts_join:
  assumes "list_all (\<lambda>w. w \<noteq> [] \<and> w \<noteq> ''.'' \<and> CHR ''/'' \<notin> set w) ws" and "ws \<noteq> []"
  shows "path_parts (join_on (CHR ''/'') ws) = ws"
proof -
  have "split_on (CHR ''/'') (join_on (CHR ''/'') ws) = ws"
    using assms by (intro split_join) (auto simp: list_all_iff)
  then show ?thesis
    using assms(1) by (simp add: path_parts_def filter_id_conv list_all_iff)
qed

lemma path_parts_clean: "w \<in> set (path_parts s) \<Longrightarrow> w \<noteq> [] \<and> w \<noteq> ''.'' \<and> CHR ''/'' \<notin> set w"
  by (auto simp: path_parts_def dest: split_parts)

lemma path_parts_string [simp]: "path_parts (path_string s) = path_parts s"
proof (cases "path_parts s = []")
  case False
  then show ?thesis
    by (auto simp: path_string_def list_all_iff dest: path_parts_clean intro!: path_parts_join)
qed (simp add: path_string_def path_parts_def)

lemma path_string_idem [simp]: "path_string (path_string s) = path_string s"
  by (simp add: path_string_def[of "path_string s"]) (simp add: path_string_def)

lemma normal_join:
  assumes "list_all part_ok ws" and "ws \<noteq> []"
  shows "path_parts (join_on (CHR ''/'') ws) = ws"
  by (rule path_parts_join) (use assms in \<open>auto simp: part_ok_def list_all_iff\<close>)

lemma join_not_absolute:
  assumes "list_all part_ok ws" and "ws \<noteq> []"
  shows "\<not> is_absolute (join_on (CHR ''/'') ws)" and "join_on (CHR ''/'') ws \<noteq> []"
  using assms
  by (cases ws rule: remdups_adj.cases; auto simp: is_absolute_def part_ok_def neq_Nil_conv)+

lemma normal_string:
  assumes "path_parts v \<noteq> []"
  shows "normal_path (path_string v) \<longleftrightarrow> ''..'' \<notin> set (path_parts v)"
proof
  assume "normal_path (path_string v)"
  then obtain ws where ws: "ws \<noteq> []" "list_all part_ok ws" "path_string v = join_on (CHR ''/'') ws"
    unfolding normal_path_def by blast
  then have "path_parts (path_string v) = ws" using normal_join by simp
  with ws(2) show "''..'' \<notin> set (path_parts v)" by (auto simp: list_all_iff part_ok_def)
next
  assume "''..'' \<notin> set (path_parts v)"
  then have "list_all part_ok (path_parts v)"
    by (auto simp: list_all_iff part_ok_def dest: path_parts_clean)
  with assms show "normal_path (path_string v)"
    unfolding normal_path_def path_string_def by auto
qed

lemma normal_path_facts:
  assumes "normal_path s"
  shows "s \<noteq> []" and "\<not> is_absolute s" and "''..'' \<notin> set (path_parts s)" and "path_string s = s"
    and "s \<noteq> ''.''"
proof -
  obtain ws where ws: "ws \<noteq> []" "list_all part_ok ws" "s = join_on (CHR ''/'') ws"
    using assms unfolding normal_path_def by blast
  note parts = normal_join[OF ws(2,1), folded ws(3)]
  show "s \<noteq> []" "\<not> is_absolute s" using join_not_absolute[OF ws(2,1)] ws(3) by simp_all
  show "''..'' \<notin> set (path_parts s)" using parts ws(2) by (auto simp: list_all_iff part_ok_def)
  show "path_string s = s" using parts ws by (simp add: path_string_def)
  show "s \<noteq> ''.''" using parts ws(1) by (auto simp: path_parts_def)
qed

lemma relative_iff:
  "relative directory name = Inr r \<longleftrightarrow> r = name \<and> (normal_path name \<or> directory \<and> name = ''.'')"
proof (cases "name = ''.''")
  case True
  then show ?thesis
    using normal_path_facts(5)[of name]
    by (auto simp: relative_def is_absolute_def path_string_def path_parts_def)
next
  case False
  have "normal_path name" if "''..'' \<notin> set (path_parts name)" "path_string name = name"
  proof -
    have "path_parts name \<noteq> []"
      using that(2) False by (metis path_string_def)
    from normal_string[OF this] that show ?thesis by simp
  qed
  with False show ?thesis
    using normal_path_facts[of name] by (auto simp: relative_def)
qed

lemma source_relative_iff:
  "source_relative raw = Inr r \<longleftrightarrow> r = path_string raw \<and> raw \<noteq> [] \<and> \<not> is_absolute raw \<and>
     (path_parts raw = [] \<or> normal_path r \<and> hd (path_parts raw) \<noteq> ''_stdlib'')"
  using normal_string[of raw] by (cases "path_parts raw = []") (auto simp: source_relative_def)

text \<open>What a source bundle names after normalization, the executor accepts as it stands.\<close>

lemma source_relative_accepted:
  assumes "source_relative raw = Inr r"
  shows "relative True r = Inr r"
  using assms by (auto simp: source_relative_iff relative_iff path_string_def)

end
