(* ===== verification/Build_Cache.thy ===== *)
theory Build_Cache
  imports Build_Paths
begin

text \<open>
  The stage cache of \<open>priv/tools/compile_xls.py\<close>: completed entries with their recorded input
  identity and output digests, the outcome of one tool run, and the reuse, publication and adoption
  of a stage's product. The digest function, the JSON layout of records and the host's name are
  arguments; files are byte strings.
\<close>

section \<open>Records and identities\<close>

record platform =
  sha :: "string \<Rightarrow> string"
  render :: "json \<Rightarrow> string"
  float_text :: "double \<Rightarrow> string"
  system_name :: string
  machine_name :: string

text \<open>\<open>identity\<close> hashes the compact dump with sorted keys; \<open>float_text\<close> is \<open>repr\<close> of a float.\<close>

definition identity :: "platform \<Rightarrow> json \<Rightarrow> string" where
  "identity pf v = sha pf (dumps (float_text pf) v)"

text \<open>
  \<open>save\<close> writes a file beside its destination, under the same name with \<open>.new\<close>, and renames it: whatever was
  there under that name is gone.
\<close>

definition pending_name :: "string \<Rightarrow> string" where
  "pending_name name = name @ ''.new''"

definition saved :: "string \<Rightarrow> string \<Rightarrow> (string \<rightharpoonup> string) \<Rightarrow> (string \<rightharpoonup> string)" where
  "saved name bytes files = (files(pending_name name := None))(name \<mapsto> bytes)"

text \<open>
  \<open>==\<close> of decoded JSON: dictionaries are compared without regard to order, and numbers by their
  value, so \<open>True\<close>, 1 and 1.0 are equal.
\<close>

fun json_norm :: "json \<Rightarrow> json" where
  "json_norm (JBool b) = JInt (if b then 1 else 0)"
| "json_norm (JFloat (Finite m e)) =
     (if 0 \<le> e then JInt (m * 2 ^ nat e)
      else if m mod 2 ^ nat (- e) = 0 then JInt (m div 2 ^ nat (- e)) else JFloat (Finite m e))"
| "json_norm (JArr xs) = JArr (map json_norm xs)"
| "json_norm (JObj kvs) = JObj (sort_key fst (map (\<lambda>(k, v). (k, json_norm v)) kvs))"
| "json_norm v = v"

definition json_same :: "json \<Rightarrow> json \<Rightarrow> bool" where
  "json_same a b \<longleftrightarrow> json_norm a = json_norm b"

text \<open>
  A directory with its decoded \<open>completed.json\<close>; \<open>None\<close> where the record is missing, malformed, or
  its outputs are no dictionary.
\<close>

record completion =
  c_inputs :: json
  c_outputs :: "(string \<times> json) list"

record directory =
  completion :: "completion option"
  contents :: "string \<rightharpoonup> string"

definition checked :: "platform \<Rightarrow> directory \<Rightarrow> json \<Rightarrow> bool" where
  "checked pf d key = (case completion d of
      None \<Rightarrow> False
    | Some c \<Rightarrow> json_same (c_inputs c) key \<and> c_outputs c \<noteq> [] \<and>
        list_all (\<lambda>(name, digest). case contents d name of
            None \<Rightarrow> False | Some bytes \<Rightarrow> digest = JStr (sha pf bytes)) (c_outputs c))"

definition log_names :: "string list" where
  "log_names = [''stderr.log'', ''time.json'', ''command.json'']"

definition cached_artifact :: "directory \<Rightarrow> (build_error, string) result" where
  "cached_artifact d = (case completion d of
      None \<Rightarrow> Inl Malformed_Entry
    | Some c \<Rightarrow>
        (case filter (\<lambda>k. k \<notin> set log_names) (uniq (map fst (c_outputs c))) of
          [name] \<Rightarrow> Inr name
        | _ \<Rightarrow> Inl Malformed_Entry))"

definition read_artifact :: "directory \<Rightarrow> (build_error, string) result" where
  "read_artifact d = bindE (cached_artifact d) (\<lambda>name.
     case contents d name of None \<Rightarrow> Inl (Missing_File name) | Some bytes \<Rightarrow> Inr bytes)"

section \<open>One tool run\<close>

text \<open>
  \<open>run\<close> waits for the child; a timeout or another exception stops its process group and is raised
  again. \<open>expect\<close> is the search for \<open>expect_failure\<close> in the diagnostics.
\<close>

datatype wait_result = Exited int | Timed_out | Cancelled

record process_result =
  wait_result :: wait_result
  stdout_bytes :: string
  stderr_bytes :: string
  time_bytes :: string

definition run_tool ::
  "process_result \<Rightarrow> bool \<Rightarrow> (string \<Rightarrow> bool) option \<Rightarrow> (build_error, unit) result" where
  "run_tool p allow_empty expect = (case wait_result p of
      Timed_out \<Rightarrow> Inl Stage_Timeout
    | Cancelled \<Rightarrow> Inl Interrupted
    | Exited code \<Rightarrow>
        bindE (case expect of
            Some matches \<Rightarrow> ensure (\<not> (code \<le> 0 \<or> \<not> matches (stderr_bytes p @ stdout_bytes p))) Rejection_Mismatch
          | None \<Rightarrow> ensure (code = 0) (Tool_Exit code)) (\<lambda>_.
        ensure (allow_empty \<or> stdout_bytes p \<noteq> []) Empty_Product))"

section \<open>One stage\<close>

definition stage_key :: "platform \<Rightarrow> string \<Rightarrow> string list \<Rightarrow> json \<Rightarrow> json" where
  "stage_key pf tool arguments inputs = JObj
     [(''recipe'', JInt 1),
      (''host'', JArr [JStr (system_name pf), JStr (machine_name pf)]),
      (''tool'', JStr (sha pf tool)),
      (''arguments'', JArr (map JStr arguments)),
      (''inputs'', inputs)]"

text \<open>What a finished compilation leaves in its work directory.\<close>

record work =
  product :: string
  work_stderr :: string
  work_time :: string
  work_command :: string

definition work_of :: "platform \<Rightarrow> string \<Rightarrow> string list \<Rightarrow> process_result \<Rightarrow> work" where
  "work_of pf tool_path arguments p = \<lparr>product = stdout_bytes p, work_stderr = stderr_bytes p, work_time = time_bytes p,
     work_command = render pf (JArr (map JStr (tool_path # arguments)))\<rparr>"

text \<open>
  \<open>run\<close> in a stage: the record of the times has replaced a product called \<open>time.json.new\<close> by the time its
  size is asked for.
\<close>

definition run_product :: "string \<Rightarrow> process_result \<Rightarrow> (build_error, unit) result" where
  "run_product output p = bindE (run_tool p (output = pending_name ''time.json'') None) (\<lambda>_.
     ensure (output \<noteq> pending_name ''time.json'') (Missing_File output))"

text \<open>The pending directory that becomes the entry: the product, its logs and their digests.\<close>

definition fresh_files :: "string \<Rightarrow> work \<Rightarrow> (string \<times> string) list" where
  "fresh_files output w =
     [(output, product w), (''stderr.log'', work_stderr w), (''time.json'', work_time w),
      (''command.json'', work_command w)]"

text \<open>
  A directory with its record saved last: the digests are taken before, and the record replaces a file of its
  own name and one of its pending name.
\<close>

definition completion_json :: "completion \<Rightarrow> json" where
  "completion_json c = JObj [(''inputs'', c_inputs c), (''outputs'', JObj (c_outputs c))]"

definition with_record :: "platform \<Rightarrow> json \<Rightarrow> (string \<times> string) list \<Rightarrow> directory" where
  "with_record pf key files =
     (let c = \<lparr>c_inputs = key, c_outputs = map (\<lambda>(name, bytes). (name, JStr (sha pf bytes))) files\<rparr>
      in \<lparr>completion = Some c, contents = saved ''completed.json'' (render pf (completion_json c)) (map_of files)\<rparr>)"

definition fresh_entry :: "platform \<Rightarrow> json \<Rightarrow> string \<Rightarrow> work \<Rightarrow> directory" where
  "fresh_entry pf key output w = with_record pf key (fresh_files output w)"

text \<open>Cache entries by stage family and identity; a damaged entry is renamed aside.\<close>

type_synonym cache = "string \<times> string \<rightharpoonup> directory"

record stage_result =
  entry_name :: string
  reused :: bool
  adopted :: bool
  entry_directory :: directory
  stage_product :: string

definition valid_entry :: "platform \<Rightarrow> json \<Rightarrow> directory option \<Rightarrow> bool" where
  "valid_entry pf key slot = (case slot of None \<Rightarrow> False | Some d \<Rightarrow> checked pf d key)"

definition publish_or_adopt ::
  "platform \<Rightarrow> json \<Rightarrow> string \<Rightarrow> work \<Rightarrow> directory option \<Rightarrow>
   (build_error, directory \<times> string \<times> bool) result" where
  "publish_or_adopt pf key output w slot =
     (if \<not> valid_entry pf key slot
      then Inr (fresh_entry pf key output w, product w, False)
      else bindE (read_artifact (the slot)) (\<lambda>bytes.
        if sha pf bytes \<noteq> sha pf (product w) then Inr (the slot, bytes, True)
        else Inr (the slot, product w, False)))"

text \<open>
  \<open>stage\<close>: \<open>tool\<close> and \<open>tool_after\<close> are the tool's bytes before and after the run, \<open>others\<close> what
  concurrent builds publish while this one compiles.
\<close>

definition stage ::
  "platform \<Rightarrow> string \<Rightarrow> string \<Rightarrow> string \<Rightarrow> string \<Rightarrow> string list \<Rightarrow> json \<Rightarrow> string \<Rightarrow>
   process_result \<Rightarrow> (cache \<Rightarrow> cache) \<Rightarrow> cache \<Rightarrow> (build_error, stage_result) result \<times> cache"
where
  "stage pf label tool_path tool tool_after arguments inputs output p others store =
     (let key = stage_key pf tool arguments inputs; name = identity pf key; slot = (label, name) in
      if valid_entry pf key (store slot)
      then (bindE (read_artifact (the (store slot))) (\<lambda>bytes.
              Inr \<lparr>entry_name = name, reused = True, adopted = False,
                entry_directory = the (store slot), stage_product = bytes\<rparr>), store)
      else case run_product output p of
        Inl e \<Rightarrow> (Inl e, store)
      | Inr _ \<Rightarrow>
        if sha pf tool_after \<noteq> sha pf tool then (Inl Compiler_Changed, store)
        else let store' = others store;
                 w = work_of pf tool_path arguments p
             in case publish_or_adopt pf key output w (store' slot) of
               Inl e \<Rightarrow> (Inl e, store')
             | Inr (d, bytes, took) \<Rightarrow>
                 (Inr \<lparr>entry_name = name, reused = False, adopted = took, entry_directory = d,
                    stage_product = bytes\<rparr>, store'(slot \<mapsto> d)))"

section \<open>What the cache promises\<close>

lemma checked_artifact:
  assumes "checked pf d key" and "cached_artifact d = Inr name"
  shows "\<exists>bytes c. contents d name = Some bytes \<and> completion d = Some c \<and>
    (name, JStr (sha pf bytes)) \<in> set (c_outputs c)"
proof -
  from assms(2) obtain c where c: "completion d = Some c"
    and single: "filter (\<lambda>k. k \<notin> set log_names) (uniq (map fst (c_outputs c))) = [name]"
    by (auto simp: cached_artifact_def split: option.splits list.splits)
  have "name \<in> set (filter (\<lambda>k. k \<notin> set log_names) (uniq (map fst (c_outputs c))))"
    unfolding single by simp
  then have "name \<in> fst ` set (c_outputs c)" by simp
  then obtain digest where "(name, digest) \<in> set (c_outputs c)" by force
  with assms(1) c show ?thesis
    by (auto simp: checked_def list_all_iff split: option.splits)
qed

lemma checked_read: "checked pf d key \<Longrightarrow> cached_artifact d = Inr name \<Longrightarrow> \<exists>bytes. read_artifact d = Inr bytes"
  using checked_artifact[of pf d key name] by (auto simp: read_artifact_def)

text \<open>The names an entry needs for itself.\<close>

definition entry_names :: "string list" where
  "entry_names = ''completed.json'' # pending_name ''completed.json'' # log_names"

lemma saved_simps [simp]:
  "saved name bytes files name = Some bytes"
  "k \<noteq> name \<Longrightarrow> k \<noteq> pending_name name \<Longrightarrow> saved name bytes files k = files k"
  "saved name bytes files (pending_name name) = None"
  by (simp_all add: saved_def pending_name_def)

lemma with_record_checked:
  assumes "distinct (map fst files)" and "files \<noteq> []" and "''completed.json'' \<notin> fst ` set files"
    and "pending_name ''completed.json'' \<notin> fst ` set files"
  shows "checked pf (with_record pf key files) key"
proof -
  have "saved ''completed.json'' written (map_of files) k = Some bytes" if "(k, bytes) \<in> set files" for k bytes written
  proof -
    from that assms(3,4) have "k \<noteq> ''completed.json''" "k \<noteq> pending_name ''completed.json''" by force+
    with that assms(1) show ?thesis by simp
  qed
  with assms(2) show ?thesis
    by (auto simp: checked_def with_record_def Let_def json_same_def list_all_iff)
qed

text \<open>A directory that records its own record's pending name is never valid.\<close>

lemma with_record_pending:
  assumes "pending_name ''completed.json'' \<in> fst ` set files"
  shows "\<not> checked pf (with_record pf key files) key'"
  using assms by (force simp: checked_def with_record_def Let_def list_all_iff)

lemma fresh_entry_checked [simp]:
  "output \<notin> set entry_names \<Longrightarrow> checked pf (fresh_entry pf key output w) key"
  unfolding fresh_entry_def
  by (rule with_record_checked) (auto simp: fresh_files_def entry_names_def log_names_def pending_name_def)

lemma fresh_entry_artifact [simp]:
  assumes "output \<notin> set entry_names"
  shows "cached_artifact (fresh_entry pf key output w) = Inr output"
    and "read_artifact (fresh_entry pf key output w) = Inr (product w)"
  using assms
  by (auto simp: cached_artifact_def read_artifact_def fresh_entry_def with_record_def Let_def fresh_files_def
      entry_names_def log_names_def pending_name_def)

text \<open>An entry whose product is called \<open>completed.json\<close> records a digest its own record replaces.\<close>

lemma completed_entry_unchecked:
  assumes "sha pf (render pf (completion_json (the (completion (fresh_entry pf key ''completed.json'' w))))) \<noteq> sha pf (product w)"
  shows "\<not> checked pf (fresh_entry pf key ''completed.json'' w) key'"
  using assms by (auto simp: checked_def fresh_entry_def with_record_def fresh_files_def Let_def)

lemma run_product_Inr:
  "run_product output p = Inr u \<longleftrightarrow>
     wait_result p = Exited 0 \<and> stdout_bytes p \<noteq> [] \<and> output \<noteq> pending_name ''time.json''"
  by (cases "wait_result p") (auto simp: run_product_def run_tool_def bindE_Inr)

lemma run_tool_iff:
  "run_tool p allow_empty expect = Inr u \<longleftrightarrow> (\<exists>code. wait_result p = Exited code \<and>
     (case expect of None \<Rightarrow> code = 0 | Some matches \<Rightarrow> 0 < code \<and> matches (stderr_bytes p @ stdout_bytes p)) \<and>
     (allow_empty \<or> stdout_bytes p \<noteq> []))"
  by (cases "wait_result p"; cases expect) (auto simp: run_tool_def bindE_Inr)

end
