(* ===== verification/Build_Child.thy ===== *)
theory Build_Child
  imports Complex_Main Build_Cache
begin

text \<open>
  The supervision of a tool's process (\<open>run\<close> of \<open>priv/tools/compile_xls.py\<close>): the wait loop with its
  deadline, the termination of the process group on every failure to wait, and the record of the times.

  The child, which could be started, and the clock are arguments: what each poll answers, how much time has passed at
  it, and what the process does once its group has been told to stop: \<open>ends_asked\<close> is its exit code if it ends within
  two seconds, \<open>ends_killed\<close> its code if it ends after the kill, for which the code waits without a deadline, and
  \<open>group_gone\<close> tells whether that kill finds no group any more, which raises. A poll is \<open>wait4\<close> together with the nap before it, so that
  an exception in either is \<open>Broken\<close>; further exceptions while the group is being stopped are not modelled. The
  code's actions are listed in order.
\<close>

section \<open>The child\<close>

record usage =
  user_seconds :: rat
  system_seconds :: rat
  max_rss :: int

datatype answer = Running | Ended int usage | Broken string

record child =
  poll_answer :: "nat \<Rightarrow> answer"
  elapsed_at :: "nat \<Rightarrow> rat"
  ended_at :: rat
  ends_asked :: "int option"
  group_gone :: bool
  ends_killed :: "int option"
  product_text :: string
  error_text :: string

datatype time_record =
    Finished rat rat rat int int
  | Stopped rat string int

datatype group_signal = Terminate | Kill

datatype action = Forget_Record | Start | Poll | Await_Exit "rat option" | Signal_Group group_signal
  | Save_Record time_record

section \<open>The wait loop\<close>

datatype loop_end = Process_Ended int usage | Deadline | Exception string

text \<open>\<open>None\<close> when the fuel runs out; the number is that of the polls.\<close>

fun wait_loop :: "child \<Rightarrow> rat \<Rightarrow> nat \<Rightarrow> nat \<Rightarrow> (loop_end \<times> nat) option" where
  "wait_loop c timeout 0 n = None"
| "wait_loop c timeout (Suc fuel) n = (case poll_answer c n of
       Ended code u \<Rightarrow> Some (Process_Ended code u, Suc n)
     | Broken err \<Rightarrow> Some (Exception err, Suc n)
     | Running \<Rightarrow> if timeout \<le> elapsed_at c n then Some (Deadline, Suc n) else wait_loop c timeout fuel (Suc n))"

text \<open>
  The first and the last \<open>killpg\<close> tolerate a group that is gone. The one in the middle does not: its error replaces
  the first exception, and nothing is recorded. Waiting for a killed process that never ends never returns.
\<close>

datatype stop_end = Reaped int | Lookup_Failed | Never_Ends

definition stop_group :: "child \<Rightarrow> action list \<times> stop_end" where
  "stop_group c = (let asked = [Signal_Group Terminate, Await_Exit (Some 2)] in
     case ends_asked c of
       Some code \<Rightarrow> (asked @ [Signal_Group Kill], Reaped code)
     | None \<Rightarrow> if group_gone c then (asked @ [Signal_Group Kill], Lookup_Failed)
         else (case ends_killed c of
             None \<Rightarrow> (asked @ [Signal_Group Kill, Await_Exit None], Never_Ends)
           | Some code \<Rightarrow> (asked @ [Signal_Group Kill, Await_Exit None, Signal_Group Kill], Reaped code)))"

definition rss_bytes :: "bool \<Rightarrow> usage \<Rightarrow> int" where
  "rss_bytes darwin u = max_rss u * (if darwin then 1 else 1024)"

definition finished_record :: "bool \<Rightarrow> child \<Rightarrow> int \<Rightarrow> usage \<Rightarrow> time_record" where
  "finished_record darwin c code u = Finished (ended_at c) (user_seconds u) (system_seconds u) (rss_bytes darwin u) code"

definition stopped_record :: "(rat \<Rightarrow> string) \<Rightarrow> child \<Rightarrow> rat \<Rightarrow> string option \<Rightarrow> int \<Rightarrow> time_record" where
  "stopped_record fmt c timeout err code = Stopped (ended_at c)
     (case err of None \<Rightarrow> ''stage exceeded '' @ fmt timeout @ '' seconds'' | Some e \<Rightarrow> e) code"

definition wait_result_of :: "loop_end \<Rightarrow> wait_result" where
  "wait_result_of e = (case e of Process_Ended code _ \<Rightarrow> Exited code | Deadline \<Rightarrow> Timed_out | Exception _ \<Rightarrow> Cancelled)"

section \<open>The whole run\<close>

definition process_of :: "(time_record \<Rightarrow> string) \<Rightarrow> child \<Rightarrow> loop_end \<Rightarrow> time_record \<Rightarrow> process_result" where
  "process_of written c e r = \<lparr>wait_result = wait_result_of e, stdout_bytes = product_text c,
     stderr_bytes = error_text c, time_bytes = written r\<rparr>"

text \<open>
  \<open>compile\<close> stands for \<open>re.compile\<close> followed by \<open>re.search\<close>. A bad pattern fails before anything is touched.
\<close>

definition matcher ::
  "(string \<Rightarrow> (string \<Rightarrow> bool) option) \<Rightarrow> string option \<Rightarrow> (build_error, (string \<Rightarrow> bool) option) result" where
  "matcher compile expect = (case expect of None \<Rightarrow> Inr None
     | Some pat \<Rightarrow> (case compile pat of None \<Rightarrow> Inl (Bad_Pattern pat) | Some m \<Rightarrow> Inr (Some m)))"

definition stopped_run ::
  "(rat \<Rightarrow> string) \<Rightarrow> (time_record \<Rightarrow> string) \<Rightarrow> child \<Rightarrow> rat \<Rightarrow> bool \<Rightarrow> (string \<Rightarrow> bool) option \<Rightarrow> loop_end \<Rightarrow> string option \<Rightarrow>
    (action list \<times> (build_error, process_result) result) option" where
  "stopped_run fmt written c timeout allow_empty m e err = (let (acts, end) = stop_group c in
     case end of Never_Ends \<Rightarrow> None
     | Lookup_Failed \<Rightarrow> Some (acts, Inl Group_Lookup)
     | Reaped code \<Rightarrow> (let r = stopped_record fmt c timeout err code; p = process_of written c e r
         in Some (acts @ [Save_Record r], bindE (run_tool p allow_empty m) (\<lambda>_. Inr p))))"

definition supervised ::
  "(rat \<Rightarrow> string) \<Rightarrow> (time_record \<Rightarrow> string) \<Rightarrow> bool \<Rightarrow> child \<Rightarrow> rat \<Rightarrow> bool \<Rightarrow> (string \<Rightarrow> bool) option \<Rightarrow>
    loop_end \<times> nat \<Rightarrow> (action list \<times> (build_error, process_result) result) option" where
  "supervised fmt written darwin c timeout allow_empty m ek = (let (e, polls) = ek in
     map_option (\<lambda>(acts, r). ([Forget_Record, Start] @ replicate polls Poll @ acts, r))
       (case e of
          Process_Ended code u \<Rightarrow> (let r = finished_record darwin c code u; p = process_of written c e r
            in Some ([Save_Record r], bindE (run_tool p allow_empty m) (\<lambda>_. Inr p)))
        | Deadline \<Rightarrow> stopped_run fmt written c timeout allow_empty m e None
        | Exception err \<Rightarrow> stopped_run fmt written c timeout allow_empty m e (Some err)))"

definition run_child ::
  "(string \<Rightarrow> (string \<Rightarrow> bool) option) \<Rightarrow> (rat \<Rightarrow> string) \<Rightarrow> (time_record \<Rightarrow> string) \<Rightarrow> bool \<Rightarrow> nat \<Rightarrow> child \<Rightarrow>
    rat \<Rightarrow> bool \<Rightarrow> string option \<Rightarrow> (action list \<times> (build_error, process_result) result) option" where
  "run_child compile fmt written darwin fuel c timeout allow_empty expect = (case matcher compile expect of
       Inl e \<Rightarrow> Some ([], Inl e)
     | Inr m \<Rightarrow> Option.bind (wait_loop c timeout fuel 0) (supervised fmt written darwin c timeout allow_empty m))"

section \<open>The loop ends\<close>

text \<open>What the code relies on: a nap of 20 ms before every poll but the first never returns early.\<close>

definition naps :: "child \<Rightarrow> bool" where
  "naps c \<longleftrightarrow> (\<forall>n. of_nat n / 50 \<le> elapsed_at c n)"

lemma wait_loop_some:
  assumes "timeout \<le> elapsed_at c (n + fuel)"
  shows "\<exists>e polls. wait_loop c timeout (Suc fuel) n = Some (e, polls) \<and> n < polls \<and> polls \<le> Suc (n + fuel)"
  using assms
proof (induction fuel arbitrary: n)
  case 0
  then show ?case by (cases "poll_answer c n") simp_all
next
  case (Suc fuel)
  show ?case
  proof (cases "poll_answer c n = Running \<and> \<not> timeout \<le> elapsed_at c n")
    case True
    then have step: "wait_loop c timeout (Suc (Suc fuel)) n = wait_loop c timeout (Suc fuel) (Suc n)"
      by (subst wait_loop.simps) simp
    from Suc.prems have "timeout \<le> elapsed_at c (Suc n + fuel)" by simp
    from Suc.IH[OF this] show ?thesis unfolding step by fastforce
  next
    case False
    then show ?thesis by (subst wait_loop.simps) (cases "poll_answer c n"; auto)
  qed
qed

text \<open>The end of the loop is the first poll that settles it.\<close>

definition settles :: "child \<Rightarrow> rat \<Rightarrow> nat \<Rightarrow> bool" where
  "settles c timeout n \<longleftrightarrow> poll_answer c n \<noteq> Running \<or> timeout \<le> elapsed_at c n"

definition end_at :: "child \<Rightarrow> nat \<Rightarrow> loop_end" where
  "end_at c n = (case poll_answer c n of Ended code u \<Rightarrow> Process_Ended code u | Broken err \<Rightarrow> Exception err | Running \<Rightarrow> Deadline)"

lemma wait_loop_first:
  assumes "wait_loop c timeout fuel n = Some (e, polls)"
  shows "n < polls \<and> settles c timeout (polls - 1) \<and> e = end_at c (polls - 1) \<and> (\<forall>k. n \<le> k \<and> k < polls - 1 \<longrightarrow> \<not> settles c timeout k)"
  using assms
proof (induction c timeout fuel n rule: wait_loop.induct)
  case (2 c timeout fuel n)
  show ?case
  proof (cases "settles c timeout n")
    case True
    with 2(2) show ?thesis by (cases "poll_answer c n") (auto simp: settles_def end_at_def)
  next
    case False
    then have run: "poll_answer c n = Running" "\<not> timeout \<le> elapsed_at c n" by (simp_all add: settles_def)
    with 2(2) have "wait_loop c timeout fuel (Suc n) = Some (e, polls)" by simp
    from 2(1)[OF run this] False show ?thesis by (metis Suc_leI Suc_lessD le_neq_implies_less not_less_eq_eq)
  qed
qed simp

lemma enough_fuel:
  assumes "naps c"
  shows "\<exists>e polls. wait_loop c timeout (Suc (nat \<lceil>timeout * 50\<rceil>)) 0 = Some (e, polls) \<and> 0 < polls \<and> polls \<le> Suc (nat \<lceil>timeout * 50\<rceil>)"
proof -
  let ?n = "nat \<lceil>timeout * 50\<rceil>"
  have "timeout * 50 \<le> of_nat ?n" by linarith
  moreover from assms have "of_nat ?n / 50 \<le> elapsed_at c ?n" by (simp add: naps_def)
  ultimately have "timeout \<le> elapsed_at c (0 + ?n)" by simp
  from wait_loop_some[OF this] show ?thesis by simp
qed

end
