(* ===== verification/Child_Properties.thy ===== *)
theory Child_Properties
  imports Build_Child
begin

text \<open>The property of the supervision of a tool's process, with a tool that never ends by itself.\<close>

section \<open>Reading the list of actions\<close>

definition signals :: "action list \<Rightarrow> group_signal list" where
  "signals acts = concat (map (\<lambda>a. case a of Signal_Group s \<Rightarrow> [s] | _ \<Rightarrow> []) acts)"

definition records :: "action list \<Rightarrow> time_record list" where
  "records acts = concat (map (\<lambda>a. case a of Save_Record r \<Rightarrow> [r] | _ \<Rightarrow> []) acts)"

definition polls :: "action list \<Rightarrow> nat" where
  "polls acts = length (filter (\<lambda>a. a = Poll) acts)"

lemma log_parts [simp]:
  "signals (xs @ ys) = signals xs @ signals ys" "records (xs @ ys) = records xs @ records ys" "polls (xs @ ys) = polls xs + polls ys"
  "signals (replicate n Poll) = []" "records (replicate n Poll) = []" "polls (replicate n Poll) = n"
  by (simp_all add: signals_def records_def polls_def map_replicate_const)

lemma log_simps [simp]:
  "signals [] = []" "records [] = []" "polls [] = 0"
  "signals (a # acts) = (case a of Signal_Group s \<Rightarrow> [s] | _ \<Rightarrow> []) @ signals acts"
  "records (a # acts) = (case a of Save_Record r \<Rightarrow> [r] | _ \<Rightarrow> []) @ records acts"
  "polls (a # acts) = (if a = Poll then 1 else 0) + polls acts"
  by (simp_all add: signals_def records_def polls_def)

text \<open>Stopping a group starts with a request and ends with a kill, and polls and records nothing.\<close>

lemma stop_group_signals:
  assumes "stop_group c = (acts, e)"
  shows "polls acts = 0" "records acts = []"
    and "e \<noteq> Never_Ends \<Longrightarrow> hd (signals acts) = Terminate \<and> last (signals acts) = Kill"
  using assms by (auto simp: stop_group_def Let_def split: option.splits if_splits)

lemma stop_group_end:
  assumes "stop_group c = (acts, e)"
  shows "e = (case ends_asked c of Some code \<Rightarrow> Reaped code
    | None \<Rightarrow> if group_gone c then Lookup_Failed else (case ends_killed c of None \<Rightarrow> Never_Ends | Some code \<Rightarrow> Reaped code))"
  using assms by (auto simp: stop_group_def Let_def split: option.splits if_splits)

text \<open>A run that is stopped returns, and how.\<close>

definition stopped_as :: "(rat \<Rightarrow> string) \<Rightarrow> child \<Rightarrow> rat \<Rightarrow> string option \<Rightarrow> build_error \<Rightarrow> action list \<Rightarrow> (build_error, process_result) result \<Rightarrow> bool" where
  "stopped_as fmt c timeout err raised acts r \<longleftrightarrow> hd (signals acts) = Terminate \<and> last (signals acts) = Kill \<and>
     (case (ends_asked c, group_gone c) of
        (None, True) \<Rightarrow> r = Inl Group_Lookup \<and> records acts = []
      | (asked, _) \<Rightarrow> r = Inl raised \<and> (\<exists>code. (asked = Some code \<or> asked = None \<and> ends_killed c = Some code) \<and>
          records acts = [stopped_record fmt c timeout err code] \<and> last acts = Save_Record (stopped_record fmt c timeout err code)))"

lemma stopped_run_spec:
  assumes "ends_killed c \<noteq> None" and "wait_result_of e = (case err of None \<Rightarrow> Timed_out | Some _ \<Rightarrow> Cancelled)"
  shows "\<exists>acts r. stopped_run fmt written c timeout allow_empty m e err = Some (acts, r) \<and> polls acts = 0 \<and> acts \<noteq> [] \<and>
    stopped_as fmt c timeout err (case err of None \<Rightarrow> Stage_Timeout | Some _ \<Rightarrow> Interrupted) acts r"
proof -
  obtain acts x where stop: "stop_group c = (acts, x)" by fastforce
  note facts = stop_group_signals[OF stop] and ending = stop_group_end[OF stop]
  have raised: "run_tool (process_of written c e t) allow_empty m = Inl (case err of None \<Rightarrow> Stage_Timeout | Some _ \<Rightarrow> Interrupted)" for t
    using assms(2) by (cases err) (simp_all add: run_tool_def process_of_def)
  show ?thesis
  proof (cases x)
    case (Reaped code)
    let ?r = "stopped_record fmt c timeout err code"
    from Reaped ending have code: "ends_asked c = Some code \<or> ends_asked c = None \<and> \<not> group_gone c \<and> ends_killed c = Some code"
      by (auto split: option.splits if_splits)
    have sig: "signals acts \<noteq> []" "hd (signals acts) = Terminate" "last (signals acts) = Kill"
      using stop facts(3) Reaped by (auto simp: stop_group_def Let_def split: option.splits if_splits)
    from code sig facts(1,2) have "stopped_as fmt c timeout err (case err of None \<Rightarrow> Stage_Timeout | Some _ \<Rightarrow> Interrupted)
        (acts @ [Save_Record ?r]) (Inl (case err of None \<Rightarrow> Stage_Timeout | Some _ \<Rightarrow> Interrupted))"
      by (auto simp: stopped_as_def)
    moreover have "stopped_run fmt written c timeout allow_empty m e err =
        Some (acts @ [Save_Record ?r], Inl (case err of None \<Rightarrow> Stage_Timeout | Some _ \<Rightarrow> Interrupted))"
      by (simp add: stopped_run_def stop Reaped Let_def raised)
    ultimately show ?thesis using facts(1) by auto
  next
    case Lookup_Failed
    with ending have gone: "ends_asked c = None" "group_gone c" by (auto split: option.splits if_splits)
    have "acts \<noteq> []" using stop by (auto simp: stop_group_def Let_def split: option.splits if_splits)
    with gone facts Lookup_Failed show ?thesis
      by (auto simp: stopped_run_def stop stopped_as_def)
  next
    case Never_Ends
    with ending assms(1) show ?thesis by (auto split: option.splits if_splits)
  qed
qed

section \<open>Properties\<close>

text \<open>
  C24. The wait for a tool is bounded, and an overdue tool is stopped with its group. With naps that never return early, a valid pattern, and
  a process that ends once it is killed, the run returns after at most one poll per 20 ms of its timeout and one more. The
  first poll that finds an exit, an exception or the deadline decides. After an exit no signal is ever sent, and the run is
  accepted exactly on the exit code and output asked for. Otherwise the whole group is asked to terminate and at last
  killed, and the run fails as a timeout or an interruption. An old time record is removed before the start, and exactly
  one is written, as the last action; only if the group of a process that ignored the request is gone when it is to be
  killed, the run fails with that error and without a record.
\<close>

theorem run_settles:
  assumes "naps c" and "ends_killed c \<noteq> None" and "matcher compile expect = Inr m"
  shows "\<exists>acts r n. run_child compile fmt written darwin (Suc (nat \<lceil>timeout * 50\<rceil>)) c timeout allow_empty expect = Some (acts, r) \<and>
    n \<le> nat \<lceil>timeout * 50\<rceil> \<and> polls acts = Suc n \<and> settles c timeout n \<and> (\<forall>k<n. \<not> settles c timeout k) \<and> hd acts = Forget_Record \<and>
    (case end_at c n of
       Process_Ended code u \<Rightarrow> signals acts = [] \<and> records acts = [finished_record darwin c code u] \<and>
         last acts = Save_Record (finished_record darwin c code u) \<and>
         ((\<exists>p. r = Inr p) = ((case m of None \<Rightarrow> code = 0 | Some f \<Rightarrow> 0 < code \<and> f (error_text c @ product_text c)) \<and>
           (allow_empty \<or> product_text c \<noteq> [])))
     | Deadline \<Rightarrow> stopped_as fmt c timeout None Stage_Timeout acts r
     | Exception err \<Rightarrow> stopped_as fmt c timeout (Some err) Interrupted acts r)"
proof -
  obtain e k where loop: "wait_loop c timeout (Suc (nat \<lceil>timeout * 50\<rceil>)) 0 = Some (e, k)" "0 < k" "k \<le> Suc (nat \<lceil>timeout * 50\<rceil>)"
    using enough_fuel[OF assms(1)] by blast
  obtain n where k: "k = Suc n" using loop(2) by (cases k) simp_all
  from wait_loop_first[OF loop(1)] have first: "settles c timeout n" "\<forall>k<n. \<not> settles c timeout k" "e = end_at c n"
    by (simp_all add: k)
  define front where "front = [Forget_Record, Start] @ replicate k Poll"
  have run: "run_child compile fmt written darwin (Suc (nat \<lceil>timeout * 50\<rceil>)) c timeout allow_empty expect =
      supervised fmt written darwin c timeout allow_empty m (e, k)"
    unfolding run_child_def assms(3) loop(1) by simp
  have front: "signals (front @ acts) = signals acts" "records (front @ acts) = records acts" "polls (front @ acts) = k + polls acts"
    "hd (front @ acts) = Forget_Record" for acts
    by (simp_all add: front_def)
  have "\<exists>acts r. supervised fmt written darwin c timeout allow_empty m (e, k) = Some (front @ acts, r) \<and> polls acts = 0 \<and>
      (case e of
       Process_Ended code u \<Rightarrow> signals acts = [] \<and> records acts = [finished_record darwin c code u] \<and>
         last (front @ acts) = Save_Record (finished_record darwin c code u) \<and>
         ((\<exists>p. r = Inr p) = ((case m of None \<Rightarrow> code = 0 | Some f \<Rightarrow> 0 < code \<and> f (error_text c @ product_text c)) \<and>
           (allow_empty \<or> product_text c \<noteq> [])))
     | Deadline \<Rightarrow> stopped_as fmt c timeout None Stage_Timeout (front @ acts) r
     | Exception err \<Rightarrow> stopped_as fmt c timeout (Some err) Interrupted (front @ acts) r)"
  proof (cases e)
    case (Process_Ended code u)
    let ?p = "process_of written c e (finished_record darwin c code u)"
    have p: "wait_result ?p = Exited code" "stdout_bytes ?p = product_text c" "stderr_bytes ?p = error_text c"
      by (simp_all add: process_of_def wait_result_of_def Process_Ended)
    have "(\<exists>p. bindE (run_tool ?p allow_empty m) (\<lambda>_. Inr ?p) = Inr p) \<longleftrightarrow> run_tool ?p allow_empty m = Inr ()"
      by (cases "run_tool ?p allow_empty m") simp_all
    also have "\<dots> \<longleftrightarrow> (case m of None \<Rightarrow> code = 0 | Some f \<Rightarrow> 0 < code \<and> f (error_text c @ product_text c)) \<and>
        (allow_empty \<or> product_text c \<noteq> [])"
      unfolding run_tool_iff p by simp
    finally show ?thesis
      by (intro exI[of _ "[Save_Record (finished_record darwin c code u)]"] exI[of _ "bindE (run_tool ?p allow_empty m) (\<lambda>_. Inr ?p)"])
        (simp add: Process_Ended supervised_def front_def Let_def)
  next
    case Deadline
    have "wait_result_of e = (case None of None \<Rightarrow> Timed_out | Some _ \<Rightarrow> Cancelled)" by (simp add: Deadline wait_result_of_def)
    from stopped_run_spec[OF assms(2) this, of fmt written timeout allow_empty m] obtain acts r where
      s: "stopped_run fmt written c timeout allow_empty m e None = Some (acts, r)" "polls acts = 0" "acts \<noteq> []"
      "stopped_as fmt c timeout None Stage_Timeout acts r" by auto
    have "stopped_as fmt c timeout None Stage_Timeout (front @ acts) r"
      using s(3,4) unfolding stopped_as_def front last_append by simp
    with s Deadline show ?thesis by (auto simp: supervised_def front_def)
  next
    case (Exception err)
    have "wait_result_of e = (case Some err of None \<Rightarrow> Timed_out | Some _ \<Rightarrow> Cancelled)" by (simp add: Exception wait_result_of_def)
    from stopped_run_spec[OF assms(2) this, of fmt written timeout allow_empty m] obtain acts r where
      s: "stopped_run fmt written c timeout allow_empty m e (Some err) = Some (acts, r)" "polls acts = 0" "acts \<noteq> []"
      "stopped_as fmt c timeout (Some err) Interrupted acts r" by auto
    have "stopped_as fmt c timeout (Some err) Interrupted (front @ acts) r"
      using s(3,4) unfolding stopped_as_def front last_append by simp
    with s Exception show ?thesis by (auto simp: supervised_def front_def)
  qed
  then obtain acts r where out: "supervised fmt written darwin c timeout allow_empty m (e, k) = Some (front @ acts, r)" "polls acts = 0"
    "case e of
       Process_Ended code u \<Rightarrow> signals acts = [] \<and> records acts = [finished_record darwin c code u] \<and>
         last (front @ acts) = Save_Record (finished_record darwin c code u) \<and>
         ((\<exists>p. r = Inr p) = ((case m of None \<Rightarrow> code = 0 | Some f \<Rightarrow> 0 < code \<and> f (error_text c @ product_text c)) \<and>
           (allow_empty \<or> product_text c \<noteq> [])))
     | Deadline \<Rightarrow> stopped_as fmt c timeout None Stage_Timeout (front @ acts) r
     | Exception err \<Rightarrow> stopped_as fmt c timeout (Some err) Interrupted (front @ acts) r" by blast
  show ?thesis
    unfolding run out(1) first(3)[symmetric]
  proof (intro exI[of _ "front @ acts"] exI[of _ r] exI[of _ n] conjI)
    show "n \<le> nat \<lceil>timeout * 50\<rceil>" using loop(3) k by simp
    show "polls (front @ acts) = Suc n" using out(2) k front by simp
  qed (use first out(3) front in \<open>simp_all split: loop_end.splits\<close>)
qed

text \<open>A tool that never ends, given a tenth of a second, and that ignores the request to terminate.\<close>

definition endless :: child where
  "endless = \<lparr>poll_answer = \<lambda>_. Running, elapsed_at = \<lambda>n. of_nat n / 50, ended_at = 21 / 10, ends_asked = None,
     group_gone = False, ends_killed = Some (- 9), product_text = ''partial'', error_text = []\<rparr>"

theorem run_settles_witness:
  "\<exists>acts. run_child (\<lambda>_. None) (\<lambda>_. ''0.1'') (\<lambda>_. []) False (Suc (nat \<lceil>(1 / 10 :: rat) * 50\<rceil>)) endless (1 / 10) False None =
      Some (acts, Inl Stage_Timeout) \<and>
    polls acts = 6 \<and> hd (signals acts) = Terminate \<and> last (signals acts) = Kill \<and>
    records acts = [Stopped (21 / 10) ''stage exceeded 0.1 seconds'' (- 9)]"
proof -
  have naps: "naps endless" by (simp add: naps_def endless_def)
  have ends: "ends_killed endless \<noteq> None" by (simp add: endless_def)
  have m: "matcher (\<lambda>_. None) None = Inr None" by (simp add: matcher_def)
  have settle: "settles endless (1 / 10) n \<longleftrightarrow> 5 \<le> n" for n
    by (simp add: settles_def endless_def field_simps)
  have deadline: "end_at endless n = Deadline" for n by (simp add: end_at_def endless_def)
  obtain acts r n where *: "run_child (\<lambda>_. None) (\<lambda>_. ''0.1'') (\<lambda>_. []) False (Suc (nat \<lceil>(1 / 10 :: rat) * 50\<rceil>)) endless (1 / 10) False None = Some (acts, r)"
    "polls acts = Suc n" "settles endless (1 / 10) n" "\<forall>k<n. \<not> settles endless (1 / 10) k"
    "stopped_as (\<lambda>_. ''0.1'') endless (1 / 10) None Stage_Timeout acts r"
    using run_settles[OF naps ends m, of "\<lambda>_. ''0.1''" "\<lambda>_. []" False "1 / 10" False] unfolding deadline loop_end.case by blast
  from *(3,4) settle have "n = 5" by (metis le_neq_implies_less le_refl)
  with * show ?thesis by (simp add: stopped_as_def stopped_record_def endless_def)
qed

end
