(* ===== verification/Diff_Syntax.thy ===== *)
theory Diff_Syntax
  imports Prelude "HOL-Library.Product_Lexorder"
begin

text \<open>
  Expression trees of the compiler differential tests (\<open>tools/compiler_differential_cases.py\<close>):
  the list-encoded nodes as a datatype, their sizes, types, scoping, costs and structural
  reductions, and the canonical JSON that keys candidates.
\<close>

section \<open>Trees\<close>

datatype node =
    Var string
  | Bound int
  | Const int
  | Binary string node node
  | Shift string node node string
  | Bnot node
  | Select node node node
  | Join node node node node
  | Partial node int node
  | If_guard string node node bool
  | Let_in node node
  | Pair_in node node node
  | Match int node node
  | Nth node node
  | Record_field node node string
  | Call node node node
  | Compare string node node
  | And_also node node
  | Or_else node node
  | Negate node
  | Values
  | Set_at node node node
  | Sublist node node node
  | Slice int node node

definition word_binary :: "string list" where
  "word_binary = [''+'', ''-'', ''*'', ''band'', ''bor'', ''bxor'', ''div'', ''rem'']"

definition comparisons :: "string list" where
  "comparisons = [''=:='', ''=/='', ''<'', ''=<'', ''>'', ''>='']"

text \<open>
  \<open>array_size\<close>: where the node is not an array the code reads \<open>node[1]\<close>, which is a subtree,
  or a string or number on which it raises (\<open>None\<close>).
\<close>

fun array_size :: "node \<Rightarrow> int option" where
  "array_size Values = Some 3"
| "array_size (Slice n _ _) = Some n"
| "array_size (Set_at _ a _) = array_size a"
| "array_size (Sublist a _ _) = array_size a"
| "array_size (Bnot a) = array_size a"
| "array_size (Select a _ _) = array_size a"
| "array_size (Join a _ _ _) = array_size a"
| "array_size (Partial a _ _) = array_size a"
| "array_size (Let_in a _) = array_size a"
| "array_size (Pair_in a _ _) = array_size a"
| "array_size (Nth a _) = array_size a"
| "array_size (Record_field a _ _) = array_size a"
| "array_size (Call a _ _) = array_size a"
| "array_size (And_also a _) = array_size a"
| "array_size (Or_else a _) = array_size a"
| "array_size (Negate a) = array_size a"
| "array_size _ = None"

text \<open>The subtrees with their positions in the Python list.\<close>

fun children :: "node \<Rightarrow> (nat \<times> node) list" where
  "children (Binary _ a b) = [(2, a), (3, b)]"
| "children (Shift _ a b _) = [(2, a), (3, b)]"
| "children (Bnot a) = [(1, a)]"
| "children (Select a b c) = [(1, a), (2, b), (3, c)]"
| "children (Join a b c d) = [(1, a), (2, b), (3, c), (4, d)]"
| "children (Partial a _ b) = [(1, a), (3, b)]"
| "children (If_guard _ a b _) = [(2, a), (3, b)]"
| "children (Let_in a b) = [(1, a), (2, b)]"
| "children (Pair_in a b c) = [(1, a), (2, b), (3, c)]"
| "children (Match _ a b) = [(2, a), (3, b)]"
| "children (Nth a b) = [(1, a), (2, b)]"
| "children (Record_field a b _) = [(1, a), (2, b)]"
| "children (Call a b c) = [(1, a), (2, b), (3, c)]"
| "children (Compare _ a b) = [(2, a), (3, b)]"
| "children (And_also a b) = [(1, a), (2, b)]"
| "children (Or_else a b) = [(1, a), (2, b)]"
| "children (Negate a) = [(1, a)]"
| "children (Set_at a b c) = [(1, a), (2, b), (3, c)]"
| "children (Sublist a b c) = [(1, a), (2, b), (3, c)]"
| "children (Slice _ a b) = [(2, a), (3, b)]"
| "children _ = []"

text \<open>\<open>node[:index] + [small] + node[index + 1:]\<close>.\<close>

fun replace_child :: "node \<Rightarrow> nat \<Rightarrow> node \<Rightarrow> node" where
  "replace_child (Binary op a b) i s = (if i = 2 then Binary op s b else Binary op a s)"
| "replace_child (Shift op a b t) i s = (if i = 2 then Shift op s b t else Shift op a s t)"
| "replace_child (Bnot a) i s = Bnot s"
| "replace_child (Select a b c) i s =
     (if i = 1 then Select s b c else if i = 2 then Select a s c else Select a b s)"
| "replace_child (Join a b c d) i s =
     (if i = 1 then Join s b c d else if i = 2 then Join a s c d
      else if i = 3 then Join a b s d else Join a b c s)"
| "replace_child (Partial a k b) i s = (if i = 1 then Partial s k b else Partial a k s)"
| "replace_child (If_guard g a b f) i s = (if i = 2 then If_guard g s b f else If_guard g a s f)"
| "replace_child (Let_in a b) i s = (if i = 1 then Let_in s b else Let_in a s)"
| "replace_child (Pair_in a b c) i s =
     (if i = 1 then Pair_in s b c else if i = 2 then Pair_in a s c else Pair_in a b s)"
| "replace_child (Match k a b) i s = (if i = 2 then Match k s b else Match k a s)"
| "replace_child (Nth a b) i s = (if i = 1 then Nth s b else Nth a s)"
| "replace_child (Record_field a b f) i s =
     (if i = 1 then Record_field s b f else Record_field a s f)"
| "replace_child (Call a b c) i s =
     (if i = 1 then Call s b c else if i = 2 then Call a s c else Call a b s)"
| "replace_child (Compare op a b) i s = (if i = 2 then Compare op s b else Compare op a s)"
| "replace_child (And_also a b) i s = (if i = 1 then And_also s b else And_also a s)"
| "replace_child (Or_else a b) i s = (if i = 1 then Or_else s b else Or_else a s)"
| "replace_child (Negate a) i s = Negate s"
| "replace_child (Set_at a b c) i s =
     (if i = 1 then Set_at s b c else if i = 2 then Set_at a s c else Set_at a b s)"
| "replace_child (Sublist a b c) i s =
     (if i = 1 then Sublist s b c else if i = 2 then Sublist a s c else Sublist a b s)"
| "replace_child (Slice n a b) i s = (if i = 2 then Slice n s b else Slice n a s)"
| "replace_child n i s = n"

lemma children_size: "(i, c) \<in> set (children n) \<Longrightarrow> size c < size n"
  by (cases n) auto

datatype node_kind = Word | Boolean | Array_of int

definition node_type :: "node \<Rightarrow> node_kind option" where
  "node_type n = (case n of
      Compare _ _ _ \<Rightarrow> Some Boolean | And_also _ _ \<Rightarrow> Some Boolean
    | Or_else _ _ \<Rightarrow> Some Boolean | Negate _ \<Rightarrow> Some Boolean
    | Values \<Rightarrow> map_option Array_of (array_size n)
    | Set_at _ _ _ \<Rightarrow> map_option Array_of (array_size n)
    | Sublist _ _ _ \<Rightarrow> map_option Array_of (array_size n)
    | Slice _ _ _ \<Rightarrow> map_option Array_of (array_size n)
    | _ \<Rightarrow> Some Word)"

text \<open>Bindings a child position has in scope beyond its parent's.\<close>

definition scope_increment :: "node \<Rightarrow> nat \<Rightarrow> int" where
  "scope_increment n i = (case n of
      Let_in _ _ \<Rightarrow> (if i = 2 then 1 else 0)
    | Join _ _ _ _ \<Rightarrow> (if i = 4 then 1 else 0)
    | Pair_in _ _ _ \<Rightarrow> (if i = 3 then 2 else 0)
    | _ \<Rightarrow> 0)"

text \<open>
  Scope validity. A call is refused where calls are disabled or its array argument has not three
  elements (an argument that is no array, on which \<open>array_size\<close> may raise, is refused too).
\<close>

function valid :: "node \<Rightarrow> int \<Rightarrow> bool \<Rightarrow> bool" where
  "valid n bound calls =
     (case n of
        Bound i \<Rightarrow> 0 \<le> i \<and> i < bound
      | _ \<Rightarrow>
        (if (case n of Call _ _ c \<Rightarrow> \<not> calls \<or> array_size c \<noteq> Some 3 | _ \<Rightarrow> False) then False
         else list_all (\<lambda>(i, c). valid c (bound + scope_increment n i) calls) (children n)))"
  by pat_completeness auto
termination
  by (relation "measure (\<lambda>(n, _, _). size n)") (auto dest: children_size)

declare valid.simps [simp del]

function tree_cost :: "node \<Rightarrow> nat" where
  "tree_cost n = 1 + sum_list (map (\<lambda>(_, c). tree_cost c) (children n))"
  by pat_completeness auto
termination
  by (relation "measure size") (auto dest: children_size)

declare tree_cost.simps [simp del]

section \<open>Reductions\<close>

function reductions :: "node \<Rightarrow> node list" where
  "reductions n = (let kind = node_type n in
     (if kind = Some Word then [Const 0, Const 1, Var ''X'', Var ''Y''] else []) @
     (if kind = Some (Array_of 3) then [Values] else []) @
     map snd (filter (\<lambda>(_, c). node_type c = kind) (children n)) @
     (case n of Const k \<Rightarrow> map Const [0, 1, -1, k div 2] | _ \<Rightarrow> []) @
     concat (map (\<lambda>(i, c). map (replace_child n i) (reductions c)) (children n)))"
  by pat_completeness auto
termination
  by (relation "measure size") (auto dest: children_size)

declare reductions.simps [simp del]

section \<open>Programs and their canonical form\<close>

record program =
  program_seed :: int
  program_case :: int
  program_type :: string
  program_total :: bool
  expression :: node
  helper :: node
  inputs :: "int list list"

text \<open>The list encoding, and \<open>json.dumps\<close> with compact separators on ASCII text.\<close>

fun to_json :: "node \<Rightarrow> json" where
  "to_json (Var x) = JArr [JStr ''var'', JStr x]"
| "to_json (Bound i) = JArr [JStr ''bound'', JInt i]"
| "to_json (Const k) = JArr [JStr ''const'', JInt k]"
| "to_json (Binary op a b) = JArr [JStr ''binary'', JStr op, to_json a, to_json b]"
| "to_json (Shift op a b t) = JArr [JStr ''shift'', JStr op, to_json a, to_json b, JStr t]"
| "to_json (Bnot a) = JArr [JStr ''bnot'', to_json a]"
| "to_json (Select a b c) = JArr [JStr ''select'', to_json a, to_json b, to_json c]"
| "to_json (Join a b c d) = JArr [JStr ''join'', to_json a, to_json b, to_json c, to_json d]"
| "to_json (Partial a k b) = JArr [JStr ''partial'', to_json a, JInt k, to_json b]"
| "to_json (If_guard g a b f) = JArr [JStr ''if'', JStr g, to_json a, to_json b, JBool f]"
| "to_json (Let_in a b) = JArr [JStr ''let'', to_json a, to_json b]"
| "to_json (Pair_in a b c) = JArr [JStr ''pair'', to_json a, to_json b, to_json c]"
| "to_json (Match k a b) = JArr [JStr ''match'', JInt k, to_json a, to_json b]"
| "to_json (Nth a b) = JArr [JStr ''nth'', to_json a, to_json b]"
| "to_json (Record_field a b f) = JArr [JStr ''record'', to_json a, to_json b, JStr f]"
| "to_json (Call a b c) = JArr [JStr ''call'', to_json a, to_json b, to_json c]"
| "to_json (Compare op a b) = JArr [JStr ''compare'', JStr op, to_json a, to_json b]"
| "to_json (And_also a b) = JArr [JStr ''andalso'', to_json a, to_json b]"
| "to_json (Or_else a b) = JArr [JStr ''orelse'', to_json a, to_json b]"
| "to_json (Negate a) = JArr [JStr ''not'', to_json a]"
| "to_json Values = JArr [JStr ''values'']"
| "to_json (Set_at a b c) = JArr [JStr ''set'', to_json a, to_json b, to_json c]"
| "to_json (Sublist a b c) = JArr [JStr ''sublist'', to_json a, to_json b, to_json c]"
| "to_json (Slice n a b) = JArr [JStr ''slice'', JInt n, to_json a, to_json b]"

definition canonical :: "json \<Rightarrow> string" where
  "canonical v = dumps (\<lambda>_. []) v" \<comment> \<open>trees and programs hold no floats\<close>

definition program_cost :: "program \<Rightarrow> nat \<times> nat \<times> string" where
  "program_cost p =
     (let text = canonical (JArr [to_json (expression p), to_json (helper p)]) in
      (tree_cost (expression p) + tree_cost (helper p), length text, text))"

definition program_reductions :: "program \<Rightarrow> program list" where
  "program_reductions p =
     filter (\<lambda>c. valid (expression c) 0 True \<and> program_cost c < program_cost p)
       (map (\<lambda>t. p\<lparr>expression := t\<rparr>) (reductions (expression p))) @
     filter (\<lambda>c. valid (helper c) 0 False \<and> program_cost c < program_cost p)
       (map (\<lambda>t. p\<lparr>helper := t\<rparr>) (reductions (helper p)))"

section \<open>Typing\<close>

abbreviation "is_word n \<equiv> node_type n = Some Word"
abbreviation "is_boolean n \<equiv> node_type n = Some Boolean"
abbreviation "is_array n \<equiv> \<exists>k. node_type n = Some (Array_of k)"

text \<open>The grammar of the generator: operators and operand kinds of each node.\<close>

fun well_typed :: "node \<Rightarrow> bool" where
  "well_typed (Var x) \<longleftrightarrow> x = ''X'' \<or> x = ''Y''"
| "well_typed (Bound _) \<longleftrightarrow> True"
| "well_typed (Const _) \<longleftrightarrow> True"
| "well_typed (Binary op a b) \<longleftrightarrow>
     op \<in> set word_binary \<and> is_word a \<and> is_word b \<and> well_typed a \<and> well_typed b"
| "well_typed (Shift op a b t) \<longleftrightarrow> (op = ''bsl'' \<or> op = ''bsr'') \<and> (t = ''s8'' \<or> t = ''u8'') \<and>
     is_word a \<and> is_word b \<and> well_typed a \<and> well_typed b"
| "well_typed (Bnot a) \<longleftrightarrow> is_word a \<and> well_typed a"
| "well_typed (Select c a b) \<longleftrightarrow> is_boolean c \<and> is_word a \<and> is_word b \<and>
     well_typed c \<and> well_typed a \<and> well_typed b"
| "well_typed (Join c a b d) \<longleftrightarrow> is_boolean c \<and> is_word a \<and> is_word b \<and> is_word d \<and>
     well_typed c \<and> well_typed a \<and> well_typed b \<and> well_typed d"
| "well_typed (Partial a _ b) \<longleftrightarrow> is_word a \<and> is_word b \<and> well_typed a \<and> well_typed b"
| "well_typed (If_guard g a b _) \<longleftrightarrow>
     g \<in> set [''compare'', ''rem'', ''alternative'', ''shift''] \<and>
     is_word a \<and> is_word b \<and> well_typed a \<and> well_typed b"
| "well_typed (Let_in a b) \<longleftrightarrow> is_word a \<and> is_word b \<and> well_typed a \<and> well_typed b"
| "well_typed (Pair_in a b c) \<longleftrightarrow> is_word a \<and> is_word b \<and> is_word c \<and>
     well_typed a \<and> well_typed b \<and> well_typed c"
| "well_typed (Match _ a b) \<longleftrightarrow> is_word a \<and> is_word b \<and> well_typed a \<and> well_typed b"
| "well_typed (Nth i a) \<longleftrightarrow> is_word i \<and> is_array a \<and> well_typed i \<and> well_typed a"
| "well_typed (Record_field a b f) \<longleftrightarrow> (f = ''a'' \<or> f = ''b'') \<and>
     is_word a \<and> is_word b \<and> well_typed a \<and> well_typed b"
| "well_typed (Call a b c) \<longleftrightarrow> is_word a \<and> is_word b \<and> is_array c \<and>
     well_typed a \<and> well_typed b \<and> well_typed c"
| "well_typed (Compare op a b) \<longleftrightarrow>
     op \<in> set comparisons \<and> is_word a \<and> is_word b \<and> well_typed a \<and> well_typed b"
| "well_typed (And_also a b) \<longleftrightarrow> is_boolean a \<and> is_boolean b \<and> well_typed a \<and> well_typed b"
| "well_typed (Or_else a b) \<longleftrightarrow> is_boolean a \<and> is_boolean b \<and> well_typed a \<and> well_typed b"
| "well_typed (Negate a) \<longleftrightarrow> is_boolean a \<and> well_typed a"
| "well_typed Values \<longleftrightarrow> True"
| "well_typed (Set_at i a v) \<longleftrightarrow> is_word i \<and> is_array a \<and> is_word v \<and>
     well_typed i \<and> well_typed a \<and> well_typed v"
| "well_typed (Sublist a s c) \<longleftrightarrow> is_array a \<and> is_word s \<and> is_word c \<and>
     well_typed a \<and> well_typed s \<and> well_typed c"
| "well_typed (Slice _ a s) \<longleftrightarrow> is_array a \<and> is_word s \<and> well_typed a \<and> well_typed s"

lemma node_type_simps [simp]:
  "node_type (Var x) = Some Word"
  "node_type (Bound n) = Some Word"
  "node_type (Const n) = Some Word"
  "node_type (Binary op a b) = Some Word"
  "node_type (Shift op a b t) = Some Word"
  "node_type (Bnot a) = Some Word"
  "node_type (Select c a b) = Some Word"
  "node_type (Join c a b d) = Some Word"
  "node_type (Partial a n b) = Some Word"
  "node_type (If_guard g a b fallback) = Some Word"
  "node_type (Let_in a b) = Some Word"
  "node_type (Pair_in a b c) = Some Word"
  "node_type (Match n a b) = Some Word"
  "node_type (Nth a b) = Some Word"
  "node_type (Record_field a b field) = Some Word"
  "node_type (Call a b c) = Some Word"
  "node_type (Compare op a b) = Some Boolean"
  "node_type (And_also a b) = Some Boolean"
  "node_type (Or_else a b) = Some Boolean"
  "node_type (Negate a) = Some Boolean"
  "node_type Values = Some (Array_of 3)"
  "node_type (Set_at e a v) = map_option Array_of (array_size a)"
  "node_type (Sublist a e v) = map_option Array_of (array_size a)"
  "node_type (Slice n a e) = Some (Array_of n)"
  by (simp_all add: node_type_def)

lemma array_type_size: "node_type n = Some (Array_of k) \<Longrightarrow> array_size n = Some k"
  by (cases n) auto

lemma well_typed_child: "well_typed n \<Longrightarrow> (i, c) \<in> set (children n) \<Longrightarrow> well_typed c"
  by (cases n) auto

lemma replace_child_typed:
  assumes "well_typed n" and "(i, c) \<in> set (children n)"
    and "well_typed s" and "node_type s = node_type c"
  shows "well_typed (replace_child n i s) \<and> node_type (replace_child n i s) = node_type n"
proof -
  have "array_size s = array_size c" if "node_type c = Some (Array_of k)" for k
    using that assms(4) by (metis array_type_size)
  with assms show ?thesis
    by (cases n) auto
qed

end
