(* ===== verification/Diff_Reduce.thy ===== *)
theory Diff_Reduce
  imports Diff_Syntax
begin

text \<open>
  Structural reductions of differential programs: they keep the grammar, the type and the scope of
  a tree, and every offered program is strictly cheaper, so that no chain of reductions is
  infinite.
\<close>

section \<open>Reductions keep types\<close>

lemma reductions_cases:
  assumes "r \<in> set (reductions n)"
  obtains
    (word) "node_type n = Some Word" and "r \<in> {Const 0, Const 1, Var ''X'', Var ''Y''}"
  | (array) "node_type n = Some (Array_of 3)" and "r = Values"
  | (child) i where "(i, r) \<in> set (children n)" and "node_type r = node_type n"
  | (const) k j where "n = Const k" and "r = Const j"
  | (inner) i c s where "(i, c) \<in> set (children n)" and "s \<in> set (reductions c)"
      and "r = replace_child n i s"
  using assms
  by (subst (asm) reductions.simps)
    (auto simp: Let_def split: if_splits node.splits)

lemma reductions_typed:
  "well_typed n \<Longrightarrow> r \<in> set (reductions n) \<Longrightarrow> well_typed r \<and> node_type r = node_type n"
proof (induction n arbitrary: r rule: measure_induct_rule[of size])
  case (less n)
  from less.prems(2) show ?case
  proof (cases rule: reductions_cases)
    case (inner i c s)
    then have "well_typed s \<and> node_type s = node_type c"
      using less.IH children_size well_typed_child less.prems(1) by blast
    with inner less.prems(1) show ?thesis
      using replace_child_typed by blast
  qed (use less.prems(1) well_typed_child in auto)
qed

section \<open>Program reductions\<close>

text \<open>What the generator promises, and the interpreter of the test bench relies on.\<close>

definition good_program :: "program \<Rightarrow> bool" where
  "good_program p \<longleftrightarrow>
     well_typed (expression p) \<and> is_word (expression p) \<and> valid (expression p) 0 True \<and>
     well_typed (helper p) \<and> is_word (helper p) \<and> valid (helper p) 0 False"

lemma program_reductions_cases:
  assumes "q \<in> set (program_reductions p)"
  obtains
    (expression) t where "q = p\<lparr>expression := t\<rparr>" and "t \<in> set (reductions (expression p))"
      and "valid t 0 True" and "program_cost q < program_cost p"
  | (helper) t where "q = p\<lparr>helper := t\<rparr>" and "t \<in> set (reductions (helper p))"
      and "valid t 0 False" and "program_cost q < program_cost p"
  using assms by (auto simp: program_reductions_def)

lemma program_reductions_good:
  "good_program p \<Longrightarrow> q \<in> set (program_reductions p) \<Longrightarrow> good_program q"
  by (elim program_reductions_cases)
    (auto simp: good_program_def dest: reductions_typed)

lemma program_reductions_cheaper:
  "q \<in> set (program_reductions p) \<Longrightarrow> program_cost q < program_cost p"
  by (elim program_reductions_cases)

lemma program_reductions_frame:
  "q \<in> set (program_reductions p) \<Longrightarrow>
   inputs q = inputs p \<and> program_type q = program_type p \<and> program_total q = program_total p \<and>
   program_seed q = program_seed p \<and> program_case q = program_case p"
  by (elim program_reductions_cases) auto

subsection \<open>Strings of one length are well founded\<close>

lemma char_less_of_char: "(c :: char) < d \<longleftrightarrow> (of_char c :: nat) < of_char d"
  by (simp add: less_char_def)

lemma wf_char_less: "wf {(c :: char, d). c < d}"
proof (rule wf_subset[OF wf_measure[of "of_char :: char \<Rightarrow> nat"]])
  show "{(c :: char, d). c < d} \<subseteq> measure of_char"
    by (auto simp: char_less_of_char)
qed

lemma list_less_lexord: "(xs :: 'a :: linorder list) < ys \<longleftrightarrow> (xs, ys) \<in> lexord {(a, b). a < b}"
  by (simp add: list_less_def)

text \<open>The order of \<open>program_cost\<close>: nodes, then characters, then the text itself.\<close>

definition cost_order :: "((nat \<times> nat \<times> string) \<times> (nat \<times> nat \<times> string)) set" where
  "cost_order = less_than <*lex*> less_than <*lex*> lex {(c, d). c < d}"

lemma wf_cost_order: "wf cost_order"
  by (auto simp: cost_order_def intro!: wf_lex_prod wf_lex wf_char_less)

lemma program_cost_order:
  assumes "program_cost q < program_cost p"
  shows "(program_cost q, program_cost p) \<in> cost_order"
  using assms
  by (auto simp: program_cost_def cost_order_def Let_def less_prod_def' list_less_lexord
      lexord_lex)

lemma wf_program_reductions: "wf {(q, p). q \<in> set (program_reductions p)}"
proof (rule wf_subset[OF wf_inv_image[OF wf_cost_order, of program_cost]])
  show "{(q, p). q \<in> set (program_reductions p)} \<subseteq> inv_image cost_order program_cost"
    using program_cost_order program_reductions_cheaper by (auto simp: in_inv_image)
qed

end
