(* ===== verification/Diff_Run.thy ===== *)
theory Diff_Run
  imports Diff_Syntax
begin

unbundle bit_operations_syntax

text \<open>
  One differential batch (\<open>tools/compiler_differential.py\<close>): the phases of \<open>Runner.run\<close>, the
  classification of tool failures, the signature reducers compare, and the packing of the RTL
  test vectors. What the tools answer (exit status, output, the Erlang oracle) is an argument.
\<close>

section \<open>Searching tool logs\<close>

fun contains :: "string \<Rightarrow> string \<Rightarrow> bool" where
  "contains pat [] = (pat = [])"
| "contains pat (c # cs) = (prefix pat (c # cs) \<or> contains pat cs)"

lemma contains_iff: "contains pat s \<longleftrightarrow> sublist pat s"
proof
  show "contains pat s \<Longrightarrow> sublist pat s"
    by (induction pat s rule: contains.induct) (auto simp: sublist_Cons_right)
next
  show "sublist pat s \<Longrightarrow> contains pat s"
    by (induction s) (auto simp: sublist_Cons_right)
qed

definition category :: "string \<Rightarrow> string \<Rightarrow> string" where
  "category phase log =
     (if phase = ''dslx'' \<and> (contains ''assert_eq failed'' log \<or> contains ''were not equal'' log)
        then ''result_mismatch''
      else if phase = ''rtl'' \<and> contains ''DIFFERENTIAL MISMATCH'' log then ''result_mismatch''
      else case find (\<lambda>d. contains d log)
          [''TypeInferenceError'', ''TypeMismatchError'', ''ParseError'', ''ScanError'',
           ''FailureError'', ''INVALID_ARGUMENT'', ''INTERNAL''] of
        Some d \<Rightarrow> d
      | None \<Rightarrow> ''tool_error'')"

text \<open>
  \<open>re.search(r"\b<n> test\(s\) ran", log)\<close>; \<open>prev\<close> is the character before the suffix. The
  pattern begins with a digit, so \<open>\b\<close> asks for a character that is no word character.
\<close>

fun search_at_word :: "string \<Rightarrow> char option \<Rightarrow> string \<Rightarrow> bool" where
  "search_at_word pat prev s =
     ((case prev of None \<Rightarrow> True | Some c \<Rightarrow> \<not> word_char c) \<and> prefix pat s \<or>
      (case s of [] \<Rightarrow> False | c # cs \<Rightarrow> search_at_word pat (Some c) cs))"

declare search_at_word.simps [simp del]

definition tests_ran :: "nat \<Rightarrow> string \<Rightarrow> bool" where
  "tests_ran n log = search_at_word (show_nat n @ '' test(s) ran'') None log"

text \<open>\<open>re.match(r"[a-z_]+|\{([a-z_]+)", reason).group(0)\<close>, or \<open>"unknown"\<close>.\<close>

definition lower_char :: "char \<Rightarrow> bool" where
  "lower_char c \<longleftrightarrow> is_lower c \<or> c = CHR ''_''"

definition short_reason :: "string \<Rightarrow> string" where
  "short_reason s =
     (if takeWhile lower_char s \<noteq> [] then takeWhile lower_char s
      else case s of
        [] \<Rightarrow> ''unknown''
      | c # cs \<Rightarrow> if c = CHR ''{'' \<and> takeWhile lower_char cs \<noteq> []
          then c # takeWhile lower_char cs else ''unknown'')"

section \<open>A batch\<close>

record tool_exit =
  returncode :: int
  timed_out :: bool
  tool_stdout :: string
  tool_stderr :: string

record oracle_answer =
  oracle_status :: string
  oracle_reason :: "string option"
  oracle_location :: "json option"
  expected :: "int list list"

record evidence =
  exits :: "string \<Rightarrow> tool_exit"
  oracle_file :: oracle_answer

record batch_result =
  status :: string
  phase :: "string option"
  failure_category :: "string option"
  reason :: "string option"
  location :: "json option"
  outcomes :: "(int \<times> nat) list option"
  batch_programs :: nat
  vectors :: nat
  rtl :: bool

definition command :: "evidence \<Rightarrow> string \<Rightarrow> (string \<times> string) option" where
  "command ev ph =
     (let r = exits ev ph in
      if returncode r \<noteq> 0 \<or> timed_out r
      then Some (ph, if timed_out r then ''timeout'' else category ph (tool_stdout r @ tool_stderr r))
      else None)"

fun first_failure :: "evidence \<Rightarrow> string list \<Rightarrow> (string \<times> string) option" where
  "first_failure ev [] = None"
| "first_failure ev (ph # phs) =
     (case command ev ph of Some f \<Rightarrow> Some f | None \<Rightarrow> first_failure ev phs)"

definition failed :: "batch_result \<Rightarrow> string \<Rightarrow> string \<Rightarrow> batch_result" where
  "failed r ph cat = r\<lparr>status := ''failed'', phase := Some ph, failure_category := Some cat\<rparr>"

definition count_outcomes :: "int list list \<Rightarrow> (int \<times> nat) list" where
  "count_outcomes cs =
     (let outs = concat (map (map (\<lambda>v. v div 2 ^ 32)) cs) in
      map (\<lambda>k. (k, count_list outs k)) (sort (uniq outs)))"

definition breaks_totality :: "program list \<Rightarrow> int list list \<Rightarrow> bool" where
  "breaks_totality ps cs \<longleftrightarrow>
     list_ex (\<lambda>(p, vs). program_total p \<and> list_ex (\<lambda>v. v div 2 ^ 32 \<noteq> 0) vs) (zip ps cs)"

definition run_pipeline :: "bool \<Rightarrow> string list" where
  "run_pipeline with_rtl = [''convert'', ''optimize''] @
     (if with_rtl then [''codegen'', ''iverilog'', ''rtl''] else [])"

definition vector_count :: "program list \<Rightarrow> nat" where
  "vector_count ps = sum_list (map (\<lambda>p. length (inputs p)) ps)"

definition run_batch :: "evidence \<Rightarrow> program list \<Rightarrow> bool \<Rightarrow> batch_result" where
  "run_batch ev ps with_rtl =
     (let r = \<lparr>status = ''ok'', phase = None, failure_category = None, reason = None,
               location = None, outcomes = None, batch_programs = length ps,
               vectors = vector_count ps, rtl = with_rtl\<rparr>;
          orc = oracle_file ev
      in case command ev ''lower'' of
        Some (ph, cat) \<Rightarrow> failed r ph cat
      | None \<Rightarrow>
        if oracle_status orc \<noteq> ''ok''
        then (failed r ''lower'' (oracle_status orc))
          \<lparr>reason := Some (short_reason (case oracle_reason orc of None \<Rightarrow> [] | Some s \<Rightarrow> s)),
           location := oracle_location orc\<rparr>
        else let r = r\<lparr>outcomes := Some (count_outcomes (expected orc))\<rparr> in
        if breaks_totality ps (expected orc) then failed r ''oracle'' ''invalid_total_program''
        else case command ev ''dslx'' of
          Some (ph, cat) \<Rightarrow> failed r ph cat
        | None \<Rightarrow>
          if \<not> tests_ran (length ps) (tool_stderr (exits ev ''dslx''))
          then failed r ''dslx'' ''missing_tests''
          else case first_failure ev (run_pipeline with_rtl) of
            Some (ph, cat) \<Rightarrow> failed r ph cat
          | None \<Rightarrow>
            if with_rtl \<and> \<not> contains (''PASS: '' @ show_nat (vectors r) @
                 '' differential RTL vectors'') (tool_stdout (exits ev ''rtl''))
            then failed r ''rtl'' ''missing_tests''
            else r)"

definition signature ::
  "batch_result \<Rightarrow> string option \<times> string option \<times> string option \<times> json option" where
  "signature r = (phase r, failure_category r, reason r, location r)"

lemma first_failure_None [simp]:
  "first_failure ev phs = None \<longleftrightarrow> (\<forall>ph\<in>set phs. command ev ph = None)"
  by (induction phs) (auto split: option.splits)

lemma command_None [simp]:
  "command ev ph = None \<longleftrightarrow> returncode (exits ev ph) = 0 \<and> \<not> timed_out (exits ev ph)"
  by (auto simp: command_def Let_def)

lemma status_failed [simp]:
  "status (failed r ph cat) = ''failed''" "signature (failed r ph cat) =
     (Some ph, Some cat, reason r, location r)"
  by (simp_all add: failed_def signature_def)

lemma search_at_word_sublist: "search_at_word pat prev s \<Longrightarrow> sublist pat s"
proof (induction pat prev s rule: search_at_word.induct)
  case (1 pat prev s)
  from "1.prems" show ?case
    by (subst (asm) search_at_word.simps)
      (auto simp: sublist_Cons_right prefix_imp_sublist split: list.splits option.splits
        dest: "1.IH")
qed

section \<open>RTL test vectors\<close>

text \<open>The row of the memory image, and the line \<open>f"{row:057x}"\<close>.\<close>

definition pack_row :: "int \<Rightarrow> int list \<Rightarrow> int \<Rightarrow> int" where
  "pack_row mode values exp = push_bit 36 (foldl (\<lambda>row v. push_bit 32 row OR v) mode values) OR exp"


definition vector_line :: "int \<Rightarrow> string" where
  "vector_line row = (let h = hex_string (nat row) in replicate (57 - length h) (CHR ''0'') @ h)"

definition testbench_rows :: "program list \<Rightarrow> int list list \<Rightarrow> string list" where
  "testbench_rows ps cs = concat (map
     (\<lambda>(mode, p, es). map (\<lambda>(vs, e). vector_line (pack_row (int mode) vs e)) (zip (inputs p) es))
     (enumerate 0 (zip ps cs)))"

text \<open>
  What the generated test bench does with a line: \<open>$readmemh\<close> into a 228-bit word and the
  concatenation \<open>{mode, x, y, a, b, c, expected}\<close> on the left of an assignment.
\<close>

definition read_hex :: "string \<Rightarrow> nat" where
  "read_hex s = foldl (\<lambda>n c. 16 * n + hex_value c) 0 s"

definition read_vector :: "string \<Rightarrow> int \<times> int list \<times> int" where
  "read_vector s = (let w = take_bit 228 (int (read_hex s)) in
     (take_bit 32 (drop_bit 196 w),
      map (\<lambda>k. take_bit 32 (drop_bit k w)) [164, 132, 100, 68, 36],
      take_bit 36 w))"

lemma read_hex_append: "read_hex (s @ [c]) = 16 * read_hex s + hex_value c"
  by (simp add: read_hex_def)

lemma read_hex_string [simp]: "read_hex (hex_string n) = n"
proof (induction n rule: hex_string.induct)
  case (1 n)
  show ?case
  proof (cases "n < 16")
    case True
    then show ?thesis by (subst hex_string.simps) (simp add: read_hex_def)
  next
    case False
    with 1 show ?thesis
      by (subst hex_string.simps) (simp add: read_hex_append)
  qed
qed

lemma read_hex_zeros: "read_hex (replicate k (CHR ''0'') @ s) = read_hex s"
proof (induction k)
  case (Suc k)
  then show ?case by (simp add: read_hex_def hex_value_def less_eq_char_def)
qed simp

lemma read_hex_line [simp]: "read_hex (vector_line row) = nat row"
  by (simp add: vector_line_def Let_def read_hex_zeros)

lemma join_bits:
  fixes a b :: int
  assumes "0 \<le> b" and "b < 2 ^ n"
  shows "push_bit n a OR b = a * 2 ^ n + b"
proof -
  have "b = take_bit n b" using assms by (simp add: take_bit_int_eq_self)
  moreover have "push_bit n a AND take_bit n b = 0"
    by (intro bit_eqI) (auto simp: bit_simps)
  ultimately have "push_bit n a OR b = push_bit n a + b"
    by (metis disjunctive_add_eq_or)
  then show ?thesis by (simp add: push_bit_eq_mult)
qed

lemma pack_row_value:
  assumes "\<forall>v\<in>{x, y, a, b, c}. 0 \<le> v \<and> v < 2 ^ 32" and "0 \<le> e" and "e < 2 ^ 36"
  shows "pack_row mode [x, y, a, b, c] e =
    mode * 2 ^ 196 + x * 2 ^ 164 + y * 2 ^ 132 + a * 2 ^ 100 + b * 2 ^ 68 + c * 2 ^ 36 + e"
  using assms by (simp add: pack_row_def join_bits algebra_simps)

lemma slice:
  fixes q r v :: int
  assumes "w = (q * 2 ^ n + v) * 2 ^ k + r" and "0 \<le> v" and "v < 2 ^ n" and "0 \<le> r" and "r < 2 ^ k"
  shows "take_bit n (drop_bit k w) = v"
proof -
  have "w div 2 ^ k = q * 2 ^ n + v"
    using assms by (simp add: div_pos_pos_trivial)
  then show ?thesis
    using assms by (simp add: take_bit_eq_mod drop_bit_eq_div)
qed

lemma read_pack_row:
  assumes "0 \<le> mode" and "mode < 2 ^ 32"
    and "\<forall>v\<in>{x, y, a, b, c}. 0 \<le> v \<and> v < 2 ^ 32" and "0 \<le> e" and "e < 2 ^ 36"
  shows "read_vector (vector_line (pack_row mode [x, y, a, b, c] e)) = (mode, [x, y, a, b, c], e)"
proof -
  define w where "w = pack_row mode [x, y, a, b, c] e"
  have w: "w = mode * 2 ^ 196 + x * 2 ^ 164 + y * 2 ^ 132 + a * 2 ^ 100 + b * 2 ^ 68 + c * 2 ^ 36 + e"
    unfolding w_def using assms by (intro pack_row_value) auto
  have bounds: "0 \<le> x" "x < 2 ^ 32" "0 \<le> y" "y < 2 ^ 32" "0 \<le> a" "a < 2 ^ 32" "0 \<le> b" "b < 2 ^ 32"
    "0 \<le> c" "c < 2 ^ 32"
    using assms by auto
  note facts = bounds assms(1,2,4,5)
  have "0 \<le> w" "w < 2 ^ 228" using facts unfolding w by simp_all
  then have "take_bit 228 (int (nat w)) = w" by (simp add: take_bit_int_eq_self)
  moreover have "take_bit 32 (drop_bit 196 w) = mode"
    by (rule slice[where q = 0 and r = "x * 2 ^ 164 + y * 2 ^ 132 + a * 2 ^ 100 + b * 2 ^ 68 + c * 2 ^ 36 + e"])
      (use facts w in simp_all)
  moreover have "take_bit 32 (drop_bit 164 w) = x"
    by (rule slice[where q = mode and r = "y * 2 ^ 132 + a * 2 ^ 100 + b * 2 ^ 68 + c * 2 ^ 36 + e"])
      (use facts w in simp_all)
  moreover have "take_bit 32 (drop_bit 132 w) = y"
    by (rule slice[where q = "mode * 2 ^ 32 + x" and r = "a * 2 ^ 100 + b * 2 ^ 68 + c * 2 ^ 36 + e"])
      (use facts w in simp_all)
  moreover have "take_bit 32 (drop_bit 100 w) = a"
    by (rule slice[where q = "mode * 2 ^ 64 + x * 2 ^ 32 + y" and r = "b * 2 ^ 68 + c * 2 ^ 36 + e"])
      (use facts w in simp_all)
  moreover have "take_bit 32 (drop_bit 68 w) = b"
    by (rule slice[where q = "mode * 2 ^ 96 + x * 2 ^ 64 + y * 2 ^ 32 + a" and r = "c * 2 ^ 36 + e"])
      (use facts w in simp_all)
  moreover have "take_bit 32 (drop_bit 36 w) = c"
    by (rule slice[where q = "mode * 2 ^ 128 + x * 2 ^ 96 + y * 2 ^ 64 + a * 2 ^ 32 + b" and r = e])
      (use facts w in simp_all)
  moreover have "take_bit 36 w = e"
    using slice[of w "mode * 2 ^ 160 + x * 2 ^ 128 + y * 2 ^ 96 + a * 2 ^ 64 + b * 2 ^ 32 + c" 36 e 0 0]
      facts w by simp
  ultimately show ?thesis
    by (simp add: read_vector_def w_def Let_def)
qed

end
