(* ===== verification/Diff_Minimize.thy ===== *)
theory Diff_Minimize
  imports Diff_Reduce Diff_Run
begin

text \<open>
  The reducer \<open>minimize\<close> of \<open>tools/compiler_differential.py\<close>: isolation of one program, bisection
  of its inputs, greedy structural reductions and canonicalization of the remaining words, all
  under one budget of runs. A run is an arbitrary function of its attempt number and candidate.
\<close>

section \<open>Accepting a candidate\<close>

text \<open>The dictionary of a program as it is dumped; \<open>schema\<close> is the constant 1.\<close>

definition program_json :: "program \<Rightarrow> json" where
  "program_json p = JObj
     [(''schema'', JInt 1), (''seed'', JInt (program_seed p)), (''case_id'', JInt (program_case p)),
      (''type'', JStr (program_type p)), (''total'', JBool (program_total p)),
      (''expression'', to_json (expression p)), (''helper'', to_json (helper p)),
      (''inputs'', JArr (map (\<lambda>row. JArr (map JInt row)) (inputs p)))]"

type_synonym run = "nat \<Rightarrow> program list \<Rightarrow> batch_result"
type_synonym failure_signature =
  "string option \<times> string option \<times> string option \<times> json option"

record shrink_state =
  attempts :: nat
  history :: "(nat \<times> bool \<times> failure_signature) list"
  seen :: "string list"

definition reproduces :: "batch_result \<Rightarrow> failure_signature \<Rightarrow> bool" where
  "reproduces r target \<longleftrightarrow> status r = ''failed'' \<and> signature r = target"

definition accepts ::
  "run \<Rightarrow> failure_signature \<Rightarrow> nat \<Rightarrow> program list \<Rightarrow> shrink_state \<Rightarrow> bool \<times> shrink_state" where
  "accepts run target budget candidate st =
     (let key = canonical (JArr (map program_json candidate)) in
      if budget \<le> attempts st \<or> key \<in> set (seen st) then (False, st)
      else let result = run (attempts st) candidate; same = reproduces result target in
        (same, \<lparr>attempts = attempts st + 1,
                history = history st @ [(attempts st, same, signature result)],
                seen = seen st @ [key]\<rparr>))"

text \<open>\<open>next((c for c in candidates if accepts(wrap(c))), None)\<close>, lazily and in order.\<close>

fun first_accepted ::
  "('c \<Rightarrow> 's \<Rightarrow> bool \<times> 's) \<Rightarrow> ('a \<Rightarrow> 'c) \<Rightarrow> 'a list \<Rightarrow> 's \<Rightarrow> 'a option \<times> 's" where
  "first_accepted acc wrap [] st = (None, st)"
| "first_accepted acc wrap (c # cs) st =
     (case acc (wrap c) st of (True, st') \<Rightarrow> (Some c, st')
      | (False, st') \<Rightarrow> first_accepted acc wrap cs st')"

text \<open>
  The contract the reducer's loops rely on: a state invariant, a counter that grows with every
  acceptance and never falls, and evidence for accepted candidates that later runs do not revoke.
\<close>

locale acceptor =
  fixes acc :: "'c \<Rightarrow> 's \<Rightarrow> bool \<times> 's"
    and spent :: "'s \<Rightarrow> nat"
    and ok :: "'s \<Rightarrow> bool"
    and shown :: "'s \<Rightarrow> 'c \<Rightarrow> bool"
  assumes ok_kept: "acc c s = (b, s') \<Longrightarrow> ok s \<Longrightarrow> ok s'"
    and spent_mono: "acc c s = (b, s') \<Longrightarrow> spent s \<le> spent s'"
    and accepted_spends: "acc c s = (True, s') \<Longrightarrow> spent s < spent s'"
    and accepted_shown: "acc c s = (True, s') \<Longrightarrow> shown s' c"
    and shown_kept: "acc c s = (b, s') \<Longrightarrow> shown s d \<Longrightarrow> shown s' d"
begin

lemma first_spent: "first_accepted acc wrap cs s = (r, s') \<Longrightarrow> spent s \<le> spent s'"
proof (induction cs arbitrary: s)
  case (Cons c cs)
  obtain b t where t: "acc (wrap c) s = (b, t)" by fastforce
  with Cons show ?case
    using spent_mono[OF t] by (cases b) (auto intro: le_trans)
qed simp

lemma first_ok: "first_accepted acc wrap cs s = (r, s') \<Longrightarrow> ok s \<Longrightarrow> ok s'"
proof (induction cs arbitrary: s)
  case (Cons c cs)
  obtain b t where t: "acc (wrap c) s = (b, t)" by fastforce
  with Cons show ?case
    using ok_kept[OF t] by (cases b) auto
qed simp

lemma first_shown_kept: "first_accepted acc wrap cs s = (r, s') \<Longrightarrow> shown s d \<Longrightarrow> shown s' d"
proof (induction cs arbitrary: s)
  case (Cons c cs)
  obtain b t where t: "acc (wrap c) s = (b, t)" by fastforce
  with Cons show ?case
    using shown_kept[OF t] by (cases b) auto
qed simp

lemma first_Some:
  "first_accepted acc wrap cs s = (Some c, s') \<Longrightarrow>
     c \<in> set cs \<and> shown s' (wrap c) \<and> spent s < spent s'"
proof (induction cs arbitrary: s)
  case (Cons d cs)
  obtain b t where t: "acc (wrap d) s = (b, t)" by fastforce
  with Cons show ?case
    using accepted_spends[of "wrap d" s t] accepted_shown[of "wrap d" s t] spent_mono[OF t]
    by (cases b) (auto dest!: Cons.IH)
qed simp

end

text \<open>What the reducer's own \<open>accepts\<close> keeps: the budget, one run per key, and its evidence.\<close>

definition within_budget :: "nat \<Rightarrow> shrink_state \<Rightarrow> bool" where
  "within_budget budget st \<longleftrightarrow> attempts st \<le> budget \<and> distinct (seen st) \<and>
     length (seen st) = attempts st \<and> map fst (history st) = [0..<attempts st]"

definition shown_by :: "run \<Rightarrow> failure_signature \<Rightarrow> shrink_state \<Rightarrow> program list \<Rightarrow> bool" where
  "shown_by run target st ps \<longleftrightarrow> (\<exists>n<attempts st. reproduces (run n ps) target)"

interpretation shrink: acceptor "accepts run target budget" attempts "within_budget budget"
  "shown_by run target" for run target budget
proof
  fix c s b s' d
  assume acc: "accepts run target budget c s = (b, s')"
  show "within_budget budget s \<Longrightarrow> within_budget budget s'"
    using acc by (auto simp: accepts_def within_budget_def Let_def split: if_splits)
  show "attempts s \<le> attempts s'"
    using acc by (auto simp: accepts_def Let_def split: if_splits)
  show "shown_by run target s d \<Longrightarrow> shown_by run target s' d"
    using acc by (force simp: accepts_def shown_by_def Let_def less_Suc_eq split: if_splits)
next
  fix c s s'
  assume acc: "accepts run target budget c s = (True, s')"
  then show "attempts s < attempts s'"
    by (auto simp: accepts_def Let_def split: if_splits)
  show "shown_by run target s' c"
    using acc by (auto simp: accepts_def shown_by_def Let_def split: if_splits)
qed

section \<open>The phases\<close>

text \<open>First isolate a program; a failure of the batch only retains the batch.\<close>

definition isolate ::
  "run \<Rightarrow> failure_signature \<Rightarrow> nat \<Rightarrow> program list \<Rightarrow> shrink_state \<Rightarrow> program list \<times> shrink_state"
where
  "isolate run target budget ps st =
     (if 1 < length ps
      then case first_accepted (accepts run target budget) (\<lambda>p. [p]) ps st of
          (Some p, st') \<Rightarrow> ([p], st') | (None, st') \<Rightarrow> (ps, st')
      else (ps, st))"

definition halves :: "'a list \<Rightarrow> 'a list list" where
  "halves xs = (let middle = length xs div 2 in [take middle xs, drop middle xs])"

lemma halves_shorter:
  "h \<in> set (halves xs) \<Longrightarrow> 1 < length xs \<Longrightarrow> length h < length xs \<and> h \<noteq> [] \<and> sublist h xs"
  by (auto simp: halves_def Let_def sublist_take sublist_drop)

lemma first_half:
  assumes "first_accepted (accepts run target budget) wrap (halves xs) st = (Some h, st')"
    and "Suc 0 < length xs"
  shows "length h < length xs \<and> h \<noteq> [] \<and> sublist h xs"
  using shrink.first_Some[OF assms(1)] halves_shorter[of h xs] assms(2) by simp

text \<open>Halve the input vectors while one half alone still fails.\<close>

function bisect ::
  "run \<Rightarrow> failure_signature \<Rightarrow> nat \<Rightarrow> program \<Rightarrow> shrink_state \<Rightarrow> program \<times> shrink_state" where
  "bisect run target budget p st =
     (if 1 < length (inputs p) \<and> attempts st < budget
      then (case first_accepted (accepts run target budget) (\<lambda>h. [p\<lparr>inputs := h\<rparr>])
            (halves (inputs p)) st of
          (None, st') \<Rightarrow> (p, st')
        | (Some half, st') \<Rightarrow> bisect run target budget (p\<lparr>inputs := half\<rparr>) st')
      else (p, st))"
  by pat_completeness auto
termination
  by (relation "measure (\<lambda>(_, _, _, p, _). length (inputs p))")
    (auto dest!: sym[of "(_, _)"] dest: first_half)

declare bisect.simps [simp del]

text \<open>Take the first cheaper program that still fails, until none does or the budget ends.\<close>

function descend ::
  "run \<Rightarrow> failure_signature \<Rightarrow> nat \<Rightarrow> program \<Rightarrow> shrink_state \<Rightarrow> program \<times> shrink_state" where
  "descend run target budget p st =
     (if attempts st < budget
      then (case first_accepted (accepts run target budget) (\<lambda>q. [q]) (program_reductions p) st of
          (None, st') \<Rightarrow> (p, st')
        | (Some small, st') \<Rightarrow> descend run target budget small st')
      else (p, st))"
  by pat_completeness auto
termination
  by (relation "measure (\<lambda>(_, _, budget, _, st). budget - attempts st)")
    (auto dest!: sym[of "(_, _)"] dest: shrink.first_Some)

declare descend.simps [simp del]

text \<open>Canonicalize one input word without increasing it.\<close>

definition smaller_words :: "int \<Rightarrow> int list" where
  "smaller_words value = filter (\<lambda>s. s < value) (uniq [0, 1, 2, 3, value div 2])"

definition set_input :: "nat \<Rightarrow> nat \<Rightarrow> int \<Rightarrow> program \<Rightarrow> program" where
  "set_input i j v p = p\<lparr>inputs := (inputs p)[i := (inputs p ! i)[j := v]]\<rparr>"

definition lower_word ::
  "run \<Rightarrow> failure_signature \<Rightarrow> nat \<Rightarrow> program \<times> shrink_state \<Rightarrow> nat \<times> nat \<Rightarrow> program \<times> shrink_state"
where
  "lower_word run target budget = (\<lambda>(p, st) (i, j).
     case first_accepted (accepts run target budget) (\<lambda>v. [set_input i j v p])
        (smaller_words (inputs p ! i ! j)) st of
       (None, st') \<Rightarrow> (p, st')
     | (Some v, st') \<Rightarrow> (set_input i j v p, st'))"

definition word_positions :: "program \<Rightarrow> (nat \<times> nat) list" where
  "word_positions p =
     concat (map (\<lambda>(i, row). map (Pair i) [0..<length row]) (enumerate 0 (inputs p)))"

definition minimize ::
  "run \<Rightarrow> program list \<Rightarrow> batch_result \<Rightarrow> nat \<Rightarrow> program list \<times> shrink_state" where
  "minimize run ps failure budget =
     (let target = signature failure;
          (selected, st) = isolate run target budget ps \<lparr>attempts = 0, history = [], seen = []\<rparr>
      in case selected of
        [p] \<Rightarrow>
          (let (p, st) = bisect run target budget p st;
               (p, st) = descend run target budget p st;
               (p, st) = foldl (lower_word run target budget) (p, st) (word_positions p)
           in ([p], st))
      | _ \<Rightarrow> (selected, st))"

section \<open>What every phase keeps\<close>

definition progress ::
  "run \<Rightarrow> failure_signature \<Rightarrow> nat \<Rightarrow> shrink_state \<Rightarrow> program list \<Rightarrow> shrink_state \<Rightarrow> program list \<Rightarrow> bool"
where
  "progress run target budget st ps st' qs \<longleftrightarrow>
     (within_budget budget st \<longrightarrow> within_budget budget st') \<and>
     (\<forall>d. shown_by run target st d \<longrightarrow> shown_by run target st' d) \<and>
     (qs = ps \<or> shown_by run target st' qs)"

lemma progress_refl [simp, intro]: "progress run target budget st ps st ps"
  by (simp add: progress_def)

lemma progress_trans:
  "progress run target budget st ps st' qs \<Longrightarrow> progress run target budget st' qs st'' rs \<Longrightarrow>
   progress run target budget st ps st'' rs"
  by (auto simp: progress_def)

lemma progress_first:
  assumes "first_accepted (accepts run target budget) wrap cs st = (r, st')"
  shows "progress run target budget st ps st' (case r of None \<Rightarrow> ps | Some c \<Rightarrow> wrap c)"
  using assms
  by (auto simp: progress_def split: option.splits dest: shrink.first_ok shrink.first_shown_kept
      shrink.first_Some)

lemmas progress_None = progress_first[where r = None, simplified]
lemmas progress_Some = progress_first[where r = "Some c" for c, simplified]

lemma isolate_keeps:
  assumes "isolate run target budget ps st = (qs, st')"
  shows "progress run target budget st ps st' qs \<and> set qs \<subseteq> set ps \<and> (qs = ps \<or> length qs = 1)"
  using assms
  by (auto simp: isolate_def split: if_splits prod.splits option.splits
      intro: progress_None progress_Some dest: shrink.first_Some)

lemma bisect_keeps:
  "bisect run target budget p st = (q, st') \<Longrightarrow>
     progress run target budget st [p] st' [q] \<and> q = p\<lparr>inputs := inputs q\<rparr> \<and>
     sublist (inputs q) (inputs p) \<and> (inputs q = [] \<longrightarrow> inputs p = [])"
proof (induction run target budget p st rule: bisect.induct)
  case (1 run target budget p st)
  show ?case
  proof (cases "1 < length (inputs p) \<and> attempts st < budget")
    case False
    with "1.prems" show ?thesis by (subst (asm) bisect.simps) auto
  next
    case True
    obtain r s where rs: "first_accepted (accepts run target budget) (\<lambda>h. [p\<lparr>inputs := h\<rparr>])
        (halves (inputs p)) st = (r, s)" by fastforce
    show ?thesis
    proof (cases r)
      case None
      with True rs "1.prems" show ?thesis
        by (subst (asm) bisect.simps) (auto intro: progress_None)
    next
      case (Some h)
      with True rs "1.prems" have next_step: "bisect run target budget (p\<lparr>inputs := h\<rparr>) s = (q, st')"
        by (subst (asm) bisect.simps) auto
      from "1.IH"[OF True rs[symmetric] Some next_step]
      have IH: "progress run target budget s [p\<lparr>inputs := h\<rparr>] st' [q]" "q = p\<lparr>inputs := inputs q\<rparr>"
        "sublist (inputs q) h" "inputs q = [] \<longrightarrow> h = []" by auto
      have step: "progress run target budget st [p] s [p\<lparr>inputs := h\<rparr>]"
        using rs Some by (auto intro: progress_Some)
      have h: "h \<noteq> []" "sublist h (inputs p)"
        using first_half[OF rs[unfolded Some]] True by auto
      have "progress run target budget st [p] st' [q]"
        by (rule progress_trans[OF step IH(1)])
      moreover have "sublist (inputs q) (inputs p)"
        by (rule sublist_order.order.trans[OF IH(3) h(2)])
      moreover have "q = p\<lparr>inputs := inputs q\<rparr>"
        by (subst IH(2)) simp
      ultimately show ?thesis
        using IH(4) h(1) by blast
    qed
  qed
qed

lemma descend_keeps:
  "descend run target budget p st = (q, st') \<Longrightarrow>
     progress run target budget st [p] st' [q] \<and>
     (q, p) \<in> {(q, p). q \<in> set (program_reductions p)}\<^sup>*"
proof (induction run target budget p st rule: descend.induct)
  case (1 run target budget p st)
  show ?case
  proof (cases "attempts st < budget")
    case False
    with "1.prems" show ?thesis by (subst (asm) descend.simps) auto
  next
    case True
    obtain r s where rs: "first_accepted (accepts run target budget) (\<lambda>q. [q])
        (program_reductions p) st = (r, s)" by fastforce
    show ?thesis
    proof (cases r)
      case None
      with True rs "1.prems" show ?thesis
        by (subst (asm) descend.simps) (auto intro: progress_None)
    next
      case (Some small)
      with True rs "1.prems" have next_step: "descend run target budget small s = (q, st')"
        by (subst (asm) descend.simps) auto
      from "1.IH"[OF True rs[symmetric] Some next_step]
      have IH: "progress run target budget s [small] st' [q]"
        "(q, small) \<in> {(q, p). q \<in> set (program_reductions p)}\<^sup>*" by auto
      have step: "progress run target budget st [p] s [small]"
        using rs Some by (auto intro: progress_Some)
      have "small \<in> set (program_reductions p)"
        using shrink.first_Some[OF rs[unfolded Some]] by simp
      with IH(2) have "(q, p) \<in> {(q, p). q \<in> set (program_reductions p)}\<^sup>*"
        by (auto intro: rtrancl_into_rtrancl)
      with progress_trans[OF step IH(1)] show ?thesis by blast
    qed
  qed
qed

lemma reduction_steps_keep:
  assumes "(q, p) \<in> {(q, p). q \<in> set (program_reductions p)}\<^sup>*"
  shows "(good_program p \<longrightarrow> good_program q) \<and> program_cost q \<le> program_cost p \<and>
    inputs q = inputs p \<and> program_type q = program_type p \<and> program_total q = program_total p"
  using assms
proof (induction rule: converse_rtrancl_induct)
  case (step a b)
  then have a: "a \<in> set (program_reductions b)" by simp
  have "program_cost a \<le> program_cost p"
    using program_reductions_cheaper[OF a] step.IH by auto
  then show ?case
    using program_reductions_good[OF _ a] program_reductions_frame[OF a] step.IH by simp
qed simp

section \<open>Canonicalization lowers words\<close>

definition lowered :: "int list list \<Rightarrow> int list list \<Rightarrow> bool" where
  "lowered rows rows' \<longleftrightarrow> list_all2 (list_all2 (\<le>)) rows rows'"

lemma lowered_refl [simp, intro]: "lowered rows rows"
  by (simp add: lowered_def list_all2_refl)

lemma lowered_trans: "lowered a b \<Longrightarrow> lowered b c \<Longrightarrow> lowered a c"
  by (fastforce simp: lowered_def list_all2_conv_all_nth intro: order_trans)

lemma lowered_set:
  assumes "v \<le> rows ! i ! j"
  shows "lowered (rows[i := (rows ! i)[j := v]]) rows"
  unfolding lowered_def
proof (rule list_all2_all_nthI)
  fix n
  assume "n < length (rows[i := (rows ! i)[j := v]])"
  then show "list_all2 (\<le>) (rows[i := (rows ! i)[j := v]] ! n) (rows ! n)"
    using assms
    by (cases "n = i"; cases "j < length (rows ! i)")
      (auto simp: list_all2_conv_all_nth nth_list_update)
qed simp

lemma smaller_words_less: "v \<in> set (smaller_words w) \<Longrightarrow> v < w"
  by (simp only: smaller_words_def set_filter mem_Collect_eq)

lemma lower_word_keeps:
  assumes "lower_word run target budget (p, st) (i, j) = (q, st')"
  shows "progress run target budget st [p] st' [q] \<and> q = p\<lparr>inputs := inputs q\<rparr> \<and>
    lowered (inputs q) (inputs p)"
proof -
  obtain r s where rs: "first_accepted (accepts run target budget) (\<lambda>v. [set_input i j v p])
      (smaller_words (inputs p ! i ! j)) st = (r, s)" by fastforce
  show ?thesis
  proof (cases r)
    case None
    with assms rs show ?thesis by (auto simp: lower_word_def intro: progress_None)
  next
    case (Some v)
    with assms rs have q: "q = set_input i j v p" "st' = s" by (auto simp: lower_word_def)
    have "v \<le> inputs p ! i ! j"
      using shrink.first_Some[OF rs[unfolded Some]] smaller_words_less[of v] by fastforce
    then show ?thesis
      using q rs Some by (auto simp: set_input_def lowered_set intro: progress_Some)
  qed
qed

lemma lower_words_keep:
  "foldl (lower_word run target budget) (p, st) positions = (q, st') \<Longrightarrow>
     progress run target budget st [p] st' [q] \<and> q = p\<lparr>inputs := inputs q\<rparr> \<and>
     lowered (inputs q) (inputs p)"
proof (induction positions arbitrary: p st)
  case (Cons pos positions)
  obtain i j where pos: "pos = (i, j)" by fastforce
  obtain p1 s where step: "lower_word run target budget (p, st) (i, j) = (p1, s)" by fastforce
  with Cons.prems pos have rest: "foldl (lower_word run target budget) (p1, s) positions = (q, st')"
    by simp
  from lower_word_keeps[OF step] Cons.IH[OF rest] show ?case
    by (metis (no_types, lifting) lowered_trans progress_trans program.surjective
        program.update_convs(7))
qed simp

section \<open>The selected programs\<close>

definition shrunk :: "program \<Rightarrow> program \<Rightarrow> bool" where
  "shrunk p q \<longleftrightarrow>
     (good_program p \<longrightarrow> good_program q) \<and> program_cost q \<le> program_cost p \<and>
     program_type q = program_type p \<and> program_total q = program_total p \<and>
     (\<exists>rows. sublist rows (inputs p) \<and> lowered (inputs q) rows \<and> (rows = [] \<longrightarrow> inputs p = []))"

lemma shrunk_refl [simp, intro]: "shrunk p p"
  by (auto simp: shrunk_def)

lemma inputs_only:
  "q = p\<lparr>inputs := rows\<rparr> \<Longrightarrow> good_program q = good_program p \<and> program_cost q = program_cost p \<and>
     program_type q = program_type p \<and> program_total q = program_total p"
  by (simp add: program_cost_def good_program_def)

lemma phases_keep:
  assumes "bisect run target budget p st = (p1, st1)"
    and "descend run target budget p1 st1 = (p2, st2)"
    and "foldl (lower_word run target budget) (p2, st2) positions = (q, st')"
  shows "progress run target budget st [p] st' [q] \<and> shrunk p q"
proof -
  note bisected = bisect_keeps[OF assms(1)]
  note descended = descend_keeps[OF assms(2)]
  note reduced = reduction_steps_keep[OF conjunct2[OF descended]]
  note canonical = lower_words_keep[OF assms(3)]
  have "progress run target budget st [p] st' [q]"
    using bisected descended canonical by (blast intro: progress_trans)
  moreover have "shrunk p q"
    unfolding shrunk_def
    using bisected reduced canonical inputs_only[of q "inputs q" p2] inputs_only[of p1 "inputs p1" p]
    by auto
  ultimately show ?thesis ..
qed

lemma minimize_keeps:
  assumes "minimize run ps failure budget = (qs, st)"
  shows "within_budget budget st \<and> (qs = ps \<or> shown_by run (signature failure) st qs) \<and>
    (\<forall>q\<in>set qs. \<exists>p\<in>set ps. shrunk p q) \<and> (qs = ps \<or> length qs = 1)"
proof -
  let ?st = "\<lparr>attempts = 0, history = [], seen = []\<rparr>"
  let ?target = "signature failure"
  obtain sel s where iso: "isolate run ?target budget ps ?st = (sel, s)" by fastforce
  note first = isolate_keeps[OF iso]
  have "progress run ?target budget ?st ps st qs \<and> (\<forall>q\<in>set qs. \<exists>p\<in>set sel. shrunk p q) \<and>
    (qs = sel \<or> length qs = 1)"
  proof (cases "\<exists>p. sel = [p]")
    case True
    then obtain p where p: "sel = [p]" by blast
    obtain p1 s1 p2 s2 q s3 where phases: "bisect run ?target budget p s = (p1, s1)"
      "descend run ?target budget p1 s1 = (p2, s2)"
      "foldl (lower_word run ?target budget) (p2, s2) (word_positions p2) = (q, s3)"
      by fastforce
    with assms iso p have "qs = [q]" "st = s3"
      by (auto simp: minimize_def Let_def)
    with phases_keep[OF phases] first p show ?thesis
      by (auto intro: progress_trans)
  next
    case False
    with assms iso have "qs = sel" "st = s"
      by (auto simp: minimize_def Let_def split: list.splits)
    with first show ?thesis by auto
  qed
  moreover from this have "\<forall>q\<in>set qs. \<exists>p\<in>set ps. shrunk p q"
    using first by blast
  ultimately show ?thesis
    using first by (auto simp: progress_def within_budget_def shown_by_def)
qed

end
