(* ===== verification/Diff_Generate.thy ===== *)
theory Diff_Generate
  imports Diff_Reduce "HOL-Library.State_Monad"
begin

unbundle bit_operations_syntax

text \<open>
  The typed generator of differential programs (\<open>Generator\<close> and \<open>generate\<close> in
  \<open>tools/compiler_differential_cases.py\<close>). The pseudo-random source is an argument: \<open>below n\<close>
  draws from \<open>range(n)\<close>, as \<open>choice\<close>, \<open>randrange\<close> and \<open>randint\<close> do, and \<open>bits w\<close> is
  \<open>getrandbits(w)\<close>. The order of the draws is the order of the code.
\<close>

section \<open>Random choices\<close>

record 's rng =
  below :: "nat \<Rightarrow> ('s, nat) state"
  bits :: "nat \<Rightarrow> ('s, nat) state"

definition fair :: "'s rng \<Rightarrow> bool" where
  \<comment> \<open>the documented ranges of the library's draws\<close>
  "fair g \<longleftrightarrow> (\<forall>n>0. pred_state (\<lambda>k. k < n) (below g n)) \<and> (\<forall>w. pred_state (\<lambda>v. v < 2 ^ w) (bits g w))"

definition choice :: "'s rng \<Rightarrow> 'a list \<Rightarrow> ('s, 'a) state" where
  "choice g xs = State_Monad.bind (below g (length xs)) (\<lambda>i. State_Monad.return (xs ! i))"

definition randint :: "'s rng \<Rightarrow> int \<Rightarrow> int \<Rightarrow> ('s, int) state" where
  "randint g a b = State_Monad.bind (below g (nat (b - a + 1))) (\<lambda>i. State_Monad.return (a + int i))"

section \<open>The generator\<close>

text \<open>The size of a generated array; the code reads it from the tree, where it is always present.\<close>

definition size_of :: "node \<Rightarrow> int" where
  "size_of a = (case array_size a of Some k \<Rightarrow> k | None \<Rightarrow> 0)"

definition leaf :: "'s rng \<Rightarrow> nat \<Rightarrow> ('s, node) state" where
  "leaf g bound = do {
     k \<leftarrow> choice g [-1, 0, 1, 2, 3, 7];
     bounds \<leftarrow> (if bound = 0 then State_Monad.return []
       else do { i \<leftarrow> below g bound; State_Monad.return [Bound (int i)] });
     choice g ([Var ''X'', Var ''Y'', Const k] @ bounds) }"

text \<open>
  One level of \<open>word\<close>, \<open>boolean\<close> and \<open>array\<close>, given the generators one level down (\<open>words\<close>,
  \<open>test\<close>, \<open>arrays\<close>), and then the recursion on the remaining depth, the bindings in scope and whether calls
  are allowed. The draw of \<open>op\<close> is one of the listed names, so the last branch is \<open>call\<close> (and
  \<open>slice\<close> below); the code's final \<open>raise AssertionError\<close> is not reachable.
\<close>

definition word_ops :: "bool \<Rightarrow> bool \<Rightarrow> string list" where
  "word_ops tot calls =
     [''leaf'', ''binary'', ''binary'', ''shift'', ''bnot'', ''select'', ''if'', ''let'', ''join'',
      ''pair'', ''nth'', ''record''] @
     (if tot then [] else [''partial'', ''match'']) @ (if calls then [''call''] else [])"

definition array_ops :: "bool \<Rightarrow> string list" where
  "array_ops slicing = [''values'', ''set'', ''sublist''] @ (if slicing then [''slice''] else [])"

definition word_node ::
  "'s rng \<Rightarrow> bool \<Rightarrow> nat \<Rightarrow> bool \<Rightarrow> (nat \<Rightarrow> ('s, node) state) \<Rightarrow> ('s, node) state \<Rightarrow>
   (bool \<Rightarrow> ('s, node) state) \<Rightarrow> ('s, node) state"
where
  "word_node g tot bound calls words test arrays = do {
     op \<leftarrow> choice g (word_ops tot calls);
     if op = ''leaf'' then leaf g bound
     else if op = ''binary'' then do {
       f \<leftarrow> choice g (if tot then take (length word_binary - 2) word_binary else word_binary);
       a \<leftarrow> words bound;
       b \<leftarrow> words bound;
       State_Monad.return (Binary f a b) }
     else if op = ''shift'' then do {
       f \<leftarrow> choice g [''bsl'', ''bsr''];
       a \<leftarrow> words bound;
       b \<leftarrow> words bound;
       t \<leftarrow> choice g [''s8'', ''u8''];
       State_Monad.return (Shift f a b t) }
     else if op = ''bnot'' then do {
       a \<leftarrow> words bound;
       State_Monad.return (Bnot a) }
     else if op = ''select'' then do {
       c \<leftarrow> test;
       a \<leftarrow> words bound;
       b \<leftarrow> words bound;
       State_Monad.return (Select c a b) }
     else if op = ''join'' then do {
       c \<leftarrow> test;
       a \<leftarrow> words bound;
       b \<leftarrow> words bound;
       e \<leftarrow> words (bound + 1);
       State_Monad.return (Join c a b e) }
     else if op = ''partial'' then do {
       a \<leftarrow> words bound;
       k \<leftarrow> below g 4;
       b \<leftarrow> words bound;
       State_Monad.return (Partial a (int k) b) }
     else if op = ''if'' then do {
       c \<leftarrow> choice g [''compare'', ''rem'', ''alternative'', ''shift''];
       a \<leftarrow> words bound;
       b \<leftarrow> words bound;
       fallback \<leftarrow> (if tot then State_Monad.return True else choice g [True, False]);
       State_Monad.return (If_guard c a b fallback) }
     else if op = ''let'' then do {
       a \<leftarrow> words bound;
       e \<leftarrow> words (bound + 1);
       State_Monad.return (Let_in a e) }
     else if op = ''pair'' then do {
       a \<leftarrow> words bound;
       b \<leftarrow> words bound;
       e \<leftarrow> words (bound + 2);
       State_Monad.return (Pair_in a b e) }
     else if op = ''match'' then do {
       k \<leftarrow> below g 4;
       a \<leftarrow> words bound;
       b \<leftarrow> words bound;
       State_Monad.return (Match (int k) a b) }
     else if op = ''nth'' then
       (if tot then do {
         arr \<leftarrow> arrays True;
         i \<leftarrow> randint g 1 (size_of arr);
         State_Monad.return (Nth (Const i) arr) }
       else do {
         i \<leftarrow> words bound;
         arr \<leftarrow> arrays True;
         State_Monad.return (Nth i arr) })
     else if op = ''record'' then do {
       a \<leftarrow> words bound;
       b \<leftarrow> words bound;
       f \<leftarrow> choice g [''a'', ''b''];
       State_Monad.return (Record_field a b f) }
     else do {
       a \<leftarrow> words bound;
       b \<leftarrow> words bound;
       arr \<leftarrow> arrays False;
       State_Monad.return (Call a b arr) } }"

definition leaf_test :: "'s rng \<Rightarrow> nat \<Rightarrow> ('s, node) state" where
  "leaf_test g bound = do {
     f \<leftarrow> choice g comparisons;
     a \<leftarrow> leaf g bound;
     b \<leftarrow> leaf g bound;
     State_Monad.return (Compare f a b) }"

definition boolean_node ::
  "'s rng \<Rightarrow> nat \<Rightarrow> (nat \<Rightarrow> ('s, node) state) \<Rightarrow> ('s, node) state \<Rightarrow> ('s, node) state" where
  "boolean_node g bound words test = do {
     stop \<leftarrow> below g 3;
     if stop = 0 then leaf_test g bound
     else do {
       negated \<leftarrow> below g 3;
       if negated = 0 then do {
         a \<leftarrow> test;
         State_Monad.return (Negate a) }
       else do {
         compared \<leftarrow> below g 2;
         if compared = 0 then do {
           f \<leftarrow> choice g comparisons;
           a \<leftarrow> words bound;
           b \<leftarrow> words bound;
           State_Monad.return (Compare f a b) }
         else do {
           f \<leftarrow> choice g [And_also, Or_else];
           a \<leftarrow> test;
           b \<leftarrow> test;
           State_Monad.return (f a b) } } } }"

definition array_node ::
  "'s rng \<Rightarrow> bool \<Rightarrow> nat \<Rightarrow> bool \<Rightarrow> (nat \<Rightarrow> ('s, node) state) \<Rightarrow> ('s, node) state \<Rightarrow> ('s, node) state"
where
  "array_node g tot bound slicing words arrays = do {
     op \<leftarrow> choice g (array_ops slicing);
     if op = ''values'' then State_Monad.return Values
     else if tot then do {
       arr \<leftarrow> arrays;
       if op = ''set'' then do {
         i \<leftarrow> randint g 1 (size_of arr);
         v \<leftarrow> words bound;
         State_Monad.return (Set_at (Const i) arr v) }
       else if op = ''sublist'' then do {
         n \<leftarrow> randint g 0 (size_of arr);
         State_Monad.return (Sublist arr (Const 1) (Const n)) }
       else do {
         n \<leftarrow> randint g 1 (min 2 (size_of arr));
         State_Monad.return (Slice n arr (Const 1)) } }
     else if op = ''set'' then do {
       i \<leftarrow> words bound;
       arr \<leftarrow> arrays;
       v \<leftarrow> words bound;
       State_Monad.return (Set_at i arr v) }
     else if op = ''sublist'' then do {
       arr \<leftarrow> arrays;
       s \<leftarrow> words bound;
       n \<leftarrow> words bound;
       State_Monad.return (Sublist arr s n) }
     else do {
       n \<leftarrow> choice g [1, 2];
       arr \<leftarrow> arrays;
       s \<leftarrow> words bound;
       State_Monad.return (Slice n arr s) } }"

fun word :: "'s rng \<Rightarrow> bool \<Rightarrow> nat \<Rightarrow> nat \<Rightarrow> bool \<Rightarrow> ('s, node) state"
  and boolean :: "'s rng \<Rightarrow> bool \<Rightarrow> nat \<Rightarrow> nat \<Rightarrow> bool \<Rightarrow> ('s, node) state"
  and array :: "'s rng \<Rightarrow> bool \<Rightarrow> nat \<Rightarrow> nat \<Rightarrow> bool \<Rightarrow> bool \<Rightarrow> ('s, node) state"
where
  "word g tot 0 bound calls = leaf g bound"
| "word g tot (Suc d) bound calls = word_node g tot bound calls
     (\<lambda>k. word g tot d k calls) (boolean g tot d bound calls) (array g tot d bound calls)"
| "boolean g tot 0 bound calls = leaf_test g bound"
| "boolean g tot (Suc d) bound calls = boolean_node g bound
     (\<lambda>k. word g tot d k calls) (boolean g tot d bound calls)"
| "array g tot 0 bound calls slicing = State_Monad.return Values"
| "array g tot (Suc d) bound calls slicing = array_node g tot bound slicing
     (\<lambda>k. word g tot d k calls) (array g tot d bound calls slicing)"

section \<open>Whole programs\<close>

definition type_names :: "string list" where
  "type_names = [''u8'', ''s8'', ''u32'', ''s32'']"

definition type_width :: "string \<Rightarrow> nat" where
  "type_width t = (if t = ''u8'' \<or> t = ''s8'' then 8 else 32)"

definition edges :: "nat \<Rightarrow> nat list" where
  "edges width = (let mask = 2 ^ width - 1 in
     [0, 1, 2, 3, 4, 7, drop_bit 1 mask, 2 ^ (width - 1), mask - 1, mask])"

definition pairs :: "nat \<Rightarrow> (nat \<times> nat) list" where
  "pairs width = (let mask = 2 ^ width - 1; sign = 2 ^ (width - 1) in
     [(0, 0), (0, 1), (1, 0), (1, 1), (sign, mask), (mask, sign), (sign - 1, mask), (sign, sign),
      (mask, mask), (sign, 1), (sign - 1, 1), (1, mask), (1, 2), (2, 1), (3, 3), (mask - 1, 2)])"

definition input_row :: "'s rng \<Rightarrow> nat \<Rightarrow> nat \<Rightarrow> ('s, int list) state" where
  "input_row g width i =
     (if i < length (pairs width) then
        State_Monad.return (map int ([fst (pairs width ! i), snd (pairs width ! i)] @
          map (\<lambda>j. edges width ! ((i + j) mod length (edges width))) [0..<3]))
      else do {
        x \<leftarrow> bits g width;
        y \<leftarrow> bits g width;
        a \<leftarrow> bits g width;
        b \<leftarrow> bits g width;
        c \<leftarrow> bits g width;
        State_Monad.return (map int [x, y, a, b, c]) })"

text \<open>
  \<open>random_for(seed, case_id)\<close> seeds the source, so its state and its draws are arguments here. The
  inputs are drawn first and then, as the returned dictionary is built, the two trees.
\<close>

definition generate ::
  "'s rng \<Rightarrow> int \<Rightarrow> nat \<Rightarrow> nat \<Rightarrow> nat \<Rightarrow> ('s, program) state" where
  "generate g seed case_id depth input_count = (
     let name = type_names ! (case_id mod length type_names);
         width = type_width name;
         tot = (case_id div length type_names mod 2 = 0) in
     do {
       rows \<leftarrow> State_Monad.traverse_list (input_row g width) [0..<input_count];
       e \<leftarrow> word g tot depth 0 True;
       h \<leftarrow> word g tot (max 1 (depth - 1)) 0 False;
       State_Monad.return \<lparr>program_seed = seed, program_case = int case_id, program_type = name,
         program_total = tot, expression = e, helper = h, inputs = rows\<rparr> })"

end
