(* ===== verification/Diff_Generated.thy ===== *)
theory Diff_Generated
  imports Diff_Generate
begin

text \<open>
  What the generator promises: trees of the grammar, closed and of bounded height, calls only with
  whole arrays, and in total programs no construct that can fail.
\<close>

section \<open>Rules for the random-state monad\<close>

lemma pred_return: "P x \<Longrightarrow> pred_state P (State_Monad.return x)"
  by (auto intro!: pred_stateI)

lemma pred_bind:
  assumes "pred_state Q m" and "\<And>x. Q x \<Longrightarrow> pred_state P (f x)"
  shows "pred_state P (State_Monad.bind m f)"
proof (rule bind_predI, rule pred_stateI)
  fix a s s'
  assume "run_state m s = (a, s')"
  with assms show "pred_state P (f a)" by blast
qed

lemma pred_below: "fair g \<Longrightarrow> 0 < n \<Longrightarrow> pred_state (\<lambda>k. k < n) (below g n)"
  by (simp add: fair_def)

lemma pred_choice: "fair g \<Longrightarrow> xs \<noteq> [] \<Longrightarrow> pred_state (\<lambda>x. x \<in> set xs) (choice g xs)"
  unfolding choice_def by (rule pred_bind[OF pred_below]) (auto intro: pred_return)

lemma pred_randint: "fair g \<Longrightarrow> a \<le> b \<Longrightarrow> pred_state (\<lambda>k. a \<le> k \<and> k \<le> b) (randint g a b)"
  unfolding randint_def by (rule pred_bind[OF pred_below]) (auto intro!: pred_return)

lemma pred_mono: "pred_state P m \<Longrightarrow> (\<And>x. P x \<Longrightarrow> Q x) \<Longrightarrow> pred_state Q m"
  by (blast intro: pred_stateI)

lemma pred_choose:
  assumes "fair g" and "xs \<noteq> []" and "\<And>x. x \<in> set xs \<Longrightarrow> pred_state P (f x)"
  shows "pred_state P (State_Monad.bind (choice g xs) f)"
  using assms by (blast intro: pred_bind pred_choice)

lemma pred_traverse:
  "(\<And>x. x \<in> set xs \<Longrightarrow> pred_state P (f x)) \<Longrightarrow>
   pred_state (\<lambda>ys. length ys = length xs \<and> (\<forall>y\<in>set ys. P y)) (State_Monad.traverse_list f xs)"
proof (induction xs)
  case Nil
  then show ?case by (auto intro: pred_return)
next
  case (Cons x xs)
  have "pred_state P (f x)" using Cons.prems by simp
  moreover have "pred_state (\<lambda>ys. length ys = length xs \<and> (\<forall>y\<in>set ys. P y)) (State_Monad.traverse_list f xs)"
    using Cons by simp
  ultimately show ?case
    by (auto intro!: pred_bind[where Q = P]
        pred_bind[where Q = "\<lambda>ys. length ys = length xs \<and> (\<forall>y\<in>set ys. P y)"] pred_return)
qed

section \<open>Total trees\<close>

text \<open>No division, no clause that may not match, and every index inside its array.\<close>

fun infallible :: "node \<Rightarrow> bool" where
  "infallible (Binary f a b) \<longleftrightarrow> f \<noteq> ''div'' \<and> f \<noteq> ''rem'' \<and> infallible a \<and> infallible b"
| "infallible (Shift _ a b _) \<longleftrightarrow> infallible a \<and> infallible b"
| "infallible (Bnot a) \<longleftrightarrow> infallible a"
| "infallible (Select c a b) \<longleftrightarrow> infallible c \<and> infallible a \<and> infallible b"
| "infallible (Join c a b e) \<longleftrightarrow> infallible c \<and> infallible a \<and> infallible b \<and> infallible e"
| "infallible (Partial _ _ _) \<longleftrightarrow> False"
| "infallible (If_guard _ a b fallback) \<longleftrightarrow> fallback \<and> infallible a \<and> infallible b"
| "infallible (Let_in a e) \<longleftrightarrow> infallible a \<and> infallible e"
| "infallible (Pair_in a b e) \<longleftrightarrow> infallible a \<and> infallible b \<and> infallible e"
| "infallible (Match _ _ _) \<longleftrightarrow> False"
| "infallible (Nth i arr) \<longleftrightarrow> infallible arr \<and>
     (case i of Const k \<Rightarrow> 1 \<le> k \<and> k \<le> size_of arr | _ \<Rightarrow> False)"
| "infallible (Record_field a b _) \<longleftrightarrow> infallible a \<and> infallible b"
| "infallible (Call a b arr) \<longleftrightarrow> infallible a \<and> infallible b \<and> infallible arr"
| "infallible (Compare _ a b) \<longleftrightarrow> infallible a \<and> infallible b"
| "infallible (And_also a b) \<longleftrightarrow> infallible a \<and> infallible b"
| "infallible (Or_else a b) \<longleftrightarrow> infallible a \<and> infallible b"
| "infallible (Negate a) \<longleftrightarrow> infallible a"
| "infallible (Set_at i arr v) \<longleftrightarrow> infallible arr \<and> infallible v \<and>
     (case i of Const k \<Rightarrow> 1 \<le> k \<and> k \<le> size_of arr | _ \<Rightarrow> False)"
| "infallible (Sublist arr s n) \<longleftrightarrow> infallible arr \<and> s = Const 1 \<and>
     (case n of Const k \<Rightarrow> 0 \<le> k \<and> k \<le> size_of arr | _ \<Rightarrow> False)"
| "infallible (Slice n arr s) \<longleftrightarrow> infallible arr \<and> s = Const 1 \<and> 1 \<le> n \<and> n \<le> size_of arr"
| "infallible _ \<longleftrightarrow> True"

function height :: "node \<Rightarrow> nat" where
  "height n = 1 + foldr max (map (\<lambda>(_, c). height c) (children n)) 0"
  by pat_completeness auto
termination
  by (relation "measure size") (auto dest: children_size)

declare height.simps [simp del]

lemma height_simps [simp]:
  "height (Var x) = 1"
  "height (Bound n) = 1"
  "height (Const n) = 1"
  "height (Binary op a b) = 1 + max (height a) (height b)"
  "height (Shift op a b t) = 1 + max (height a) (height b)"
  "height (Bnot a) = 1 + height a"
  "height (Select c a b) = 1 + max (height c) (max (height a) (height b))"
  "height (Join c a b e) = 1 + max (height c) (max (height a) (max (height b) (height e)))"
  "height (Partial a n b) = 1 + max (height a) (height b)"
  "height (If_guard g a b fallback) = 1 + max (height a) (height b)"
  "height (Let_in a b) = 1 + max (height a) (height b)"
  "height (Pair_in a b c) = 1 + max (height a) (max (height b) (height c))"
  "height (Match n a b) = 1 + max (height a) (height b)"
  "height (Nth a b) = 1 + max (height a) (height b)"
  "height (Record_field a b field) = 1 + max (height a) (height b)"
  "height (Call a b c) = 1 + max (height a) (max (height b) (height c))"
  "height (Compare op a b) = 1 + max (height a) (height b)"
  "height (And_also a b) = 1 + max (height a) (height b)"
  "height (Or_else a b) = 1 + max (height a) (height b)"
  "height (Negate a) = 1 + height a"
  "height Values = 1"
  "height (Set_at a b c) = 1 + max (height a) (max (height b) (height c))"
  "height (Sublist a b c) = 1 + max (height a) (max (height b) (height c))"
  "height (Slice n a b) = 1 + max (height a) (height b)"
  by (subst height.simps, simp)+

lemma valid_simps [simp]:
  "valid (Var x) k calls = True"
  "valid (Bound i) k calls = (0 \<le> i \<and> i < k)"
  "valid (Const n) k calls = True"
  "valid (Binary op a b) k calls = (valid a k calls \<and> valid b k calls)"
  "valid (Shift op a b t) k calls = (valid a k calls \<and> valid b k calls)"
  "valid (Bnot a) k calls = valid a k calls"
  "valid (Select c a b) k calls = (valid c k calls \<and> valid a k calls \<and> valid b k calls)"
  "valid (Join c a b e) k calls =
     (valid c k calls \<and> valid a k calls \<and> valid b k calls \<and> valid e (k + 1) calls)"
  "valid (Partial a n b) k calls = (valid a k calls \<and> valid b k calls)"
  "valid (If_guard g a b fallback) k calls = (valid a k calls \<and> valid b k calls)"
  "valid (Let_in a b) k calls = (valid a k calls \<and> valid b (k + 1) calls)"
  "valid (Pair_in a b c) k calls = (valid a k calls \<and> valid b k calls \<and> valid c (k + 2) calls)"
  "valid (Match n a b) k calls = (valid a k calls \<and> valid b k calls)"
  "valid (Nth a b) k calls = (valid a k calls \<and> valid b k calls)"
  "valid (Record_field a b field) k calls = (valid a k calls \<and> valid b k calls)"
  "valid (Call a b c) k calls =
     (calls \<and> array_size c = Some 3 \<and> valid a k calls \<and> valid b k calls \<and> valid c k calls)"
  "valid (Compare op a b) k calls = (valid a k calls \<and> valid b k calls)"
  "valid (And_also a b) k calls = (valid a k calls \<and> valid b k calls)"
  "valid (Or_else a b) k calls = (valid a k calls \<and> valid b k calls)"
  "valid (Negate a) k calls = valid a k calls"
  "valid Values k calls = True"
  "valid (Set_at a b c) k calls = (valid a k calls \<and> valid b k calls \<and> valid c k calls)"
  "valid (Sublist a b c) k calls = (valid a k calls \<and> valid b k calls \<and> valid c k calls)"
  "valid (Slice n a b) k calls = (valid a k calls \<and> valid b k calls)"
  by (simp_all add: scope_increment_def valid.simps[of Values]
    valid.simps[of "Var x"]
    valid.simps[of "Bound i"]
    valid.simps[of "Const n"]
    valid.simps[of "Binary op a b"]
    valid.simps[of "Shift op a b t"]
    valid.simps[of "Bnot a"]
    valid.simps[of "Select c a b"]
    valid.simps[of "Join c a b e"]
    valid.simps[of "Partial a n b"]
    valid.simps[of "If_guard g a b fallback"]
    valid.simps[of "Let_in a b"]
    valid.simps[of "Pair_in a b c"]
    valid.simps[of "Match n a b"]
    valid.simps[of "Nth a b"]
    valid.simps[of "Record_field a b field"]
    valid.simps[of "Call a b c"]
    valid.simps[of "Compare op a b"]
    valid.simps[of "And_also a b"]
    valid.simps[of "Or_else a b"]
    valid.simps[of "Negate a"]
    valid.simps[of "Set_at a b c"]
    valid.simps[of "Sublist a b c"]
    valid.simps[of "Slice n a b"]) blast

section \<open>The generated trees\<close>

definition closed_tree :: "bool \<Rightarrow> nat \<Rightarrow> bool \<Rightarrow> nat \<Rightarrow> node \<Rightarrow> bool" where
  "closed_tree tot bound calls h n \<longleftrightarrow>
     well_typed n \<and> valid n (int bound) calls \<and> height n \<le> h \<and> (tot \<longrightarrow> infallible n)"

definition word_tree :: "bool \<Rightarrow> nat \<Rightarrow> bool \<Rightarrow> nat \<Rightarrow> node \<Rightarrow> bool" where
  "word_tree tot bound calls h n \<longleftrightarrow> closed_tree tot bound calls h n \<and> is_word n"

definition boolean_tree :: "bool \<Rightarrow> nat \<Rightarrow> bool \<Rightarrow> nat \<Rightarrow> node \<Rightarrow> bool" where
  "boolean_tree tot bound calls h n \<longleftrightarrow> closed_tree tot bound calls h n \<and> is_boolean n"

definition array_tree :: "bool \<Rightarrow> nat \<Rightarrow> bool \<Rightarrow> bool \<Rightarrow> nat \<Rightarrow> node \<Rightarrow> bool" where
  "array_tree tot bound calls slicing h n \<longleftrightarrow> closed_tree tot bound calls h n \<and>
     (\<exists>k. node_type n = Some (Array_of k) \<and> array_size n = Some k \<and> 1 \<le> k \<and> (\<not> slicing \<longrightarrow> k = 3))"

lemmas tree_defs = word_tree_def boolean_tree_def array_tree_def closed_tree_def

lemma leaf_tree: "fair g \<Longrightarrow> pred_state (word_tree tot bound calls 1) (leaf g bound)"
  unfolding leaf_def
  by (auto intro!: pred_choose pred_return pred_mono[OF pred_choice]
      pred_bind[where Q = "\<lambda>bs. \<forall>b\<in>set bs. \<exists>i. b = Bound (int i) \<and> i < bound"]
      pred_bind[OF pred_below] simp: tree_defs)

lemma pred_if:
  "(c \<Longrightarrow> pred_state P m) \<Longrightarrow> (\<not> c \<Longrightarrow> pred_state P m') \<Longrightarrow> pred_state P (if c then m else m')"
  by simp

lemma pred_bind_if:
  "(c \<Longrightarrow> pred_state P (State_Monad.bind m f)) \<Longrightarrow> (\<not> c \<Longrightarrow> pred_state P (State_Monad.bind m' f)) \<Longrightarrow>
   pred_state P (State_Monad.bind (if c then m else m') f)"
  by simp

lemma pred_bind_return: "pred_state P (f x) \<Longrightarrow> pred_state P (State_Monad.bind (State_Monad.return x) f)"
  by simp

lemma comparisons_nonempty [simp]: "comparisons \<noteq> []"
  by (simp add: comparisons_def)

lemma size_of_array [simp]: "array_size n = Some k \<Longrightarrow> size_of n = k"
  by (simp add: size_of_def)

text \<open>Three mutually dependent promises, one level of depth at a time.\<close>

definition promises :: "'s rng \<Rightarrow> bool \<Rightarrow> nat \<Rightarrow> bool" where
  "promises g tot d \<longleftrightarrow> (\<forall>bound calls.
     pred_state (word_tree tot bound calls (d + 2)) (word g tot d bound calls) \<and>
     pred_state (boolean_tree tot bound calls (d + 2)) (boolean g tot d bound calls) \<and>
     (\<forall>slicing. pred_state (array_tree tot bound calls slicing (d + 2)) (array g tot d bound calls slicing)))"

lemma promisesD:
  assumes "promises g tot d"
  shows "pred_state (word_tree tot bound calls (d + 2)) (word g tot d bound calls)"
    and "pred_state (boolean_tree tot bound calls (d + 2)) (boolean g tot d bound calls)"
    and "pred_state (array_tree tot bound calls slicing (d + 2)) (array g tot d bound calls slicing)"
  using assms by (simp_all add: promises_def)

lemma leaf_tree_up:
  assumes "fair g" and "1 \<le> h"
  shows "pred_state (word_tree tot bound calls h) (leaf g bound)"
  by (rule pred_mono[OF leaf_tree[OF assms(1)]]) (use assms(2) in \<open>auto simp: tree_defs\<close>)

lemma word_step:
  assumes fair: "fair g" and below: "promises g tot d"
  shows "pred_state (word_tree tot bound calls (Suc d + 2)) (word g tot (Suc d) bound calls)"
  unfolding word.simps word_node_def
  by (intro pred_choose[OF fair] pred_if pred_bind_if pred_bind_return leaf_tree_up[OF fair] pred_return
      promisesD(1)[OF below, THEN pred_bind] promisesD(2)[OF below, THEN pred_bind]
      promisesD(3)[OF below, THEN pred_bind] pred_bind[OF pred_below[OF fair]]
      pred_bind[OF pred_randint[OF fair]])
    (auto simp: tree_defs word_ops_def word_binary_def add.commute split: if_splits)

lemma boolean_step:
  assumes fair: "fair g" and below: "promises g tot d"
  shows "pred_state (boolean_tree tot bound calls (Suc d + 2)) (boolean g tot (Suc d) bound calls)"
  unfolding boolean.simps boolean_node_def leaf_test_def
  by (intro pred_choose[OF fair] pred_if pred_return leaf_tree[OF fair, of tot bound calls, THEN pred_bind]
      promisesD(1)[OF below, of bound calls, THEN pred_bind]
      promisesD(2)[OF below, of bound calls, THEN pred_bind] pred_bind[OF pred_below[OF fair]])
    (auto simp: tree_defs)

lemma array_step:
  assumes fair: "fair g" and below: "promises g tot d"
  shows "pred_state (array_tree tot bound calls slicing (Suc d + 2))
    (array g tot (Suc d) bound calls slicing)"
  unfolding array.simps array_node_def
  by (intro pred_choose[OF fair] pred_if pred_return promisesD(1)[OF below, THEN pred_bind]
      promisesD(3)[OF below, THEN pred_bind] pred_bind[OF pred_randint[OF fair]])
    (auto simp: tree_defs array_ops_def split: if_splits)

lemma promises_all: "fair g \<Longrightarrow> promises g tot d"
proof (induction d)
  case 0
  have "pred_state (boolean_tree tot bound calls 2) (boolean g tot 0 bound calls)" for bound calls
    unfolding boolean.simps leaf_test_def
    by (intro pred_choose[OF 0] pred_return leaf_tree[OF 0, of tot bound calls, THEN pred_bind])
      (auto simp: tree_defs)
  moreover have "pred_state (array_tree tot bound calls slicing 2) (array g tot 0 bound calls slicing)"
    for bound calls slicing
    by (auto intro!: pred_return simp: tree_defs)
  ultimately show ?case
    using leaf_tree_up[OF 0] by (simp add: promises_def numeral_2_eq_2)
next
  case (Suc d)
  then have "promises g tot d" by simp
  with Suc.prems show ?case
    unfolding promises_def[of _ _ "Suc d"] by (blast intro: word_step boolean_step array_step)
qed

section \<open>The generated inputs\<close>

definition fitting_row :: "string \<Rightarrow> int list \<Rightarrow> bool" where
  "fitting_row t row \<longleftrightarrow> length row = 5 \<and> (\<forall>v\<in>set row. 0 \<le> v \<and> v < 2 ^ type_width t)"

lemma edges_fit: "w = 8 \<or> w = 32 \<Longrightarrow> \<forall>v\<in>set (edges w). v < 2 ^ w"
  by (auto simp: edges_def drop_bit_eq_div Let_def)

lemma pairs_fit: "w = 8 \<or> w = 32 \<Longrightarrow> \<forall>(x, y)\<in>set (pairs w). x < 2 ^ w \<and> y < 2 ^ w"
  by (auto simp: pairs_def Let_def)

lemma type_width_cases: "type_width t = 8 \<or> type_width t = 32"
  by (simp add: type_width_def)

lemma int_fits: "x < 2 ^ w \<Longrightarrow> int x < 2 ^ w"
  by (metis of_nat_less_iff of_nat_numeral of_nat_power)

lemma input_row_fits:
  assumes "fair g"
  shows "pred_state (fitting_row t) (input_row g (type_width t) i)"
proof (cases "i < length (pairs (type_width t))")
  case True
  let ?w = "type_width t"
  have "fst (pairs ?w ! i) < 2 ^ ?w" "snd (pairs ?w ! i) < 2 ^ ?w"
    using pairs_fit[OF type_width_cases] nth_mem[OF True] by fastforce+
  moreover have "edges ?w ! (j mod length (edges ?w)) < 2 ^ ?w" for j
  proof -
    have "edges ?w ! (j mod length (edges ?w)) \<in> set (edges ?w)"
      by (rule nth_mem) (simp add: edges_def Let_def)
    then show ?thesis using edges_fit[OF type_width_cases] by blast
  qed
  ultimately show ?thesis
    using True by (auto simp: input_row_def fitting_row_def int_fits intro!: pred_return)
next
  case False
  have "pred_state (\<lambda>v. v < 2 ^ type_width t) (bits g (type_width t))"
    using assms by (simp add: fair_def)
  note draw = pred_bind[OF this]
  from False show ?thesis
    by (auto simp: input_row_def fitting_row_def int_fits intro!: draw pred_return)
qed

lemma generate_promises:
  assumes fair: "fair g"
  shows "pred_state (\<lambda>p. good_program p \<and> program_seed p = seed \<and> program_case p = int case_id \<and>
     program_type p \<in> set type_names \<and> length (inputs p) = input_count \<and>
     (\<forall>row\<in>set (inputs p). fitting_row (program_type p) row) \<and>
     height (expression p) \<le> depth + 2 \<and> height (helper p) \<le> max 1 (depth - 1) + 2 \<and>
     (program_total p \<longrightarrow> infallible (expression p) \<and> infallible (helper p)))
   (generate g seed case_id depth input_count)"
proof -
  have "type_names ! (case_id mod length type_names) \<in> set type_names"
    by (rule nth_mem) (simp add: type_names_def)
  then show ?thesis
    unfolding generate_def Let_def
    by (intro pred_return pred_traverse[OF input_row_fits[OF fair], THEN pred_bind]
        promisesD(1)[OF promises_all[OF fair], THEN pred_bind])
      (auto simp: tree_defs good_program_def)
qed

end
