(* ===== verification/Diff_Emit.thy ===== *)
theory Diff_Emit
  imports Diff_Generated
begin

text \<open>
  Rendering trees as Erlang (\<open>Emitter\<close> and \<open>source\<close> in
  \<open>tools/compiler_differential_cases.py\<close>). The serial number of fresh variables is threaded in the
  evaluation order of the code, and a raise (an unbound index, an unknown guard, no array size) is
  \<open>None\<close>.
\<close>

type_synonym emission = "nat \<Rightarrow> (string \<times> nat) option"

definition done_with :: "string \<Rightarrow> emission" where
  "done_with text s = Some (text, s)"

definition seq1 :: "emission \<Rightarrow> (string \<Rightarrow> string) \<Rightarrow> emission" where
  "seq1 m f s = (case m s of None \<Rightarrow> None | Some (x, s) \<Rightarrow> Some (f x, s))"

definition seq2 :: "emission \<Rightarrow> emission \<Rightarrow> (string \<Rightarrow> string \<Rightarrow> string) \<Rightarrow> emission" where
  "seq2 m m' f s = (case m s of None \<Rightarrow> None | Some (x, s) \<Rightarrow> seq1 m' (f x) s)"

definition seq3 :: "emission \<Rightarrow> emission \<Rightarrow> emission \<Rightarrow> (string \<Rightarrow> string \<Rightarrow> string \<Rightarrow> string) \<Rightarrow> emission" where
  "seq3 m m' m'' f s = (case m s of None \<Rightarrow> None | Some (x, s) \<Rightarrow> seq2 m' m'' (f x) s)"

definition seq4 ::
  "emission \<Rightarrow> emission \<Rightarrow> emission \<Rightarrow> emission \<Rightarrow> (string \<Rightarrow> string \<Rightarrow> string \<Rightarrow> string \<Rightarrow> string) \<Rightarrow> emission"
where
  "seq4 m m' m'' m3 f s = (case m s of None \<Rightarrow> None | Some (x, s) \<Rightarrow> seq3 m' m'' m3 (f x) s)"

definition fresh :: "(string \<Rightarrow> emission) \<Rightarrow> emission" where
  "fresh f s = f (CHR ''B'' # show_nat (s + 1)) (s + 1)"

definition py_index :: "'a list \<Rightarrow> int \<Rightarrow> 'a option" where
  "py_index xs i =
     (if 0 \<le> i \<and> i < int (length xs) then Some (xs ! nat i)
      else if - int (length xs) \<le> i \<and> i < 0 then Some (xs ! nat (int (length xs) + i))
      else None)"

definition wrap :: "string \<Rightarrow> string \<Rightarrow> string" where
  "wrap t e = ''hls_nums:wrap(hls_nums:'' @ t @ ''(), '' @ e @ '')''"

definition guard_text :: "string \<Rightarrow> string option" where
  "guard_text g =
     (if g = ''compare'' then Some ''X =:= Y''
      else if g = ''rem'' then Some ''X rem Y =:= 0''
      else if g = ''alternative'' then Some ''X rem Y > 0; X =:= 0''
      else if g = ''shift'' then Some ''X bsl -1 < 0''
      else None)"

definition descriptor :: "string \<Rightarrow> int \<Rightarrow> string" where
  "descriptor t k = ''hls_lists:list(hls_nums:'' @ t @ ''(), '' @ show_int k @ '')''"

text \<open>
  \<open>emit\<close>. In a shift the count is rendered first, in a sublist its length; \<open>If_guard\<close> looks its
  guard up before its branches, and renders the second branch where it is a fallback.
\<close>

primrec emit :: "string \<Rightarrow> string \<Rightarrow> node \<Rightarrow> string list \<Rightarrow> emission" where
  "emit t h (Var x) bs = done_with x"
| "emit t h (Bound i) bs = (\<lambda>s. map_option (\<lambda>x. (x, s)) (py_index bs i))"
| "emit t h (Const k) bs = done_with (wrap t (show_int k))"
| "emit t h (Binary op a b) bs = seq2 (emit t h a bs) (emit t h b bs)
     (\<lambda>x y. wrap t (''('' @ x @ '' '' @ op @ '' '' @ y @ '')''))"
| "emit t h (Shift op a b ct) bs = seq2 (emit t h b bs) (emit t h a bs)
     (\<lambda>y x. wrap t (''('' @ x @ '' '' @ op @ '' '' @ wrap ct y @ '')''))"
| "emit t h (Bnot a) bs = seq1 (emit t h a bs) (\<lambda>x. wrap t (''(bnot '' @ x @ '')''))"
| "emit t h (Select c a b) bs = seq3 (emit t h c bs) (emit t h a bs) (emit t h b bs)
     (\<lambda>c x y. ''(case '' @ c @ '' of true -> '' @ x @ ''; false -> '' @ y @ '' end)'')"
| "emit t h (Join c a b e) bs = fresh (\<lambda>name.
     seq4 (emit t h c bs) (emit t h a bs) (emit t h b bs) (emit t h e (name # bs))
       (\<lambda>c x y z. ''(begin case '' @ c @ '' of true -> '' @ name @ '' = '' @ x @ ''; '' @
          ''false -> '' @ name @ '' = '' @ y @ '' end, '' @ z @ '' end)''))"
| "emit t h (Partial a k b) bs = seq2 (emit t h a bs) (emit t h b bs)
     (\<lambda>x y. ''(case '' @ x @ '' of '' @ show_int k @ '' -> '' @ y @ '' end)'')"
| "emit t h (If_guard g a b fallback) bs = (case guard_text g of None \<Rightarrow> (\<lambda>s. None)
     | Some test \<Rightarrow>
       if fallback then seq2 (emit t h b bs) (emit t h a bs)
         (\<lambda>y x. ''(if '' @ test @ '' -> '' @ x @ ''; true -> '' @ y @ '' end)'')
       else seq1 (emit t h a bs) (\<lambda>x. ''(if '' @ test @ '' -> '' @ x @ '' end)''))"
| "emit t h (Let_in a e) bs = fresh (\<lambda>name. seq2 (emit t h a bs) (emit t h e (name # bs))
     (\<lambda>x z. ''(begin '' @ name @ '' = '' @ x @ '', '' @ z @ '' end)''))"
| "emit t h (Pair_in a b e) bs = fresh (\<lambda>n1. fresh (\<lambda>n2.
     seq3 (emit t h a bs) (emit t h b bs) (emit t h e (n1 # n2 # bs))
       (\<lambda>x y z. ''(begin {'' @ n1 @ '', '' @ n2 @ ''} = {'' @ x @ '', '' @ y @ ''}, '' @ z @ '' end)'')))"
| "emit t h (Match k a b) bs = seq2 (emit t h a bs) (emit t h b bs)
     (\<lambda>x y. ''(begin '' @ show_int k @ '' = '' @ x @ '', '' @ y @ '' end)'')"
| "emit t h (Nth a b) bs = seq2 (emit t h a bs) (emit t h b bs)
     (\<lambda>x y. ''hls_vec:nth('' @ x @ '', '' @ y @ '')'')"
| "emit t h (Record_field a b field) bs = seq2 (emit t h a bs) (emit t h b bs)
     (\<lambda>x y. wrap t (''(#state{a = '' @ wrap ''u32'' x @ '', b = '' @ wrap ''u32'' y @ ''})#state.'' @ field))"
| "emit t h (Call a b c) bs = seq3 (emit t h a bs) (emit t h b bs) (emit t h c bs)
     (\<lambda>x y z. h @ ''('' @ x @ '', '' @ y @ '', '' @ z @ '')'')"
| "emit t h (Compare op a b) bs = seq2 (emit t h a bs) (emit t h b bs)
     (\<lambda>x y. ''('' @ x @ '' '' @ op @ '' '' @ y @ '')'')"
| "emit t h (And_also a b) bs = seq2 (emit t h a bs) (emit t h b bs)
     (\<lambda>x y. ''('' @ x @ '' andalso '' @ y @ '')'')"
| "emit t h (Or_else a b) bs = seq2 (emit t h a bs) (emit t h b bs)
     (\<lambda>x y. ''('' @ x @ '' orelse '' @ y @ '')'')"
| "emit t h (Negate a) bs = seq1 (emit t h a bs) (\<lambda>x. ''(not '' @ x @ '')'')"
| "emit t h Values bs = done_with ''Values''"
| "emit t h (Set_at a b c) bs = seq3 (emit t h a bs) (emit t h b bs) (emit t h c bs)
     (\<lambda>x y z. ''hls_vec:set('' @ x @ '', '' @ y @ '', '' @ z @ '')'')"
| "emit t h (Sublist arr st n) bs = (\<lambda>s. case array_size arr of None \<Rightarrow> None | Some k \<Rightarrow>
     seq3 (emit t h n bs) (emit t h arr bs) (emit t h st bs)
       (\<lambda>count x y. ''hls_lists:sublist('' @ descriptor t k @ '', '' @ x @ '', '' @ y @ '', '' @
          count @ '')'') s)"
| "emit t h (Slice n arr st) bs = (\<lambda>s. case array_size arr of None \<Rightarrow> None | Some k \<Rightarrow>
     seq2 (emit t h arr bs) (emit t h st bs)
       (\<lambda>x y. ''hls_lists:array_slice('' @ descriptor t k @ '', '' @ x @ '', '' @ y @ '', '' @
          show_int n @ '')'') s)"

text \<open>The whole module; \<open>newline\<close> joins its forms.\<close>

definition newline :: string where
  "newline = [CHR 0x0A]"

fun join_lines :: "string \<Rightarrow> string list \<Rightarrow> string" where
  "join_lines sep [] = []"
| "join_lines sep [x] = x"
| "join_lines sep (x # xs) = x @ sep @ join_lines sep xs"

definition source_forms :: "nat \<times> program \<Rightarrow> string list option" where
  "source_forms = (\<lambda>(i, p).
     let t = program_type p; name = ''helper_'' @ show_nat i;
         spec = ''hls_nums:'' @ t @ ''(), hls_nums:'' @ t @ ''(), hls_lists:list(hls_nums:'' @ t @ ''(), 3)''
     in case emit t name (helper p) [] 0 of
       None \<Rightarrow> None
     | Some (h, s) \<Rightarrow> (case emit t name (expression p) [] s of
         None \<Rightarrow> None
       | Some (e, _) \<Rightarrow> Some
          [''-spec '' @ name @ ''('' @ spec @ '') -> hls_nums:'' @ t @ ''().'',
           name @ ''(X, Y, Values) ->'' @ newline @ ''    '' @ h @ ''.'',
           ''probe_'' @ show_nat i @ ''(X, Y, Values) ->'' @ newline @ ''    '' @ e @ ''.'']))"

definition source :: "program list \<Rightarrow> string option" where
  "source ps =
     (let exports = join_lines '', '' (map (\<lambda>i. ''probe_'' @ show_nat i @ ''/3'') [0..<length ps]);
          header = [''-module(xls_differential_fixture).'', ''-export(['' @ exports @ '']).'',
            ''-hls_data(state).'', ''-hls_tags([]).'',
            ''-record(state, {a = 0 :: hls_nums:u32(), b = 0 :: hls_nums:u32()}).'']
      in map_option (\<lambda>forms. join_lines (newline @ newline) (header @ concat forms) @ newline)
        (those (map source_forms (enumerate 0 ps))))"

section \<open>Closed trees render, with one fresh variable per binder\<close>

primrec binders :: "node \<Rightarrow> nat" where
  "binders (Var _) = 0"
| "binders (Bound _) = 0"
| "binders (Const _) = 0"
| "binders (Binary _ a b) = binders a + binders b"
| "binders (Shift _ a b _) = binders a + binders b"
| "binders (Bnot a) = binders a"
| "binders (Select c a b) = binders c + binders a + binders b"
| "binders (Join c a b e) = 1 + binders c + binders a + binders b + binders e"
| "binders (Partial a _ b) = binders a + binders b"
| "binders (If_guard _ a b fallback) = binders a + (if fallback then binders b else 0)"
| "binders (Let_in a e) = 1 + binders a + binders e"
| "binders (Pair_in a b e) = 2 + binders a + binders b + binders e"
| "binders (Match _ a b) = binders a + binders b"
| "binders (Nth a b) = binders a + binders b"
| "binders (Record_field a b _) = binders a + binders b"
| "binders (Call a b c) = binders a + binders b + binders c"
| "binders (Compare _ a b) = binders a + binders b"
| "binders (And_also a b) = binders a + binders b"
| "binders (Or_else a b) = binders a + binders b"
| "binders (Negate a) = binders a"
| "binders Values = 0"
| "binders (Set_at a b c) = binders a + binders b + binders c"
| "binders (Sublist a b c) = binders a + binders b + binders c"
| "binders (Slice _ a b) = binders a + binders b"

definition renders :: "emission \<Rightarrow> nat \<Rightarrow> bool" where
  "renders m k \<longleftrightarrow> (\<forall>s. \<exists>text. m s = Some (text, s + k))"

lemma renders_done [intro]: "renders (done_with text) 0"
  by (simp add: renders_def done_with_def)

lemma renders_seq1: "renders m k \<Longrightarrow> renders (seq1 m f) k"
  unfolding renders_def seq1_def by (metis (mono_tags, lifting) case_prod_conv option.simps(5))

lemma renders_seq2: "renders m k \<Longrightarrow> renders m' k' \<Longrightarrow> renders (seq2 m m' f) (k + k')"
  using renders_seq1[of m' k'] unfolding renders_def seq2_def
  by (metis (mono_tags, lifting) add.assoc case_prod_conv option.simps(5))

lemma renders_seq3:
  "renders m k \<Longrightarrow> renders m' k' \<Longrightarrow> renders m'' k'' \<Longrightarrow> renders (seq3 m m' m'' f) (k + (k' + k''))"
  using renders_seq2[of m' k' m'' k''] unfolding renders_def seq3_def
  by (metis (mono_tags, lifting) add.assoc case_prod_conv option.simps(5))

lemma renders_seq4:
  "renders m k \<Longrightarrow> renders m' k' \<Longrightarrow> renders m'' k'' \<Longrightarrow> renders m3 k3 \<Longrightarrow>
   renders (seq4 m m' m'' m3 f) (k + (k' + (k'' + k3)))"
  using renders_seq3[of m' k' m'' k'' m3 k3] unfolding renders_def seq4_def
  by (metis (mono_tags, lifting) add.assoc case_prod_conv option.simps(5))

lemma renders_fresh: "(\<And>name. renders (f name) k) \<Longrightarrow> renders (fresh f) (1 + k)"
  by (simp add: renders_def fresh_def) (metis add_Suc)

lemma renders_eq: "renders m k \<Longrightarrow> k = k' \<Longrightarrow> renders m k'"
  by simp

lemmas renders_intros = renders_done renders_seq1 renders_seq2 renders_seq3 renders_seq4 renders_fresh

lemma emit_renders:
  "well_typed n \<Longrightarrow> valid n (int (length bs)) calls \<Longrightarrow> renders (emit t h n bs) (binders n)"
proof (induction n arbitrary: bs)
  case (Bound i)
  then show ?case by (auto simp: renders_def py_index_def)
next
  case (Shift op a b ct)
  then show ?case
    by (auto intro!: renders_eq[OF renders_seq2[of _ "binders b" _ "binders a"]])
next
  case (If_guard g a b fallback)
  then obtain test where "guard_text g = Some test" by (auto simp: guard_text_def)
  with If_guard show ?case
    by (auto intro!: renders_seq1 renders_eq[OF renders_seq2[of _ "binders b" _ "binders a"]])
next
  case (Sublist arr st n)
  then obtain k where "array_size arr = Some k" using array_type_size by auto
  with Sublist show ?case
    by (auto intro!: renders_eq[OF renders_seq3[of _ "binders n" _ "binders arr" _ "binders st"]])
next
  case (Slice n arr st)
  then obtain k where "array_size arr = Some k" using array_type_size by auto
  with Slice show ?case by (auto intro!: renders_seq2)
next
  case (Let_in a e)
  have "renders (emit t h e (name # bs)) (binders e)" for name
    using Let_in by (intro Let_in.IH) (auto simp: add.commute)
  with Let_in show ?case
    by (auto intro!: renders_eq[OF renders_fresh[OF renders_seq2[of _ "binders a" _ "binders e"]]])
next
  case (Join c a b e)
  have "renders (emit t h e (name # bs)) (binders e)" for name
    using Join by (intro Join.IH) (auto simp: add.commute)
  with Join show ?case
    by (auto intro!: renders_eq[OF renders_fresh[OF renders_seq4[of _ "binders c" _ "binders a" _
        "binders b" _ "binders e"]]])
next
  case (Pair_in a b e)
  have "renders (emit t h e (n1 # n2 # bs)) (binders e)" for n1 n2
    using Pair_in by (intro Pair_in.IH) (auto simp: add.commute)
  with Pair_in show ?case
    by (auto intro!: renders_eq[OF renders_fresh[OF renders_fresh[OF renders_seq3[of _ "binders a" _
        "binders b" _ "binders e"]]]])
next
  case (Select a b c)
  then show ?case
    by (auto intro!: renders_eq[OF renders_seq3[of _ "binders a" _ "binders b" _ "binders c"]])
next
  case (Call a b c)
  then show ?case
    by (auto intro!: renders_eq[OF renders_seq3[of _ "binders a" _ "binders b" _ "binders c"]])
next
  case (Set_at a b c)
  then show ?case
    by (auto intro!: renders_eq[OF renders_seq3[of _ "binders a" _ "binders b" _ "binders c"]])
qed (auto intro!: renders_seq1 renders_seq2)

lemma those_Some: "(\<And>x. x \<in> set xs \<Longrightarrow> \<exists>y. f x = Some y) \<Longrightarrow> \<exists>ys. those (map f xs) = Some ys"
  by (induction xs) (auto, fastforce)

lemma source_total:
  assumes "\<forall>p\<in>set ps. good_program p"
  shows "\<exists>text. source ps = Some text"
proof -
  have "\<exists>forms. source_forms (i, p) = Some forms" if "good_program p" for i p
  proof -
    let ?emit = "emit (program_type p) (''helper_'' @ show_nat i)"
    have "renders (?emit (helper p) []) (binders (helper p))"
      using that by (intro emit_renders[where calls = False]) (auto simp: good_program_def)
    moreover have "renders (?emit (expression p) []) (binders (expression p))"
      using that by (intro emit_renders[where calls = True]) (auto simp: good_program_def)
    ultimately show ?thesis
      by (auto simp: source_forms_def Let_def renders_def split: option.splits) (metis option.distinct(1) not_Some_eq)+
  qed
  then have "\<exists>forms. those (map source_forms (enumerate 0 ps)) = Some forms"
    using assms by (intro those_Some) (auto simp: in_set_enumerate_eq)
  then show ?thesis by (auto simp: source_def Let_def)
qed

end
