(* ===== verification/Diff_Campaign.thy ===== *)
theory Diff_Campaign
  imports Diff_Minimize
begin

text \<open>
  A campaign of differential tests: \<open>main\<close> of \<open>tools/compiler_differential.py\<close> after the command line is read, and
  the coverage it reports (\<open>coverage\<close> of \<open>tools/compiler_differential_cases.py\<close>). The programs are given, whether
  generated or replayed; what the tools answer to the n-th batch, and to a candidate of the reducer, are
  arguments.
\<close>

section \<open>Coverage\<close>

definition tag_of :: "node \<Rightarrow> string" where
  "tag_of n = (case to_json n of JArr (JStr t # _) \<Rightarrow> t | _ \<Rightarrow> [])"

definition operator_of :: "node \<Rightarrow> string list" where
  "operator_of n = (if tag_of n \<in> {''binary'', ''compare'', ''shift''}
     then (case to_json n of JArr (_ # JStr op # _) \<Rightarrow> [''operator:'' @ op] | _ \<Rightarrow> []) else [])"

function visit :: "node \<Rightarrow> string list" where
  "visit n = tag_of n # operator_of n @ concat (map (\<lambda>(_, c). visit c) (children n))"
  by pat_completeness auto
termination
  by (relation "measure size") (auto dest: children_size)

declare visit.simps [simp del]

definition program_keys :: "program \<Rightarrow> string list" where
  "program_keys p = [''type:'' @ program_type p, if program_total p then ''total_program'' else ''fallible_program''] @
     visit (expression p) @ visit (helper p)"

definition count_key :: "string \<Rightarrow> (string, nat) dict \<Rightarrow> (string, nat) dict" where
  "count_key k d = AList.update k ((case map_of d k of None \<Rightarrow> 0 | Some n \<Rightarrow> n) + 1) d"

definition coverage :: "program list \<Rightarrow> (string \<times> nat) list" where
  "coverage ps = sort_key fst (fold count_key (concat (map program_keys ps)) [])"

section \<open>Batches\<close>

text \<open>\<open>programs[offset:offset + size]\<close> for the offsets of \<open>range(0, len(programs), size)\<close>.\<close>

function batches :: "nat \<Rightarrow> 'a list \<Rightarrow> 'a list list" where
  "batches n xs = (if xs = [] \<or> n = 0 then [] else take n xs # batches n (drop n xs))"
  by pat_completeness auto
termination
  by (relation "measure (\<lambda>(_, xs). length xs)") auto

declare batches.simps [simp del]

record arguments =
  arg_start :: int
  arg_count :: int
  arg_depth :: int
  arg_inputs :: int
  arg_batch_size :: int
  arg_rtl_batches :: int
  arg_shrink_budget :: int
  arg_timeout_positive :: bool

definition arguments_ok :: "arguments \<Rightarrow> bool" where
  "arguments_ok a \<longleftrightarrow> 0 < arg_count a \<and> 0 < arg_depth a \<and> 0 < arg_inputs a \<and> 0 < arg_batch_size a \<and> arg_timeout_positive a \<and>
     0 \<le> arg_start a \<and> 0 \<le> arg_rtl_batches a \<and> 0 \<le> arg_shrink_budget a"

definition unshrinkable :: "string list" where
  "unshrinkable = [''timeout'', ''tool_error'', ''missing_tests'', ''invalid_source'']"

record campaign =
  campaign_coverage :: "(string \<times> nat) list"
  campaign_programs :: nat
  campaign_vectors :: nat
  results :: "batch_result list"
  reduced :: "(program list \<times> shrink_state) option"

text \<open>The loop over the batches, which ends at the first failure.\<close>

fun run_batches ::
  "(nat \<Rightarrow> program list \<Rightarrow> evidence) \<Rightarrow> run \<Rightarrow> nat \<Rightarrow> nat \<Rightarrow> nat \<Rightarrow> program list list \<Rightarrow>
   batch_result list \<times> (program list \<times> shrink_state) option" where
  "run_batches tools shrink_run with_rtl budget n [] = ([], None)"
| "run_batches tools shrink_run with_rtl budget n (b # bs) =
     (let r = run_batch (tools n b) b (n < with_rtl) in
      if status r \<noteq> ''ok''
      then ([r], if 0 < budget \<and> (case failure_category r of None \<Rightarrow> True | Some c \<Rightarrow> c \<notin> set unshrinkable)
                 then Some (minimize shrink_run b r budget) else None)
      else (let (rs, m) = run_batches tools shrink_run with_rtl budget (Suc n) bs in (r # rs, m)))"

datatype campaign_error = Bad_Arguments | No_Inputs

definition run_campaign ::
  "(nat \<Rightarrow> program list \<Rightarrow> evidence) \<Rightarrow> run \<Rightarrow> arguments \<Rightarrow> program list \<Rightarrow> (campaign_error, campaign) result" where
  "run_campaign tools shrink_run a ps =
     bindE (ensure (arguments_ok a) Bad_Arguments) (\<lambda>_.
     bindE (ensure (\<not> (ps = [] \<or> list_ex (\<lambda>p. inputs p = []) ps)) No_Inputs) (\<lambda>_.
     let (rs, m) = run_batches tools shrink_run (nat (arg_rtl_batches a)) (nat (arg_shrink_budget a)) 0
           (batches (nat (arg_batch_size a)) ps) in
     Inr \<lparr>campaign_coverage = coverage ps, campaign_programs = length ps, campaign_vectors = vector_count ps,
       results = rs, reduced = m\<rparr>))"

record summary =
  completed_programs :: nat
  completed_vectors :: nat
  completed_rtl_vectors :: nat
  summary_status :: string

definition summarize :: "campaign \<Rightarrow> summary" where
  "summarize c = (let completed = filter (\<lambda>r. status r = ''ok'') (results c) in
     \<lparr>completed_programs = sum_list (map batch_programs completed), completed_vectors = sum_list (map vectors completed),
      completed_rtl_vectors = sum_list (map vectors (filter rtl completed)),
      summary_status = (if list_all (\<lambda>r. status r = ''ok'') (results c) then ''ok'' else ''failed'')\<rparr>)"

definition campaign_exit :: "summary \<Rightarrow> int" where
  "campaign_exit s = (if summary_status s = ''ok'' then 0 else 1)"

section \<open>What a campaign did\<close>

lemma concat_batches: "0 < n \<Longrightarrow> concat (batches n xs) = xs"
proof (induction n xs rule: batches.induct)
  case (1 n xs)
  then show ?case by (subst batches.simps) auto
qed

lemma batches_sized: "b \<in> set (batches n xs) \<Longrightarrow> b \<noteq> [] \<and> length b \<le> n"
proof (induction n xs rule: batches.induct)
  case (1 n xs)
  from "1.prems" have cases: "\<not> (xs = [] \<or> n = 0)" "b = take n xs \<or> b \<in> set (batches n (drop n xs))"
    by (subst (asm) batches.simps, auto split: if_splits)+
  with "1.IH" show ?case by auto
qed

lemma run_batch_sizes: "batch_programs (run_batch ev ps w) = length ps \<and> vectors (run_batch ev ps w) = vector_count ps \<and>
    rtl (run_batch ev ps w) = w"
  by (simp add: run_batch_def failed_def Let_def split: option.split)

text \<open>The \<open>k\<close>-th batch's result, the batches being numbered from \<open>n\<close>.\<close>

definition batch_at :: "(nat \<Rightarrow> program list \<Rightarrow> evidence) \<Rightarrow> nat \<Rightarrow> nat \<Rightarrow> program list list \<Rightarrow> nat \<Rightarrow> batch_result" where
  "batch_at tools with_rtl n bs k = run_batch (tools (n + k) (bs ! k)) (bs ! k) (n + k < with_rtl)"

lemma run_batches_results:
  assumes "run_batches tools shrink_run with_rtl budget n bs = (rs, m)"
  shows "length rs \<le> length bs \<and> (\<forall>k<length rs. rs ! k = batch_at tools with_rtl n bs k) \<and>
    (\<forall>k. Suc k < length rs \<longrightarrow> status (rs ! k) = ''ok'') \<and>
    (length rs < length bs \<longrightarrow> rs \<noteq> [] \<and> status (last rs) \<noteq> ''ok'') \<and>
    (case m of None \<Rightarrow> True | Some q \<Rightarrow> rs \<noteq> [] \<and> status (last rs) \<noteq> ''ok'' \<and>
       q = minimize shrink_run (bs ! (length rs - 1)) (last rs) budget)"
  using assms
proof (induction bs arbitrary: n rs m)
  case (Cons b bs)
  let ?r = "run_batch (tools n b) b (n < with_rtl)"
  show ?case
  proof (cases "status ?r = ''ok''")
    case False
    with Cons.prems show ?thesis by (auto simp: Let_def batch_at_def split: if_splits option.splits)
  next
    case True
    obtain rs' m' where rec: "run_batches tools shrink_run with_rtl budget (Suc n) bs = (rs', m')" by fastforce
    with Cons.prems True have rs: "rs = ?r # rs'" "m = m'" by (auto simp: Let_def)
    note IH = Cons.IH[OF rec]
    have nth: "rs ! k = batch_at tools with_rtl n (b # bs) k" if "k < length rs" for k
    proof (cases k)
      case 0
      then show ?thesis by (simp add: rs batch_at_def)
    next
      case (Suc j)
      with that IH have "rs' ! j = batch_at tools with_rtl (Suc n) bs j" by (simp add: rs)
      with Suc show ?thesis by (simp add: rs batch_at_def)
    qed
    have ok: "status (rs ! k) = ''ok''" if "Suc k < length rs" for k
      using that True IH by (cases k) (auto simp: rs)
    show ?thesis using nth ok IH by (auto simp: rs nth_Cons' split: option.splits)
  qed
qed simp

definition shrinkable :: "nat \<Rightarrow> batch_result \<Rightarrow> bool" where
  "shrinkable budget r \<longleftrightarrow> status r \<noteq> ''ok'' \<and> 0 < budget \<and>
     (case failure_category r of None \<Rightarrow> True | Some c \<Rightarrow> c \<notin> set unshrinkable)"

lemma run_batches_reduces:
  "run_batches tools shrink_run with_rtl budget n bs = (rs, m) \<Longrightarrow> m = None \<longleftrightarrow> (rs = [] \<or> \<not> shrinkable budget (last rs))"
proof (induction bs arbitrary: n rs m)
  case (Cons b bs)
  let ?r = "run_batch (tools n b) b (n < with_rtl)"
  obtain rs' m' where rec: "run_batches tools shrink_run with_rtl budget (Suc n) bs = (rs', m')" by fastforce
  show ?case
  proof (cases "status ?r = ''ok''")
    case True
    with Cons.prems rec have "rs = ?r # rs'" "m = m'" by (simp_all add: Let_def)
    with Cons.IH[OF rec] True show ?thesis by (simp add: shrinkable_def)
  next
    case False
    with Cons.prems show ?thesis by (auto simp: Let_def shrinkable_def split: if_splits option.splits)
  qed
qed simp

lemma campaign_parts:
  assumes "run_campaign tools shrink_run a ps = Inr c"
  obtains rs m where "arguments_ok a" "ps \<noteq> []" "\<forall>p\<in>set ps. inputs p \<noteq> []" "results c = rs" "reduced c = m"
    "campaign_vectors c = vector_count ps"
    "run_batches tools shrink_run (nat (arg_rtl_batches a)) (nat (arg_shrink_budget a)) 0 (batches (nat (arg_batch_size a)) ps) = (rs, m)"
proof -
  obtain rs m where r: "run_batches tools shrink_run (nat (arg_rtl_batches a)) (nat (arg_shrink_budget a)) 0
      (batches (nat (arg_batch_size a)) ps) = (rs, m)" by fastforce
  with assms that[OF _ _ _ _ _ _ r] show thesis by (auto simp: run_campaign_def bindE_Inr list_ex_iff)
qed

lemma all_results_totals:
  assumes "length rs = length bs" and "\<forall>k<length rs. rs ! k = batch_at tools w 0 bs k"
  shows "sum_list (map batch_programs rs) = length (concat bs)" and "sum_list (map vectors rs) = vector_count (concat bs)"
proof -
  have p: "map batch_programs rs = map length bs" and v: "map vectors rs = map vector_count bs"
    using assms by (auto intro!: nth_equalityI simp: batch_at_def run_batch_sizes)
  show "sum_list (map batch_programs rs) = length (concat bs)" by (simp add: p length_concat)
  have "vector_count (concat bs) = sum_list (map vector_count bs)" by (induction bs) (simp_all add: vector_count_def)
  then show "sum_list (map vectors rs) = vector_count (concat bs)" by (simp add: v)
qed

end
