(* ===== verification/Diff_Properties.thy ===== *)
theory Diff_Properties
  imports Diff_Minimize Diff_Emit Diff_Campaign
begin

text \<open>
  Properties of the compiler differential tests: generation, reduction, rendering, one batch and
  the reducer, each applied to a concrete input.
\<close>

section \<open>Sample values\<close>

definition step_rng :: "nat rng" where
  "step_rng = \<lparr>below = (\<lambda>n. State (\<lambda>s. (s mod n, Suc s))), bits = (\<lambda>w. State (\<lambda>s. (s mod 2 ^ w, Suc s)))\<rparr>"

lemma step_rng_fair: "fair step_rng"
  by (auto simp: fair_def step_rng_def intro!: pred_stateI)

definition sample_program :: program where
  "sample_program = \<lparr>program_seed = 1, program_case = 0, program_type = ''u8'', program_total = True,
     expression = Let_in (Var ''X'') (Binary ''+'' (Bound 0) (Const 2)), helper = Var ''Y'',
     inputs = [[1, 2, 3, 4, 5], [6, 7, 8, 9, 10]]\<rparr>"

definition sample_reduced :: program where
  "sample_reduced = sample_program\<lparr>expression := Const 0\<rparr>"

lemma sample_good: "good_program sample_program"
  by (simp add: good_program_def sample_program_def word_binary_def)

lemma sample_reduction: "sample_reduced \<in> set (program_reductions sample_program)"
proof -
  have "Const 0 \<in> set (reductions (expression sample_program))"
    by (subst reductions.simps) (simp add: sample_program_def Let_def)
  moreover have "program_cost sample_reduced < program_cost sample_program"
    by (simp add: program_cost_def sample_reduced_def sample_program_def Let_def less_prod_def
        tree_cost.simps)
  ultimately show ?thesis
    by (auto simp: program_reductions_def sample_reduced_def intro!: image_eqI)
qed

definition clean_run :: evidence where
  "clean_run = \<lparr>exits = (\<lambda>ph. \<lparr>returncode = 0, timed_out = False, tool_stdout = ''PASS: 2 differential RTL vectors'',
       tool_stderr = ''1 test(s) ran''\<rparr>),
     oracle_file = \<lparr>oracle_status = ''ok'', oracle_reason = None, oracle_location = None,
       expected = [[3, 8]]\<rparr>\<rparr>"

definition failing :: batch_result where
  "failing = run_batch (clean_run\<lparr>exits := (\<lambda>ph. \<lparr>returncode = 1, timed_out = False, tool_stdout = [],
     tool_stderr = ''ParseError''\<rparr>)\<rparr>) [sample_program] False"

section \<open>Generation\<close>

text \<open>
  C8. Whatever a source of randomness that respects its ranges draws, a generated program has the
  recorded seed, case and type, two well-typed, closed integer trees of bounded height (the helper
  without calls) and the requested number of input rows of five words of the type's width; and a
  total program contains no division, no partial match and no index outside its array.
\<close>

theorem generate_well_formed:
  assumes "fair g" and "run_state (generate g seed case_id depth input_count) s = (p, s')"
  shows "good_program p \<and> program_seed p = seed \<and> program_case p = int case_id \<and>
    program_type p \<in> set type_names \<and> length (inputs p) = input_count \<and>
    (\<forall>row\<in>set (inputs p). length row = 5 \<and> (\<forall>v\<in>set row. 0 \<le> v \<and> v < 2 ^ type_width (program_type p))) \<and>
    height (expression p) \<le> depth + 2 \<and> height (helper p) \<le> max 1 (depth - 1) + 2 \<and>
    (program_total p \<longrightarrow> infallible (expression p) \<and> infallible (helper p))"
  using pred_stateD[OF generate_promises[OF assms(1)] assms(2)] by (simp add: fitting_row_def)

theorem generate_well_formed_witness:
  "good_program (fst (run_state (generate step_rng 7 1 3 20) 5)) \<and>
   length (inputs (fst (run_state (generate step_rng 7 1 3 20) 5))) = 20"
  using generate_well_formed[OF step_rng_fair surjective_pairing, of 7 1 3 20 5] by blast

section \<open>Reductions\<close>

text \<open>
  Every program a reduction offers is again well typed and closed, has the same inputs and type, and
  is strictly cheaper in the order of nodes, text length and text.
\<close>

theorem program_reductions_sound:
  assumes "good_program p" and "q \<in> set (program_reductions p)"
  shows "good_program q \<and> program_cost q < program_cost p \<and> inputs q = inputs p \<and>
    program_type q = program_type p \<and> program_total q = program_total p"
  using program_reductions_good[OF assms] program_reductions_cheaper[OF assms(2)]
    program_reductions_frame[OF assms(2)] by blast

theorem program_reductions_sound_witness:
  "good_program sample_reduced \<and> program_cost sample_reduced < program_cost sample_program"
  using program_reductions_sound[OF sample_good sample_reduction] by blast

text \<open>
  No chain of reductions is infinite, although the texts of equal length are compared as
  strings.
\<close>

theorem program_reductions_wf: "wf {(q, p). q \<in> set (program_reductions p)}"
  by (rule wf_program_reductions)

section \<open>Rendering\<close>

text \<open>
  A well-typed tree whose indices are bound renders as Erlang without an exception from every
  serial number, and consumes exactly one fresh variable per rendered binder, so that the variables
  of two binders never coincide.
\<close>

theorem emit_fresh_variables:
  assumes "well_typed n" and "valid n (int (length bs)) calls"
  shows "\<exists>text. emit t h n bs s = Some (text, s + binders n)"
  using emit_renders[OF assms] by (simp add: renders_def)

theorem emit_fresh_variables_witness:
  "\<exists>text. emit ''u8'' ''helper_0'' (expression sample_program) [] 4 = Some (text, 5)"
  using emit_fresh_variables[of "expression sample_program" "[]" True "''u8''" "''helper_0''" 4]
  by (simp add: sample_program_def word_binary_def)

text \<open>The module source of generated or reduced programs is always produced.\<close>

theorem source_of_good_programs:
  assumes "\<forall>p\<in>set ps. good_program p"
  shows "\<exists>text. source ps = Some text"
  by (rule source_total[OF assms])

theorem source_of_good_programs_witness: "\<exists>text. source [sample_program, sample_program] = Some text"
  by (rule source_of_good_programs) (simp add: sample_good)

section \<open>One batch\<close>

text \<open>
  A batch is reported as passed exactly when every phase exits cleanly in time, the oracle
  evaluated all programs, no total program failed in Erlang, the interpreter ran one test per
  program and, with RTL, the simulation saw every vector.
\<close>

theorem run_batch_ok_iff:
  "status (run_batch ev ps with_rtl) = ''ok'' \<longleftrightarrow>
     (\<forall>ph\<in>set ([''lower'', ''dslx''] @ run_pipeline with_rtl).
        returncode (exits ev ph) = 0 \<and> \<not> timed_out (exits ev ph)) \<and>
     oracle_status (oracle_file ev) = ''ok'' \<and>
     (\<forall>(p, vs)\<in>set (zip ps (expected (oracle_file ev))). program_total p \<longrightarrow> (\<forall>v\<in>set vs. v div 2 ^ 32 = 0)) \<and>
     tests_ran (length ps) (tool_stderr (exits ev ''dslx'')) \<and>
     (with_rtl \<longrightarrow> contains (''PASS: '' @ show_nat (vector_count ps) @ '' differential RTL vectors'')
        (tool_stdout (exits ev ''rtl'')))"
proof -
  have total: "(\<forall>(p, vs)\<in>set (zip ps cs). program_total p \<longrightarrow> (\<forall>v\<in>set vs. v div 2 ^ 32 = 0)) \<longleftrightarrow>
      \<not> breaks_totality ps cs" for cs
    by (auto simp: breaks_totality_def list_ex_iff)
  have clean: "(returncode (exits ev ph) = 0 \<and> \<not> timed_out (exits ev ph)) \<longleftrightarrow> command ev ph = None" for ph
    by simp
  have phases: "(\<forall>ph\<in>set ([''lower'', ''dslx''] @ run_pipeline with_rtl). command ev ph = None) \<longleftrightarrow>
      command ev ''lower'' = None \<and> command ev ''dslx'' = None \<and>
      first_failure ev (run_pipeline with_rtl) = None"
    by (simp del: command_None)
  show ?thesis
    unfolding clean total phases
    by (simp add: run_batch_def Let_def del: command_None first_failure_None split: option.splits)
qed

theorem run_batch_ok_iff_witness:
  "status (run_batch clean_run [sample_program] True) = ''ok''"
  unfolding run_batch_ok_iff
  by (simp add: clean_run_def sample_program_def run_pipeline_def vector_count_def tests_ran_def
      search_at_word.simps show_nat.simps word_char_def in_range_def)

text \<open>
  The memory image of the RTL test bench loses nothing: reading a line back as the 228-bit word of
  the bench and splitting it as the bench does gives the program's number, its five inputs and the
  expected 36-bit outcome, for every vector in order.
\<close>

theorem testbench_rows_roundtrip:
  assumes "length ps \<le> 2 ^ 32"
    and "\<forall>p\<in>set ps. \<forall>row\<in>set (inputs p). length row = 5 \<and> (\<forall>v\<in>set row. 0 \<le> v \<and> v < 2 ^ 32)"
    and "\<forall>es\<in>set cs. \<forall>e\<in>set es. 0 \<le> e \<and> e < 2 ^ 36"
  shows "map read_vector (testbench_rows ps cs) = concat (map
     (\<lambda>(mode, p, es). map (\<lambda>(vs, e). (int mode, vs, e)) (zip (inputs p) es)) (enumerate 0 (zip ps cs)))"
proof -
  have row: "read_vector (vector_line (pack_row (int mode) vs e)) = (int mode, vs, e)"
    if "(mode, p, es) \<in> set (enumerate 0 (zip ps cs))" and "(vs, e) \<in> set (zip (inputs p) es)" for mode p es vs e
  proof -
    from that(1) have mode: "int mode < 2 ^ 32" and p: "p \<in> set ps" and es: "es \<in> set cs"
      using assms(1) by (auto simp: in_set_enumerate_eq in_set_zip)
    from that(2) p es assms(2,3) have vs: "length vs = 5" "\<forall>v\<in>set vs. 0 \<le> v \<and> v < 2 ^ 32"
      and e: "0 \<le> e" "e < 2 ^ 36"
      by (auto dest: set_zip_leftD set_zip_rightD)
    from vs(1) obtain x y a b c where "vs = [x, y, a, b, c]"
      by (auto simp: length_Suc_conv eval_nat_numeral)
    with vs(2) mode e show ?thesis
      by (auto intro!: read_pack_row)
  qed
  show ?thesis
    unfolding testbench_rows_def map_concat map_map
    by (rule arg_cong[where f = concat], rule map_cong[OF refl]) (auto simp: row)
qed

theorem testbench_rows_roundtrip_witness:
  "map read_vector (testbench_rows [sample_program] [[3, 8]]) =
     [(0, [1, 2, 3, 4, 5], 3), (0, [6, 7, 8, 9, 10], 8)]"
  using testbench_rows_roundtrip[of "[sample_program]" "[[3, 8]]"]
  by (simp add: sample_program_def)

section \<open>The reducer\<close>

text \<open>
  C3. The reducer never runs more than its budget, numbers its runs consecutively and never runs a
  candidate twice. What it returns is the original batch or one program that a counted run failed
  with the signature of the original failure; and each returned program comes from one of the
  batch, of the same type, not costlier, still well formed, with a contiguous selection of its
  input rows in which no word grew.
\<close>

theorem minimize_sound:
  assumes "minimize run ps failure budget = (qs, st)"
  shows "attempts st \<le> budget \<and> map fst (history st) = [0..<attempts st] \<and>
    length (seen st) = attempts st \<and> distinct (seen st) \<and>
    (qs = ps \<or> length qs = 1 \<and> (\<exists>n<attempts st. status (run n qs) = ''failed'' \<and>
       signature (run n qs) = signature failure)) \<and>
    (\<forall>q\<in>set qs. \<exists>p\<in>set ps. (good_program p \<longrightarrow> good_program q) \<and> program_cost q \<le> program_cost p \<and>
       program_type q = program_type p \<and> program_total q = program_total p \<and>
       (\<exists>rows. sublist rows (inputs p) \<and> list_all2 (list_all2 (\<le>)) (inputs q) rows \<and>
          (rows = [] \<longrightarrow> inputs p = [])))"
  using minimize_keeps[OF assms]
  unfolding within_budget_def shown_by_def reproduces_def shrunk_def lowered_def by blast

theorem minimize_sound_witness:
  "attempts (snd (minimize (\<lambda>_ _. failing) [sample_program] failing 30)) \<le> 30 \<and>
   list_all good_program (fst (minimize (\<lambda>_ _. failing) [sample_program] failing 30))"
  using minimize_sound[OF surjective_pairing, of "\<lambda>_ _. failing" "[sample_program]" failing 30] sample_good
  by (fastforce simp: list_all_iff)

section \<open>Campaigns\<close>

text \<open>
  C22. A campaign that its arguments admit runs all programs, in order and in batches of the given size, up to the
  first batch that fails, and none after it; it simulates RTL for exactly the first batches asked for. It exits
  with 0 exactly when every batch passes, and then every program and every vector is counted as completed. A
  reduction happens exactly when a batch failed, the budget is positive and the failure is not one of the four
  kinds that cannot shrink; it is the reducer's answer to the failed batch, under the given budget.
\<close>

theorem campaign_exact:
  assumes "run_campaign tools shrink_run a ps = Inr c"
  shows "concat (batches (nat (arg_batch_size a)) ps) = ps \<and>
    (\<forall>b\<in>set (batches (nat (arg_batch_size a)) ps). b \<noteq> [] \<and> int (length b) \<le> arg_batch_size a) \<and>
    (\<forall>k<length (results c). results c ! k =
       batch_at tools (nat (arg_rtl_batches a)) 0 (batches (nat (arg_batch_size a)) ps) k) \<and>
    length (results c) \<le> length (batches (nat (arg_batch_size a)) ps) \<and>
    (\<forall>k. Suc k < length (results c) \<longrightarrow> status (results c ! k) = ''ok'') \<and>
    (length (results c) < length (batches (nat (arg_batch_size a)) ps) \<longrightarrow>
       results c \<noteq> [] \<and> status (last (results c)) \<noteq> ''ok'') \<and>
    (reduced c = None \<longleftrightarrow> (results c = [] \<or> \<not> shrinkable (nat (arg_shrink_budget a)) (last (results c)))) \<and>
    (campaign_exit (summarize c) = 0 \<longleftrightarrow> (\<forall>k<length (batches (nat (arg_batch_size a)) ps).
       status (batch_at tools (nat (arg_rtl_batches a)) 0 (batches (nat (arg_batch_size a)) ps) k) = ''ok'')) \<and>
    (campaign_exit (summarize c) = 0 \<longrightarrow> completed_programs (summarize c) = length ps \<and>
       completed_vectors (summarize c) = campaign_vectors c) \<and>
    (case reduced c of None \<Rightarrow> True | Some q \<Rightarrow> campaign_exit (summarize c) = 1 \<and>
       q = minimize shrink_run (batches (nat (arg_batch_size a)) ps ! (length (results c) - 1)) (last (results c)) (nat (arg_shrink_budget a)))"
proof -
  let ?bs = "batches (nat (arg_batch_size a)) ps" and ?w = "nat (arg_rtl_batches a)"
  obtain rs m where c: "arguments_ok a" "results c = rs" "reduced c = m" "campaign_vectors c = vector_count ps"
    and run: "run_batches tools shrink_run ?w (nat (arg_shrink_budget a)) 0 ?bs = (rs, m)"
    using assms by (rule campaign_parts) blast
  note R = run_batches_results[OF run]
  from c(1) have pos: "0 < arg_batch_size a" by (simp add: arguments_ok_def)
  then have whole: "concat ?bs = ps" by (intro concat_batches) simp
  have sized: "\<forall>b\<in>set ?bs. b \<noteq> [] \<and> int (length b) \<le> arg_batch_size a"
    using batches_sized[of _ "nat (arg_batch_size a)" ps] pos by (simp add: le_nat_iff)
  have exit_ok: "campaign_exit (summarize c) = 0 \<longleftrightarrow> (\<forall>r\<in>set rs. status r = ''ok'')" and
    exit_1: "campaign_exit (summarize c) \<noteq> 0 \<longrightarrow> campaign_exit (summarize c) = 1"
    by (simp_all add: campaign_exit_def summarize_def c(2) list_all_iff Let_def)
  have exact: "campaign_exit (summarize c) = 0 \<longleftrightarrow> length rs = length ?bs \<and> (\<forall>k<length ?bs. status (batch_at tools ?w 0 ?bs k) = ''ok'')"
  proof
    assume z: "campaign_exit (summarize c) = 0"
    then have "length rs = length ?bs" using R exit_ok by (metis last_in_set le_neq_implies_less)
    with z R exit_ok show "length rs = length ?bs \<and> (\<forall>k<length ?bs. status (batch_at tools ?w 0 ?bs k) = ''ok'')"
      by (metis nth_mem)
  next
    assume "length rs = length ?bs \<and> (\<forall>k<length ?bs. status (batch_at tools ?w 0 ?bs k) = ''ok'')"
    with R exit_ok show "campaign_exit (summarize c) = 0" by (metis in_set_conv_nth)
  qed
  have full: "length rs = length ?bs" if "\<forall>k<length ?bs. status (batch_at tools ?w 0 ?bs k) = ''ok''"
    using that R by (metis diff_less last_conv_nth length_greater_0_conv le_neq_implies_less less_le_trans zero_less_one)
  have totals: "completed_programs (summarize c) = length ps \<and> completed_vectors (summarize c) = vector_count ps"
    if "campaign_exit (summarize c) = 0"
  proof -
    from that exact have len: "length rs = length ?bs" by blast
    from that exit_ok have "filter (\<lambda>r. status r = ''ok'') rs = rs" by (simp add: filter_id_conv)
    then show ?thesis using all_results_totals[OF len, of tools ?w] R whole by (simp add: summarize_def c(2) Let_def)
  qed
  have "case m of None \<Rightarrow> True | Some q \<Rightarrow> campaign_exit (summarize c) = 1 \<and>
      q = minimize shrink_run (?bs ! (length rs - 1)) (last rs) (nat (arg_shrink_budget a))"
  proof (cases m)
    case (Some q)
    with R have "rs \<noteq> []" "status (last rs) \<noteq> ''ok''" "q = minimize shrink_run (?bs ! (length rs - 1)) (last rs) (nat (arg_shrink_budget a))"
      by simp_all
    moreover from this(1,2) have "campaign_exit (summarize c) = 1" using exit_ok exit_1 by (meson last_in_set)
    ultimately show ?thesis using Some by simp
  qed simp
  moreover have "\<forall>k<length rs. rs ! k = batch_at tools ?w 0 ?bs k" using R by blast
  moreover have "length rs \<le> length ?bs" "\<forall>k. Suc k < length rs \<longrightarrow> status (rs ! k) = ''ok''"
    "length rs < length ?bs \<longrightarrow> rs \<noteq> [] \<and> status (last rs) \<noteq> ''ok''"
    using R by blast+
  moreover have "m = None \<longleftrightarrow> (rs = [] \<or> \<not> shrinkable (nat (arg_shrink_budget a)) (last rs))"
    by (rule run_batches_reduces[OF run])
  moreover have "campaign_exit (summarize c) = 0 \<longleftrightarrow> (\<forall>k<length ?bs. status (batch_at tools ?w 0 ?bs k) = ''ok'')"
    using exact full by blast
  ultimately show ?thesis using whole sized totals unfolding c(2-4) by (intro conjI) blast+
qed

definition demo_arguments :: arguments where
  "demo_arguments = \<lparr>arg_start = 0, arg_count = 2, arg_depth = 3, arg_inputs = 1, arg_batch_size = 1, arg_rtl_batches = 1,
     arg_shrink_budget = 0, arg_timeout_positive = True\<rparr>"

theorem campaign_exact_witness:
  "\<exists>c. run_campaign (\<lambda>_ _. clean_run) (\<lambda>_ _. failing) demo_arguments [sample_program, sample_program] = Inr c \<and>
     concat (batches 1 [sample_program, sample_program]) = [sample_program, sample_program] \<and>
     (campaign_exit (summarize c) = 0 \<longrightarrow> completed_programs (summarize c) = 2)"
proof -
  obtain c where c: "run_campaign (\<lambda>_ _. clean_run) (\<lambda>_ _. failing) demo_arguments [sample_program, sample_program] = Inr c"
    by (simp add: run_campaign_def demo_arguments_def arguments_ok_def sample_program_def ensure_def split_beta)
  from campaign_exact[OF c] c show ?thesis by (simp add: demo_arguments_def)
qed

end
