(* ===== verification/Build_Publish.thy ===== *)
theory Build_Publish
  imports Build_Cache
begin

text \<open>
  Concurrent builds of one stage (\<open>stage\<close> of \<open>priv/tools/compile_xls.py\<close>): any number of publishers
  check the entry, compile on their own, and publish or adopt under the entry's lock. The steps are
  those between which another process can run; a publisher may be killed at any of them.
\<close>

section \<open>The protocol\<close>

text \<open>
  \<open>'d\<close> is an entry, \<open>'w\<close> a finished compilation and \<open>'b\<close> a product. A publisher that found a damaged
  entry under its lock has renamed it away (\<open>Moved\<close>) before it renames its own into place.
\<close>

datatype ('w, 'b) publisher =
    Idle
  | Compiling
  | Compiled 'w
  | Holding 'w
  | Moved 'w
  | Finished 'b
  | Stopped

record ('p, 'd, 'w, 'b) shared =
  entry :: "'d option"
  lock :: "'p option"
  publishers :: "'p \<Rightarrow> ('w, 'b) publisher"

definition becomes ::
  "('p, 'd, 'w, 'b) shared \<Rightarrow> 'p \<Rightarrow> ('w, 'b) publisher \<Rightarrow> ('p, 'd, 'w, 'b) shared" where
  "becomes s p c = s\<lparr>publishers := (publishers s)(p := c)\<rparr>"

definition releases_lock :: "('p, 'd, 'w, 'b) shared \<Rightarrow> ('p, 'd, 'w, 'b) shared" where
  "releases_lock s = s\<lparr>lock := None\<rparr>"

text \<open>
  The steps of the publisher \<open>p\<close>. A compilation may end with any \<open>usable\<close> result; a publisher that raises or is
  killed stops, and the lock goes with its process.
\<close>

inductive publish_step ::
  "('d \<Rightarrow> bool) \<Rightarrow> ('d \<Rightarrow> 'b option) \<Rightarrow> ('b \<Rightarrow> 'h) \<Rightarrow> ('w \<Rightarrow> 'b) \<Rightarrow> ('w \<Rightarrow> 'd) \<Rightarrow> ('w \<Rightarrow> bool) \<Rightarrow> 'p \<Rightarrow>
   ('p, 'd, 'w, 'b) shared \<Rightarrow> ('p, 'd, 'w, 'b) shared \<Rightarrow> bool"
  for ok artifact digest made fresh usable p
where
  reuse: "publishers s p = Idle \<Longrightarrow> entry s = Some d \<Longrightarrow> ok d \<Longrightarrow> artifact d = Some b \<Longrightarrow>
    publish_step ok artifact digest made fresh usable p s (becomes s p (Finished b))"
| start: "publishers s p = Idle \<Longrightarrow> \<not> (\<exists>d. entry s = Some d \<and> ok d) \<Longrightarrow>
    publish_step ok artifact digest made fresh usable p s (becomes s p Compiling)"
| compile: "publishers s p = Compiling \<Longrightarrow> usable w \<Longrightarrow>
    publish_step ok artifact digest made fresh usable p s (becomes s p (Compiled w))"
| acquire: "publishers s p = Compiled w \<Longrightarrow> lock s = None \<Longrightarrow>
    publish_step ok artifact digest made fresh usable p s ((becomes s p (Holding w))\<lparr>lock := Some p\<rparr>)"
| rename_damaged: "publishers s p = Holding w \<Longrightarrow> entry s = Some d \<Longrightarrow> \<not> ok d \<Longrightarrow>
    publish_step ok artifact digest made fresh usable p s ((becomes s p (Moved w))\<lparr>entry := None\<rparr>)"
| publish: "publishers s p = Moved w \<or> publishers s p = Holding w \<and> entry s = None \<Longrightarrow>
    publish_step ok artifact digest made fresh usable p s
      (releases_lock ((becomes s p (Finished (made w)))\<lparr>entry := Some (fresh w)\<rparr>))"
| adopt: "publishers s p = Holding w \<Longrightarrow> entry s = Some d \<Longrightarrow> ok d \<Longrightarrow> artifact d = Some b \<Longrightarrow>
    digest b \<noteq> digest (made w) \<Longrightarrow>
    publish_step ok artifact digest made fresh usable p s (releases_lock (becomes s p (Finished b)))"
| keep: "publishers s p = Holding w \<Longrightarrow> entry s = Some d \<Longrightarrow> ok d \<Longrightarrow> artifact d = Some b \<Longrightarrow>
    digest b = digest (made w) \<Longrightarrow>
    publish_step ok artifact digest made fresh usable p s (releases_lock (becomes s p (Finished (made w))))"
| stop: "publishers s p \<in> {Idle, Compiling} \<or> publishers s p = Compiled w \<Longrightarrow>
    publish_step ok artifact digest made fresh usable p s (becomes s p Stopped)"
| stop_holding: "publishers s p \<in> {Holding w, Moved w} \<Longrightarrow>
    publish_step ok artifact digest made fresh usable p s (releases_lock (becomes s p Stopped))"

definition initial_shared :: "('p, 'd, 'w, 'b) shared \<Rightarrow> bool" where
  "initial_shared s \<longleftrightarrow> lock s = None \<and> (\<forall>p. publishers s p = Idle)"

inductive publish_reachable ::
  "('d \<Rightarrow> bool) \<Rightarrow> ('d \<Rightarrow> 'b option) \<Rightarrow> ('b \<Rightarrow> 'h) \<Rightarrow> ('w \<Rightarrow> 'b) \<Rightarrow> ('w \<Rightarrow> 'd) \<Rightarrow> ('w \<Rightarrow> bool) \<Rightarrow>
   ('p, 'd, 'w, 'b) shared \<Rightarrow> bool"
  for ok artifact digest made fresh usable
where
  reachable_initial: "initial_shared s \<Longrightarrow> publish_reachable ok artifact digest made fresh usable s"
| reachable_step: "publish_reachable ok artifact digest made fresh usable s \<Longrightarrow>
    publish_step ok artifact digest made fresh usable p s t \<Longrightarrow> publish_reachable ok artifact digest made fresh usable t"

lemma becomes_simps [simp]:
  "entry (becomes s p c) = entry s" "lock (becomes s p c) = lock s"
  "publishers (becomes s p c) q = (if q = p then c else publishers s q)"
  by (simp_all add: becomes_def)

lemma releases_lock_simps [simp]:
  "entry (releases_lock s) = entry s" "lock (releases_lock s) = None"
  "publishers (releases_lock s) = publishers s"
  by (simp_all add: releases_lock_def)

section \<open>What the publishers rely on\<close>

locale entry_store =
  fixes ok :: "'d \<Rightarrow> bool"
    and artifact :: "'d \<Rightarrow> 'b option"
    and digest :: "'b \<Rightarrow> 'h"
    and made :: "'w \<Rightarrow> 'b"
    and fresh :: "'w \<Rightarrow> 'd"
    and usable :: "'w \<Rightarrow> bool"
  assumes fresh_ok: "usable w \<Longrightarrow> ok (fresh w)"
    and fresh_artifact: "usable w \<Longrightarrow> artifact (fresh w) = Some (made w)"
begin

text \<open>Only the lock's owner is inside, the slot it emptied is still empty, what was compiled is usable, and
  every finished publisher agrees with the entry.\<close>

definition settled :: "('p, 'd, 'w, 'b) shared \<Rightarrow> 'b \<Rightarrow> bool" where
  "settled s b \<longleftrightarrow> (\<exists>d a. entry s = Some d \<and> ok d \<and> artifact d = Some a \<and> digest a = digest b)"

definition inside :: "('w, 'b) publisher \<Rightarrow> bool" where
  "inside c \<longleftrightarrow> (\<exists>w. c = Holding w \<or> c = Moved w)"

definition carries :: "('w, 'b) publisher \<Rightarrow> 'w \<Rightarrow> bool" where
  "carries c w \<longleftrightarrow> c = Compiled w \<or> c = Holding w \<or> c = Moved w"

lemma carries_simps [simp]:
  "carries (Compiled v) w \<longleftrightarrow> v = w" "carries (Holding v) w \<longleftrightarrow> v = w" "carries (Moved v) w \<longleftrightarrow> v = w"
  "\<not> carries Idle w" "\<not> carries Compiling w" "\<not> carries (Finished b) w" "\<not> carries Stopped w"
  by (auto simp: carries_def)

definition invariant :: "('p, 'd, 'w, 'b) shared \<Rightarrow> bool" where
  "invariant s \<longleftrightarrow>
     (\<forall>p. inside (publishers s p) = (lock s = Some p)) \<and>
     (\<forall>p w. publishers s p = Moved w \<longrightarrow> entry s = None) \<and>
     (\<forall>p w. carries (publishers s p) w \<longrightarrow> usable w) \<and>
     (\<forall>p b. publishers s p = Finished b \<longrightarrow> settled s b)"

lemma inside_simps [simp]:
  "inside (Holding w)" "inside (Moved w)" "\<not> inside Idle" "\<not> inside Compiling"
  "\<not> inside (Compiled w)" "\<not> inside (Finished b)" "\<not> inside Stopped"
  by (simp_all add: inside_def)

lemma settled_frame [simp]:
  "settled (becomes s p c) b = settled s b" "settled (releases_lock s) b = settled s b"
  "settled (s\<lparr>lock := l\<rparr>) b = settled s b"
  by (simp_all add: settled_def)

lemma invariantD:
  assumes "invariant s"
  shows "inside (publishers s p) \<longleftrightarrow> lock s = Some p"
    and "publishers s p = Moved w \<Longrightarrow> entry s = None"
    and "publishers s p = Finished b \<Longrightarrow> settled s b"
    and "carries (publishers s p) w \<Longrightarrow> usable w"
  using assms unfolding invariant_def by blast+

lemma invariantI:
  assumes "\<And>p. inside (publishers s p) \<longleftrightarrow> lock s = Some p"
    and "\<And>p w. publishers s p = Moved w \<Longrightarrow> entry s = None"
    and "\<And>p b. publishers s p = Finished b \<Longrightarrow> settled s b"
    and "\<And>p w. carries (publishers s p) w \<Longrightarrow> usable w"
  shows "invariant s"
  using assms by (simp add: invariant_def)

lemma initial_invariant: "initial_shared s \<Longrightarrow> invariant s"
  by (auto simp: initial_shared_def invariant_def)

text \<open>Inside the section nobody else is, and without a usable entry nobody has finished.\<close>

lemma alone:
  assumes "invariant s" and "inside (publishers s p)" and "inside (publishers s q)"
  shows "q = p"
  using assms invariantD(1)[OF assms(1)] by (metis option.inject)

lemma nobody_finished:
  assumes "invariant s" and "\<And>d. entry s = Some d \<Longrightarrow> \<not> ok d"
  shows "publishers s q \<noteq> Finished b"
  using assms invariantD(3)[OF assms(1)] by (auto simp: settled_def)

lemma outside_moves:
  assumes inv: "invariant s" and "\<not> inside (publishers s p)" and "\<not> inside c"
    and "\<And>b. c = Finished b \<Longrightarrow> settled s b" and "\<And>w. carries c w \<Longrightarrow> usable w"
  shows "invariant (becomes s p c)"
proof (rule invariantI)
  show "inside (publishers (becomes s p c) q) \<longleftrightarrow> lock (becomes s p c) = Some q" for q
    using assms(2,3) invariantD(1)[OF inv, of q] by auto
  show "entry (becomes s p c) = None" if "publishers (becomes s p c) q = Moved w" for q w
    using that assms(3) invariantD(2)[OF inv] by (auto split: if_splits)
  show "settled (becomes s p c) b" if "publishers (becomes s p c) q = Finished b" for q b
    using that assms(4) invariantD(3)[OF inv] by (auto split: if_splits)
  show "usable w" if "carries (publishers (becomes s p c) q) w" for q w
    using that assms(5) invariantD(4)[OF inv, of q w] by (auto split: if_splits)
qed

lemma owner_leaves:
  assumes inv: "invariant s" and own: "inside (publishers s p)"
    and t: "lock t = None" "publishers t = (publishers s)(p := c)" and "\<not> inside c" and "\<And>w. \<not> carries c w"
    and settled: "\<And>q b. publishers t q = Finished b \<Longrightarrow> settled t b"
  shows "invariant t"
proof (rule invariantI)
  have out: "\<not> inside (publishers t q)" for q
    using assms(5) t(2) alone[OF inv own, of q] by auto
  then show "inside (publishers t q) \<longleftrightarrow> lock t = Some q" for q
    using t(1) by simp
  show "entry t = None" if "publishers t q = Moved w" for q w
    using that out[of q] by simp
  show "usable w" if "carries (publishers t q) w" for q w
    using that assms(6) t(2) invariantD(4)[OF inv, of q w] by (auto split: if_splits)
qed (rule settled)

lemma step_invariant:
  assumes "publish_step ok artifact digest made fresh usable p s t" and inv: "invariant s"
  shows "invariant t"
  using assms(1)
proof cases
  case (reuse d b)
  then have "settled s b" by (auto simp: settled_def)
  with reuse show ?thesis by (auto intro!: outside_moves[OF inv])
next
  case (acquire w)
  with invariantD(1)[OF inv] have "\<not> inside (publishers s q)" for q by simp
  moreover have "usable w" using acquire invariantD(4)[OF inv, of p w] by simp
  ultimately show ?thesis
    using acquire invariantD(2,3,4)[OF inv] by (auto intro!: invariantI split: if_splits)
next
  case (rename_damaged w d)
  have none: "publishers s q \<noteq> Finished b" for q b
    using nobody_finished[OF inv] rename_damaged by simp
  have "lock s = Some p" using invariantD(1)[OF inv, of p] rename_damaged by simp
  moreover have "usable w" using rename_damaged invariantD(4)[OF inv, of p w] by simp
  ultimately show ?thesis
    using rename_damaged none invariantD(1,4)[OF inv] by (auto intro!: invariantI split: if_splits)
next
  case (publish w)
  have none: "publishers s q \<noteq> Finished b" for q b
    using nobody_finished[OF inv] invariantD(2)[OF inv] publish by fastforce
  have "usable w" using publish invariantD(4)[OF inv, of p w] by auto
  then have "settled t (made w)" using publish fresh_ok fresh_artifact by (auto simp: settled_def)
  with publish none show ?thesis
    by (intro owner_leaves[OF inv, of p t "Finished (made w)"])
      (auto simp: becomes_def releases_lock_def split: if_splits)
next
  case (adopt w d b)
  then have "settled s b" by (auto simp: settled_def)
  with adopt show ?thesis
    using invariantD(3)[OF inv] by (intro owner_leaves[OF inv, of p t "Finished b"])
      (auto simp: fun_eq_iff split: if_splits)
next
  case (keep w d b)
  then have "settled s (made w)" by (auto simp: settled_def)
  with keep show ?thesis
    using invariantD(3)[OF inv] by (intro owner_leaves[OF inv, of p t "Finished (made w)"])
      (auto simp: fun_eq_iff split: if_splits)
next
  case (stop_holding w)
  then show ?thesis
    using invariantD(3)[OF inv] by (intro owner_leaves[OF inv, of p t Stopped])
      (auto simp: fun_eq_iff split: if_splits)
qed (auto intro!: outside_moves[OF inv])

lemma reachable_invariant: "publish_reachable ok artifact digest made fresh usable s \<Longrightarrow> invariant s"
  by (induction rule: publish_reachable.induct) (auto intro: initial_invariant step_invariant)

lemma finished_agree:
  assumes "publish_reachable ok artifact digest made fresh usable s"
    and "publishers s p = Finished b" and "publishers s q = Finished c"
  shows "digest b = digest c \<and> settled s b"
  using invariantD(3)[OF reachable_invariant[OF assms(1)], of p b]
    invariantD(3)[OF reachable_invariant[OF assms(1)], of q c] assms(2,3)
  by (auto simp: settled_def)

end

section \<open>The stage cache is such a store\<close>

definition entry_bytes :: "directory \<Rightarrow> string option" where
  "entry_bytes d = (case read_artifact d of Inr bytes \<Rightarrow> Some bytes | Inl _ \<Rightarrow> None)"

text \<open>
  A compilation carries the name its builder gave to the product, which is no part of the key. The laws hold for
  names that collide neither with the logs nor with the record of the entry.
\<close>

definition entry_of :: "platform \<Rightarrow> json \<Rightarrow> string \<times> work \<Rightarrow> directory" where
  "entry_of pf key ow = fresh_entry pf key (fst ow) (snd ow)"

definition usable_output :: "string \<times> work \<Rightarrow> bool" where
  "usable_output ow \<longleftrightarrow> fst ow \<notin> set entry_names"

definition made_product :: "string \<times> work \<Rightarrow> string" where
  "made_product ow = product (snd ow)"

interpretation stage_cache: entry_store "\<lambda>d. checked pf d key" entry_bytes "sha pf" made_product
  "entry_of pf key" usable_output for pf key
  by unfold_locales (simp_all add: entry_bytes_def entry_of_def usable_output_def made_product_def)

section \<open>A stage call is a run of the protocol\<close>

abbreviation "cache_step pf key \<equiv>
  publish_step (\<lambda>d. checked pf d key) entry_bytes (sha pf) made_product (entry_of pf key) usable_output"

lemma entry_bytes_Some: "entry_bytes d = Some b \<longleftrightarrow> read_artifact d = Inr b"
  by (auto simp: entry_bytes_def split: sum.splits)

lemma valid_entry_Some: "valid_entry pf key slot \<longleftrightarrow> (\<exists>d. slot = Some d \<and> checked pf d key)"
  by (auto simp: valid_entry_def split: option.splits)

text \<open>The locked section of \<open>stage\<close>, from the acquired lock to its release.\<close>

definition outcome :: "('e, 'a) result \<Rightarrow> ('a \<Rightarrow> 'b) \<Rightarrow> ('w, 'b) publisher" where
  "outcome r f = (case r of Inl _ \<Rightarrow> Stopped | Inr x \<Rightarrow> Finished (f x))"

definition slot_after :: "'d option \<Rightarrow> ('e, 'd \<times> 'a) result \<Rightarrow> 'd option" where
  "slot_after d r = (case r of Inl _ \<Rightarrow> d | Inr x \<Rightarrow> Some (fst x))"

definition ends_as :: "'p \<Rightarrow> ('p, 'd, 'w, 'b) shared \<Rightarrow> 'd option \<Rightarrow> ('w, 'b) publisher \<Rightarrow> ('p, 'd, 'w, 'b) shared \<Rightarrow> bool" where
  "ends_as p s d c t \<longleftrightarrow> entry t = d \<and> lock t = None \<and> publishers t = (publishers s)(p := c)"

lemma publish_or_adopt_steps:
  fixes s :: "('p, directory, string \<times> work, string) shared" and pf :: platform and key :: json
  assumes "publishers s p = Holding (out, w)"
  defines "r \<equiv> publish_or_adopt pf key out w (entry s)"
  shows "\<exists>t. (cache_step pf key p)\<^sup>*\<^sup>* s t \<and> ends_as p s (slot_after (entry s) r) (outcome r (\<lambda>x. fst (snd x))) t"
proof (cases "valid_entry pf key (entry s)")
  case False
  then have r: "r = Inr (fresh_entry pf key out w, product w, False)" by (simp add: r_def publish_or_adopt_def)
  show ?thesis
  proof (cases "entry s")
    case None
    let ?t = "releases_lock ((becomes s p (Finished (made_product (out, w))))\<lparr>entry := Some (entry_of pf key (out, w))\<rparr>)"
    have "cache_step pf key p s ?t" using None assms(1) by (intro publish_step.publish) simp
    then show ?thesis
      by (intro exI[of _ ?t])
        (auto simp: ends_as_def r slot_after_def outcome_def entry_of_def made_product_def becomes_def releases_lock_def)
  next
    case (Some e)
    let ?m = "(becomes s p (Moved (out, w)))\<lparr>entry := None\<rparr>"
    let ?t = "releases_lock ((becomes ?m p (Finished (made_product (out, w))))\<lparr>entry := Some (entry_of pf key (out, w))\<rparr>)"
    have "cache_step pf key p s ?m"
      using Some False assms(1) by (intro publish_step.rename_damaged[of s p "(out, w)" e]) (auto simp: valid_entry_Some)
    moreover have "cache_step pf key p ?m ?t" by (intro publish_step.publish) simp
    ultimately have "(cache_step pf key p)\<^sup>*\<^sup>* s ?t" by (rule converse_rtranclp_into_rtranclp[OF _ r_into_rtranclp])
    then show ?thesis
      by (intro exI[of _ ?t])
        (auto simp: ends_as_def r slot_after_def outcome_def entry_of_def made_product_def becomes_def releases_lock_def)
  qed
next
  case True
  then obtain e where e: "entry s = Some e" "checked pf e key" by (auto simp: valid_entry_Some)
  show ?thesis
  proof (cases "read_artifact e")
    case (Inl err)
    then have r: "r = Inl err" using True e by (simp add: r_def publish_or_adopt_def)
    let ?t = "releases_lock (becomes s p Stopped)"
    have "cache_step pf key p s ?t" using assms(1) by (intro publish_step.stop_holding) simp
    then show ?thesis
      by (intro exI[of _ ?t]) (auto simp: ends_as_def r slot_after_def outcome_def)
  next
    case (Inr b)
    define c where "c = (if sha pf b \<noteq> sha pf (product w) then b else product w)"
    have "r = Inr (e, c, sha pf b \<noteq> sha pf (product w))" using True e Inr by (simp add: r_def publish_or_adopt_def c_def)
    then have r: "\<exists>took. r = Inr (e, c, took)" by blast
    let ?t = "releases_lock (becomes s p (Finished c))"
    have "cache_step pf key p s ?t"
    proof (cases "sha pf b = sha pf (made_product (out, w))")
      case True
      then have "c = made_product (out, w)" by (simp add: c_def made_product_def)
      then show ?thesis
        using publish_step.keep[of s p "(out, w)" e "\<lambda>d. checked pf d key" entry_bytes b "sha pf" made_product] assms(1) e Inr True
        by (simp add: entry_bytes_Some)
    next
      case False
      then have "c = b" by (simp add: c_def made_product_def)
      then show ?thesis
        using publish_step.adopt[of s p "(out, w)" e "\<lambda>d. checked pf d key" entry_bytes b "sha pf" made_product] assms(1) e Inr False
        by (simp add: entry_bytes_Some)
    qed
    then show ?thesis
      using r e(1) by (intro exI[of _ ?t]) (auto simp: ends_as_def slot_after_def outcome_def)
  qed
qed

lemma locked_section:
  fixes s :: "('p, directory, string \<times> work, string) shared" and pf :: platform and key :: json
  assumes "publishers s p = Compiled (out, w)" and "lock s = None"
  defines "r \<equiv> publish_or_adopt pf key out w (entry s)"
  shows "\<exists>t. (cache_step pf key p)\<^sup>*\<^sup>* s t \<and> ends_as p s (slot_after (entry s) r) (outcome r (\<lambda>x. fst (snd x))) t"
proof -
  let ?h = "(becomes s p (Holding (out, w)))\<lparr>lock := Some p\<rparr>"
  have first: "cache_step pf key p s ?h" using assms(1,2) by (intro publish_step.acquire)
  have "publishers ?h p = Holding (out, w)" by simp
  from publish_or_adopt_steps[OF this, of pf key] obtain t where
    t: "(cache_step pf key p)\<^sup>*\<^sup>* ?h t" "ends_as p ?h (slot_after (entry s) r) (outcome r (\<lambda>x. fst (snd x))) t"
    by (auto simp: r_def)
  from t(2) have "ends_as p s (slot_after (entry s) r) (outcome r (\<lambda>x. fst (snd x))) t"
    by (simp add: ends_as_def becomes_def)
  with first t(1) show ?thesis by (meson converse_rtranclp_into_rtranclp)
qed

end
