(* ===== verification/Build_Execute.thy ===== *)
theory Build_Execute
  imports Build_Publish
begin

text \<open>
  The build executor \<open>execute\<close> of \<open>priv/tools/compile_xls.py\<close>: the recipe's stages are checked and run
  in order in a private snapshot, and the selected products are published together by one switch of
  the output link. What the world answers (tool bytes at each moment, the tools' runs, what other
  builds publish) and the recipe's callbacks are arguments.
\<close>

section \<open>Recipes\<close>

datatype dependency = Leaf string | Group "(string \<times> dependency) list"

type_synonym snapshot = "string \<rightharpoonup> string"

fun hash_dependency :: "platform \<Rightarrow> snapshot \<Rightarrow> dependency \<Rightarrow> (build_error, json) result" where
  "hash_dependency pf snap (Leaf path) = bindE (relative False path) (\<lambda>path.
     case snap path of None \<Rightarrow> Inl (Missing_File path) | Some bytes \<Rightarrow> Inr (JStr (sha pf bytes)))"
| "hash_dependency pf snap (Group deps) =
     bindE (mapE (\<lambda>(k, d). bindE (hash_dependency pf snap d) (\<lambda>v. Inr (k, v))) deps) (\<lambda>kvs. Inr (JObj kvs))"

definition dependency_hashes ::
  "platform \<Rightarrow> snapshot \<Rightarrow> (string \<times> dependency) list \<Rightarrow> (build_error, json) result" where
  "dependency_hashes pf snap deps = hash_dependency pf snap (Group deps)"

text \<open>Arguments are strings here, so the test of their type always holds.\<close>

record stage_spec =
  spec_id :: string
  spec_cache :: string
  spec_tool :: string
  spec_arguments :: "string list"
  spec_output :: string
  spec_inputs :: "(string \<times> dependency) list"

definition diagnostic_names :: "string \<Rightarrow> string list" where
  "diagnostic_names label = map (\<lambda>suffix. label @ ''.'' @ suffix) log_names"

definition reserved_names :: "string list" where
  "reserved_names = log_names @ [''execution-inputs.json'']"

definition check_spec ::
  "string list \<Rightarrow> string list \<Rightarrow> string list \<times> string list \<Rightarrow> stage_spec \<Rightarrow>
   (build_error, string list \<times> string list) result" where
  "check_spec diagnostics tools seen spec = (let (ids, products) = seen in
     bindE (relative False (spec_id spec)) (\<lambda>label.
     bindE (relative False (spec_output spec)) (\<lambda>output.
     bindE (relative False (spec_cache spec)) (\<lambda>_.
     bindE (ensure (\<not> (label \<in> set ids \<or> output \<in> set products \<or> output \<in> set diagnostics \<or>
                       output \<in> set reserved_names)) (Duplicate_Stage label output)) (\<lambda>_.
     bindE (ensure (spec_tool spec \<in> set tools) (Invalid_Tool label)) (\<lambda>_.
     Inr (label # ids, output # products)))))))"

definition specifications ::
  "stage_spec list \<Rightarrow> string list \<Rightarrow> string list \<Rightarrow> (build_error, stage_spec list) result" where
  "specifications specs inputs tools =
     bindE (mapE (\<lambda>spec. bindE (relative False (spec_id spec)) (\<lambda>i. Inr (diagnostic_names i))) specs) (\<lambda>ds.
     bindE (ensure (\<not> list_ex (\<lambda>d. d \<in> set inputs) (concat ds)) Diagnostics_Shadow_Input) (\<lambda>_.
     bindE (foldE (check_spec (concat ds) tools) ([], inputs) specs) (\<lambda>_.
     bindE (ensure (specs \<noteq> []) No_Stages) (\<lambda>_. Inr specs))))"

section \<open>The request and its world\<close>

datatype moment = At_Start | Before_Stage nat | After_Stage nat | After_Stages | After_Finalize

text \<open>The effects of a publication, any of which can raise or be interrupted before it takes place.\<close>

datatype publish_point = Building | Moving_Damaged | Renaming_In | Linking | Switching | Reporting

datatype output_state = Absent_Output | Managed_Link | Foreign_Link | Other_File

record request =
  build_name :: string
  timeout :: double
  output_state :: output_state
  input_files :: "(string \<times> string) list"
  directories :: "string list"
  tools :: "(string \<times> string) list"

record environment =
  executable :: "string \<Rightarrow> bool"
  busy :: bool
  tool_bytes :: "moment \<Rightarrow> string \<Rightarrow> string"
  runs_as :: "nat \<Rightarrow> process_result"
  others :: "nat \<Rightarrow> cache \<Rightarrow> cache"
  publish_fault :: "publish_point option"

record stage_run =
  run_result :: stage_result
  run_output :: string
  run_sha :: string

record publication =
  manifest_name :: string
  manifest :: json
  publication_files :: "(string \<times> string) list"

record recipe =
  prepare :: "snapshot \<Rightarrow> (build_error, stage_spec list \<times> snapshot) result"
  finalize :: "snapshot \<Rightarrow> (string \<times> stage_run) list \<Rightarrow> (build_error, publication \<times> snapshot) result"

record world =
  cache_store :: cache
  releases :: "string \<rightharpoonup> directory"
  published :: "string option"

section \<open>Before the first tool\<close>

definition build_name_ok :: "string \<Rightarrow> bool" where
  "build_name_ok s = (case s of [] \<Rightarrow> False
     | c # cs \<Rightarrow> (word_char c \<and> \<not> is_digit c) \<and> list_all (\<lambda>d. word_char d \<or> d = CHR ''-'') cs)"

definition timeout_ok :: "double \<Rightarrow> bool" where
  "timeout_ok t = (case t of Finite m _ \<Rightarrow> 0 < m | _ \<Rightarrow> False)"

definition check_request :: "environment \<Rightarrow> request \<Rightarrow> (build_error, unit) result" where
  "check_request env req =
     bindE (ensure (build_name_ok (build_name req)) Bad_Build_Name) (\<lambda>_.
     bindE (ensure (timeout_ok (timeout req)) Bad_Timeout) (\<lambda>_.
     bindE (ensure (output_state req \<in> {Absent_Output, Managed_Link}) Unmanaged_Output) (\<lambda>_.
     bindE (checkE (\<lambda>(k, path). ensure (executable env path) (Missing_Executable path)) (tools req)) (\<lambda>_.
     bindE (checkE (\<lambda>(path, _). bindE (relative False path) (\<lambda>_.
       ensure (path \<notin> set reserved_names) (Reserved_Input path))) (input_files req)) (\<lambda>_.
     bindE (checkE (\<lambda>d. bindE (relative True d) (\<lambda>_. Inr ())) (directories req)) (\<lambda>_.
     ensure (\<not> busy env) Build_Active))))))"

text \<open>Every frozen input still has the digest it was copied with.\<close>

definition inputs_frozen :: "platform \<Rightarrow> request \<Rightarrow> snapshot \<Rightarrow> (build_error, unit) result" where
  "inputs_frozen pf req snap =
     checkE (\<lambda>(path, bytes). case snap path of
         None \<Rightarrow> Inl (Missing_File path)
       | Some now \<Rightarrow> ensure (sha pf now = sha pf bytes) Frozen_Input_Modified) (input_files req)"

text \<open>The report \<open>execution-inputs.json\<close>.\<close>

fun dependency_json :: "dependency \<Rightarrow> json" where
  "dependency_json (Leaf path) = JStr path"
| "dependency_json (Group deps) = JObj (map (\<lambda>(k, d). (k, dependency_json d)) deps)"

definition spec_json :: "stage_spec \<Rightarrow> json" where
  "spec_json s = JObj [(''id'', JStr (spec_id s)), (''cache'', JStr (spec_cache s)),
     (''tool'', JStr (spec_tool s)), (''arguments'', JArr (map JStr (spec_arguments s))),
     (''output'', JStr (spec_output s)), (''inputs'', dependency_json (Group (spec_inputs s)))]"

definition start_build ::
  "platform \<Rightarrow> environment \<Rightarrow> request \<Rightarrow> recipe \<Rightarrow> (build_error, stage_spec list \<times> snapshot) result" where
  "start_build pf env req rec =
     bindE (prepare rec (map_of (input_files req))) (\<lambda>(specs, snap).
     bindE (specifications specs (map fst (input_files req)) (map fst (tools req))) (\<lambda>specs.
     bindE (inputs_frozen pf req snap) (\<lambda>_.
     let report = JObj
       [(''files'', JObj (map (\<lambda>(path, bytes). (path, JStr (sha pf bytes))) (input_files req))),
        (''tools'', JObj (map (\<lambda>(k, _). (k, JStr (sha pf (tool_bytes env At_Start k)))) (tools req))),
        (''stages'', JArr (map spec_json specs))]
     in Inr (specs, saved ''execution-inputs.json'' (render pf report) snap))))"

section \<open>The stages\<close>

text \<open>
  A stage that compiles leaves the logs of its own run at the root of the snapshot as well, even if it then adopts
  the product of another build.
\<close>

definition after_stage :: "snapshot \<Rightarrow> stage_spec \<Rightarrow> stage_result \<Rightarrow> work \<Rightarrow> snapshot" where
  "after_stage snap spec r w =
     (let logged = (if reused r then snap
        else saved ''time.json'' (work_time w)
          ((saved ''command.json'' (work_command w) snap)(''stderr.log'' \<mapsto> work_stderr w)))
      in logged(spec_output spec \<mapsto> stage_product r))"

definition copy_logs :: "directory \<Rightarrow> string \<Rightarrow> snapshot \<Rightarrow> (build_error, snapshot) result" where
  "copy_logs d label snap = foldE (\<lambda>snap suffix. case contents d suffix of
       None \<Rightarrow> Inl (Missing_File suffix)
     | Some bytes \<Rightarrow> Inr (snap(label @ ''.'' @ suffix \<mapsto> bytes))) snap log_names"

definition tool_path :: "request \<Rightarrow> string \<Rightarrow> string" where
  "tool_path req k = (case map_of (tools req) k of Some path \<Rightarrow> path | None \<Rightarrow> [])"

definition run_stage ::
  "platform \<Rightarrow> environment \<Rightarrow> request \<Rightarrow> nat \<Rightarrow> stage_spec \<Rightarrow> snapshot \<Rightarrow> cache \<Rightarrow>
   (build_error, stage_run \<times> snapshot) result \<times> cache" where
  "run_stage pf env req i spec snap store =
     (case dependency_hashes pf snap (spec_inputs spec) of
        Inl e \<Rightarrow> (Inl e, store)
      | Inr deps \<Rightarrow>
        (case stage pf (spec_cache spec) (tool_path req (spec_tool spec))
            (tool_bytes env (Before_Stage i) (spec_tool spec)) (tool_bytes env (After_Stage i) (spec_tool spec))
            (spec_arguments spec) deps (spec_output spec) (runs_as env i) (others env i) store of
          (Inl e, store) \<Rightarrow> (Inl e, store)
        | (Inr r, store) \<Rightarrow>
            (bindE (copy_logs (entry_directory r) (spec_id spec) (after_stage snap spec r
                 (work_of pf (tool_path req (spec_tool spec)) (spec_arguments spec) (runs_as env i)))) (\<lambda>snap.
               Inr (\<lparr>run_result = r, run_output = spec_output spec, run_sha = sha pf (stage_product r)\<rparr>, snap)),
             store)))"

fun run_stages ::
  "platform \<Rightarrow> environment \<Rightarrow> request \<Rightarrow> nat \<Rightarrow> stage_spec list \<Rightarrow> (string \<times> stage_run) list \<Rightarrow>
   snapshot \<Rightarrow> cache \<Rightarrow> (build_error, (string \<times> stage_run) list \<times> snapshot) result \<times> cache" where
  "run_stages pf env req i [] runs snap store = (Inr (runs, snap), store)"
| "run_stages pf env req i (spec # specs) runs snap store =
     (case run_stage pf env req i spec snap store of
        (Inl e, store) \<Rightarrow> (Inl e, store)
      | (Inr (run, snap), store) \<Rightarrow>
          run_stages pf env req (Suc i) specs (runs @ [(spec_id spec, run)]) snap store)"

section \<open>Publication\<close>

definition tools_unchanged :: "platform \<Rightarrow> environment \<Rightarrow> request \<Rightarrow> moment \<Rightarrow> bool" where
  "tools_unchanged pf env req m \<longleftrightarrow>
     list_all (\<lambda>(k, _). sha pf (tool_bytes env m k) = sha pf (tool_bytes env At_Start k)) (tools req)"

text \<open>The dictionary \<open>selected\<close>, first of the publication and then with the stage logs.\<close>

definition selected_files :: "publication \<Rightarrow> (string, string) dict" where
  "selected_files pub = fold (\<lambda>(dest, source). AList.update dest source) (publication_files pub) []"

definition with_logs :: "string list \<Rightarrow> (string, string) dict \<Rightarrow> (string, string) dict" where
  "with_logs logs selected = fold (\<lambda>l. AList.update l l) logs selected"

definition shadows :: "publication \<Rightarrow> string list \<Rightarrow> bool" where
  "shadows pub logs \<longleftrightarrow>
     manifest_name pub \<in> set (map fst (selected_files pub)) \<or> manifest_name pub \<in> set logs \<or>
     ''completed.json'' \<in> set (map fst (selected_files pub)) \<or> manifest_name pub = ''completed.json'' \<or>
     list_ex (\<lambda>l. case map_of (selected_files pub) l of None \<Rightarrow> False | Some source \<Rightarrow> source \<noteq> l) logs"

definition read_selected ::
  "snapshot \<Rightarrow> (string \<times> string) list \<Rightarrow> (build_error, (string \<times> string) list) result" where
  "read_selected snap selected = mapE (\<lambda>(dest, source). case snap source of
       None \<Rightarrow> Inl (Missing_File source) | Some bytes \<Rightarrow> Inr (dest, bytes)) selected"

text \<open>A file saved into a directory that is built from a list.\<close>

definition saved_files :: "string \<Rightarrow> string \<Rightarrow> (string \<times> string) list \<Rightarrow> (string \<times> string) list" where
  "saved_files name bytes files = AList.update name bytes (filter (\<lambda>(k, _). k \<noteq> pending_name name) files)"

record release =
  release_id :: string
  release_files :: "(string \<times> string) list"

text \<open>Everything between the last stage and the release directory.\<close>

definition finish_build ::
  "platform \<Rightarrow> environment \<Rightarrow> request \<Rightarrow> recipe \<Rightarrow> (string \<times> stage_run) list \<Rightarrow> snapshot \<Rightarrow>
   (build_error, release) result" where
  "finish_build pf env req rec runs snap =
     bindE (ensure (tools_unchanged pf env req After_Stages) Compiler_Changed) (\<lambda>_.
     bindE (finalize rec snap runs) (\<lambda>(pub, snap).
     bindE (ensure (tools_unchanged pf env req After_Finalize) Compiler_Changed) (\<lambda>_.
     bindE (inputs_frozen pf req snap) (\<lambda>_.
     bindE (relative False (manifest_name pub)) (\<lambda>name.
     bindE (checkE (\<lambda>(dest, source). bindE (relative False dest) (\<lambda>_. bindE (relative False source) (\<lambda>_. Inr ())))
              (publication_files pub)) (\<lambda>_.
     let logs = concat (map (\<lambda>(label, _). diagnostic_names label) runs) in
     bindE (ensure (\<not> shadows pub logs) Publication_Shadow) (\<lambda>_.
     bindE (read_selected snap (with_logs logs (selected_files pub))) (\<lambda>files.
     let hashes = map (\<lambda>(dest, bytes). (dest, JStr (sha pf bytes))) (filter (\<lambda>(dest, _). dest \<notin> set logs) files) in
     Inr \<lparr>release_id = identity pf (JObj [(''manifest'', manifest pub), (''files'', JObj hashes)]),
          release_files = saved_files name (render pf (manifest pub)) files\<rparr>))))))))"

definition release_key :: "string \<Rightarrow> json" where
  "release_key rid = JObj [(''manifest'', JStr rid)]"

definition release_directory :: "platform \<Rightarrow> release \<Rightarrow> directory" where
  "release_directory pf r = with_record pf (release_key (release_id r)) (release_files r)"

text \<open>
  The release is built aside and renamed in, after a damaged one of its name is moved away, and the link is
  replaced last. A fault stops the publication before the effect of its point.
\<close>

definition switch_link ::
  "publish_point option \<Rightarrow> string \<Rightarrow> world \<Rightarrow> (build_error, string) result \<times> world" where
  "switch_link fault rid w =
     (if fault = Some Linking \<or> fault = Some Switching then (Inl Publication_Interrupted, w)
      else let w = w\<lparr>published := Some rid\<rparr>
        in (if fault = Some Reporting then Inl Publication_Interrupted else Inr rid, w))"

definition publish_release ::
  "platform \<Rightarrow> publish_point option \<Rightarrow> release \<Rightarrow> world \<Rightarrow> (build_error, string) result \<times> world" where
  "publish_release pf fault r w =
     (let rid = release_id r in
      if valid_entry pf (release_key rid) (releases w rid) then switch_link fault rid w
      else if fault = Some Building \<or> (releases w rid \<noteq> None \<and> fault = Some Moving_Damaged)
        then (Inl Publication_Interrupted, w)
      else if fault = Some Renaming_In
        then (Inl Publication_Interrupted, w\<lparr>releases := (releases w)(rid := None)\<rparr>)
      else switch_link fault rid (w\<lparr>releases := (releases w)(rid \<mapsto> release_directory pf r)\<rparr>))"

definition execute ::
  "platform \<Rightarrow> environment \<Rightarrow> request \<Rightarrow> recipe \<Rightarrow> world \<Rightarrow> (build_error, string) result \<times> world" where
  "execute pf env req rec w =
     (case bindE (check_request env req) (\<lambda>_. start_build pf env req rec) of
        Inl e \<Rightarrow> (Inl e, w)
      | Inr (specs, snap) \<Rightarrow>
        (case run_stages pf env req 0 specs [] snap (cache_store w) of
          (Inl e, store) \<Rightarrow> (Inl e, w\<lparr>cache_store := store\<rparr>)
        | (Inr (runs, snap), store) \<Rightarrow>
          (case finish_build pf env req rec runs snap of
            Inl e \<Rightarrow> (Inl e, w\<lparr>cache_store := store\<rparr>)
          | Inr r \<Rightarrow> publish_release pf (publish_fault env) r (w\<lparr>cache_store := store\<rparr>))))"

end
