(* ===== verification/Build_Facts.thy ===== *)
theory Build_Facts
  imports Build_Execute
begin

text \<open>
  Facts about recipes, stages, releases and whole builds that the properties of the executor rest on.
\<close>

section \<open>Stage specifications\<close>

text \<open>What a list of stages must satisfy, without the loop.\<close>

definition stages_ok :: "stage_spec list \<Rightarrow> string list \<Rightarrow> string list \<Rightarrow> bool" where
  "stages_ok specs inputs tool_names \<longleftrightarrow>
     specs \<noteq> [] \<and>
     list_all (\<lambda>s. normal_path (spec_id s) \<and> normal_path (spec_output s) \<and> normal_path (spec_cache s) \<and>
       spec_tool s \<in> set tool_names) specs \<and>
     distinct (map spec_id specs) \<and> distinct (map spec_output specs) \<and>
     set (map spec_output specs) \<inter>
       (set inputs \<union> set (concat (map (diagnostic_names \<circ> spec_id) specs)) \<union> set reserved_names) = {} \<and>
     set (concat (map (diagnostic_names \<circ> spec_id) specs)) \<inter> set inputs = {}"

lemma check_spec_Inr [result_simps]:
  "check_spec diagnostics tool_names (ids, products) s = Inr seen \<longleftrightarrow>
     normal_path (spec_id s) \<and> normal_path (spec_output s) \<and> normal_path (spec_cache s) \<and>
     spec_id s \<notin> set ids \<and> spec_output s \<notin> set products \<and> spec_output s \<notin> set diagnostics \<and>
     spec_output s \<notin> set reserved_names \<and> spec_tool s \<in> set tool_names \<and>
     seen = (spec_id s # ids, spec_output s # products)"
  by (auto simp: check_spec_def bindE_Inr relative_iff)

lemma check_specs_Inr:
  "(\<exists>seen. foldE (check_spec diagnostics tool_names) (ids, products) specs = Inr seen) \<longleftrightarrow>
     list_all (\<lambda>s. normal_path (spec_id s) \<and> normal_path (spec_output s) \<and> normal_path (spec_cache s) \<and>
       spec_tool s \<in> set tool_names) specs \<and>
     distinct (map spec_id specs) \<and> set (map spec_id specs) \<inter> set ids = {} \<and>
     distinct (map spec_output specs) \<and>
     set (map spec_output specs) \<inter> (set products \<union> set diagnostics \<union> set reserved_names) = {}"
proof (induction specs arbitrary: ids products)
  case (Cons s specs)
  have "(\<exists>seen. foldE (check_spec diagnostics tool_names) (ids, products) (s # specs) = Inr seen) \<longleftrightarrow>
      normal_path (spec_id s) \<and> normal_path (spec_output s) \<and> normal_path (spec_cache s) \<and>
      spec_id s \<notin> set ids \<and> spec_output s \<notin> set products \<and> spec_output s \<notin> set diagnostics \<and>
      spec_output s \<notin> set reserved_names \<and> spec_tool s \<in> set tool_names \<and>
      (\<exists>seen. foldE (check_spec diagnostics tool_names) (spec_id s # ids, spec_output s # products) specs =
        Inr seen)"
    by (auto simp: bindE_Inr check_spec_Inr)
  then show ?case unfolding Cons.IH by auto
qed simp

lemma diagnostics_Inr:
  "mapE (\<lambda>s. bindE (relative False (spec_id s)) (\<lambda>i. Inr (diagnostic_names i))) specs = Inr ds \<longleftrightarrow>
     list_all (\<lambda>s. normal_path (spec_id s)) specs \<and> ds = map (diagnostic_names \<circ> spec_id) specs"
proof (induction specs arbitrary: ds)
  case (Cons s specs)
  have "mapE (\<lambda>s. bindE (relative False (spec_id s)) (\<lambda>i. Inr (diagnostic_names i))) (s # specs) = Inr ds \<longleftrightarrow>
      normal_path (spec_id s) \<and> (\<exists>ds'. mapE (\<lambda>s. bindE (relative False (spec_id s))
        (\<lambda>i. Inr (diagnostic_names i))) specs = Inr ds' \<and> ds = diagnostic_names (spec_id s) # ds')"
    by (simp add: bindE_Inr relative_iff) blast
  then show ?case unfolding Cons.IH by (simp add: comp_def)
qed auto

lemma specifications_iff:
  "specifications specs inputs tool_names = Inr result \<longleftrightarrow>
     result = specs \<and> stages_ok specs inputs tool_names"
proof -
  have "specifications specs inputs tool_names = Inr result \<longleftrightarrow> result = specs \<and> specs \<noteq> [] \<and>
      list_all (\<lambda>s. normal_path (spec_id s)) specs \<and>
      set (concat (map (diagnostic_names \<circ> spec_id) specs)) \<inter> set inputs = {} \<and>
      (\<exists>seen. foldE (check_spec (concat (map (diagnostic_names \<circ> spec_id) specs)) tool_names) ([], inputs) specs =
        Inr seen)"
    unfolding specifications_def bindE_Inr diagnostics_Inr
    by (auto simp: bindE_Inr list_ex_iff)
  then show ?thesis
    unfolding check_specs_Inr by (auto simp: stages_ok_def list_all_iff)
qed

section \<open>Stages\<close>

lemma stage_entry:
  assumes "stage pf label path tool tool_after arguments inputs out proc meanwhile store = (Inr r, store')"
    and "out \<notin> set entry_names"
  defines "key \<equiv> stage_key pf tool arguments inputs"
  shows "entry_name r = identity pf key \<and> store' (label, identity pf key) = Some (entry_directory r) \<and>
    checked pf (entry_directory r) key \<and>
    (\<exists>bytes. read_artifact (entry_directory r) = Inr bytes \<and> sha pf bytes = sha pf (stage_product r))"
proof (cases "valid_entry pf key (store (label, identity pf key))")
  case True
  with assms(1) show ?thesis
    by (auto simp: stage_def Let_def key_def bindE_Inr valid_entry_Some)
next
  case False
  let ?w = "work_of pf path arguments proc"
  let ?slot = "meanwhile store (label, identity pf key)"
  from False assms(1) obtain d bytes took where
    pub: "publish_or_adopt pf key out ?w ?slot = Inr (d, bytes, took)"
    and r: "r = \<lparr>entry_name = identity pf key, reused = False, adopted = took, entry_directory = d,
       stage_product = bytes\<rparr>" "store' (label, identity pf key) = Some d"
    by (auto simp: stage_def Let_def key_def split: sum.splits prod.splits if_splits)
  show ?thesis
  proof (cases "valid_entry pf key ?slot")
    case True
    then obtain e where e: "?slot = Some e" "checked pf e key" by (auto simp: valid_entry_Some)
    with pub True obtain b where "read_artifact e = Inr b" by (auto simp: publish_or_adopt_def bindE_Inr)
    with e pub True r show ?thesis by (auto simp: publish_or_adopt_def split: if_splits)
  next
    case False
    with pub assms(2) r show ?thesis by (auto simp: publish_or_adopt_def)
  qed
qed

lemma stage_reuses:
  assumes "store (label, identity pf key) = Some d" and "checked pf d key" and "read_artifact d = Inr bytes"
    and "key = stage_key pf tool arguments inputs"
  shows "stage pf label path tool after arguments inputs out proc meanwhile store =
    (Inr \<lparr>entry_name = identity pf key, reused = True, adopted = False, entry_directory = d,
       stage_product = bytes\<rparr>, store)"
  using assms by (simp add: stage_def Let_def valid_entry_def)

text \<open>A stage that returns has reused an entry or run its tool to a clean exit.\<close>

lemma stage_ran:
  assumes "stage pf label path tool tool_after arguments inputs out proc meanwhile store = (Inr r, store')"
  shows "reused r \<or> wait_result proc = Exited 0 \<and> stdout_bytes proc \<noteq> [] \<and> sha pf tool_after = sha pf tool \<and>
    (adopted r \<or> stage_product r = stdout_bytes proc)"
proof (cases "valid_entry pf (stage_key pf tool arguments inputs) (store (label, identity pf (stage_key pf tool arguments inputs)))")
  case True
  with assms show ?thesis by (auto simp: stage_def Let_def bindE_Inr)
next
  case False
  with assms have "run_product out proc = Inr ()" "sha pf tool_after = sha pf tool"
    by (auto simp: stage_def Let_def split: sum.splits if_splits)
  moreover from False assms have "adopted r \<or> stage_product r = stdout_bytes proc"
    by (auto simp: stage_def Let_def publish_or_adopt_def work_of_def bindE_Inr split: sum.splits prod.splits if_splits)
  ultimately show ?thesis by (simp add: run_product_Inr)
qed

section \<open>Releases\<close>

lemma fold_update_distinct_keys:
  "distinct (map fst d) \<Longrightarrow> distinct (map fst (fold (\<lambda>(k, v). AList.update k v) kvs d))"
  by (induction kvs arbitrary: d) (auto simp: distinct_update)

lemma selected_distinct [simp]: "distinct (map fst (selected_files pub))"
  by (simp add: selected_files_def fold_update_distinct_keys)

lemma with_logs_distinct: "distinct (map fst d) \<Longrightarrow> distinct (map fst (with_logs logs d))"
  unfolding with_logs_def by (induction logs arbitrary: d) (auto simp: distinct_update)

lemma with_logs_keys: "fst ` set (with_logs logs d) = fst ` set d \<union> set logs"
  unfolding with_logs_def by (induction logs arbitrary: d) (auto simp: dom_update)

lemma with_logs_lookup:
  "map_of (with_logs logs d) k = (if k \<in> set logs then Some k else map_of d k)"
  unfolding with_logs_def by (induction logs arbitrary: d) (auto simp: update_conv')

lemma read_selected_Inr:
  "read_selected snap selected = Inr files \<longleftrightarrow>
     list_all2 (\<lambda>(dest, source) (dest', bytes). dest' = dest \<and> snap source = Some bytes) selected files"
proof -
  have step: "(\<lambda>x y. (case x of (dest, source) \<Rightarrow> case snap source of None \<Rightarrow> Inl (Missing_File source)
      | Some bytes \<Rightarrow> Inr (dest, bytes)) = Inr y) =
    (\<lambda>(dest, source) (dest', bytes). dest' = dest \<and> snap source = Some bytes)"
    by (auto simp: fun_eq_iff split: prod.splits option.splits)
  show ?thesis unfolding read_selected_def mapE_Inr step ..
qed

lemma read_selected_keys: "read_selected snap selected = Inr files \<Longrightarrow> map fst files = map fst selected"
  unfolding read_selected_Inr by (induction rule: list_all2_induct) auto

lemma read_selected_lookup:
  assumes "read_selected snap selected = Inr files"
  shows "map_of files k = (case map_of selected k of None \<Rightarrow> None | Some source \<Rightarrow> snap source)"
  using assms unfolding read_selected_Inr by (induction rule: list_all2_induct) auto

lemma map_of_saved_files: "map_of (saved_files name bytes files) = saved name bytes (map_of files)"
proof
  fix k
  have "map_of (filter (\<lambda>(k, _). k \<noteq> pending_name name) files) k = (if k = pending_name name then None else map_of files k)"
    by (induction files) auto
  then show "map_of (saved_files name bytes files) k = saved name bytes (map_of files) k"
    by (simp add: saved_files_def saved_def update_conv' pending_name_def)
qed

lemma saved_files_keys: "fst ` set (saved_files name bytes files) = insert name (fst ` set files - {pending_name name})"
  by (auto simp: saved_files_def dom_update image_iff)

lemma saved_files_distinct: "distinct (map fst files) \<Longrightarrow> distinct (map fst (saved_files name bytes files))"
  unfolding saved_files_def by (intro distinct_update) (induction files, auto)

lemma release_checked:
  assumes "distinct (map fst (release_files r))" and "release_files r \<noteq> []"
    and "''completed.json'' \<notin> fst ` set (release_files r)" and "pending_name ''completed.json'' \<notin> fst ` set (release_files r)"
  shows "checked pf (release_directory pf r) (release_key (release_id r))"
  unfolding release_directory_def by (rule with_record_checked[OF assms])

lemma inputs_frozen_iff:
  "inputs_frozen pf req snap = Inr u \<longleftrightarrow>
     (\<forall>(path, bytes)\<in>set (input_files req). \<exists>now. snap path = Some now \<and> sha pf now = sha pf bytes)"
  by (auto simp: inputs_frozen_def split: option.splits)

lemma completed_not_diagnostic: "''completed.json'' \<notin> set (diagnostic_names label)"
proof
  assume "''completed.json'' \<in> set (diagnostic_names label)"
  then obtain ext where "ext \<in> set log_names" and "label @ ''.'' @ ext = ''completed.json''"
    by (auto simp: diagnostic_names_def)
  moreover from this(2) have "rev (label @ ''.'' @ ext) = rev ''completed.json''" by (rule arg_cong)
  then have "rev ext @ CHR ''.'' # rev label = rev ''completed.json''" by (simp only: rev_append rev.simps append.simps append_assoc)
  ultimately show False by (auto simp: log_names_def)
qed

text \<open>What a build that reaches publication has established.\<close>

lemma finish_build_Inr:
  assumes "finish_build pf env req rec runs snap = Inr r"
  obtains pub fin where "finalize rec snap runs = Inr (pub, fin)"
    and "inputs_frozen pf req fin = Inr ()"
    and "distinct (map fst (release_files r))" and "release_files r \<noteq> []"
    and "''completed.json'' \<notin> fst ` set (release_files r)"
    and "tools_unchanged pf env req After_Stages" and "tools_unchanged pf env req After_Finalize"
    and "\<forall>(dest, source)\<in>set (selected_files pub). fin source \<noteq> None \<and>
      map_of (release_files r) dest = (if dest = pending_name (manifest_name pub) then None else fin source)"
    and "map_of (release_files r) (manifest_name pub) = Some (render pf (manifest pub))"
proof -
  define logs where "logs = concat (map (\<lambda>(label, _). diagnostic_names label) runs)"
  from assms obtain pub fin files where fin: "finalize rec snap runs = Inr (pub, fin)"
    and frozen: "inputs_frozen pf req fin = Inr ()"
    and tools: "tools_unchanged pf env req After_Stages" "tools_unchanged pf env req After_Finalize"
    and no_shadow: "\<not> shadows pub logs"
    and files: "read_selected fin (with_logs logs (selected_files pub)) = Inr files"
    and r: "release_files r = saved_files (manifest_name pub) (render pf (manifest pub)) files"
    unfolding finish_build_def Let_def logs_def[symmetric]
    by (auto simp: bindE_Inr relative_iff)
  note keys = read_selected_keys[OF files]
  have names: "fst ` set files = fst ` set (selected_files pub) \<union> set logs"
    using keys with_logs_keys[of logs "selected_files pub"] by (metis list.set_map)
  with no_shadow have fresh: "manifest_name pub \<notin> fst ` set files" by (auto simp: shadows_def)
  have "distinct (map fst files)" unfolding keys by (rule with_logs_distinct) simp
  then have 1: "distinct (map fst (release_files r))" unfolding r by (rule saved_files_distinct)
  have "manifest_name pub \<in> fst ` set (release_files r)" unfolding r saved_files_keys by simp
  then have ne: "release_files r \<noteq> []" by auto
  from names no_shadow have "''completed.json'' \<notin> fst ` set files"
    by (auto simp: shadows_def logs_def completed_not_diagnostic)
  with no_shadow have 0: "''completed.json'' \<notin> fst ` set (release_files r)"
    unfolding r saved_files_keys by (auto simp: shadows_def)
  have 2: "fin source \<noteq> None \<and> map_of (release_files r) dest = (if dest = pending_name (manifest_name pub) then None else fin source)"
    if "(dest, source) \<in> set (selected_files pub)" for dest source
  proof -
    have sel: "map_of (selected_files pub) dest = Some source" using that by simp
    have "map_of (with_logs logs (selected_files pub)) dest = Some source"
    proof (cases "dest \<in> set logs")
      case True
      then have "\<not> (case map_of (selected_files pub) dest of None \<Rightarrow> False | Some source \<Rightarrow> source \<noteq> dest)"
        using no_shadow unfolding shadows_def list_ex_iff by blast
      with sel have "source = dest" by simp
      with True show ?thesis by (simp add: with_logs_lookup)
    qed (simp add: with_logs_lookup sel)
    then have here: "map_of files dest = fin source" by (simp add: read_selected_lookup[OF files])
    have "dest \<in> fst ` set files" using names that by force
    then have "map_of files dest \<noteq> None" by (simp add: map_of_eq_None_iff)
    with here have "fin source \<noteq> None" by simp
    moreover have "dest \<noteq> manifest_name pub" using fresh \<open>dest \<in> fst ` set files\<close> by blast
    ultimately show ?thesis unfolding r map_of_saved_files using here by auto
  qed
  have 3: "map_of (release_files r) (manifest_name pub) = Some (render pf (manifest pub))"
    unfolding r map_of_saved_files by simp
  show ?thesis
    by (rule that[OF fin frozen 1 ne 0 tools]) (use 2 3 in auto)
qed

section \<open>The stages of a build\<close>

lemma run_stage_Inr:
  assumes "run_stage pf env req i spec snap store = (Inr (run, snap'), store')"
  obtains deps where "dependency_hashes pf snap (spec_inputs spec) = Inr deps"
    and "stage pf (spec_cache spec) (tool_path req (spec_tool spec))
      (tool_bytes env (Before_Stage i) (spec_tool spec)) (tool_bytes env (After_Stage i) (spec_tool spec))
      (spec_arguments spec) deps (spec_output spec) (runs_as env i) (others env i) store = (Inr (run_result run), store')"
    and "run_output run = spec_output spec" and "run_sha run = sha pf (stage_product (run_result run))"
    and "copy_logs (entry_directory (run_result run)) (spec_id spec) (after_stage snap spec (run_result run)
      (work_of pf (tool_path req (spec_tool spec)) (spec_arguments spec) (runs_as env i))) = Inr snap'"
  using assms that unfolding run_stage_def by (auto simp: bindE_Inr split: sum.splits prod.splits)

lemma copy_logs_elsewhere:
  "copy_logs d label snap = Inr snap' \<Longrightarrow> k \<notin> set (diagnostic_names label) \<Longrightarrow> snap' k = snap k"
  by (auto simp: copy_logs_def log_names_def diagnostic_names_def bindE_Inr split: option.splits)

text \<open>The names that a stage may write or remove besides its product and its diagnostics.\<close>

definition root_names :: "string list" where
  "root_names = log_names @ [pending_name ''command.json'', pending_name ''time.json'']"

lemma after_stage_elsewhere:
  "k \<notin> set root_names \<Longrightarrow> k \<noteq> spec_output spec \<Longrightarrow> after_stage snap spec r w k = snap k"
  by (auto simp: after_stage_def root_names_def log_names_def Let_def)

lemma run_stage_elsewhere:
  assumes "run_stage pf env req i spec snap store = (Inr (run, snap'), store')"
    and "k \<notin> set root_names" and "k \<notin> set (diagnostic_names (spec_id spec))"
  shows "snap' k = (if k = spec_output spec then Some (stage_product (run_result run)) else snap k)"
proof -
  let ?w = "work_of pf (tool_path req (spec_tool spec)) (spec_arguments spec) (runs_as env i)"
  obtain deps where "copy_logs (entry_directory (run_result run)) (spec_id spec) (after_stage snap spec (run_result run) ?w) = Inr snap'"
    by (rule run_stage_Inr[OF assms(1)])
  from copy_logs_elsewhere[OF this assms(3)] show ?thesis
    using after_stage_elsewhere[OF assms(2)] by (simp add: after_stage_def Let_def)
qed

lemma run_stages_elsewhere:
  assumes "run_stages pf env req i specs runs snap store = (Inr (runs', snap'), store')"
    and "k \<notin> set root_names" and "k \<notin> set (map spec_output specs)"
    and "k \<notin> set (concat (map (diagnostic_names \<circ> spec_id) specs))"
  shows "snap' k = snap k"
  using assms
proof (induction specs arbitrary: i runs snap store)
  case (Cons spec specs)
  obtain result store1 where step: "run_stage pf env req i spec snap store = (result, store1)" by fastforce
  with Cons.prems(1) obtain run snap1 where result: "result = Inr (run, snap1)"
    and rest: "run_stages pf env req (Suc i) specs (runs @ [(spec_id spec, run)]) snap1 store1 = (Inr (runs', snap'), store')"
    by (auto split: sum.splits prod.splits)
  from step result have step: "run_stage pf env req i spec snap store = (Inr (run, snap1), store1)" by simp
  have "snap1 k = snap k"
    using run_stage_elsewhere[OF step Cons.prems(2)] Cons.prems(3,4) by simp
  moreover have "snap' k = snap1 k" using Cons.IH[OF rest] Cons.prems(2-4) by simp
  ultimately show ?case by simp
qed simp

text \<open>What the record of a stage says of its run, and where its product is at the end.\<close>

definition stage_recorded :: "platform \<Rightarrow> environment \<Rightarrow> request \<Rightarrow> nat \<Rightarrow> stage_spec \<Rightarrow> string \<times> stage_run \<Rightarrow> bool" where
  "stage_recorded pf env req i spec lr \<longleftrightarrow> fst lr = spec_id spec \<and> run_output (snd lr) = spec_output spec \<and>
     run_sha (snd lr) = sha pf (stage_product (run_result (snd lr))) \<and>
     (\<exists>snap deps store store'. dependency_hashes pf snap (spec_inputs spec) = Inr deps \<and>
        stage pf (spec_cache spec) (tool_path req (spec_tool spec))
          (tool_bytes env (Before_Stage i) (spec_tool spec)) (tool_bytes env (After_Stage i) (spec_tool spec))
          (spec_arguments spec) deps (spec_output spec) (runs_as env i) (others env i) store =
        (Inr (run_result (snd lr)), store'))"

lemma run_stages_recorded:
  assumes "run_stages pf env req i specs runs snap store = (Inr (runs', snap'), store')"
    and "distinct (map spec_output specs)"
    and "set (map spec_output specs) \<inter> set (concat (map (diagnostic_names \<circ> spec_id) specs)) = {}"
  shows "\<exists>new. runs' = runs @ new \<and> length new = length specs \<and>
    (\<forall>j<length specs. stage_recorded pf env req (i + j) (specs ! j) (new ! j) \<and>
      (spec_output (specs ! j) \<notin> set root_names \<longrightarrow>
        snap' (spec_output (specs ! j)) = Some (stage_product (run_result (snd (new ! j))))))"
  using assms
proof (induction specs arbitrary: i runs snap store)
  case (Cons spec specs)
  obtain result store1 where step: "run_stage pf env req i spec snap store = (result, store1)" by fastforce
  with Cons.prems(1) obtain run snap1 where result: "result = Inr (run, snap1)"
    and rest: "run_stages pf env req (Suc i) specs (runs @ [(spec_id spec, run)]) snap1 store1 = (Inr (runs', snap'), store')"
    by (auto split: sum.splits prod.splits)
  from step result have step: "run_stage pf env req i spec snap store = (Inr (run, snap1), store1)" by simp
  have prems: "distinct (map spec_output specs)"
    "set (map spec_output specs) \<inter> set (concat (map (diagnostic_names \<circ> spec_id) specs)) = {}"
    using Cons.prems(2,3) by auto
  from Cons.IH[OF rest prems] obtain new where new: "runs' = (runs @ [(spec_id spec, run)]) @ new" "length new = length specs"
    and rec: "\<forall>j<length specs. stage_recorded pf env req (Suc i + j) (specs ! j) (new ! j) \<and>
      (spec_output (specs ! j) \<notin> set root_names \<longrightarrow>
        snap' (spec_output (specs ! j)) = Some (stage_product (run_result (snd (new ! j)))))"
    by blast
  have first: "stage_recorded pf env req i spec (spec_id spec, run)"
  proof (rule run_stage_Inr[OF step])
    fix deps
    assume *: "dependency_hashes pf snap (spec_inputs spec) = Inr deps"
      "stage pf (spec_cache spec) (tool_path req (spec_tool spec))
        (tool_bytes env (Before_Stage i) (spec_tool spec)) (tool_bytes env (After_Stage i) (spec_tool spec))
        (spec_arguments spec) deps (spec_output spec) (runs_as env i) (others env i) store = (Inr (run_result run), store1)"
      "run_output run = spec_output spec" "run_sha run = sha pf (stage_product (run_result run))"
    show ?thesis
      unfolding stage_recorded_def fst_conv snd_conv using * by blast
  qed
  have kept: "snap' (spec_output spec) = Some (stage_product (run_result run))" if "spec_output spec \<notin> set root_names"
  proof -
    have "spec_output spec \<notin> set (diagnostic_names (spec_id spec))" using Cons.prems(3) by auto
    then have "snap1 (spec_output spec) = Some (stage_product (run_result run))"
      using run_stage_elsewhere[OF step that] by simp
    moreover have "snap' (spec_output spec) = snap1 (spec_output spec)"
      by (rule run_stages_elsewhere[OF rest that]) (use Cons.prems(2,3) in auto)
    ultimately show ?thesis by simp
  qed
  have "\<forall>j<length (spec # specs). stage_recorded pf env req (i + j) ((spec # specs) ! j) (((spec_id spec, run) # new) ! j) \<and>
      (spec_output ((spec # specs) ! j) \<notin> set root_names \<longrightarrow>
        snap' (spec_output ((spec # specs) ! j)) = Some (stage_product (run_result (snd (((spec_id spec, run) # new) ! j)))))"
  proof (intro allI impI)
    fix j
    assume "j < length (spec # specs)"
    then show "stage_recorded pf env req (i + j) ((spec # specs) ! j) (((spec_id spec, run) # new) ! j) \<and>
      (spec_output ((spec # specs) ! j) \<notin> set root_names \<longrightarrow>
        snap' (spec_output ((spec # specs) ! j)) = Some (stage_product (run_result (snd (((spec_id spec, run) # new) ! j)))))"
      using first kept rec by (cases j) auto
  qed
  with new show ?case by (intro exI[of _ "(spec_id spec, run) # new"]) auto
qed simp

lemma stage_recorded_ran:
  assumes "stage_recorded pf env req i spec lr"
  shows "reused (run_result (snd lr)) \<or> wait_result (runs_as env i) = Exited 0 \<and> stdout_bytes (runs_as env i) \<noteq> [] \<and>
    (adopted (run_result (snd lr)) \<or> stage_product (run_result (snd lr)) = stdout_bytes (runs_as env i))"
  using assms stage_ran unfolding stage_recorded_def by blast

text \<open>What a successful publication leaves.\<close>

lemma publish_release_Inr:
  assumes "publish_release pf fault r w = (Inr rid, w')"
  shows "rid = release_id r \<and> published w' = Some rid \<and> cache_store w' = cache_store w \<and>
    releases w' = (if valid_entry pf (release_key rid) (releases w rid) then releases w
      else (releases w)(rid \<mapsto> release_directory pf r))"
  using assms by (auto simp: publish_release_def switch_link_def Let_def split: if_splits)

end
