(* ===== verification/Source_Build.thy ===== *)
theory Source_Build
  imports Build_Facts
begin

text \<open>
  Frozen source bundles, \<open>priv/tools/compile_source_build.py\<close>: \<open>plan_build\<close> checks a bundle and derives
  the commands of its units, \<open>compile_build\<close> hands the plan to the shared executor and writes the
  records and role lists of the release. The bundle's manifest is taken after decoding, with its fields
  typed; directory listings and the XLS installation are arguments.
\<close>

section \<open>Plans\<close>

record tool_identity =
  tool_file :: string
  tool_sha :: string

record build_command =
  command_stage :: string
  command_line :: "string list"
  command_output :: string
  command_log :: string

record supplied_unit =
  unit_directory :: string
  unit_role :: string
  unit_source :: string
  unit_output :: string
  unit_top :: string
  unit_module :: string
  unit_flags :: "string list"
  unit_path :: "string list"

record unit_plan = supplied_unit +
  unit_stages :: "build_command list"

record source_manifest =
  source_version :: int
  source_metadata :: "json option"
  source_inputs :: "(string \<times> string) list"
  source_units :: "supplied_unit list"
  source_rtl :: "(string \<times> string list) list"

text \<open>
  The bundle's files by normalized name, its directories, the \<open>.x\<close> files below a directory
  relative to it, and the installation: tools by name, with path and bytes, and the standard library.
\<close>

record source_bundle =
  bundle_path :: string
  manifest_bytes :: string
  bundle_files :: "string \<rightharpoonup> string"
  has_directory :: "string \<Rightarrow> bool"
  modules_below :: "string \<Rightarrow> string list"
  installed :: "string \<rightharpoonup> string \<times> string"
  installed_stdlib :: "(string \<times> string) list option"

record build_plan =
  plan_directory :: string
  plan_source :: string
  plan_metadata :: json
  plan_inputs :: "(string \<times> string) list"
  plan_tools :: "(string \<times> tool_identity) list"
  plan_stdlib :: "(string \<times> string) list"
  plan_units :: "unit_plan list"
  plan_rtl :: "(string, string list) dict"

definition tool_names :: "string list" where
  "tool_names = [''ir_converter_main'', ''opt_main'', ''codegen_main'']"

definition tool_at :: "(string \<times> tool_identity) list \<Rightarrow> string \<Rightarrow> string" where
  "tool_at installs name = (case map_of installs name of None \<Rightarrow> [] | Some t \<Rightarrow> tool_file t)"

definition unit_commands ::
  "'a supplied_unit_scheme \<Rightarrow> (string \<times> tool_identity) list \<Rightarrow> build_command list" where
  "unit_commands unit installs =
     (let raw = path_join (unit_directory unit) ''raw.ir''; optimized = path_join (unit_directory unit) ''optimized.ir'';
          row = (\<lambda>label tool arguments output. \<lparr>command_stage = label, command_line = tool_at installs tool # arguments,
            command_output = output, command_log = path_join (unit_directory unit) (label @ ''.log'')\<rparr>) in
      [row ''convert'' ''ir_converter_main''
         [''--warnings_as_errors=false'', ''--top='' @ unit_top unit,
          ''--dslx_path='' @ join_on (CHR '':'') (unit_path unit), ''--dslx_stdlib_path=_stdlib'', unit_source unit] raw,
       row ''opt'' ''opt_main'' [raw] optimized,
       row ''codegen'' ''codegen_main'' (unit_flags unit @ [''--module_name='' @ unit_module unit, optimized])
         (unit_output unit)])"

section \<open>Checking a bundle\<close>

definition bind_input ::
  "platform \<Rightarrow> source_bundle \<Rightarrow> (string, string) dict \<Rightarrow> string \<times> string \<Rightarrow> (build_error, (string, string) dict) result" where
  "bind_input pf b bound row = (let (file, digest) = row in
     bindE (source_relative file) (\<lambda>name.
     bindE (ensure (name \<notin> set (map fst bound)) (Source_Build (''duplicate source build input: '' @ name))) (\<lambda>_.
     case bundle_files b name of
       None \<Rightarrow> Inl (Missing_File name)
     | Some bytes \<Rightarrow>
         bindE (ensure (sha pf bytes = digest) (Source_Build (''changed source build input: '' @ name))) (\<lambda>_.
         Inr (bound @ [(name, digest)])))))"

definition resolve_tools :: "platform \<Rightarrow> source_bundle \<Rightarrow> (build_error, (string \<times> tool_identity) list) result" where
  "resolve_tools pf b = mapE (\<lambda>name. case installed b name of
       None \<Rightarrow> Inl (Source_Build (''missing or non-executable XLS tool: '' @ name))
     | Some (path, bytes) \<Rightarrow> Inr (name, \<lparr>tool_file = path, tool_sha = sha pf bytes\<rparr>)) tool_names"

definition normalize_unit :: "supplied_unit \<Rightarrow> (build_error, supplied_unit) result" where
  "normalize_unit u =
     bindE (source_relative (unit_directory u)) (\<lambda>d.
     bindE (source_relative (unit_role u)) (\<lambda>r.
     bindE (source_relative (unit_source u)) (\<lambda>s.
     bindE (source_relative (unit_output u)) (\<lambda>out.
     bindE (mapE source_relative (unit_path u)) (\<lambda>ps.
     Inr (u\<lparr>unit_directory := d, unit_role := r, unit_source := s, unit_output := out, unit_path := ps\<rparr>))))))"

text \<open>Hidden executor attempts and releases cannot name modules.\<close>

definition hidden :: "string \<Rightarrow> bool" where
  "hidden path \<longleftrightarrow> list_ex (prefix ''.'') (path_parts path)"

definition check_modules :: "source_bundle \<Rightarrow> string list \<Rightarrow> string list \<Rightarrow> (build_error, unit) result" where
  "check_modules b bound paths = checkE (\<lambda>root. checkE (\<lambda>module.
     ensure (hidden module \<or> path_join root module \<in> set bound)
       (Source_Build (''unbound DSLX input: '' @ path_join root module))) (modules_below b root)) paths"

text \<open>The files a unit writes: its products, their logs and its record of commands.\<close>

definition written :: "string \<Rightarrow> build_command list \<Rightarrow> string list" where
  "written directory commands =
     concat (map (\<lambda>c. [command_output c, command_log c]) commands) @ [path_join directory ''commands.json'']"

definition plan_unit ::
  "source_bundle \<Rightarrow> string list \<Rightarrow> (string \<times> tool_identity) list \<Rightarrow> unit_plan list \<times> string list \<Rightarrow> supplied_unit \<Rightarrow>
   (build_error, unit_plan list \<times> string list) result" where
  "plan_unit b bound installs seen supplied = (let (units, products) = seen in
     bindE (normalize_unit supplied) (\<lambda>u.
     bindE (ensure (unit_source u \<in> set bound) (Source_Build (''unbound unit source: '' @ unit_source u))) (\<lambda>_.
     bindE (ensure (unit_directory u \<notin> set (map unit_directory units))
       (Source_Build (''duplicate unit directory: '' @ unit_directory u))) (\<lambda>_.
     bindE (checkE (\<lambda>name. ensure (has_directory b name) (Source_Build (''missing unit directory: '' @ name)))
       (unit_directory u # unit_role u # unit_path u)) (\<lambda>_.
     bindE (check_modules b bound (unit_path u)) (\<lambda>_.
     let commands = unit_commands u installs; names = written (unit_directory u) commands in
     bindE (ensure (\<not> (has_duplicates names \<or> list_ex (\<lambda>n. n \<in> set bound \<or> n \<in> set products) names))
       (Source_Build ''compilation products overlap inputs or another unit'')) (\<lambda>_.
     Inr (units @ [supplied_unit.extend u \<lparr>unit_stages = commands\<rparr>], products @ names))))))))"

definition normalize_rtl :: "(string \<times> string list) list \<Rightarrow> (build_error, (string, string list) dict) result" where
  "normalize_rtl rows = foldE (\<lambda>d (role, paths).
     bindE (source_relative role) (\<lambda>role. bindE (mapE source_relative paths) (\<lambda>paths.
     Inr (AList.update role paths d)))) [] rows"

definition check_role :: "string list \<Rightarrow> string list \<Rightarrow> string \<times> string list \<Rightarrow> (build_error, unit) result" where
  "check_role bound products row = (let (role, paths) = row in
     bindE (checkE (\<lambda>path. ensure (path \<in> set bound \<or> path \<in> set products)
       (Source_Build (''unbound RTL input: '' @ path))) paths) (\<lambda>_.
     let listing = path_join role ''files.f'' in
     ensure (\<not> (listing \<in> set bound \<or> listing \<in> set products))
       (Source_Build ''RTL listing overlaps a source or product'')))"

definition plan_build :: "platform \<Rightarrow> source_bundle \<Rightarrow> source_manifest \<Rightarrow> (build_error, build_plan) result" where
  "plan_build pf b m =
     bindE (ensure (source_version m = 1) (Source_Build ''unsupported source build version'')) (\<lambda>_.
     bindE (case source_metadata m of None \<Rightarrow> Inr (JObj []) | Some (JObj kvs) \<Rightarrow> Inr (JObj kvs)
        | Some _ \<Rightarrow> Inl (Source_Build ''source build metadata must be an object'')) (\<lambda>metadata.
     bindE (foldE (bind_input pf b) [] (source_inputs m)) (\<lambda>bound.
     bindE (resolve_tools pf b) (\<lambda>installs.
     bindE (case installed_stdlib b of None \<Rightarrow> Inl (Source_Build ''missing XLS standard library'')
        | Some files \<Rightarrow> Inr (map (\<lambda>(file, bytes). (file, sha pf bytes)) files)) (\<lambda>stdlib.
     bindE (foldE (plan_unit b (map fst bound) installs) ([], []) (source_units m)) (\<lambda>(units, products).
     bindE (normalize_rtl (source_rtl m)) (\<lambda>rtl.
     bindE (checkE (check_role (map fst bound) products) rtl) (\<lambda>_.
     bindE (ensure (\<not> (''compiled.json'' \<in> set (map fst bound) \<or> ''source-build.json'' \<in> set (map fst bound)))
       (Source_Build ''reserved source build input'')) (\<lambda>_.
     Inr \<lparr>plan_directory = bundle_path b, plan_source = sha pf (manifest_bytes b), plan_metadata = metadata,
       plan_inputs = source_inputs m, plan_tools = installs, plan_stdlib = stdlib, plan_units = units,
       plan_rtl = rtl\<rparr>)))))))))"

section \<open>Compiling a plan\<close>

text \<open>The expected digests, which name the frozen inputs by the rows of the manifest.\<close>

definition expected :: "build_plan \<Rightarrow> (string, string) dict" where
  "expected plan = fold (\<lambda>(k, v). AList.update k v)
     (plan_inputs plan @ [(''source-build.json'', plan_source plan)] @
      map (\<lambda>(file, digest). (''_stdlib/'' @ file, digest)) (plan_stdlib plan)) []"

definition source_directories :: "build_plan \<Rightarrow> string list" where
  "source_directories plan = sort (uniq (map unit_directory (plan_units plan) @ [''_stdlib''] @
     concat (map unit_path (plan_units plan)) @ map fst (plan_rtl plan)))"

definition stage_id :: "nat \<Rightarrow> string \<Rightarrow> string" where
  "stage_id index label = ''unit'' @ show_nat index @ ''.'' @ label"

definition sources_of :: "string list \<Rightarrow> (string \<times> dependency) list" where
  "sources_of names =
     [(''sources'', Group (map (\<lambda>n. (n, Leaf n)) (filter (\<lambda>n. suffix ''.x'' n \<and> \<not> prefix ''_stdlib/'' n) names))),
      (''stdlib'', Group (map (\<lambda>n. (n, Leaf n)) (filter (prefix ''_stdlib/'') names)))]"

fun unit_specs :: "nat \<Rightarrow> (string \<times> dependency) list \<Rightarrow> (build_command \<times> string) list \<Rightarrow> stage_spec list" where
  "unit_specs index dependencies [] = []"
| "unit_specs index dependencies ((c, tool) # rest) =
     \<lparr>spec_id = stage_id index (command_stage c),
       spec_cache = (if command_stage c = ''convert'' then ''ir'' else command_stage c), spec_tool = tool,
       spec_arguments = tl (command_line c), spec_output = command_output c, spec_inputs = dependencies\<rparr> #
     unit_specs index [(command_output c, Leaf (command_output c))] rest"

fun indexed_specs :: "string list \<Rightarrow> nat \<Rightarrow> unit_plan list \<Rightarrow> stage_spec list" where
  "indexed_specs names index [] = []"
| "indexed_specs names index (u # us) =
     unit_specs index (sources_of names) (zip (unit_stages u) tool_names) @ indexed_specs names (Suc index) us"

definition source_specs :: "build_plan \<Rightarrow> stage_spec list" where
  "source_specs plan = indexed_specs (map fst (expected plan)) 0 (plan_units plan)"

text \<open>\<open>prepare\<close>; \<open>now\<close> gives the bytes behind a tool's path.\<close>

definition source_prepare ::
  "platform \<Rightarrow> (string \<Rightarrow> string) \<Rightarrow> build_plan \<Rightarrow> snapshot \<Rightarrow> (build_error, stage_spec list \<times> snapshot) result" where
  "source_prepare pf now plan snap =
     bindE (checkE (\<lambda>(name, digest). case snap name of None \<Rightarrow> Inl (Missing_File name)
        | Some bytes \<Rightarrow> ensure (sha pf bytes = digest)
            (Source_Build (''changed source build input during snapshot: '' @ name))) (expected plan)) (\<lambda>_.
     bindE (checkE (\<lambda>(_, t). ensure (sha pf (now (tool_file t)) = tool_sha t)
       (Source_Build (''changed XLS tool during snapshot: '' @ tool_file t))) (plan_tools plan)) (\<lambda>_.
     Inr (source_specs plan, snap)))"

text \<open>\<open>os.path.relpath\<close> on normalized relative paths.\<close>

fun common_length :: "string list \<Rightarrow> string list \<Rightarrow> nat" where
  "common_length (a # as) (b # bs) = (if a = b then Suc (common_length as bs) else 0)"
| "common_length _ _ = 0"

definition relpath :: "string \<Rightarrow> string \<Rightarrow> string" where
  "relpath path start =
     (let a = path_parts path; b = path_parts start; k = common_length a b;
          parts = replicate (length b - k) ''..'' @ drop k a
      in if parts = [] then ''.'' else join_on (CHR ''/'') parts)"

text \<open>One row of \<open>commands.json\<close>; \<open>decode\<close> is \<open>json.loads\<close> on the entry's logs.\<close>

definition log_json :: "(string \<Rightarrow> json) \<Rightarrow> directory \<Rightarrow> string \<Rightarrow> (build_error, json) result" where
  "log_json decode d name = (case contents d name of None \<Rightarrow> Inl (Missing_File name) | Some bytes \<Rightarrow> Inr (decode bytes))"

definition stage_row ::
  "(string \<Rightarrow> json) \<Rightarrow> (string \<times> stage_run) list \<Rightarrow> nat \<Rightarrow> build_command \<Rightarrow> (build_error, json) result" where
  "stage_row decode runs index c = (case map_of runs (stage_id index (command_stage c)) of
      None \<Rightarrow> Inl (Callback (stage_id index (command_stage c)))
    | Some run \<Rightarrow> (let d = entry_directory (run_result run) in
        bindE (log_json decode d ''command.json'') (\<lambda>argv.
        bindE (log_json decode d ''time.json'') (\<lambda>time.
        Inr (JObj [(''command'', argv), (''output'', JStr (run_output run)), (''sha256'', JStr (run_sha run)),
          (''exit'', JInt 0), (''key'', JStr (entry_name (run_result run))), (''original_time'', time),
          (''stage'', JStr (command_stage c)), (''log'', JStr (command_log c))])))))"

text \<open>The fold over the units threads the retained files, the records and the snapshot.\<close>

definition finish_unit ::
  "(json \<Rightarrow> string) \<Rightarrow> (string \<Rightarrow> json) \<Rightarrow> (string \<times> stage_run) list \<Rightarrow>
   (string, string) dict \<times> json list \<times> snapshot \<Rightarrow> nat \<times> unit_plan \<Rightarrow>
   (build_error, (string, string) dict \<times> json list \<times> snapshot) result" where
  "finish_unit pretty decode runs acc row = (let (retained, records, snap) = acc; (index, u) = row in
     bindE (mapE (stage_row decode runs index) (unit_stages u)) (\<lambda>stages.
     let retained = fold (\<lambda>c d. AList.update (command_log c) (stage_id index (command_stage c) @ ''.stderr.log'')
           (AList.update (command_output c) (command_output c) d)) (unit_stages u) retained;
         filename = path_join (unit_directory u) ''commands.json''
     in Inr (AList.update filename filename retained,
       records @ [JObj [(''directory'', JStr (unit_directory u)), (''role'', JStr (unit_role u)), (''commands'', JArr stages)]],
       snap(filename \<mapsto> pretty (JArr stages) @ [CHR 0x0A]))))"

definition file_row :: "platform \<Rightarrow> snapshot \<Rightarrow> string \<Rightarrow> (build_error, json) result" where
  "file_row pf snap path = (case snap path of None \<Rightarrow> Inl (Missing_File path)
     | Some bytes \<Rightarrow> Inr (JObj [(''file'', JStr path), (''sha256'', JStr (sha pf bytes))]))"

definition finish_role ::
  "platform \<Rightarrow> (string, string) dict \<times> (string \<times> json) list \<times> snapshot \<Rightarrow> string \<times> string list \<Rightarrow>
   (build_error, (string, string) dict \<times> (string \<times> json) list \<times> snapshot) result" where
  "finish_role pf acc row = (let (retained, rtl, snap) = acc; (role, paths) = row;
       listing = path_join role ''files.f'';
       snap = snap(listing \<mapsto> concat (map (\<lambda>path. relpath path role @ [CHR 0x0A]) paths)) in
     bindE (mapE (file_row pf snap) paths) (\<lambda>rows.
     Inr (AList.update listing listing retained, rtl @ [(role, JArr rows)], snap)))"

definition source_finalize ::
  "platform \<Rightarrow> (json \<Rightarrow> string) \<Rightarrow> (string \<Rightarrow> json) \<Rightarrow> build_plan \<Rightarrow> snapshot \<Rightarrow> (string \<times> stage_run) list \<Rightarrow>
   (build_error, publication \<times> snapshot) result" where
  "source_finalize pf pretty decode plan snap runs =
     bindE (foldE (finish_unit pretty decode runs) (map (\<lambda>(n, _). (n, n)) (expected plan), [], snap)
       (enumerate 0 (plan_units plan))) (\<lambda>(retained, records, snap).
     bindE (foldE (finish_role pf) (retained, [], snap) (plan_rtl plan)) (\<lambda>(retained, rtl, snap).
     let manifest = JObj [(''source_build_sha256'', JStr (plan_source plan)), (''metadata'', plan_metadata plan),
           (''xls_tools'', JObj (map (\<lambda>(name, t). (name, JStr (tool_sha t))) (plan_tools plan))),
           (''units'', JArr records), (''rtl'', JObj rtl), (''eligible'', JBool False), (''native_measured'', JBool False)]
     in Inr (\<lparr>manifest_name = ''compiled.json'', manifest = manifest, publication_files = retained\<rparr>, snap)))"

text \<open>\<open>bytes_of\<close> reads the files that are copied, after the plan was checked.\<close>

definition compile_build ::
  "platform \<Rightarrow> environment \<Rightarrow> request \<Rightarrow> source_bundle \<Rightarrow> source_manifest \<Rightarrow> (string \<Rightarrow> string) \<Rightarrow> (string \<Rightarrow> string) \<Rightarrow>
   (json \<Rightarrow> string) \<Rightarrow> (string \<Rightarrow> json) \<Rightarrow> world \<Rightarrow> (build_error, string) result \<times> world" where
  "compile_build pf env base b m bytes_of now pretty decode w =
     (case plan_build pf b m of
        Inl e \<Rightarrow> (Inl e, w)
      | Inr plan \<Rightarrow> execute pf env
          (base\<lparr>build_name := ''source-build'',
             input_files := map (\<lambda>(name, _). (name, bytes_of name)) (expected plan),
             directories := source_directories plan,
             tools := map (\<lambda>(name, t). (name, tool_file t)) (plan_tools plan)\<rparr>)
          \<lparr>prepare = source_prepare pf now plan, finalize = source_finalize pf pretty decode plan\<rparr> w)"

end
