(* ===== verification/Source_Facts.thy ===== *)
theory Source_Facts
  imports Source_Build
begin

text \<open>
  What \<open>plan_build\<close> establishes about a bundle, and that the executor's checks of the stages built from
  a plan come down to a few reserved names.
\<close>

section \<open>Names below a directory\<close>

lemma split_parts_append:
  "split_on c (a @ c # b) = split_on c a @ split_on c b"
  by (induction a) (auto split: list.splits)

lemma path_parts_append: "path_parts (a @ ''/'' @ b) = path_parts a @ path_parts b"
  by (simp add: path_parts_def split_parts_append)

lemma path_parts_single: "part_ok x \<Longrightarrow> path_parts x = [x]"
  using normal_join[of "[x]"] by simp

lemma path_join_parts [simp]: "path_parts (path_join a b) = path_parts a @ path_parts b"
  unfolding path_join_def path_parts_string path_parts_append ..

text \<open>The values of \<open>source_relative\<close>.\<close>

definition source_name_ok :: "string \<Rightarrow> bool" where
  "source_name_ok s \<longleftrightarrow> s = ''.'' \<or> normal_path s \<and> hd (path_parts s) \<noteq> ''_stdlib''"

lemma source_relative_ok:
  assumes "source_relative raw = Inr r"
  shows "source_name_ok r"
proof (cases "path_parts raw = []")
  case True
  with assms show ?thesis by (simp add: source_relative_iff source_name_ok_def path_string_def)
next
  case False
  with assms have "r = path_string raw" "normal_path r" "hd (path_parts raw) \<noteq> ''_stdlib''"
    unfolding source_relative_iff by blast+
  then show ?thesis unfolding source_name_ok_def by (metis path_parts_string)
qed

lemma dot_parts [simp]: "path_parts ''.'' = []"
  by code_simp

lemma normal_pathD: "normal_path s \<Longrightarrow> path_parts s \<noteq> [] \<and> list_all part_ok (path_parts s) \<and> s = join_on (CHR ''/'') (path_parts s)"
  unfolding normal_path_def using normal_join by metis

lemma source_name_join:
  assumes "source_name_ok d" and "part_ok x" and "x \<noteq> ''_stdlib''"
  shows "normal_path (path_join d x)" and "hd (path_parts (path_join d x)) \<noteq> ''_stdlib''"
proof -
  have parts: "path_parts (path_join d x) = path_parts d @ [x]"
    using path_parts_single[OF assms(2)] by simp
  have d: "list_all part_ok (path_parts d) \<and> (path_parts d = [] \<or> hd (path_parts d) \<noteq> ''_stdlib'')"
    using assms(1) normal_pathD[of d] by (auto simp: source_name_ok_def)
  with assms(2) have all: "list_all part_ok (path_parts d @ [x])" by simp
  have "path_join d x = join_on (CHR ''/'') (path_parts d @ [x])"
    using parts unfolding path_join_def path_parts_string by (simp add: path_string_def)
  with all show "normal_path (path_join d x)" unfolding normal_path_def by blast
  show "hd (path_parts (path_join d x)) \<noteq> ''_stdlib''"
    unfolding parts using d assms(3) by (cases "path_parts d") auto
qed

lemma not_below_stdlib:
  assumes "hd (path_parts s) \<noteq> ''_stdlib''"
  shows "\<not> prefix ''_stdlib/'' s"
proof
  assume "prefix ''_stdlib/'' s"
  then obtain t where "s = ''_stdlib'' @ ''/'' @ t" by (auto simp: prefix_def)
  then have "path_parts s = path_parts ''_stdlib'' @ path_parts t" by (simp only: path_parts_append)
  moreover have "path_parts ''_stdlib'' = [''_stdlib'']" by code_simp
  ultimately show False using assms by simp
qed

section \<open>Stage names\<close>

lemma stage_id_inj:
  assumes "stage_id i a = stage_id j b"
  shows "i = j \<and> a = b"
proof -
  have plain: "CHR ''.'' \<notin> set (show_nat n)" for n
    using show_nat_digits[of n] by (auto simp: list_all_iff in_range_def less_eq_char_def)
  have "split_on (CHR ''.'') (show_nat n @ CHR ''.'' # l) = show_nat n # split_on (CHR ''.'') l" for n l
    using plain[of n] by (rule split_append)
  with assms have "show_nat i # split_on (CHR ''.'') a = show_nat j # split_on (CHR ''.'') b"
    unfolding stage_id_def by (metis append.assoc append_Cons append_Nil same_append_eq)
  with assms show ?thesis by (simp add: stage_id_def)
qed

lemma stage_id_normal: "CHR ''/'' \<notin> set label \<Longrightarrow> normal_path (stage_id index label)"
  by (rule normal_single)
    (use show_nat_digits[of index] in \<open>auto simp: stage_id_def part_ok_def list_all_iff in_range_def less_eq_char_def\<close>)

section \<open>What a checked plan holds\<close>

lemma normalize_unit_Inr:
  assumes "normalize_unit u = Inr v"
  shows "source_name_ok (unit_directory v)" and "source_name_ok (unit_output v)" and "source_name_ok (unit_source v)"
  using assms by (auto simp: normalize_unit_def bindE_Inr dest: source_relative_ok)

lemma unit_output_names:
  "map command_output (unit_commands u installs) =
     [path_join (unit_directory u) ''raw.ir'', path_join (unit_directory u) ''optimized.ir'', unit_output u]"
  "map command_stage (unit_commands u installs) = [''convert'', ''opt'', ''codegen'']"
  by (simp_all add: unit_commands_def Let_def)

definition planned :: "(string \<times> tool_identity) list \<Rightarrow> unit_plan \<Rightarrow> bool" where
  "planned installs u \<longleftrightarrow> unit_stages u = unit_commands u installs \<and>
     source_name_ok (unit_directory u) \<and> source_name_ok (unit_output u)"

definition all_written :: "unit_plan list \<Rightarrow> string list" where
  "all_written us = concat (map (\<lambda>u. written (unit_directory u) (unit_stages u)) us)"

lemma unit_commands_extend [simp]:
  "unit_commands (supplied_unit.extend u x) installs = unit_commands u installs"
  by (simp add: unit_commands_def supplied_unit.defs)

lemma plan_unit_Inr:
  assumes "plan_unit b bound installs (us, products) u = Inr (vs, products')"
  obtains v where "normalize_unit u = Inr v"
    and "vs = us @ [supplied_unit.extend v \<lparr>unit_stages = unit_commands v installs\<rparr>]"
    and "products' = products @ written (unit_directory v) (unit_commands v installs)"
    and "distinct (written (unit_directory v) (unit_commands v installs))"
    and "set (written (unit_directory v) (unit_commands v installs)) \<inter> (set bound \<union> set products) = {}"
  using assms by (auto simp: plan_unit_def bindE_Inr Let_def list_ex_iff)

lemma extend_fields [simp]:
  "unit_directory (supplied_unit.extend u x) = unit_directory u"
  "unit_output (supplied_unit.extend u x) = unit_output u"
  "unit_stages (supplied_unit.extend u \<lparr>unit_stages = cs\<rparr>) = cs"
  by (simp_all add: supplied_unit.defs)

definition planned_units ::
  "string list \<Rightarrow> (string \<times> tool_identity) list \<Rightarrow> unit_plan list \<times> string list \<Rightarrow> bool" where
  "planned_units bound installs st \<longleftrightarrow> (case st of (us, products) \<Rightarrow>
     list_all (planned installs) us \<and> products = all_written us \<and> distinct products \<and> set products \<inter> set bound = {})"

lemma plan_unit_step:
  assumes "plan_unit b bound installs st u = Inr st'" and "planned_units bound installs st"
  shows "planned_units bound installs st'"
proof -
  obtain us products vs products' where st: "st = (us, products)" "st' = (vs, products')" by fastforce
  from plan_unit_Inr[OF assms(1)[unfolded st]] obtain v where v: "normalize_unit u = Inr v"
    "vs = us @ [supplied_unit.extend v \<lparr>unit_stages = unit_commands v installs\<rparr>]"
    "products' = products @ written (unit_directory v) (unit_commands v installs)"
    "distinct (written (unit_directory v) (unit_commands v installs))"
    "set (written (unit_directory v) (unit_commands v installs)) \<inter> (set bound \<union> set products) = {}" .
  have "planned installs (supplied_unit.extend v \<lparr>unit_stages = unit_commands v installs\<rparr>)"
    using normalize_unit_Inr[OF v(1)] by (simp add: planned_def)
  moreover have "all_written vs = all_written us @ written (unit_directory v) (unit_commands v installs)"
    by (simp add: all_written_def v(2))
  ultimately show ?thesis
    using assms(2) v(2-5) unfolding st planned_units_def by auto
qed

lemma plan_units_inv:
  assumes "foldE (plan_unit b bound installs) ([], []) supplied = Inr st"
  shows "planned_units bound installs st"
  by (rule foldE_invariant[OF assms], simp add: planned_units_def all_written_def) (rule plan_unit_step)

section \<open>The stages of a checked plan\<close>

lemma bind_inputs_names:
  assumes "foldE (bind_input pf b) bound rows = Inr bound'"
  shows "map fst bound' = map fst bound @ map (path_string \<circ> fst) rows"
  using assms
proof (induction rows arbitrary: bound)
  case (Cons row rows)
  from Cons.prems obtain next_bound where step: "bind_input pf b bound row = Inr next_bound"
    "foldE (bind_input pf b) next_bound rows = Inr bound'" by (auto simp: bindE_Inr)
  from step(1) have "map fst next_bound = map fst bound @ [path_string (fst row)]"
    by (auto simp: bind_input_def bindE_Inr source_relative_iff split: prod.splits option.splits)
  with Cons.IH[OF step(2)] show ?case by simp
qed simp

lemma resolve_tools_names: "resolve_tools pf b = Inr installs \<Longrightarrow> map fst installs = tool_names"
  by (auto simp: resolve_tools_def tool_names_def bindE_Inr split: option.splits)

lemma expected_names:
  "set (map fst (expected plan)) =
     fst ` set (plan_inputs plan) \<union> {''source-build.json''} \<union> (\<lambda>row. ''_stdlib/'' @ fst row) ` set (plan_stdlib plan)"
proof -
  have keys: "fst ` set (fold (\<lambda>(k, v). AList.update k v) kvs d) = fst ` set d \<union> fst ` set kvs"
    for kvs and d :: "(string, string) dict"
    by (induction kvs arbitrary: d) (simp_all add: dom_update case_prod_unfold)
  show ?thesis unfolding expected_def set_map keys by (auto simp: image_Un image_image case_prod_unfold simp del: append.simps)
qed

lemma planned_unit_specs:
  fixes i dependencies
  assumes "planned installs u"
  defines "ss \<equiv> unit_specs i dependencies (zip (unit_stages u) tool_names)"
  shows "map spec_output ss = map command_output (unit_stages u)"
    and "map spec_id ss = map (stage_id i) [''convert'', ''opt'', ''codegen'']"
    and "list_all (\<lambda>s. normal_path (spec_id s) \<and> normal_path (spec_cache s) \<and> spec_tool s \<in> set tool_names) ss"
  using assms
  by (simp_all add: planned_def unit_commands_def Let_def tool_names_def stage_id_normal normal_single part_ok_def)

lemma indexed_outputs:
  "list_all (planned installs) us \<Longrightarrow>
   map spec_output (indexed_specs names i us) = concat (map (\<lambda>u. map command_output (unit_stages u)) us)"
  by (induction us arbitrary: i) (simp_all add: planned_unit_specs[of installs])

lemma indexed_ids:
  "list_all (planned installs) us \<Longrightarrow>
   map spec_id (indexed_specs names i us) =
     concat (map (\<lambda>j. map (stage_id j) [''convert'', ''opt'', ''codegen'']) [i..<i + length us])"
proof (induction us arbitrary: i)
  case (Cons u us)
  have "[i..<i + length (u # us)] = i # [Suc i..<Suc i + length us]" by (simp add: upt_conv_Cons del: upt_Suc)
  with Cons.IH[of "Suc i"] Cons.prems show ?case
    by (simp add: planned_unit_specs(2)[of installs] del: upt_Suc)
qed simp

lemma indexed_checks:
  "list_all (planned installs) us \<Longrightarrow>
   list_all (\<lambda>s. normal_path (spec_id s) \<and> normal_path (spec_cache s) \<and> spec_tool s \<in> set tool_names)
     (indexed_specs names i us)"
  by (induction us arbitrary: i) (simp_all add: planned_unit_specs[of installs])

lemma indexed_ids_distinct:
  assumes "list_all (planned installs) us"
  shows "distinct (map spec_id (indexed_specs names i us))"
  unfolding indexed_ids[OF assms]
proof (rule distinct_concat)
  let ?rows = "map (\<lambda>j. map (stage_id j) [''convert'', ''opt'', ''codegen'']) [i..<i + length us]"
  show "distinct ?rows"
    by (auto simp: distinct_map inj_on_def dest: stage_id_inj)
  show "distinct row" if "row \<in> set ?rows" for row
    using that by (auto dest: stage_id_inj)
  show "set row \<inter> set row' = {}" if "row \<in> set ?rows" "row' \<in> set ?rows" "row \<noteq> row'" for row row'
    using that by (auto dest!: stage_id_inj)
qed

text \<open>Outputs are among the written files, so they are distinct and are no inputs.\<close>

lemma outputs_written:
  "set (concat (map (\<lambda>u. map command_output (unit_stages u)) us)) \<subseteq> set (all_written us)"
  by (auto simp: all_written_def written_def)

lemma outputs_distinct:
  "distinct (all_written us) \<Longrightarrow> distinct (concat (map (\<lambda>u. map command_output (unit_stages u)) us))"
proof (induction us)
  case (Cons u us)
  have "distinct (map command_output cs)" if "distinct (written d cs)" for d cs
    using that unfolding written_def by (induction cs) auto
  moreover have "set (map command_output (unit_stages u)) \<subseteq> set (written (unit_directory u) (unit_stages u))"
    by (auto simp: written_def)
  ultimately show ?case
    using Cons outputs_written[of us] by (auto simp: all_written_def) blast+
qed simp

lemma output_names_ok:
  assumes "planned installs u" and "n \<in> set (map command_output (unit_stages u))"
  shows "source_name_ok n" and "n = ''.'' \<longleftrightarrow> \<not> normal_path n" and "\<not> prefix ''_stdlib/'' n"
proof -
  have "source_name_ok n"
  proof -
    have join: "source_name_ok (path_join (unit_directory u) x)" if "part_ok x" "x \<noteq> ''_stdlib''" for x
      using assms(1) source_name_join[OF _ that] by (simp add: source_name_ok_def[of "path_join _ _"] planned_def)
    have "part_ok ''raw.ir''" "part_ok ''optimized.ir''" by (simp_all add: part_ok_def)
    note joins = join[OF this(1)] join[OF this(2)]
    from assms have "n = path_join (unit_directory u) ''raw.ir'' \<or> n = path_join (unit_directory u) ''optimized.ir'' \<or>
        n = unit_output u"
      using unit_output_names(1)[of u installs] by (simp add: planned_def)
    then show ?thesis using joins assms(1) by (elim disjE) (simp_all add: planned_def)
  qed
  moreover have "\<not> normal_path ''.''" using normal_path_facts(5) by blast
  moreover have "\<not> prefix ''_stdlib/'' ''.''" by simp
  ultimately show "source_name_ok n" "n = ''.'' \<longleftrightarrow> \<not> normal_path n" "\<not> prefix ''_stdlib/'' n"
    using not_below_stdlib[of n] by (auto simp: source_name_ok_def)
qed

text \<open>What is left to check when the stages of a plan reach the executor.\<close>

lemma plan_build_Inr:
  assumes "plan_build pf b m = Inr plan"
  obtains bound st where "foldE (bind_input pf b) [] (source_inputs m) = Inr bound"
    and "map fst (plan_tools plan) = tool_names" and "plan_inputs plan = source_inputs m"
    and "planned_units (map fst bound) (plan_tools plan) (plan_units plan, st)"
    and "checkE (check_role (map fst bound) st) (plan_rtl plan) = Inr ()"
  using assms unfolding plan_build_def
  by (auto simp: bindE_Inr dest!: plan_units_inv resolve_tools_names)

lemma source_specs_accepted:
  assumes plan: "plan_build pf b m = Inr plan" and rows: "list_all (normal_path \<circ> fst) (source_inputs m)"
  shows "specifications (source_specs plan) (map fst (expected plan)) (map fst (plan_tools plan)) = Inr (source_specs plan) \<longleftrightarrow>
     plan_units plan \<noteq> [] \<and>
     set (map spec_output (source_specs plan)) \<inter>
       ({''.'', ''source-build.json''} \<union> set reserved_names \<union>
        set (concat (map (diagnostic_names \<circ> spec_id) (source_specs plan)))) = {} \<and>
     set (concat (map (diagnostic_names \<circ> spec_id) (source_specs plan))) \<inter> set (map fst (expected plan)) = {}"
    (is "?accepted \<longleftrightarrow> ?free")
proof -
  obtain bound products where bound: "foldE (bind_input pf b) [] (source_inputs m) = Inr bound"
    and installs: "map fst (plan_tools plan) = tool_names" and inputs: "plan_inputs plan = source_inputs m"
    and units: "planned_units (map fst bound) (plan_tools plan) (plan_units plan, products)"
    using plan by (rule plan_build_Inr)
  let ?us = "plan_units plan" and ?specs = "source_specs plan"
  let ?outs = "concat (map (\<lambda>u. map command_output (unit_stages u)) ?us)"
  from units have planned: "list_all (planned (plan_tools plan)) ?us" and dist: "distinct (all_written ?us)"
    and free: "set (all_written ?us) \<inter> set (map fst bound) = {}"
    by (auto simp: planned_units_def)
  have outs: "map spec_output ?specs = ?outs"
    unfolding source_specs_def by (rule indexed_outputs[OF planned])
  have ids: "distinct (map spec_id ?specs)"
    unfolding source_specs_def by (rule indexed_ids_distinct[OF planned])
  have checks: "list_all (\<lambda>s. normal_path (spec_id s) \<and> normal_path (spec_cache s) \<and> spec_tool s \<in> set tool_names) ?specs"
    unfolding source_specs_def by (rule indexed_checks[OF planned])
  have names: "n = ''.'' \<longleftrightarrow> \<not> normal_path n" "\<not> prefix ''_stdlib/'' n" if "n \<in> set ?outs" for n
    using that planned output_names_ok by (fastforce simp: list_all_iff)+
  have bound_names: "fst ` set (plan_inputs plan) = set (map fst bound)"
  proof -
    have "map fst bound = map (path_string \<circ> fst) (source_inputs m)" using bind_inputs_names[OF bound] by simp
    moreover have "map (path_string \<circ> fst) (source_inputs m) = map fst (source_inputs m)"
      using rows normal_path_facts(4) by (auto simp: list_all_iff)
    ultimately show ?thesis using inputs by (metis list.set_map)
  qed
  have inputs_free: "set ?outs \<inter> set (map fst (expected plan)) = set ?outs \<inter> {''source-build.json''}"
  proof -
    have "n \<notin> (\<lambda>row. ''_stdlib/'' @ fst row) ` set (plan_stdlib plan)" if "n \<in> set ?outs" for n
      using names(2)[OF that] by (auto simp: prefix_def)
    moreover have "set ?outs \<inter> set (map fst bound) = {}" using outputs_written free by blast
    ultimately show ?thesis unfolding expected_names bound_names by blast
  qed
  have normal: "list_all (\<lambda>s. normal_path (spec_output s)) ?specs \<longleftrightarrow> ''.'' \<notin> set ?outs"
  proof -
    have "list_all (\<lambda>s. normal_path (spec_output s)) ?specs \<longleftrightarrow> (\<forall>n\<in>set ?outs. normal_path n)"
      using outs by (metis (no_types, lifting) list.pred_map list_all_iff comp_apply list.pred_cong)
    with names(1) show ?thesis by blast
  qed
  have empty: "?specs = [] \<longleftrightarrow> ?us = []"
  proof -
    have "unit_stages u \<noteq> []" if "u \<in> set ?us" for u
      using that planned by (auto simp: list_all_iff planned_def unit_commands_def Let_def)
    then have "?outs = [] \<longleftrightarrow> ?us = []" by (cases ?us) auto
    with outs show ?thesis by (metis map_is_Nil_conv)
  qed
  have all: "list_all (\<lambda>s. normal_path (spec_id s) \<and> normal_path (spec_output s) \<and> normal_path (spec_cache s) \<and>
      spec_tool s \<in> set tool_names) ?specs \<longleftrightarrow> ''.'' \<notin> set ?outs"
    using checks unfolding normal[symmetric] by (auto simp: list_all_iff)
  have sets: "''.'' \<notin> A \<and> A \<inter> (I \<union> G \<union> R) = {} \<longleftrightarrow> A \<inter> ({''.'', ''source-build.json''} \<union> R \<union> G) = {}"
    if "A \<inter> I = A \<inter> {''source-build.json''}" for A I G R :: "string set"
    using that by blast
  show ?thesis
    unfolding specifications_iff stages_ok_def installs all outs
    using ids outputs_distinct[OF dist] sets[OF inputs_free] empty by metis
qed

lemma normalize_rtl_names:
  assumes "normalize_rtl rows = Inr rtl"
  shows "\<forall>(role, paths)\<in>set rtl. source_name_ok role \<and> list_all source_name_ok paths"
proof -
  let ?I = "\<lambda>d. \<forall>(role, paths)\<in>set d. source_name_ok role \<and> list_all source_name_ok paths"
  show ?thesis
  proof (rule foldE_invariant[OF assms[unfolded normalize_rtl_def], of ?I])
    fix d row d'
    assume I: "?I d" and "(case row of (role, paths) \<Rightarrow> bindE (source_relative role)
      (\<lambda>role. bindE (mapE source_relative paths) (\<lambda>paths. Inr (AList.update role paths d)))) = Inr d'"
    then obtain role paths raws where "source_name_ok role" "mapE source_relative raws = Inr paths"
      "d' = AList.update role paths d"
      by (auto simp: bindE_Inr dest: source_relative_ok split: prod.splits)
    moreover from this(2) have "list_all source_name_ok paths"
      by (auto simp: mapE_Inr list_all2_conv_all_nth list_all_length dest: source_relative_ok)
    moreover have "set (AList.update role paths d) \<subseteq> insert (role, paths) (set d)"
      by (induction d) auto
    ultimately show "?I d'" using I by blast
  qed simp
qed

lemma plan_rtl_names:
  assumes "plan_build pf b m = Inr plan" and "(role, paths) \<in> set (plan_rtl plan)"
  shows "source_name_ok role" and "list_all source_name_ok paths"
  using assms normalize_rtl_names unfolding plan_build_def by (fastforce simp: bindE_Inr)+

section \<open>Portable listings\<close>

text \<open>Following a relative path: \<open>..\<close> leaves the directory entered last.\<close>

fun follow :: "string list \<Rightarrow> string list \<Rightarrow> string list" where
  "follow at [] = at"
| "follow at (p # ps) = follow (if p = ''..'' then butlast at else at @ [p]) ps"

lemma common_length_take: "take (common_length a b) a = take (common_length a b) b \<and> common_length a b \<le> length a \<and> common_length a b \<le> length b"
  by (induction a b rule: common_length.induct) auto

lemma follow_up: "n \<le> length at \<Longrightarrow> follow at (replicate n ''..'' @ ps) = follow (take (length at - n) at) ps"
proof (induction n arbitrary: at)
  case (Suc n)
  then have "follow (butlast at) (replicate n ''..'' @ ps) = follow (take (length (butlast at) - n) (butlast at)) ps"
    by (intro Suc.IH) simp
  moreover have "take (length (butlast at) - n) (butlast at) = take (length at - Suc n) at"
    by (simp add: butlast_conv_take min_def)
  ultimately show ?case by simp
qed simp

lemma follow_down: "''..'' \<notin> set ps \<Longrightarrow> follow at ps = at @ ps"
  by (induction ps arbitrary: at) auto

lemma relpath_parts:
  assumes "''..'' \<notin> set (path_parts path)" and "''..'' \<notin> set (path_parts start)"
  defines "k \<equiv> common_length (path_parts path) (path_parts start)"
  shows "path_parts (relpath path start) =
    replicate (length (path_parts start) - k) ''..'' @ drop k (path_parts path)"
proof -
  let ?parts = "replicate (length (path_parts start) - k) ''..'' @ drop k (path_parts path)"
  have clean: "list_all (\<lambda>w. w \<noteq> [] \<and> w \<noteq> ''.'' \<and> CHR ''/'' \<notin> set w) ?parts"
    using path_parts_clean[of _ path] by (auto simp: list_all_iff dest: in_set_dropD)
  show ?thesis
  proof (cases "?parts = []")
    case True
    then show ?thesis by (simp add: relpath_def Let_def k_def)
  next
    case False
    with path_parts_join[OF clean] show ?thesis by (simp add: relpath_def Let_def k_def)
  qed
qed

lemma follow_relpath:
  assumes "''..'' \<notin> set (path_parts path)" and "''..'' \<notin> set (path_parts start)"
  shows "follow (path_parts start) (path_parts (relpath path start)) = path_parts path"
proof -
  let ?a = "path_parts path" and ?b = "path_parts start"
  let ?k = "common_length ?a ?b"
  have k: "take ?k ?a = take ?k ?b" "?k \<le> length ?b" using common_length_take[of ?a ?b] by auto
  have "follow ?b (path_parts (relpath path start)) = follow (take ?k ?b) (drop ?k ?a)"
    unfolding relpath_parts[OF assms] using k(2) by (subst follow_up) auto
  also have "\<dots> = take ?k ?a @ drop ?k ?a"
    using assms(1) k(1) by (subst follow_down) (auto dest: in_set_dropD)
  finally show ?thesis by simp
qed

end
