(* ===== verification/Build_Flat.thy ===== *)
theory Build_Flat
  imports Build_Facts
begin

text \<open>
  The flat DSLX recipe \<open>build\<close> of \<open>priv/tools/compile_xls.py\<close>: its option checks, its code generation
  flags, its three stages over frozen inputs and the publication of their products.
\<close>

section \<open>Code generation flags\<close>

definition option_name :: "string \<Rightarrow> string" where
  "option_name flag = takeWhile (\<lambda>c. c \<noteq> CHR ''='') flag"

definition owned_options :: "string list" where
  "owned_options = [''--ram_configurations'', ''--xc7_delay_table'', ''--module_name'', ''--output_verilog_path'']"

definition checked_codegen_flags :: "string list \<Rightarrow> (build_error, string list) result" where
  "checked_codegen_flags flags =
     (if list_ex (\<lambda>f. \<not> prefix ''--'' f \<or> CHR 0x00 \<in> set f) flags then Inl Bad_Flags
      else if list_ex (\<lambda>f. option_name f \<in> set owned_options) flags then Inl Owned_Flags
      else Inr flags)"

definition delay_model_flag :: string where "delay_model_flag = ''--delay_model=''"

definition table_flag :: string where
  "table_flag = ''--xc7_delay_table=assets/xc7_delay_table.tsv''"

definition schedules :: "string \<Rightarrow> bool" where
  "schedules f \<longleftrightarrow> prefix ''--additional_channel_delay_ps='' f \<or> prefix ''--worst_case_throughput='' f"

definition selected_model :: "string list \<Rightarrow> string option" where
  "selected_model flags =
     (case filter (prefix delay_model_flag) flags of
        [] \<Rightarrow> None | models \<Rightarrow> Some (drop (length delay_model_flag) (last models)))"

definition with_delay_table :: "string list \<Rightarrow> bool \<Rightarrow> (build_error, string list) result" where
  "with_delay_table flags table =
     (if (selected_model flags = Some ''xc7_7030'') \<noteq> table then Inl Delay_Table_Mismatch
      else if \<not> table then Inr flags
      else Inr (takeWhile (\<lambda>f. \<not> schedules f) flags @ [table_flag] @ dropWhile (\<lambda>f. \<not> schedules f) flags))"

section \<open>Options\<close>

record flat_options =
  flat_name :: string
  top :: string
  source_name :: string
  pipeline_stages :: int
  initiation_interval :: "int option"
  ram_configurations :: "string option"
  delay_model :: string
  channel_delays :: "(string \<times> int) list"
  codegen_flags :: "string list option"
  has_delay_table :: bool
  has_optimizer :: bool

text \<open>\<open>[A-Za-z_]\w*(?::(?:send|recv))?\<close> on ASCII channel names.\<close>

definition channel_name :: "string \<Rightarrow> bool" where
  "channel_name s \<longleftrightarrow> c_identifier s \<or>
     (\<exists>suffix \<in> {'':send'', '':recv''}. suffix = drop (length s - 5) s \<and> c_identifier (take (length s - 5) s))"

definition check_options :: "flat_options \<Rightarrow> (build_error, unit) result" where
  "check_options opt =
     bindE (case codegen_flags opt of
         Some flags \<Rightarrow>
           bindE (ensure (\<not> (pipeline_stages opt \<noteq> 1 \<or> initiation_interval opt \<noteq> None \<or>
                    delay_model opt \<noteq> ''unit'' \<or> channel_delays opt \<noteq> [])) Bad_Flags) (\<lambda>_.
           bindE (checked_codegen_flags flags) (\<lambda>_. Inr ()))
       | None \<Rightarrow> ensure ((delay_model opt = ''xc7_7030'') = has_delay_table opt) Delay_Table_Mismatch) (\<lambda>_.
     bindE (ensure (c_identifier (flat_name opt)) Bad_Build_Name) (\<lambda>_.
     bindE (ensure (list_all (\<lambda>(channel, delay). channel_name channel \<and> 0 \<le> delay) (channel_delays opt)) Bad_Flags) (\<lambda>_.
     ensure (\<not> (pipeline_stages opt < 1 \<or> (case initiation_interval opt of None \<Rightarrow> False | Some i \<Rightarrow> i < 1)))
       Bad_Flags)))"

definition codegen_arguments :: "flat_options \<Rightarrow> (build_error, string list) result" where
  "codegen_arguments opt =
     bindE (case codegen_flags opt of
         Some flags \<Rightarrow> checked_codegen_flags flags
       | None \<Rightarrow> Inr (
           [''--pipeline_stages='' @ show_int (pipeline_stages opt), ''--delay_model='' @ delay_model opt,
            ''--flop_inputs=false'', ''--flop_outputs=true'', ''--use_system_verilog=false'', ''--reset=reset'',
            ''--fifo_module=''] @
           (if channel_delays opt = [] then []
            else [''--additional_channel_delay_ps='' @ comma_separated
              (map (\<lambda>(c, d). c @ ''='' @ show_int d) (sort_key fst (channel_delays opt)))]) @
           (case initiation_interval opt of None \<Rightarrow> []
              | Some i \<Rightarrow> [''--worst_case_throughput='' @ show_int i]))) (\<lambda>codegen.
     bindE (with_delay_table codegen (has_delay_table opt)) (\<lambda>codegen.
     Inr (codegen @ (case ram_configurations opt of None \<Rightarrow> []
        | Some rams \<Rightarrow> [''--ram_configurations='' @ rams]))))"

section \<open>Stages\<close>

record flat_files =
  dslx_files :: "(string \<times> string) list"
  stdlib_files :: "(string \<times> string) list"
  asset_files :: "(string \<times> string) list"

text \<open>
  The file arguments: sources by name, the standard library under \<open>_stdlib/\<close>, assets under
  \<open>assets/\<close>. The delay table and the optimizer pipeline are assets with reserved names.
\<close>

definition check_assets ::
  "flat_options \<Rightarrow> flat_files \<Rightarrow> string option \<Rightarrow> string option \<Rightarrow> (build_error, (string, string) dict) result"
where
  "check_assets opt files table pipeline =
     (let assets = fold (\<lambda>(k, v). AList.update k v) (asset_files files) [];
          sources = map fst (dslx_files files) in
      bindE (ensure (source_name opt \<in> set sources) (Missing_File (source_name opt))) (\<lambda>_.
      bindE (ensure (\<not> (length assets \<noteq> length (asset_files files) \<or> list_ex (\<lambda>(k, _). k \<in> set sources) assets))
        (Reserved_Input ''assets'')) (\<lambda>_.
      bindE (case table of None \<Rightarrow> Inr assets
         | Some bytes \<Rightarrow> bindE (ensure (''xc7_delay_table.tsv'' \<notin> fst ` set assets \<and>
               ''xc7_delay_table.tsv'' \<notin> set sources) (Reserved_Input ''xc7_delay_table.tsv''))
             (\<lambda>_. Inr (AList.update ''xc7_delay_table.tsv'' bytes assets))) (\<lambda>assets.
      case pipeline of None \<Rightarrow> Inr assets
         | Some bytes \<Rightarrow> bindE (ensure (''optimizer_pipeline.txtpb'' \<notin> fst ` set assets \<and>
               ''optimizer_pipeline.txtpb'' \<notin> set sources) (Reserved_Input ''optimizer_pipeline.txtpb''))
             (\<lambda>_. Inr (AList.update ''optimizer_pipeline.txtpb'' bytes assets))))))"

definition flat_inputs :: "flat_files \<Rightarrow> (string, string) dict \<Rightarrow> (string \<times> string) list" where
  "flat_inputs files assets = dslx_files files @
     map (\<lambda>(path, bytes). (''_stdlib/'' @ path, bytes)) (stdlib_files files) @
     map (\<lambda>(asset, bytes). (''assets/'' @ asset, bytes)) assets"

definition flat_stages :: "flat_options \<Rightarrow> flat_files \<Rightarrow> string list \<Rightarrow> stage_spec list" where
  "flat_stages opt files codegen =
     (let name = flat_name opt; ir = name @ ''.ir''; optimized = name @ ''.opt.ir'';
          leaf = (\<lambda>path. (path, Leaf path)) in
      [\<lparr>spec_id = ''ir'', spec_cache = ''ir'', spec_tool = ''ir_converter_main'',
         spec_arguments = [''--warnings_as_errors=false'', ''--dslx_path=.'', ''--dslx_stdlib_path=_stdlib'',
           ''--top='' @ top opt, source_name opt],
         spec_output = ir,
         spec_inputs = [(''sources'', Group (map (leaf \<circ> fst) (dslx_files files))),
           (''stdlib'', Group (map (\<lambda>(path, _). (path, Leaf (''_stdlib/'' @ path))) (stdlib_files files)))]\<rparr>,
       \<lparr>spec_id = ''opt'', spec_cache = ''opt'', spec_tool = ''opt_main'',
         spec_arguments = (if has_optimizer opt
             then [''--pipeline_textproto=assets/optimizer_pipeline.txtpb''] else []) @ [ir],
         spec_output = optimized,
         spec_inputs = leaf ir # (if has_optimizer opt then [leaf ''assets/optimizer_pipeline.txtpb''] else [])\<rparr>,
       \<lparr>spec_id = ''codegen'', spec_cache = ''codegen'', spec_tool = ''codegen_main'',
         spec_arguments = codegen @ [optimized],
         spec_output = name @ ''.v'',
         spec_inputs = leaf optimized #
           (if has_delay_table opt then [leaf ''assets/xc7_delay_table.tsv''] else [])\<rparr>])"

section \<open>The recipe\<close>

definition hash_file :: "platform \<Rightarrow> snapshot \<Rightarrow> string \<Rightarrow> (build_error, json) result" where
  "hash_file pf snap path = (case snap path of
     None \<Rightarrow> Inl (Missing_File path) | Some bytes \<Rightarrow> Inr (JStr (sha pf bytes)))"

text \<open>\<open>{key: sha(snapshot / (prefix + key)) for key in keys}\<close>.\<close>

definition hash_table ::
  "platform \<Rightarrow> snapshot \<Rightarrow> string \<Rightarrow> string list \<Rightarrow> (build_error, (string, json) dict) result" where
  "hash_table pf snap root keys =
     mapE (\<lambda>k. bindE (hash_file pf snap (root @ k)) (\<lambda>h. Inr (k, h))) keys"

record flat_request =
  flat_options :: flat_options
  flat_files :: flat_files
  flat_assets :: "(string, string) dict"
  flat_metadata :: "(string, json) dict"
  tool_hashes :: "(string \<times> json) list"

definition flat_prepare ::
  "platform \<Rightarrow> flat_request \<Rightarrow> snapshot \<Rightarrow> (build_error, stage_spec list \<times> snapshot) result" where
  "flat_prepare pf req snap = (let opt = flat_options req; files = flat_files req in
     bindE (hash_table pf snap [] (map fst (dslx_files files))) (\<lambda>sources.
     bindE (hash_table pf snap ''_stdlib/'' (map fst (stdlib_files files))) (\<lambda>stdlib.
     bindE (hash_table pf snap ''assets/'' (map fst (flat_assets req))) (\<lambda>assets.
     bindE (codegen_arguments opt) (\<lambda>codegen.
     let stages = flat_stages opt files codegen;
         inputs = JObj ([(''sources'', JObj sources), (''stdlib'', JObj stdlib), (''assets'', JObj assets),
           (''metadata'', JObj (flat_metadata req)), (''codegen'', JArr (map JStr codegen))] @
           (if has_optimizer opt
            then [(''optimizer'', JArr [JStr ''--pipeline_textproto=assets/optimizer_pipeline.txtpb''])] else []) @
           [(''tools'', JObj (tool_hashes req)), (''convert'', JArr (map JStr (spec_arguments (hd stages))))])
     in Inr (stages, saved ''inputs.json'' (render pf inputs) snap))))))"

definition is_rtl :: "string \<times> json \<Rightarrow> bool" where
  "is_rtl kv = suffix ''.v'' (fst kv)"

definition merge :: "(string, json) dict \<Rightarrow> (string, json) dict \<Rightarrow> (string, json) dict" where
  "merge a b = fold (\<lambda>(k, v). AList.update k v) b a"

definition object_keys :: "json option \<Rightarrow> (build_error, string list) result" where
  "object_keys v = (case v of Some (JObj kvs) \<Rightarrow> Inr (map fst kvs) | _ \<Rightarrow> Inl (Callback ''manifest''))"

text \<open>
  The manifest before the application's metadata and \<open>finalize\<close>. The digests of the inputs are those
  \<open>prepare\<close> recorded, when the snapshot still held exact copies.
\<close>

definition recorded :: "platform \<Rightarrow> (string \<times> string) list \<Rightarrow> (string, json) dict" where
  "recorded pf kvs = map (\<lambda>(k, bytes). (k, JStr (sha pf bytes))) kvs"

definition flat_manifest ::
  "platform \<Rightarrow> flat_request \<Rightarrow> snapshot \<Rightarrow> (string \<times> stage_run) list \<Rightarrow> (build_error, (string, json) dict) result"
where
  "flat_manifest pf req snap runs = (let opt = flat_options req; files = flat_files req in
     bindE (hash_table pf snap [] (map (run_output \<circ> snd) runs)) (\<lambda>artifacts.
     bindE (codegen_arguments opt) (\<lambda>codegen.
     let assets = recorded pf (flat_assets req) in
     Inr [(''schema'', JInt 1), (''recipe'', JInt 1), (''tools'', JObj (tool_hashes req)),
       (''sources'', JObj (recorded pf (dslx_files files))),
       (''stdlib'', JObj (map (\<lambda>(k, v). (''xls/dslx/stdlib/'' @ k, v)) (recorded pf (stdlib_files files)))),
       (''options'', JObj ([(''top'', JStr (top opt)), (''codegen'', JArr (map JStr codegen))] @
          (if has_optimizer opt
           then [(''optimizer'', JArr [JStr ''--pipeline_textproto=assets/optimizer_pipeline.txtpb''])] else []))),
       (''assets'', JObj assets), (''artifacts'', JObj artifacts),
       (''rtl'', JObj (filter is_rtl (merge artifacts assets))),
       (''stages'', JObj (map (\<lambda>(label, run). (label, JStr (entry_name (run_result run)))) runs))])))"

text \<open>
  \<open>finish\<close>: \<open>custom\<close> is the caller's \<open>finalize\<close> on the snapshot and the manifest, or the identity.
\<close>

definition flat_finish ::
  "platform \<Rightarrow> flat_request \<Rightarrow>
   (snapshot \<Rightarrow> (string, json) dict \<Rightarrow> (build_error, (string, json) dict \<times> snapshot) result) \<Rightarrow>
   snapshot \<Rightarrow> (string \<times> stage_run) list \<Rightarrow> (build_error, publication \<times> snapshot) result" where
  "flat_finish pf req custom snap runs =
     (let assets = map fst (flat_assets req); name = flat_name (flat_options req) @ ''.build.json'' in
      bindE (flat_manifest pf req snap runs) (\<lambda>base.
      bindE (ensure (\<not> list_ex (\<lambda>(k, _). k \<in> set (map fst base)) (flat_metadata req)) Publication_Shadow) (\<lambda>_.
      bindE (custom snap (merge base (flat_metadata req))) (\<lambda>(manifest, snap).
      bindE (object_keys (map_of manifest ''artifacts'')) (\<lambda>artifacts.
      bindE (hash_table pf snap [] artifacts) (\<lambda>artifact_hashes.
      bindE (hash_table pf snap ''assets/'' assets) (\<lambda>asset_hashes.
      bindE (ensure (\<not> list_ex (\<lambda>a. a \<in> set artifacts \<or> a = name) assets) Publication_Shadow) (\<lambda>_.
      let manifest = AList.update ''rtl'' (JObj (filter is_rtl (merge artifact_hashes asset_hashes)))
            (AList.update ''assets'' (JObj asset_hashes)
            (AList.update ''artifacts'' (JObj artifact_hashes) manifest));
          selected = map (\<lambda>a. (a, a)) artifacts @ map (\<lambda>a. (a, ''assets/'' @ a)) assets @
            map (\<lambda>(path, _). (''sources/'' @ path, path)) (dslx_files (flat_files req)) @
            map (\<lambda>(path, _). (''stdlib/'' @ path, ''_stdlib/'' @ path)) (stdlib_files (flat_files req))
      in Inr (\<lparr>manifest_name = name, manifest = JObj manifest, publication_files = selected\<rparr>, snap)))))))))"

text \<open>The whole adapter: option and asset checks, then the executor with the recipe.\<close>

definition build ::
  "platform \<Rightarrow> environment \<Rightarrow> request \<Rightarrow> flat_request \<Rightarrow> string option \<Rightarrow> string option \<Rightarrow>
   (snapshot \<Rightarrow> (string, json) dict \<Rightarrow> (build_error, (string, json) dict \<times> snapshot) result) \<Rightarrow>
   world \<Rightarrow> (build_error, string) result \<times> world" where
  "build pf env base req table pipeline custom w =
     (case bindE (check_options (flat_options req)) (\<lambda>_.
           check_assets (flat_options req) (flat_files req) table pipeline) of
        Inl e \<Rightarrow> (Inl e, w)
      | Inr assets \<Rightarrow>
        let req = req\<lparr>flat_assets := assets\<rparr> in
        execute pf env
          (base\<lparr>build_name := flat_name (flat_options req),
             input_files := flat_inputs (flat_files req) assets, directories := [''assets'']\<rparr>)
          \<lparr>prepare = flat_prepare pf req, finalize = flat_finish pf req custom\<rparr> w)"

section \<open>The recipe is accepted\<close>

lemma c_identifier_chars: "c_identifier s \<Longrightarrow> s \<noteq> [] \<and> list_all word_char s"
  by (auto simp: c_identifier_def split: list.splits)

lemma word_char_special [simp]: "\<not> word_char (CHR ''/'')" "\<not> word_char (CHR ''.'')"
  by (simp_all add: word_char_def in_range_def less_eq_char_def)

lemma c_identifier_plain: "c_identifier s \<Longrightarrow> CHR ''/'' \<notin> set s \<and> CHR ''.'' \<notin> set s"
  using c_identifier_chars[of s] word_char_special by (auto simp: list_all_iff)

lemma c_identifier_normal:
  assumes "c_identifier s" and "CHR ''/'' \<notin> set ext" and "2 \<le> length ext"
  shows "normal_path (s @ ext)"
proof (rule normal_single)
  show "part_ok (s @ ext)"
    using c_identifier_chars[OF assms(1)] c_identifier_plain[OF assms(1)] assms(2,3)
    by (cases s) (auto simp: part_ok_def)
qed

text \<open>A frozen input of the recipe is a DSLX source, a standard library file or an asset.\<close>

definition flat_input_name :: "string \<Rightarrow> bool" where
  "flat_input_name n \<longleftrightarrow> suffix ''.x'' n \<or> prefix ''_stdlib/'' n \<or> prefix ''assets/'' n"

lemma flat_input_names:
  assumes "list_all (suffix ''.x'' \<circ> fst) (dslx_files files)"
  shows "list_all (flat_input_name \<circ> fst) (flat_inputs files assets)"
  using assms by (auto simp: flat_inputs_def flat_input_name_def list_all_iff)

lemma flat_input_mark: "flat_input_name n \<Longrightarrow> last n = CHR ''x'' \<or> CHR ''/'' \<in> set n"
  by (auto simp: flat_input_name_def suffix_def prefix_def)

text \<open>Products, diagnostics and inputs are told apart by their last character and their slashes.\<close>

lemma flat_stages_ok:
  assumes name: "c_identifier (flat_name opt)" and inputs: "list_all flat_input_name inputs"
  shows "stages_ok (flat_stages opt files codegen) inputs [''ir_converter_main'', ''opt_main'', ''codegen_main'']"
proof -
  let ?n = "flat_name opt"
  let ?outs = "[?n @ ''.ir'', ?n @ ''.opt.ir'', ?n @ ''.v'']"
  let ?ids = "[''ir'', ''opt'', ''codegen'']"
  let ?diags = "concat (map diagnostic_names ?ids)"
  have outs: "map spec_output (flat_stages opt files codegen) = ?outs"
    and ids: "map spec_id (flat_stages opt files codegen) = ?ids"
    by (simp_all add: flat_stages_def Let_def)
  have diags: "concat (map (diagnostic_names \<circ> spec_id) (flat_stages opt files codegen)) = ?diags"
    by (simp add: flat_stages_def Let_def)
  have o: "last f \<notin> {CHR ''x'', CHR ''g'', CHR ''n''} \<and> CHR ''/'' \<notin> set f" if "f \<in> set ?outs" for f
    using that c_identifier_plain[OF name] by auto
  have d: "last f \<in> {CHR ''g'', CHR ''n''} \<and> last f \<noteq> CHR ''x'' \<and> CHR ''/'' \<notin> set f"
    if "f \<in> set ?diags \<union> set reserved_names" for f
    using that by (auto simp: diagnostic_names_def reserved_names_def log_names_def)
  have i: "last f = CHR ''x'' \<or> CHR ''/'' \<in> set f" if "f \<in> set inputs" for f
    using that inputs flat_input_mark by (auto simp: list_all_iff)
  have dist: "distinct ?outs" by simp
  have "set ?outs \<inter> (set inputs \<union> set ?diags \<union> set reserved_names) = {}"
  proof -
    have False if "f \<in> set ?outs" "f \<in> set inputs \<union> (set ?diags \<union> set reserved_names)" for f
      using o[OF that(1)] d[of f] i[of f] that(2) by blast
    then show ?thesis by blast
  qed
  moreover have "set ?diags \<inter> set inputs = {}"
  proof -
    have False if "f \<in> set ?diags" "f \<in> set inputs" for f
      using d[of f] i[of f] that by blast
    then show ?thesis by blast
  qed
  moreover have "list_all (\<lambda>s. normal_path (spec_id s) \<and> normal_path (spec_output s) \<and> normal_path (spec_cache s) \<and>
      spec_tool s \<in> set [''ir_converter_main'', ''opt_main'', ''codegen_main'']) (flat_stages opt files codegen)"
    using c_identifier_normal[OF name]
    by (simp add: flat_stages_def Let_def normal_single part_ok_def)
  ultimately show ?thesis
    unfolding stages_ok_def outs ids diags using dist by (simp add: flat_stages_def Let_def)
qed

section \<open>The delay table\<close>

lemma with_delay_table_Inr:
  "with_delay_table flags table = Inr result \<longleftrightarrow>
     (selected_model flags = Some ''xc7_7030'') = table \<and>
     (if table then \<exists>before after. flags = before @ after \<and> result = before @ [table_flag] @ after \<and>
        list_all (\<lambda>f. \<not> schedules f) before \<and> (after = [] \<or> schedules (hd after))
      else result = flags)"
proof (cases table)
  case True
  have "\<exists>before after. flags = before @ after \<and>
      takeWhile (\<lambda>f. \<not> schedules f) flags @ [table_flag] @ dropWhile (\<lambda>f. \<not> schedules f) flags =
        before @ [table_flag] @ after \<and>
      list_all (\<lambda>f. \<not> schedules f) before \<and> (after = [] \<or> schedules (hd after))"
    using hd_dropWhile[of "\<lambda>f. \<not> schedules f" flags]
    by (intro exI[of _ "takeWhile (\<lambda>f. \<not> schedules f) flags"]
        exI[of _ "dropWhile (\<lambda>f. \<not> schedules f) flags"] conjI)
      (auto simp: list_all_iff dest: set_takeWhileD)
  moreover have "takeWhile (\<lambda>f. \<not> schedules f) (before @ after) = before \<and>
      dropWhile (\<lambda>f. \<not> schedules f) (before @ after) = after"
    if "list_all (\<lambda>f. \<not> schedules f) before" "after = [] \<or> schedules (hd after)" for before after
    using that by (cases after) (auto simp: list_all_iff takeWhile_append2 dropWhile_append2)
  ultimately have "result = takeWhile (\<lambda>f. \<not> schedules f) flags @ [table_flag] @ dropWhile (\<lambda>f. \<not> schedules f) flags \<longleftrightarrow>
      (\<exists>before after. flags = before @ after \<and> result = before @ [table_flag] @ after \<and>
        list_all (\<lambda>f. \<not> schedules f) before \<and> (after = [] \<or> schedules (hd after)))"
    by metis
  with True show ?thesis by (auto simp: with_delay_table_def)
next
  case False
  then show ?thesis by (auto simp: with_delay_table_def)
qed

end
