(* ===== verification/Build_Inputs.thy ===== *)
theory Build_Inputs
  imports Build_Paths
begin

text \<open>
  Input trees (\<open>tree_files\<close> of \<open>priv/tools/compile_xls.py\<close>): every file of some suffix below a directory, links
  to directories followed, as the executor binds the installed standard library. A file system is given by its
  real directories with their entries, an entry that is a directory by the real directory it leads to, so that
  links may form cycles; the search refuses them instead of dropping imports.
\<close>

section \<open>The inventory\<close>

datatype tree_entry = Subdirectory string | Plain_File | Other_Entry

type_synonym file_tree = "(string \<times> (string \<times> tree_entry) list) list"

text \<open>\<open>str(Path(prefix) / relative)\<close> for the parts of a relative path.\<close>

definition input_key :: "string \<Rightarrow> string list \<Rightarrow> string" where
  "input_key pre rel = path_join pre (join_on (CHR ''/'') rel)"

text \<open>The files found so far: names in the build, with the way to the file from the root.\<close>

type_synonym found = "(string, string list) dict"

definition add_found :: "found \<Rightarrow> found \<Rightarrow> found" where
  "add_found new acc = fold (\<lambda>(k, v). AList.update k v) new acc"

function collect_files :: "file_tree \<Rightarrow> string list \<Rightarrow> string \<Rightarrow> string list \<Rightarrow> string list \<Rightarrow> string \<Rightarrow> (build_error, found) result"
  and collect_entries :: "file_tree \<Rightarrow> string list \<Rightarrow> string \<Rightarrow> string list \<Rightarrow> string list \<Rightarrow> found \<Rightarrow> (string \<times> tree_entry) list \<Rightarrow>
    (build_error, found) result" where
  "collect_files fs sfx pre rel ancestors d =
     (if d \<in> set ancestors then Inl (Cyclic_Input rel)
      else case map_of fs d of
          None \<Rightarrow> Inl Missing_Input_Directory
        | Some entries \<Rightarrow> collect_entries fs sfx pre rel (d # ancestors) [] (sort_key fst entries))"
| "collect_entries fs sfx pre rel ancestors acc [] = Inr acc"
| "collect_entries fs sfx pre rel ancestors acc ((name, Subdirectory d) # entries) =
     bindE (collect_files fs sfx pre (rel @ [name]) ancestors d) (\<lambda>sub.
     collect_entries fs sfx pre rel ancestors (add_found sub acc) entries)"
| "collect_entries fs sfx pre rel ancestors acc ((name, Plain_File) # entries) =
     collect_entries fs sfx pre rel ancestors
       (if path_suffix name \<in> set sfx then AList.update (input_key pre (rel @ [name])) (rel @ [name]) acc else acc) entries"
| "collect_entries fs sfx pre rel ancestors acc ((name, Other_Entry) # entries) =
     collect_entries fs sfx pre rel ancestors acc entries"
  by pat_completeness auto
termination
proof (relation "measures [\<lambda>x. case x of
      Inl (fs, _, _, _, ancestors, _) \<Rightarrow> 2 * card (fst ` set fs - set ancestors)
    | Inr (fs, _, _, _, ancestors, _, _) \<Rightarrow> Suc (2 * card (fst ` set fs - set ancestors)),
      \<lambda>x. case x of Inl _ \<Rightarrow> 0 | Inr (_, _, _, _, _, _, entries) \<Rightarrow> length entries]", goal_cases)
  case (2 fs sfx pre rel ancestors d entries)
  then have "fst ` set fs - set (d # ancestors) \<subset> fst ` set fs - set ancestors"
    by (force dest: map_of_SomeD)
  then have "card (fst ` set fs - set (d # ancestors)) < card (fst ` set fs - set ancestors)"
    by (intro psubset_card_mono) auto
  then show ?case by simp
qed auto

text \<open>The whole call: the root is a directory, and a prefix is a normalized name.\<close>

definition tree_files :: "file_tree \<Rightarrow> string option \<Rightarrow> string \<Rightarrow> string list \<Rightarrow> (build_error, found) result" where
  "tree_files fs root pre sfx = (case root of None \<Rightarrow> Inl Missing_Input_Directory
     | Some d \<Rightarrow>
         bindE (ensure (d \<in> fst ` set fs) Missing_Input_Directory) (\<lambda>_.
         bindE (if pre = [] then Inr [] else relative True pre) (\<lambda>_. collect_files fs sfx pre [] [] d)))"

section \<open>What is below a directory\<close>

definition leads :: "file_tree \<Rightarrow> (string \<times> string) set" where
  "leads fs = {(d, d'). \<exists>entries name. map_of fs d = Some entries \<and> (name, Subdirectory d') \<in> set entries}"

inductive file_below :: "file_tree \<Rightarrow> string \<Rightarrow> string list \<Rightarrow> bool" for fs where
  here: "map_of fs d = Some entries \<Longrightarrow> (name, Plain_File) \<in> set entries \<Longrightarrow> file_below fs d [name]"
| deeper: "map_of fs d = Some entries \<Longrightarrow> (name, Subdirectory d') \<in> set entries \<Longrightarrow> file_below fs d' rel \<Longrightarrow>
    file_below fs d (name # rel)"

inductive_cases file_belowE: "file_below fs d rel"

text \<open>
  A file system: every entry that is a directory leads to a known one, and the names in a directory are
  different and are names.
\<close>

definition tree_ok :: "file_tree \<Rightarrow> bool" where
  "tree_ok fs \<longleftrightarrow> list_all (\<lambda>(d, entries). distinct (map fst entries) \<and>
     list_all (\<lambda>(name, e). part_ok name \<and> (case e of Subdirectory d' \<Rightarrow> map_of fs d' \<noteq> None | _ \<Rightarrow> True)) entries) fs"

lemma tree_okD:
  assumes "tree_ok fs" and "map_of fs d = Some entries"
  shows "distinct (map fst entries)" and "(name, e) \<in> set entries \<Longrightarrow> part_ok name"
    and "(name, Subdirectory d') \<in> set entries \<Longrightarrow> \<exists>es. map_of fs d' = Some es"
  using assms map_of_SomeD[OF assms(2)] by (fastforce simp: tree_ok_def list_all_iff)+

lemma file_below_parts: "file_below fs d rel \<Longrightarrow> tree_ok fs \<Longrightarrow> rel \<noteq> [] \<and> list_all part_ok rel"
  by (induction rule: file_below.induct) (auto dest: tree_okD(2))

lemma split_on_append: "split_on d (a @ d # b) = split_on d a @ split_on d b"
proof (induction a)
  case (Cons c a)
  then show ?case by (cases "split_on d a") auto
qed simp

lemma input_key_parts:
  assumes "list_all part_ok rel" and "rel \<noteq> []"
  shows "path_parts (input_key pre rel) = path_parts pre @ rel"
proof -
  have "path_parts (pre @ ''/'' @ join_on (CHR ''/'') rel) = path_parts pre @ path_parts (join_on (CHR ''/'') rel)"
    by (simp add: path_parts_def split_on_append)
  with assms show ?thesis by (simp add: input_key_def path_join_def normal_join)
qed

lemma input_key_inj:
  "list_all part_ok a \<Longrightarrow> a \<noteq> [] \<Longrightarrow> list_all part_ok b \<Longrightarrow> b \<noteq> [] \<Longrightarrow> input_key pre a = input_key pre b \<Longrightarrow> a = b"
  by (metis input_key_parts same_append_eq)

section \<open>Cycles\<close>

declare collect_files.simps [simp del]

lemma no_loop_below:
  "collect_files fs sfx pre rel ancestors d = Inr r \<Longrightarrow>
     (d, x) \<in> (leads fs)\<^sup>* \<Longrightarrow> x \<notin> set ancestors \<and> (x, x) \<notin> (leads fs)\<^sup>+"
  "collect_entries fs sfx pre rel ancestors acc entries = Inr r' \<Longrightarrow> (nm, Subdirectory d') \<in> set entries \<Longrightarrow>
     (d', x) \<in> (leads fs)\<^sup>* \<Longrightarrow> x \<notin> set ancestors \<and> (x, x) \<notin> (leads fs)\<^sup>+"
proof (induction fs sfx pre rel ancestors d and fs sfx pre rel ancestors acc entries arbitrary: r x and r' x nm d'
    rule: collect_files_collect_entries.induct)
  case (1 fs sfx pre rel ancestors d)
  from "1.prems"(1) obtain entries where d: "d \<notin> set ancestors" "map_of fs d = Some entries"
    and run: "collect_entries fs sfx pre rel (d # ancestors) [] (sort_key fst entries) = Inr r"
    by (auto simp: collect_files.simps split: if_splits option.splits)
  have step: "y \<notin> set (d # ancestors) \<and> (y, y) \<notin> (leads fs)\<^sup>+" if "(d, c) \<in> leads fs" "(c, y) \<in> (leads fs)\<^sup>*" for c y
  proof -
    from that(1) d(2) obtain n where "(n, Subdirectory c) \<in> set (sort_key fst entries)" by (auto simp: leads_def)
    from "1.IH"[OF d run this that(2)] show ?thesis .
  qed
  from "1.prems"(2) show ?case
  proof (cases rule: converse_rtranclE)
    case base
    have "(d, d) \<notin> (leads fs)\<^sup>+" using step by (metis list.set_intros(1) tranclD)
    with base d show ?thesis by simp
  next
    case (step c)
    with \<open>\<And>c y. (d, c) \<in> leads fs \<Longrightarrow> (c, y) \<in> (leads fs)\<^sup>* \<Longrightarrow> y \<notin> set (d # ancestors) \<and> (y, y) \<notin> (leads fs)\<^sup>+\<close>
    show ?thesis by (meson list.set_intros(2))
  qed
next
  case (2 fs sfx pre rel ancestors acc)
  then show ?case by simp
next
  case (3 fs sfx pre rel ancestors acc name d entries)
  from "3.prems"(1) obtain sub where sub: "collect_files fs sfx pre (rel @ [name]) ancestors d = Inr sub"
    and rest: "collect_entries fs sfx pre rel ancestors (add_found sub acc) entries = Inr r'" by (auto simp: bindE_Inr)
  from "3.prems"(2) consider "d' = d" | "(nm, Subdirectory d') \<in> set entries" by auto
  then show ?case
  proof cases
    case 1
    with "3.IH"(1)[OF sub] "3.prems"(3) show ?thesis by simp
  next
    case 2
    from "3.IH"(2)[OF sub rest this "3.prems"(3)] show ?thesis .
  qed
next
  case (4 fs sfx pre rel ancestors acc name entries)
  then show ?case by (simp del: split_paired_All)
next
  case (5 fs sfx pre rel ancestors acc name entries)
  then show ?case by simp
qed

lemma loop_when_refused:
  "collect_files fs sfx pre rel ancestors d = Inl e \<Longrightarrow> tree_ok fs \<Longrightarrow> map_of fs d \<noteq> None \<Longrightarrow>
     \<forall>a\<in>set ancestors. (a, d) \<in> (leads fs)\<^sup>+ \<Longrightarrow> \<exists>x. (d, x) \<in> (leads fs)\<^sup>* \<and> (x, x) \<in> (leads fs)\<^sup>+"
  "collect_entries fs sfx pre rel ancestors acc entries = Inl e' \<Longrightarrow> tree_ok fs \<Longrightarrow>
     \<forall>name d'. (name, Subdirectory d') \<in> set entries \<longrightarrow> map_of fs d' \<noteq> None \<and> (\<forall>a\<in>set ancestors. (a, d') \<in> (leads fs)\<^sup>+) \<Longrightarrow>
     \<exists>name d' x. (name, Subdirectory d') \<in> set entries \<and> (d', x) \<in> (leads fs)\<^sup>* \<and> (x, x) \<in> (leads fs)\<^sup>+"
proof (induction fs sfx pre rel ancestors d and fs sfx pre rel ancestors acc entries arbitrary: e and e'
    rule: collect_files_collect_entries.induct)
  case (1 fs sfx pre rel ancestors d)
  show ?case
  proof (cases "d \<in> set ancestors")
    case True
    with "1.prems"(4) show ?thesis by blast
  next
    case False
    from "1.prems"(3) obtain entries where entries: "map_of fs d = Some entries" by blast
    with False "1.prems"(1) have run: "collect_entries fs sfx pre rel (d # ancestors) [] (sort_key fst entries) = Inl e" by (simp add: collect_files.simps)
    have sub: "(d, c) \<in> leads fs \<and> map_of fs c \<noteq> None" if "(n, Subdirectory c) \<in> set entries" for n c
      using that entries tree_okD(3)[OF "1.prems"(2) entries that] by (auto simp: leads_def)
    have "\<forall>n c. (n, Subdirectory c) \<in> set (sort_key fst entries) \<longrightarrow> map_of fs c \<noteq> None \<and>
        (\<forall>a\<in>set (d # ancestors). (a, c) \<in> (leads fs)\<^sup>+)"
      using sub "1.prems"(4) by (auto intro: trancl_into_trancl)
    from "1.IH"[OF False entries run "1.prems"(2) this] sub show ?thesis
      by (auto intro: converse_rtrancl_into_rtrancl)
  qed
next
  case (3 fs sfx pre rel ancestors acc name d entries)
  show ?case
  proof (cases "collect_files fs sfx pre (rel @ [name]) ancestors d")
    case (Inl e1)
    from "3.IH"(1)[OF Inl "3.prems"(2)] "3.prems"(3) show ?thesis by force
  next
    case (Inr sub)
    with "3.prems"(1) have "collect_entries fs sfx pre rel ancestors (add_found sub acc) entries = Inl e'" by simp
    from "3.IH"(2)[OF Inr this "3.prems"(2)] "3.prems"(3) show ?thesis by (metis list.set_intros(2))
  qed
next
  case (2 fs sfx pre rel ancestors acc)
  then show ?case by simp
next
  case (4 fs sfx pre rel ancestors acc name entries)
  from "4.prems"(1) have "collect_entries fs sfx pre rel ancestors
      (if path_suffix name \<in> set sfx then AList.update (input_key pre (rel @ [name])) (rel @ [name]) acc else acc) entries = Inl e'" by simp
  from "4.IH"[OF this "4.prems"(2)] "4.prems"(3) show ?case by (metis list.set_intros(2))
next
  case (5 fs sfx pre rel ancestors acc name entries)
  from "5.prems"(1) have "collect_entries fs sfx pre rel ancestors acc entries = Inl e'" by simp
  from "5.IH"[OF this "5.prems"(2)] "5.prems"(3) show ?case by (metis list.set_intros(2))
qed

section \<open>Contents\<close>

text \<open>A table whose keys are the names of its files: an update with the same key is the same file.\<close>

definition good_table :: "string \<Rightarrow> found \<Rightarrow> bool" where
  "good_table pre acc \<longleftrightarrow> distinct (map fst acc) \<and>
     (\<forall>(k, v)\<in>set acc. k = input_key pre v \<and> v \<noteq> [] \<and> list_all part_ok v)"

lemma good_table_update:
  assumes "good_table pre acc" and "v \<noteq> []" and "list_all part_ok v"
  shows "good_table pre (AList.update (input_key pre v) v acc) \<and>
    set (AList.update (input_key pre v) v acc) = insert (input_key pre v, v) (set acc)"
proof -
  have d: "distinct (map fst acc)" using assms(1) by (simp add: good_table_def)
  have same: "w = v" if "(input_key pre v, w) \<in> set acc" for w
  proof -
    from that assms(1) have "input_key pre v = input_key pre w" "w \<noteq> []" "list_all part_ok w" by (auto simp: good_table_def)
    with assms(2,3) show ?thesis using input_key_inj by metis
  qed
  then have set: "set (AList.update (input_key pre v) v acc) = insert (input_key pre v, v) (set acc)"
    by (auto simp: set_update[OF d])
  with assms d show ?thesis by (auto simp: good_table_def distinct_update)
qed

lemma good_table_union:
  assumes "good_table pre sub" and "good_table pre acc"
  shows "good_table pre (add_found sub acc) \<and> set (add_found sub acc) = set sub \<union> set acc"
  using assms
proof (induction sub arbitrary: acc)
  case Nil
  then show ?case by (simp add: add_found_def)
next
  case (Cons kv sub)
  obtain k v where kv: "kv = (k, v)" by fastforce
  with Cons.prems(1) have v: "k = input_key pre v" "v \<noteq> []" "list_all part_ok v" and sub: "good_table pre sub"
    by (auto simp: good_table_def)
  note upd = good_table_update[OF Cons.prems(2) v(2,3)]
  from Cons.IH[OF sub conjunct1[OF upd]] upd show ?case by (simp add: add_found_def kv v(1))
qed

definition wanted :: "string list \<Rightarrow> string \<Rightarrow> string list \<Rightarrow> string list set \<Rightarrow> (string \<times> string list) set" where
  "wanted sfx pre rel below = {(input_key pre (rel @ b), rel @ b) | b. b \<in> below \<and> path_suffix (last b) \<in> set sfx}"

definition entry_below :: "file_tree \<Rightarrow> (string \<times> tree_entry) list \<Rightarrow> string list set" where
  "entry_below fs entries = {[n] | n. (n, Plain_File) \<in> set entries} \<union>
     {n # b | n d b. (n, Subdirectory d) \<in> set entries \<and> file_below fs d b}"

lemma entry_below_all: "map_of fs d = Some entries \<Longrightarrow> entry_below fs (sort_key fst entries) = {b. file_below fs d b}"
  by (auto simp: entry_below_def intro: file_below.intros elim: file_below.cases)

lemma entry_below_Cons:
  "entry_below fs ((n, Plain_File) # es) = {[n]} \<union> entry_below fs es"
  "entry_below fs ((n, Other_Entry) # es) = entry_below fs es"
  "entry_below fs ((n, Subdirectory d) # es) = {n # b | b. file_below fs d b} \<union> entry_below fs es"
  by (auto simp: entry_below_def)

lemma file_below_nonempty: "file_below fs d b \<Longrightarrow> b \<noteq> []"
  by (auto elim: file_below.cases)

lemma wanted_union: "wanted sfx pre rel (A \<union> B) = wanted sfx pre rel A \<union> wanted sfx pre rel B"
  by (auto simp: wanted_def)

lemma wanted_deeper: "wanted sfx pre (rel @ [n]) {b. file_below fs d b} = wanted sfx pre rel {n # b | b. file_below fs d b}"
  using file_below_nonempty by (fastforce simp: wanted_def)

lemma wanted_single: "wanted sfx pre rel {[n]} = (if path_suffix n \<in> set sfx then {(input_key pre (rel @ [n]), rel @ [n])} else {})"
  by (auto simp: wanted_def)

lemma collected:
  "collect_files fs sfx pre rel ancestors d = Inr r \<Longrightarrow> tree_ok fs \<Longrightarrow> list_all part_ok rel \<Longrightarrow>
     good_table pre r \<and> set r = wanted sfx pre rel {b. file_below fs d b}"
  "collect_entries fs sfx pre rel ancestors acc entries = Inr r' \<Longrightarrow> tree_ok fs \<Longrightarrow> list_all part_ok rel \<Longrightarrow>
     good_table pre acc \<Longrightarrow> list_all part_ok (map fst entries) \<Longrightarrow>
     good_table pre r' \<and> set r' = set acc \<union> wanted sfx pre rel (entry_below fs entries)"
proof (induction fs sfx pre rel ancestors d and fs sfx pre rel ancestors acc entries arbitrary: r and r'
    rule: collect_files_collect_entries.induct)
  case (1 fs sfx pre rel ancestors d)
  from "1.prems"(1) obtain entries where d: "d \<notin> set ancestors" "map_of fs d = Some entries"
    and run: "collect_entries fs sfx pre rel (d # ancestors) [] (sort_key fst entries) = Inr r"
    by (auto simp: collect_files.simps split: if_splits option.splits)
  have "list_all part_ok (map fst (sort_key fst entries))" using tree_okD(2)[OF "1.prems"(2) d(2)] by (auto simp: list_all_iff)
  from "1.IH"[OF d run "1.prems"(2,3) _ this] show ?case by (simp add: entry_below_all[OF d(2)] good_table_def)
next
  case (2 fs sfx pre rel ancestors acc)
  then show ?case by (simp add: entry_below_def wanted_def)
next
  case (3 fs sfx pre rel ancestors acc name d entries)
  from "3.prems"(1) obtain sub where sub: "collect_files fs sfx pre (rel @ [name]) ancestors d = Inr sub"
    and rest: "collect_entries fs sfx pre rel ancestors (add_found sub acc) entries = Inr r'" by (auto simp: bindE_Inr)
  have "list_all part_ok (rel @ [name])" using "3.prems"(3,5) by simp
  note S = "3.IH"(1)[OF sub "3.prems"(2) this]
  note U = good_table_union[OF conjunct1[OF S] "3.prems"(4)]
  have "list_all part_ok (map fst entries)" using "3.prems"(5) by simp
  from "3.IH"(2)[OF sub rest "3.prems"(2,3) conjunct1[OF U] this] S U show ?case
    by (simp add: entry_below_Cons wanted_union wanted_deeper Un_ac)
next
  case (4 fs sfx pre rel ancestors acc name entries)
  let ?acc = "if path_suffix name \<in> set sfx then AList.update (input_key pre (rel @ [name])) (rel @ [name]) acc else acc"
  from "4.prems" have run: "collect_entries fs sfx pre rel ancestors ?acc entries = Inr r'"
    and names: "list_all part_ok (map fst entries)" and part: "rel @ [name] \<noteq> []" "list_all part_ok (rel @ [name])" by simp_all
  have acc: "good_table pre ?acc" "set ?acc = set acc \<union> wanted sfx pre rel {[name]}"
    using good_table_update[OF "4.prems"(4) part] "4.prems"(4) by (simp_all add: wanted_single)
  from "4.IH"[OF run "4.prems"(2,3) acc(1) names] show ?case
    by (simp only: acc(2) entry_below_Cons wanted_union Un_assoc simp_thms)
next
  case (5 fs sfx pre rel ancestors acc name entries)
  from "5.prems" have run: "collect_entries fs sfx pre rel ancestors acc entries = Inr r'"
    and names: "list_all part_ok (map fst entries)" by simp_all
  from "5.IH"[OF run "5.prems"(2-4) names] show ?case by (simp add: entry_below_Cons)
qed

end
