(* ===== verification/Build_Properties.thy ===== *)
theory Build_Properties
  imports Build_Flat Build_Inputs
begin

text \<open>
  The properties of the build executor: paths and stage lists it accepts, the stage cache under
  concurrent publishers, what a failed and what a published build leave behind, and the flat recipe.
\<close>

section \<open>A concrete platform for the witnesses\<close>

definition plain :: platform where
  "plain = \<lparr>sha = (\<lambda>s. s), render = dumps (\<lambda>_. ''0.5''), float_text = (\<lambda>_. ''0.5''), system_name = ''Linux'', machine_name = ''x''\<rparr>"

lemma plain_simps [simp]: "sha plain s = s" "render plain v = dumps (\<lambda>_. ''0.5'') v" "float_text plain d = ''0.5''"
  by (simp_all add: plain_def)

section \<open>Concurrent publishers\<close>

text \<open>
  C2. Concurrent builds of one stage never part company, even if they call its product by different names: when no
  product is called like a log or the record of the entry, or the record's pending name, whoever has finished, by
  reusing, publishing or adopting, holds bytes with the digest of the artifact of the entry in place, and that entry
  is checked; so any two of them hold products of one digest.
\<close>

theorem publishers_agree:
  assumes "publish_reachable (\<lambda>d. checked pf d key) entry_bytes (sha pf) made_product (entry_of pf key) usable_output s"
    and "publishers s p = Finished b" and "publishers s q = Finished c"
  shows "sha pf b = sha pf c \<and>
    (\<exists>d a. entry s = Some d \<and> checked pf d key \<and> entry_bytes d = Some a \<and> sha pf a = sha pf b)"
  using stage_cache.finished_agree[OF assms] unfolding stage_cache.settled_def .

text \<open>Two builds race; the second to reach the lock adopts the bytes of the first.\<close>

definition race_work :: "string \<Rightarrow> work" where
  "race_work bytes = \<lparr>product = bytes, work_stderr = [], work_time = ''{}'', work_command = ''[]''\<rparr>"

definition race_entry :: directory where
  "race_entry = fresh_entry plain JNull ''k.ir'' (race_work ''a'')"

definition race_end :: "(bool, directory, string \<times> work, string) shared" where
  "race_end = \<lparr>entry = Some race_entry, lock = None,
     publishers = (\<lambda>_. Idle)(True := Finished ''a'', False := Finished ''a'')\<rparr>"

abbreviation "race_reachable \<equiv> publish_reachable (\<lambda>d. checked plain d JNull) entry_bytes (sha plain) made_product
  (entry_of plain JNull)"

text \<open>The two publishers give their products the names \<open>x\<close> and \<open>y\<close>.\<close>

abbreviation race_state :: "directory option \<Rightarrow> bool option \<Rightarrow> (string \<times> work, string) publisher \<Rightarrow>
    (string \<times> work, string) publisher \<Rightarrow> (bool, directory, string \<times> work, string) shared" where
  "race_state e l a b \<equiv> \<lparr>entry = e, lock = l, publishers = (\<lambda>_. Idle)(True := a, False := b)\<rparr>"

lemma race_entry_facts [simp]:
  "checked plain race_entry JNull" "entry_bytes race_entry = Some ''a''"
  unfolding race_entry_def entry_bytes_def
  by (simp_all add: entry_names_def log_names_def pending_name_def race_work_def)

lemma race_compiled:
  assumes "usable (x, race_work ''a'')" and "usable (y, race_work ''b'')"
  shows "race_reachable usable (race_state None (Some True) (Holding (x, race_work ''a'')) (Compiled (y, race_work ''b'')))"
proof -
  note step = publish_reachable.reachable_step and frame = becomes_def releases_lock_def
  have 0: "race_reachable usable (race_state None None Idle Idle)"
    by (intro publish_reachable.reachable_initial) (simp add: initial_shared_def)
  have 1: "race_reachable usable (race_state None None Compiling Idle)"
    using step[OF 0 publish_step.start[where p = True]] by (simp add: frame fun_upd_def if_distrib cong: if_cong)
  have 2: "race_reachable usable (race_state None None Compiling Compiling)"
    using step[OF 1 publish_step.start[where p = False]] by (simp add: frame)
  have 3: "race_reachable usable (race_state None None (Compiled (x, race_work ''a'')) Compiling)"
    using step[OF 2 publish_step.compile[where p = True], OF _ assms(1)] by (simp add: frame fun_upd_twist)
  have 4: "race_reachable usable (race_state None None (Compiled (x, race_work ''a'')) (Compiled (y, race_work ''b'')))"
    using step[OF 3 publish_step.compile[where p = False], OF _ assms(2)] by (simp add: frame)
  show ?thesis
    using step[OF 4 publish_step.acquire[where p = True]] by (simp add: frame fun_upd_twist)
qed

lemma race_published:
  assumes "usable (x, race_work ''a'')" and "usable (y, race_work ''b'')"
  shows "race_reachable usable (race_state (Some (fresh_entry plain JNull x (race_work ''a''))) (Some False) (Finished ''a'')
    (Holding (y, race_work ''b'')))"
proof -
  note step = publish_reachable.reachable_step and frame = becomes_def releases_lock_def
  have 6: "race_reachable usable (race_state (Some (fresh_entry plain JNull x (race_work ''a''))) None (Finished ''a'')
      (Compiled (y, race_work ''b'')))"
    using step[OF race_compiled[OF assms] publish_step.publish[where p = True]]
    by (simp add: frame fun_upd_twist race_work_def entry_of_def made_product_def)
  show ?thesis using step[OF 6 publish_step.acquire[where p = False]] by (simp add: frame)
qed

lemma race_run: "race_reachable usable_output race_end"
proof -
  have "usable_output (''k.ir'', race_work ''a'')" "usable_output (''l.ir'', race_work ''b'')"
    by (simp_all add: usable_output_def entry_names_def log_names_def pending_name_def)
  from race_published[OF this] have "race_reachable usable_output
      (race_state (Some race_entry) (Some False) (Finished ''a'') (Holding (''l.ir'', race_work ''b'')))"
    by (simp add: race_entry_def)
  from publish_reachable.reachable_step[OF this publish_step.adopt[where p = False and b = "''a''"]]
  show ?thesis by (simp add: race_end_def becomes_def releases_lock_def race_work_def made_product_def)
qed

theorem publishers_agree_witness:
  "race_reachable usable_output race_end \<and> sha plain ''a'' = sha plain ''a'' \<and>
    (\<exists>d a. entry race_end = Some d \<and> checked plain d JNull \<and> entry_bytes d = Some a \<and> sha plain a = sha plain ''a'')"
  using race_run publishers_agree[OF race_run, of True "''a''" False "''a''"] by (simp add: race_end_def)


section \<open>One stage\<close>

text \<open>
  C33. A stage that returns, and whose product is not called like a log or the record of its entry or the record's
  pending name, has left, under the identity of its recipe, host, tool, arguments and inputs, a checked entry whose artifact has the digest of the product it delivers; and asking for the
  same stage again, from any process result, reuses that entry without touching the cache.
\<close>

theorem stage_then_reuse:
  assumes "stage pf label path tool tool_after arguments inputs out proc meanwhile store = (Inr r, store')"
    and "out \<notin> set entry_names"
  shows "entry_name r = identity pf (stage_key pf tool arguments inputs) \<and>
    store' (label, entry_name r) = Some (entry_directory r) \<and>
    checked pf (entry_directory r) (stage_key pf tool arguments inputs) \<and>
    (\<exists>bytes. sha pf bytes = sha pf (stage_product r) \<and>
      stage pf label path' tool after' arguments inputs out' proc' meanwhile' store' =
        (Inr \<lparr>entry_name = entry_name r, reused = True, adopted = False,
           entry_directory = entry_directory r, stage_product = bytes\<rparr>, store'))"
proof -
  note entry = stage_entry[OF assms]
  then obtain bytes where "read_artifact (entry_directory r) = Inr bytes" "sha pf bytes = sha pf (stage_product r)"
    by blast
  with entry show ?thesis
    using stage_reuses[of store' label pf "stage_key pf tool arguments inputs" "entry_directory r" bytes
        tool arguments inputs path' after' out' proc' meanwhile'] by auto
qed

definition good_run :: process_result where
  "good_run = \<lparr>wait_result = Exited 0, stdout_bytes = ''package k'', stderr_bytes = [], time_bytes = ''{}''\<rparr>"

definition failed_run :: process_result where
  "failed_run = good_run\<lparr>wait_result := Exited 1\<rparr>"

lemma first_run:
  "\<exists>r store. stage plain ''ir'' ''/x/ir'' ''elf'' ''elf'' [''k.x''] JNull ''k.ir'' good_run (\<lambda>c. c) Map.empty = (Inr r, store) \<and>
     \<not> reused r \<and> stage_product r = ''package k''"
  by (simp add: stage_def Let_def valid_entry_def publish_or_adopt_def good_run_def run_product_def run_tool_def ensure_def
    bindE_def pending_name_def work_of_def)

theorem stage_then_reuse_witness:
  "\<exists>r store. stage plain ''ir'' ''/x/ir'' ''elf'' ''elf'' [''k.x''] JNull ''k.ir'' good_run (\<lambda>c. c) Map.empty = (Inr r, store) \<and>
     \<not> reused r \<and> stage_product r = ''package k'' \<and>
     (\<exists>again. stage plain ''ir'' ''/x/ir'' ''elf'' ''elf'' [''k.x''] JNull ''k.ir'' failed_run (\<lambda>_. Map.empty) store = (Inr again, store) \<and>
        reused again \<and> stage_product again = ''package k'')"
proof -
  let ?run = "stage plain ''ir'' ''/x/ir'' ''elf'' ''elf'' [''k.x''] JNull ''k.ir'' good_run (\<lambda>c. c) Map.empty"
  obtain r store where run: "?run = (Inr r, store)" and r: "\<not> reused r" "stage_product r = ''package k''"
    using first_run by blast
  have "''k.ir'' \<notin> set entry_names" by (simp add: entry_names_def log_names_def pending_name_def)
  from stage_then_reuse[OF run this, of "''/x/ir''" "''elf''" "''k.ir''" failed_run "\<lambda>_. Map.empty"] r
  obtain bytes where "bytes = ''package k''"
    "stage plain ''ir'' ''/x/ir'' ''elf'' ''elf'' [''k.x''] JNull ''k.ir'' failed_run (\<lambda>_. Map.empty) store =
      (Inr \<lparr>entry_name = entry_name r, reused = True, adopted = False, entry_directory = entry_directory r,
        stage_product = bytes\<rparr>, store)"
    by auto
  with run r show ?thesis by auto
qed

text \<open>
  C7. Every call of \<open>stage\<close>, for a product that is not called like a log or the record of its entry or the record's
  pending name, is a run of the caller's own steps of the publishing protocol. Where the slot holds a checked entry,
  one step finishes with its artifact, or stops, and the cache is left alone. Otherwise it starts to compile; when the
  tool fails or changes it stops and the cache is left alone; and else, from any shared state in which the slot holds
  what the other builds left there and the lock is free, it has compiled exactly what the process wrote and
  finishes with the product that the call returns, or stops where the call raises, with the lock free again, nobody
  else moved and the slot as the call stores it.
\<close>

theorem stage_refines_protocol:
  fixes s :: "('p, directory, string \<times> work, string) shared"
  assumes "stage pf label path tool tool_after arguments inputs out proc meanwhile store = (r, store')"
    and "out \<notin> set entry_names"
  shows "let key = stage_key pf tool arguments inputs; slot = (label, identity pf key);
      w = \<lparr>product = stdout_bytes proc, work_stderr = stderr_bytes proc, work_time = time_bytes proc,
        work_command = render pf (JArr (map JStr (path # arguments)))\<rparr>
    in if valid_entry pf key (store slot)
      then store' = store \<and> (entry s = store slot \<and> publishers s p = Idle \<longrightarrow>
        cache_step pf key p s (becomes s p (outcome r stage_product)))
      else (entry s = store slot \<and> publishers s p = Idle \<longrightarrow> cache_step pf key p s (becomes s p Compiling)) \<and>
        (if run_product out proc = Inr () \<and> sha pf tool_after = sha pf tool
         then publishers s p = Compiling \<and> entry s = meanwhile store slot \<and> lock s = None \<longrightarrow>
           cache_step pf key p s (becomes s p (Compiled (out, w))) \<and>
           (\<exists>t. (cache_step pf key p)\<^sup>*\<^sup>* (becomes s p (Compiled (out, w))) t \<and> entry t = store' slot \<and> lock t = None \<and>
             publishers t = (publishers s)(p := outcome r stage_product))
         else (\<exists>e. r = Inl e) \<and> store' = store \<and>
           (publishers s p = Compiling \<longrightarrow> cache_step pf key p s (becomes s p Stopped)))"
proof -
  define key where "key = stage_key pf tool arguments inputs"
  define slot where "slot = (label, identity pf key)"
  define w where "w = work_of pf path arguments proc"
  note run = assms(1)[unfolded stage_def Let_def, folded key_def slot_def w_def]
  have "if valid_entry pf key (store slot)
      then store' = store \<and> (entry s = store slot \<and> publishers s p = Idle \<longrightarrow>
        cache_step pf key p s (becomes s p (outcome r stage_product)))
      else (entry s = store slot \<and> publishers s p = Idle \<longrightarrow> cache_step pf key p s (becomes s p Compiling)) \<and>
        (if run_product out proc = Inr () \<and> sha pf tool_after = sha pf tool
         then publishers s p = Compiling \<and> entry s = meanwhile store slot \<and> lock s = None \<longrightarrow>
           cache_step pf key p s (becomes s p (Compiled (out, w))) \<and>
           (\<exists>t. (cache_step pf key p)\<^sup>*\<^sup>* (becomes s p (Compiled (out, w))) t \<and> entry t = store' slot \<and> lock t = None \<and>
             publishers t = (publishers s)(p := outcome r stage_product))
         else (\<exists>e. r = Inl e) \<and> store' = store \<and>
           (publishers s p = Compiling \<longrightarrow> cache_step pf key p s (becomes s p Stopped)))"
  proof (cases "valid_entry pf key (store slot)")
    case True
    then obtain e where e: "store slot = Some e" "checked pf e key" by (auto simp: valid_entry_Some)
    from True run have same: "store' = store" by simp
    have "cache_step pf key p s (becomes s p (outcome r stage_product))" if "entry s = store slot" "publishers s p = Idle"
    proof (cases "read_artifact e")
      case (Inl err)
      with True e run have "r = Inl err" by simp
      then show ?thesis using that(2) publish_step.stop[of s p] by (simp add: outcome_def)
    next
      case (Inr b)
      with True e run have "r = Inr \<lparr>entry_name = identity pf key, reused = True, adopted = False, entry_directory = e,
          stage_product = b\<rparr>" by simp
      then show ?thesis
        using that e Inr publish_step.reuse[of s p e "\<lambda>d. checked pf d key" entry_bytes b] by (simp add: entry_bytes_Some outcome_def)
    qed
    with True same show ?thesis by simp
  next
    case False
    then have start: "cache_step pf key p s (becomes s p Compiling)" if "entry s = store slot" "publishers s p = Idle"
      using that publish_step.start[of s p "\<lambda>d. checked pf d key"] by (auto simp: valid_entry_Some)
    show ?thesis
    proof (cases "run_product out proc = Inr () \<and> sha pf tool_after = sha pf tool")
      case True
      let ?r = "publish_or_adopt pf key out w (meanwhile store slot)"
      from True False run have ends: "outcome r stage_product = outcome ?r (\<lambda>x. fst (snd x))"
        "store' slot = slot_after (meanwhile store slot) ?r"
        by (auto simp: outcome_def slot_after_def split: sum.splits prod.splits)
      have "cache_step pf key p s (becomes s p (Compiled (out, w))) \<and>
           (\<exists>t. (cache_step pf key p)\<^sup>*\<^sup>* (becomes s p (Compiled (out, w))) t \<and> entry t = store' slot \<and> lock t = None \<and>
             publishers t = (publishers s)(p := outcome r stage_product))"
        if s: "publishers s p = Compiling" "entry s = meanwhile store slot" "lock s = None"
      proof
        show "cache_step pf key p s (becomes s p (Compiled (out, w)))"
          using s(1) assms(2) by (intro publish_step.compile) (simp_all add: usable_output_def)
        have "publishers (becomes s p (Compiled (out, w))) p = Compiled (out, w)" "lock (becomes s p (Compiled (out, w))) = None"
          using s(3) by simp_all
        from locked_section[OF this, of pf key] show "\<exists>t. (cache_step pf key p)\<^sup>*\<^sup>* (becomes s p (Compiled (out, w))) t \<and>
            entry t = store' slot \<and> lock t = None \<and> publishers t = (publishers s)(p := outcome r stage_product)"
          using s(2) unfolding ends ends_as_def by (simp add: becomes_def)
      qed
      with True False start show ?thesis by simp
    next
      case False': False
      then have "\<exists>e. r = Inl e" "store' = store"
        using False run by (auto split: sum.splits if_splits)
      moreover have "cache_step pf key p s (becomes s p Stopped)" if "publishers s p = Compiling"
        using that by (intro publish_step.stop[of s p]) simp
      ultimately show ?thesis using False False' start by auto
    qed
  qed
  then show ?thesis unfolding Let_def key_def[symmetric] slot_def[symmetric] work_of_def[symmetric] w_def[symmetric] .
qed

definition compiling :: "(bool, directory, string \<times> work, string) shared" where
  "compiling = race_state None None Compiling Idle"

theorem stage_refines_protocol_witness:
  "\<exists>r store. stage plain ''ir'' ''/x/ir'' ''elf'' ''elf'' [''k.x''] JNull ''k.ir'' good_run (\<lambda>c. c) Map.empty = (Inr r, store) \<and>
     (\<exists>s' t. cache_step plain (stage_key plain ''elf'' [''k.x''] JNull) True compiling s' \<and>
       (cache_step plain (stage_key plain ''elf'' [''k.x''] JNull) True)\<^sup>*\<^sup>* s' t \<and>
       publishers t True = Finished ''package k'' \<and> lock t = None \<and> entry t = store (''ir'', entry_name r))"
proof -
  let ?run = "stage plain ''ir'' ''/x/ir'' ''elf'' ''elf'' [''k.x''] JNull ''k.ir'' good_run (\<lambda>c. c) Map.empty"
  obtain r store where run: "?run = (Inr r, store)" and r: "\<not> reused r" "stage_product r = ''package k''"
    using first_run by blast
  have out: "''k.ir'' \<notin> set entry_names" by (simp add: entry_names_def log_names_def pending_name_def)
  have ran: "run_product ''k.ir'' good_run = Inr ()" by (simp add: run_product_Inr good_run_def pending_name_def)
  have name: "entry_name r = identity plain (stage_key plain ''elf'' [''k.x''] JNull)"
    using stage_entry[OF run out] by simp
  have start: "publishers compiling True = Compiling" "entry compiling = None" "lock compiling = None"
    by (simp_all add: compiling_def)
  let ?step = "cache_step plain (stage_key plain ''elf'' [''k.x''] JNull) True"
  from stage_refines_protocol[OF run out, of compiling True] obtain s' t where
    "?step compiling s'" "?step\<^sup>*\<^sup>* s' t" "entry t = store (''ir'', entry_name r)" "lock t = None"
    "publishers t = (publishers compiling)(True := outcome (Inr r :: (build_error, stage_result) result) stage_product)"
    unfolding Let_def name[symmetric] using ran start by (auto simp: valid_entry_def)
  with run r(2) show ?thesis by (fastforce simp: outcome_def)
qed

section \<open>Stage lists\<close>

text \<open>
  C36. \<open>specifications\<close> accepts a list of stages, unchanged, exactly when it is not empty, every
  id, output and cache family is a normal relative path, every tool is known, ids and outputs are
  distinct, no output is an input, a stage diagnostic or a reserved name, and no diagnostic is an input.
\<close>

theorem specifications_accept_exactly:
  "specifications specs inputs tool_names = Inr result \<longleftrightarrow>
     result = specs \<and> specs \<noteq> [] \<and>
     list_all (\<lambda>s. normal_path (spec_id s) \<and> normal_path (spec_output s) \<and> normal_path (spec_cache s) \<and>
       spec_tool s \<in> set tool_names) specs \<and>
     distinct (map spec_id specs) \<and> distinct (map spec_output specs) \<and>
     set (map spec_output specs) \<inter>
       (set inputs \<union> set (concat (map (diagnostic_names \<circ> spec_id) specs)) \<union> set reserved_names) = {} \<and>
     set (concat (map (diagnostic_names \<circ> spec_id) specs)) \<inter> set inputs = {}"
  by (simp add: specifications_iff stages_ok_def)

text \<open>
  C40. The reserved names do not include \<open>completed.json\<close>: a stage with that output is accepted, but the
  cache entry it publishes is overwritten by its own record and, short of a digest collision, is never
  valid, so the stage is compiled again in every build.
\<close>

theorem completed_output_never_cached:
  "specifications [\<lparr>spec_id = ''s'', spec_cache = ''s'', spec_tool = ''t'', spec_arguments = [],
       spec_output = ''completed.json'', spec_inputs = []\<rparr>] [] [''t''] \<noteq> Inl e \<and>
   (checked pf (fresh_entry pf key ''completed.json'' w) key' =
     (json_same key key' \<and>
      sha pf (render pf (completion_json (the (completion (fresh_entry pf key ''completed.json'' w))))) = sha pf (product w)))"
proof -
  let ?s = "\<lparr>spec_id = ''s'', spec_cache = ''s'', spec_tool = ''t'', spec_arguments = [],
       spec_output = ''completed.json'', spec_inputs = []\<rparr>"
  have "specifications [?s] [] [''t''] = Inr [?s]"
    unfolding specifications_iff
    by (simp add: stages_ok_def diagnostic_names_def reserved_names_def log_names_def normal_single part_ok_def)
  then show ?thesis
    by (auto simp: checked_def fresh_entry_def with_record_def fresh_files_def Let_def saved_def pending_name_def)
qed

section \<open>Whole builds\<close>

definition demo_request :: request where
  "demo_request = \<lparr>build_name = ''k'', timeout = Finite 1 0, output_state = Absent_Output,
     input_files = [(''k.x'', ''fn'')], directories = [], tools = [(''t'', ''/x/t'')]\<rparr>"

definition demo_environment :: "process_result \<Rightarrow> environment" where
  "demo_environment run = \<lparr>executable = (\<lambda>_. True), busy = False, tool_bytes = (\<lambda>_ _. ''elf''),
     runs_as = (\<lambda>_. run), others = (\<lambda>_ c. c), publish_fault = None\<rparr>"

definition demo_recipe :: recipe where
  "demo_recipe = \<lparr>prepare = (\<lambda>snap. Inr ([\<lparr>spec_id = ''s'', spec_cache = ''ir'', spec_tool = ''t'', spec_arguments = [''k.x''],
       spec_output = ''k.ir'', spec_inputs = [(''k'', Leaf ''k.x'')]\<rparr>], snap)),
     finalize = (\<lambda>snap runs. Inr (\<lparr>manifest_name = ''m.json'', manifest = JObj [],
       publication_files = [(''k.ir'', ''k.ir'')]\<rparr>, snap))\<rparr>"

definition demo_world :: world where
  "demo_world = \<lparr>cache_store = Map.empty, releases = Map.empty, published = None\<rparr>"

lemma demo_fails: "fst (execute plain (demo_environment failed_run) demo_request demo_recipe demo_world) = Inl (Tool_Exit 1)"
  by code_simp

lemma demo_interrupted: "(case fst (execute plain ((demo_environment good_run)\<lparr>publish_fault := Some Reporting\<rparr>) demo_request demo_recipe demo_world)
    of Inl _ \<Rightarrow> True | Inr _ \<Rightarrow> False)"
  by code_simp

lemma demo_succeeds: "(case fst (execute plain (demo_environment good_run) demo_request demo_recipe demo_world) of Inl _ \<Rightarrow> False | Inr _ \<Rightarrow> True)"
  by code_simp

lemma demo_run:
  obtains rid w' where "execute plain (demo_environment good_run) demo_request demo_recipe demo_world = (Inr rid, w')"
  using demo_succeeds by (metis (no_types, lifting) prod.collapse sum.case(1) old.sum.exhaust)

text \<open>
  C37. A build that fails, at whatever point, removes no valid release and changes no release but that of one
  identity; and the published link still leads where it led, unless the failure came after the switch, when it leads
  to a release in place. Without a fault during the publication, or with one before the new release is renamed in,
  nothing that is published has changed.
\<close>

theorem execute_failure_keeps_releases:
  assumes "execute pf env req rec w = (Inl e, w')"
  shows "(\<forall>rid d. releases w rid = Some d \<and> checked pf d (release_key rid) \<longrightarrow> releases w' rid = Some d) \<and>
    (\<exists>rid. (\<forall>other. other \<noteq> rid \<longrightarrow> releases w' other = releases w other) \<and>
      (published w' = published w \<or>
       publish_fault env = Some Reporting \<and> published w' = Some rid \<and> releases w' rid \<noteq> None)) \<and>
    (publish_fault env \<notin> {Some Renaming_In, Some Linking, Some Switching, Some Reporting} \<longrightarrow>
      releases w' = releases w \<and> published w' = published w)"
proof -
  consider (same) "releases w' = releases w" "published w' = published w"
    | (publication) r store where "publish_release pf (publish_fault env) r (w\<lparr>cache_store := store\<rparr>) = (Inl e, w')"
    using assms by (auto simp: execute_def split: sum.splits prod.splits)
  then show ?thesis
  proof cases
    case publication
    then show ?thesis
      by (auto simp: publish_release_def switch_link_def Let_def valid_entry_def split: if_splits option.splits
          intro!: exI[of _ "release_id r"])
  qed simp
qed

theorem execute_failure_keeps_releases_witness:
  "(\<exists>w'. execute plain (demo_environment failed_run) demo_request demo_recipe demo_world = (Inl (Tool_Exit 1), w') \<and>
      published w' = None \<and> releases w' = Map.empty) \<and>
    (\<exists>e w' rid. execute plain ((demo_environment good_run)\<lparr>publish_fault := Some Reporting\<rparr>) demo_request demo_recipe demo_world = (Inl e, w') \<and>
      (published w' = None \<or> published w' = Some rid \<and> releases w' rid \<noteq> None))"
proof -
  obtain w' where run: "execute plain (demo_environment failed_run) demo_request demo_recipe demo_world = (Inl (Tool_Exit 1), w')"
    using demo_fails by (metis prod.collapse)
  obtain e w'' where late: "execute plain ((demo_environment good_run)\<lparr>publish_fault := Some Reporting\<rparr>) demo_request demo_recipe demo_world = (Inl e, w'')"
    using demo_interrupted by (metis (no_types, lifting) prod.collapse sum.case(2) old.sum.exhaust)
  have "publish_fault (demo_environment failed_run) = None" by (simp add: demo_environment_def)
  with execute_failure_keeps_releases[OF run] run execute_failure_keeps_releases[OF late] late show ?thesis
    by (fastforce simp: demo_world_def)
qed

text \<open>
  C1. A build that succeeds switches the published link to the release it returns, and that release
  is a checked entry of its identity, unless its record lists a file called like the record's pending name,
  \<open>completed.json.new\<close>, which saving the record has replaced. No other release changes, and a valid release of the same
  identity is kept as it is. Every tool still has the digest it had at the start, after the last stage and after the
  recipe's \<open>finalize\<close>.
\<close>

theorem execute_publishes_checked:
  assumes "execute pf env req rec w = (Inr rid, w')"
  shows "published w' = Some rid \<and>
    (\<exists>d c. releases w' rid = Some d \<and> completion d = Some c \<and>
      (''completed.json.new'' \<notin> set (map fst (c_outputs c)) \<longrightarrow> checked pf d (release_key rid))) \<and>
    (\<forall>other. other \<noteq> rid \<longrightarrow> releases w' other = releases w other) \<and>
    (valid_entry pf (release_key rid) (releases w rid) \<longrightarrow> releases w' = releases w) \<and>
    (\<forall>m \<in> {After_Stages, After_Finalize}. \<forall>(k, path) \<in> set (tools req).
       sha pf (tool_bytes env m k) = sha pf (tool_bytes env At_Start k))"
proof -
  from assms obtain specs snap runs snap' store r where
    finish: "finish_build pf env req rec runs snap' = Inr r" and
    pub: "publish_release pf (publish_fault env) r (w\<lparr>cache_store := store\<rparr>) = (Inr rid, w')"
    unfolding execute_def by (auto split: sum.splits prod.splits)
  from finish obtain pub fin where facts: "distinct (map fst (release_files r))" "release_files r \<noteq> []"
    "''completed.json'' \<notin> fst ` set (release_files r)"
    and same: "tools_unchanged pf env req After_Stages" "tools_unchanged pf env req After_Finalize"
    by (rule finish_build_Inr)
  from same have "\<forall>m \<in> {After_Stages, After_Finalize}. \<forall>(k, path) \<in> set (tools req).
       sha pf (tool_bytes env m k) = sha pf (tool_bytes env At_Start k)"
    by (auto simp: tools_unchanged_def list_all_iff)
  note published = publish_release_Inr[OF pub]
  moreover have "\<exists>d c. releases w' rid = Some d \<and> completion d = Some c \<and>
      (''completed.json.new'' \<notin> set (map fst (c_outputs c)) \<longrightarrow> checked pf d (release_key rid))"
  proof (cases "valid_entry pf (release_key rid) (releases w rid)")
    case True
    then obtain d where "releases w rid = Some d" "checked pf d (release_key rid)" by (auto simp: valid_entry_Some)
    then show ?thesis using published True by (auto simp: checked_def split: option.splits)
  next
    case False
    have "checked pf (release_directory pf r) (release_key rid)" if "''completed.json.new'' \<notin> fst ` set (release_files r)"
      using release_checked[OF facts, of pf] that published by (simp add: pending_name_def)
    then show ?thesis
      using False published by (auto simp: release_directory_def with_record_def Let_def image_image split_beta)
  qed
  ultimately show ?thesis using \<open>\<forall>m \<in> {After_Stages, After_Finalize}. _ m\<close> by auto
qed

lemma demo_recorded: "(case execute plain (demo_environment good_run) demo_request demo_recipe demo_world of
    (Inr rid, w') \<Rightarrow> (case releases w' rid of None \<Rightarrow> False | Some d \<Rightarrow> (case completion d of None \<Rightarrow> False
      | Some c \<Rightarrow> ''completed.json.new'' \<notin> set (map fst (c_outputs c)))) | _ \<Rightarrow> False)"
  by code_simp

theorem execute_publishes_checked_witness:
  "\<exists>rid w' d. execute plain (demo_environment good_run) demo_request demo_recipe demo_world = (Inr rid, w') \<and>
    published w' = Some rid \<and> releases w' rid = Some d \<and> checked plain d (release_key rid)"
proof -
  obtain rid w' where run: "execute plain (demo_environment good_run) demo_request demo_recipe demo_world = (Inr rid, w')"
    by (rule demo_run)
  with execute_publishes_checked[OF run] demo_recorded show ?thesis by (auto split: option.splits)
qed

text \<open>
  C6. What a fresh release holds. The stages of an acceptable recipe have run in their order, each from the hashes of
  its dependencies and either by reusing a checked entry or by a clean exit of its process with a product, and at the
  end of the stages the snapshot still holds the product each recorded (unless it is called like a file the executor
  writes at the root of the snapshot). After \<open>finalize\<close> every frozen input still has the digest with which it was
  copied. The release holds every file the recipe selected, with its bytes then, and the manifest; but the files
  called \<open>completed.json.new\<close> and like the manifest with \<open>.new\<close> are lost, for \<open>save\<close> writes under these names.
\<close>

theorem release_holds_selected:
  assumes "execute pf env req rec w = (Inr rid, w')"
    and "\<not> valid_entry pf (release_key rid) (releases w rid)"
  shows "\<exists>specs snap runs before pub fin d.
    start_build pf env req rec = Inr (specs, snap) \<and>
    stages_ok specs (map fst (input_files req)) (map fst (tools req)) \<and>
    run_stages pf env req 0 specs [] snap (cache_store w) = (Inr (runs, before), cache_store w') \<and>
    length runs = length specs \<and>
    (\<forall>j<length specs. stage_recorded pf env req j (specs ! j) (runs ! j) \<and>
      (let r = run_result (snd (runs ! j)) in
        (reused r \<or> wait_result (runs_as env j) = Exited 0 \<and> stdout_bytes (runs_as env j) \<noteq> [] \<and>
          (adopted r \<or> stage_product r = stdout_bytes (runs_as env j))) \<and>
        (spec_output (specs ! j) \<notin> set root_names \<longrightarrow> before (spec_output (specs ! j)) = Some (stage_product r)))) \<and>
    finalize rec before runs = Inr (pub, fin) \<and>
    list_all (\<lambda>(path, bytes). \<exists>now. fin path = Some now \<and> sha pf now = sha pf bytes) (input_files req) \<and>
    releases w' rid = Some d \<and>
    list_all (\<lambda>(dest, source). fin source \<noteq> None \<and> contents d dest =
      (if dest = manifest_name pub @ ''.new'' \<or> dest = ''completed.json.new'' then None else fin source)) (selected_files pub) \<and>
    contents d (manifest_name pub) =
      (if manifest_name pub = ''completed.json.new'' then None else Some (render pf (manifest pub)))"
proof -
  from assms(1) obtain specs snap runs before store r where
    start: "start_build pf env req rec = Inr (specs, snap)" and
    stages: "run_stages pf env req 0 specs [] snap (cache_store w) = (Inr (runs, before), store)" and
    finish: "finish_build pf env req rec runs before = Inr r" and
    pub: "publish_release pf (publish_fault env) r (w\<lparr>cache_store := store\<rparr>) = (Inr rid, w')"
    unfolding execute_def by (auto simp: bindE_Inr split: sum.splits prod.splits)
  have ok: "stages_ok specs (map fst (input_files req)) (map fst (tools req))"
    using start unfolding start_build_def by (auto simp: bindE_Inr Let_def specifications_iff)
  then have apart: "distinct (map spec_output specs)"
    "set (map spec_output specs) \<inter> set (concat (map (diagnostic_names \<circ> spec_id) specs)) = {}"
    by (auto simp: stages_ok_def)
  from run_stages_recorded[OF stages apart] have rec: "length runs = length specs"
    "\<forall>j<length specs. stage_recorded pf env req j (specs ! j) (runs ! j) \<and>
      (spec_output (specs ! j) \<notin> set root_names \<longrightarrow>
        before (spec_output (specs ! j)) = Some (stage_product (run_result (snd (runs ! j)))))"
    by simp_all
  have ran: "\<forall>j<length specs. stage_recorded pf env req j (specs ! j) (runs ! j) \<and>
      (let r = run_result (snd (runs ! j)) in
        (reused r \<or> wait_result (runs_as env j) = Exited 0 \<and> stdout_bytes (runs_as env j) \<noteq> [] \<and>
          (adopted r \<or> stage_product r = stdout_bytes (runs_as env j))) \<and>
        (spec_output (specs ! j) \<notin> set root_names \<longrightarrow> before (spec_output (specs ! j)) = Some (stage_product r)))"
    using rec(2) stage_recorded_ran unfolding Let_def by blast
  from finish obtain pub fin where fin: "finalize rec before runs = Inr (pub, fin)"
    and frozen: "inputs_frozen pf req fin = Inr ()"
    and reserved: "''completed.json'' \<notin> fst ` set (release_files r)"
    and sel: "\<forall>(dest, source)\<in>set (selected_files pub). fin source \<noteq> None \<and>
      map_of (release_files r) dest = (if dest = pending_name (manifest_name pub) then None else fin source)"
    and man: "map_of (release_files r) (manifest_name pub) = Some (render pf (manifest pub))"
    by (rule finish_build_Inr)
  note published = publish_release_Inr[OF pub]
  have new: "releases w' rid = Some (release_directory pf r)" using assms(2) published by auto
  have kept: "contents (release_directory pf r) k = (if k = ''completed.json.new'' then None else map_of (release_files r) k)"
    if "map_of (release_files r) k \<noteq> None \<or> k = pending_name (manifest_name pub)" for k
  proof -
    have "k \<noteq> ''completed.json''"
      using that reserved by (auto simp: map_of_eq_None_iff[symmetric] pending_name_def)
    then show ?thesis
      by (simp add: release_directory_def with_record_def Let_def saved_def pending_name_def)
  qed
  have "list_all (\<lambda>(dest, source). fin source \<noteq> None \<and> contents (release_directory pf r) dest =
      (if dest = manifest_name pub @ ''.new'' \<or> dest = ''completed.json.new'' then None else fin source)) (selected_files pub)"
    using sel kept by (fastforce simp: list_all_iff pending_name_def)
  moreover have "list_all (\<lambda>(path, bytes). \<exists>now. fin path = Some now \<and> sha pf now = sha pf bytes) (input_files req)"
    using frozen by (auto simp: inputs_frozen_iff list_all_iff)
  moreover have "contents (release_directory pf r) (manifest_name pub) =
      (if manifest_name pub = ''completed.json.new'' then None else Some (render pf (manifest pub)))"
    using kept man by simp
  moreover have "run_stages pf env req 0 specs [] snap (cache_store w) = (Inr (runs, before), cache_store w')"
    using stages published by simp
  ultimately show ?thesis using start ok rec(1) ran fin new by blast
qed

theorem release_holds_selected_witness:
  "\<exists>rid w' d. execute plain (demo_environment good_run) demo_request demo_recipe demo_world = (Inr rid, w') \<and>
    releases w' rid = Some d \<and> contents d ''m.json'' = Some ''{}'' \<and> contents d ''k.ir'' \<noteq> None"
proof -
  obtain rid w' where run: "execute plain (demo_environment good_run) demo_request demo_recipe demo_world = (Inr rid, w')"
    by (rule demo_run)
  have "\<not> valid_entry plain (release_key rid) (releases demo_world rid)"
    by (simp add: demo_world_def valid_entry_def)
  from release_holds_selected[OF run this] obtain pub d fin where
    "releases w' rid = Some d"
    "list_all (\<lambda>(dest, source). fin source \<noteq> None \<and> contents d dest =
      (if dest = manifest_name pub @ ''.new'' \<or> dest = ''completed.json.new'' then None else fin source)) (selected_files pub)"
    "contents d (manifest_name pub) =
      (if manifest_name pub = ''completed.json.new'' then None else Some (render plain (manifest pub)))"
    "pub = \<lparr>manifest_name = ''m.json'', manifest = JObj [], publication_files = [(''k.ir'', ''k.ir'')]\<rparr>"
    by (auto simp: demo_recipe_def)
  with run show ?thesis by (auto simp: selected_files_def)
qed

section \<open>The flat recipe\<close>

text \<open>
  The stages of the flat DSLX recipe are accepted by the executor for every C identifier
  as the name and all DSLX sources, standard library files and assets, whatever the options.
\<close>

theorem flat_recipe_accepted:
  assumes "c_identifier (flat_name opt)"
    and "list_all (suffix ''.x'' \<circ> fst) (dslx_files files)"
  shows "specifications (flat_stages opt files codegen) (map fst (flat_inputs files assets))
     [''ir_converter_main'', ''opt_main'', ''codegen_main''] = Inr (flat_stages opt files codegen)"
  unfolding specifications_iff
  using flat_stages_ok[OF assms(1)] flat_input_names[OF assms(2), of assets]
  by (simp add: list.pred_map)

theorem flat_recipe_accepted_witness:
  "\<exists>opt files. flat_name opt = ''kernel'' \<and> dslx_files files = [(''kernel.x'', ''fn'')] \<and>
     specifications (flat_stages opt files []) (map fst (flat_inputs files [(''init.mem'', [])]))
       [''ir_converter_main'', ''opt_main'', ''codegen_main''] = Inr (flat_stages opt files [])"
proof -
  let ?opt = "\<lparr>flat_name = ''kernel'', top = ''Top'', source_name = ''kernel.x'', pipeline_stages = 1,
    initiation_interval = None, ram_configurations = None, delay_model = ''unit'', channel_delays = [],
    codegen_flags = None, has_delay_table = False, has_optimizer = True\<rparr>"
  let ?files = "\<lparr>dslx_files = [(''kernel.x'', ''fn'')], stdlib_files = [(''std.x'', [])], asset_files = []\<rparr>"
  have "c_identifier (flat_name ?opt)" by code_simp
  from flat_recipe_accepted[OF this, of ?files "[]" "[(''init.mem'', [])]"]
  show ?thesis by (intro exI[of _ ?opt] exI[of _ ?files]) (simp add: suffix_def)
qed

text \<open>
  The frozen delay table: it is bound exactly when the last selected model is \<open>xc7_7030\<close>, as one more
  flag in front of the first scheduling flag, and the order of all the literal flags survives.
\<close>

theorem delay_table_bound_once:
  "with_delay_table flags table = Inr result \<longleftrightarrow>
     (selected_model flags = Some ''xc7_7030'') = table \<and>
     (if table then \<exists>before after. flags = before @ after \<and> result = before @ [table_flag] @ after \<and>
        list_all (\<lambda>f. \<not> schedules f) before \<and> (after = [] \<or> schedules (hd after))
      else result = flags)"
  by (rule with_delay_table_Inr)

section \<open>Paths\<close>

text \<open>
  A path that a source bundle may name, once normalized, is one the executor takes literally, and
  normalizing it again changes nothing.
\<close>

theorem source_path_normalized:
  assumes "source_relative raw = Inr r"
  shows "relative True r = Inr r \<and> source_relative r = Inr r \<and> path_parts r = path_parts raw"
proof -
  from assms have r: "r = path_string raw" by (simp add: source_relative_iff)
  show ?thesis
  proof (cases "path_parts raw = []")
    case True
    then have "r = ''.''" using r by (simp add: path_string_def)
    with True show ?thesis by (simp add: source_relative_def relative_def path_parts_def path_string_def is_absolute_def)
  next
    case False
    with assms r have "normal_path r" "hd (path_parts raw) \<noteq> ''_stdlib''"
      by (auto simp: source_relative_iff)
    with r show ?thesis
      using normal_path_facts[of r] source_relative_accepted[OF assms] by (simp add: source_relative_iff)
  qed
qed

theorem source_path_normalized_witness:
  "source_relative ''./lib//a.x'' = Inr ''lib/a.x'' \<and> relative True ''lib/a.x'' = Inr ''lib/a.x'' \<and>
   source_relative ''lib/a.x'' = Inr ''lib/a.x''"
proof -
  have "source_relative ''./lib//a.x'' = Inr ''lib/a.x''"
    by code_simp
  with source_path_normalized[OF this] show ?thesis by simp
qed

section \<open>Input trees\<close>

text \<open>
  C23. An input tree whose links may lead anywhere is either listed completely or refused: it is refused exactly
  when some directory reachable from the root can be reached from itself. Otherwise every file of a chosen suffix
  below the root is bound once, under the prefix and its way from the root, and nothing else is.
\<close>

theorem tree_files_exact:
  assumes "tree_ok fs" and "map_of fs d \<noteq> None" and "pre = [] \<or> pre = ''.'' \<or> normal_path pre"
  shows "case tree_files fs (Some d) pre sfx of
      Inl e \<Rightarrow> \<exists>x. (d, x) \<in> (leads fs)\<^sup>* \<and> (x, x) \<in> (leads fs)\<^sup>+
    | Inr found \<Rightarrow> \<not> (\<exists>x. (d, x) \<in> (leads fs)\<^sup>* \<and> (x, x) \<in> (leads fs)\<^sup>+) \<and> distinct (map fst found) \<and>
        (\<forall>k v. (k, v) \<in> set found \<longleftrightarrow> file_below fs d v \<and> path_suffix (last v) \<in> set sfx \<and> k = input_key pre v) \<and>
        (\<forall>(k, v)\<in>set found. path_parts k = path_parts pre @ v)"
proof -
  have "d \<in> fst ` set fs" using assms(2) by (auto dest: map_of_SomeD intro: rev_image_eqI)
  moreover have "\<exists>u. (if pre = [] then Inr [] else relative True pre) = Inr u" using assms(3) by (auto simp: relative_iff)
  ultimately have run: "tree_files fs (Some d) pre sfx = collect_files fs sfx pre [] [] d" by (auto simp: tree_files_def ensure_def)
  show ?thesis
  proof (cases "collect_files fs sfx pre [] [] d")
    case (Inl e)
    from loop_when_refused(1)[OF Inl assms(1,2)] show ?thesis by (simp add: run Inl)
  next
    case (Inr found)
    have free: "\<not> (\<exists>x. (d, x) \<in> (leads fs)\<^sup>* \<and> (x, x) \<in> (leads fs)\<^sup>+)" using no_loop_below(1)[OF Inr] by blast
    have all: "good_table pre found" "set found = wanted sfx pre [] {b. file_below fs d b}" using collected(1)[OF Inr assms(1)] by simp_all
    from all(2) have "\<forall>k v. (k, v) \<in> set found \<longleftrightarrow> file_below fs d v \<and> path_suffix (last v) \<in> set sfx \<and> k = input_key pre v"
      by (auto simp: wanted_def)
    moreover from all(1) have "distinct (map fst found)" "\<forall>(k, v)\<in>set found. path_parts k = path_parts pre @ v"
      by (auto simp: good_table_def input_key_parts)
    ultimately show ?thesis using free by (simp add: run Inr)
  qed
qed

text \<open>A library linked into its own directory, and one that is not.\<close>

definition linked_tree :: "string \<Rightarrow> file_tree" where
  "linked_tree target = [(''r'', [(''std.x'', Plain_File), (''lib'', Subdirectory ''l''), (''log'', Plain_File)]),
     (''l'', [(''a.x'', Plain_File), (''again'', Subdirectory target)]), (''m'', [(''b.x'', Plain_File)])]"

theorem tree_files_exact_witness:
  "tree_files (linked_tree ''m'') (Some ''r'') ''_stdlib'' [''.x''] = Inr [(''_stdlib/lib/a.x'', [''lib'', ''a.x'']),
     (''_stdlib/lib/again/b.x'', [''lib'', ''again'', ''b.x'']), (''_stdlib/std.x'', [''std.x''])] \<and>
   file_below (linked_tree ''m'') ''r'' [''lib'', ''again'', ''b.x''] \<and>
   tree_files (linked_tree ''r'') (Some ''r'') ''_stdlib'' [''.x''] = Inl (Cyclic_Input [''lib'', ''again'']) \<and>
   (\<exists>x. (''r'', x) \<in> (leads (linked_tree ''r''))\<^sup>* \<and> (x, x) \<in> (leads (linked_tree ''r''))\<^sup>+)"
proof -
  have pre: "[] = ''_stdlib'' \<or> ''_stdlib'' = ''.'' \<or> normal_path ''_stdlib''" by (simp add: normal_single part_ok_def)
  have a: "tree_files (linked_tree ''m'') (Some ''r'') ''_stdlib'' [''.x''] = Inr [(''_stdlib/lib/a.x'', [''lib'', ''a.x'']),
     (''_stdlib/lib/again/b.x'', [''lib'', ''again'', ''b.x'']), (''_stdlib/std.x'', [''std.x''])]" by code_simp
  have b: "tree_files (linked_tree ''r'') (Some ''r'') ''_stdlib'' [''.x''] = Inl (Cyclic_Input [''lib'', ''again''])" by code_simp
  have ok: "tree_ok (linked_tree ''m'')" "map_of (linked_tree ''m'') ''r'' \<noteq> None" "tree_ok (linked_tree ''r'')" "map_of (linked_tree ''r'') ''r'' \<noteq> None"
    by (simp_all add: linked_tree_def tree_ok_def part_ok_def)
  show ?thesis
    using tree_files_exact[OF ok(1,2), of "''_stdlib''" "[''.x'']"] tree_files_exact[OF ok(3,4), of "''_stdlib''" "[''.x'']"] pre
    unfolding a b by auto
qed

end
