(* ===== verification/Source_Properties.thy ===== *)
theory Source_Properties
  imports Source_Facts Build_Properties
begin

text \<open>
  The properties of source bundles: what a checked plan guarantees, when the executor accepts its
  stages, and that the role lists of a release lead to the files they name.
\<close>

section \<open>A concrete bundle for the witnesses\<close>

definition demo_unit :: "string \<Rightarrow> supplied_unit" where
  "demo_unit output = \<lparr>unit_directory = ''k'', unit_role = ''.'', unit_source = ''k/a.x'', unit_output = output,
     unit_top = ''Top'', unit_module = ''k'', unit_flags = [''--pipeline_stages=1''], unit_path = [''.'']\<rparr>"

definition demo_manifest :: "string \<Rightarrow> source_manifest" where
  "demo_manifest output = \<lparr>source_version = 1, source_metadata = None, source_inputs = [(''k/a.x'', ''fn'')],
     source_units = [demo_unit output], source_rtl = [(''k'', [output])]\<rparr>"

definition demo_bundle :: source_bundle where
  "demo_bundle = \<lparr>bundle_path = ''/b'', manifest_bytes = ''{}'', bundle_files = [''k/a.x'' \<mapsto> ''fn''],
     has_directory = (\<lambda>d. d \<in> {''k'', ''.''}), modules_below = (\<lambda>d. if d = ''.'' then [''k/a.x''] else []),
     installed = (\<lambda>name. Some (''/x/'' @ name, ''elf'')), installed_stdlib = Some [(''std.x'', ''std'')]\<rparr>"

lemma demo_plan_ok: "case plan_build plain demo_bundle (demo_manifest ''rtl/k.v'') of Inl _ \<Rightarrow> False | Inr plan \<Rightarrow> plan_units plan \<noteq> [] \<and>
   plan_rtl plan = [(''k'', [''rtl/k.v''])] \<and>
   map spec_output (source_specs plan) = [''k/raw.ir'', ''k/optimized.ir'', ''rtl/k.v'']"
  by code_simp

section \<open>Plans\<close>

text \<open>
  C32. What a checked plan guarantees: the frozen inputs have distinct normalized names and the
  digests recorded for them; the commands of every unit are those of its normalized description, and the files
  the units write (products, logs, command records) are pairwise distinct and none of them is an input.
\<close>

theorem plan_is_disjoint:
  assumes "plan_build pf b m = Inr plan"
  shows "distinct (map (path_string \<circ> fst) (source_inputs m)) \<and>
    list_all (\<lambda>(file, digest). \<exists>bytes. bundle_files b (path_string file) = Some bytes \<and> sha pf bytes = digest)
      (source_inputs m) \<and>
    list_all (\<lambda>u. unit_stages u = unit_commands u (plan_tools plan)) (plan_units plan) \<and>
    distinct (all_written (plan_units plan)) \<and>
    set (all_written (plan_units plan)) \<inter> set (map (path_string \<circ> fst) (source_inputs m)) = {}"
proof -
  obtain bound products where bound: "foldE (bind_input pf b) [] (source_inputs m) = Inr bound"
    and units: "planned_units (map fst bound) (plan_tools plan) (plan_units plan, products)"
    using assms by (rule plan_build_Inr)
  have names: "map fst bound = map (path_string \<circ> fst) (source_inputs m)"
    using bind_inputs_names[OF bound] by simp
  have "distinct (map fst bound)"
    by (rule foldE_invariant[OF bound, of "\<lambda>d. distinct (map fst d)"])
      (auto simp: bind_input_def bindE_Inr split: prod.splits option.splits)
  moreover have "list_all (\<lambda>(file, digest). \<exists>bytes. bundle_files b (path_string file) = Some bytes \<and> sha pf bytes = digest) rows"
    if "foldE (bind_input pf b) d rows = Inr d'" for d d' rows
    using that by (induction rows arbitrary: d)
      (auto simp: bindE_Inr bind_input_def source_relative_iff split: prod.splits option.splits)
  ultimately show ?thesis
    using units bound unfolding names[symmetric] by (auto simp: planned_units_def planned_def list_all_iff)
qed

theorem plan_is_disjoint_witness:
  "\<exists>plan. plan_build plain demo_bundle (demo_manifest ''rtl/k.v'') = Inr plan \<and>
     distinct (all_written (plan_units plan)) \<and> ''k/a.x'' \<notin> set (all_written (plan_units plan))"
proof -
  obtain plan where plan: "plan_build plain demo_bundle (demo_manifest ''rtl/k.v'') = Inr plan"
    using demo_plan_ok by (auto split: sum.splits)
  have "path_string ''k/a.x'' = ''k/a.x''" by code_simp
  with plan_is_disjoint[OF plan] plan show ?thesis by (auto simp: demo_manifest_def)
qed

text \<open>
  C9. The stages built from a checked plan of normalized rows are accepted by the executor exactly when
  there is one, no product is the root, the bundle's manifest or one of the executor's reserved names, and no
  stage diagnostic collides with a product or an input; all its other checks hold by construction.
\<close>

theorem plan_stages_accepted:
  assumes "plan_build pf b m = Inr plan" and "list_all (normal_path \<circ> fst) (source_inputs m)"
  shows "specifications (source_specs plan) (map fst (expected plan)) (map fst (plan_tools plan)) = Inr (source_specs plan) \<longleftrightarrow>
     plan_units plan \<noteq> [] \<and>
     set (map spec_output (source_specs plan)) \<inter>
       ({''.'', ''source-build.json''} \<union> set reserved_names \<union>
        set (concat (map (diagnostic_names \<circ> spec_id) (source_specs plan)))) = {} \<and>
     set (concat (map (diagnostic_names \<circ> spec_id) (source_specs plan))) \<inter> set (map fst (expected plan)) = {}"
  by (rule source_specs_accepted[OF assms])

theorem plan_stages_accepted_witness:
  "\<exists>plan. plan_build plain demo_bundle (demo_manifest ''rtl/k.v'') = Inr plan \<and>
     specifications (source_specs plan) (map fst (expected plan)) (map fst (plan_tools plan)) = Inr (source_specs plan)"
proof -
  obtain plan where plan: "plan_build plain demo_bundle (demo_manifest ''rtl/k.v'') = Inr plan"
    and facts: "plan_units plan \<noteq> []" "map spec_output (source_specs plan) = [''k/raw.ir'', ''k/optimized.ir'', ''rtl/k.v'']"
    using demo_plan_ok by (auto split: sum.splits)
  have ids: "case plan_build plain demo_bundle (demo_manifest ''rtl/k.v'') of Inl _ \<Rightarrow> False | Inr plan \<Rightarrow>
    map spec_id (source_specs plan) = [''unit0.convert'', ''unit0.opt'', ''unit0.codegen''] \<and>
    map fst (expected plan) = [''k/a.x'', ''source-build.json'', ''_stdlib/std.x'']"
    by code_simp
  have rows: "list_all (normal_path \<circ> fst) (source_inputs (demo_manifest ''rtl/k.v''))"
    by (auto simp: demo_manifest_def normal_path_def part_ok_def intro!: exI[of _ "[''k'', ''a.x'']"])
  from ids plan have names: "map spec_id (source_specs plan) = [''unit0.convert'', ''unit0.opt'', ''unit0.codegen'']"
    "map fst (expected plan) = [''k/a.x'', ''source-build.json'', ''_stdlib/std.x'']" by simp_all
  have diagnostics: "concat (map (diagnostic_names \<circ> spec_id) (source_specs plan)) =
      concat (map diagnostic_names [''unit0.convert'', ''unit0.opt'', ''unit0.codegen''])"
    unfolding names(1)[symmetric] by (simp add: comp_def)
  have "specifications (source_specs plan) (map fst (expected plan)) (map fst (plan_tools plan)) = Inr (source_specs plan)"
    by (rule plan_stages_accepted[OF plan rows, THEN iffD2], unfold facts(2) diagnostics names(2))
      (use facts(1) in \<open>simp add: diagnostic_names_def reserved_names_def log_names_def\<close>)
  with plan show ?thesis by blast
qed

text \<open>
  The plan checks the name of the release manifest against the inputs only: a unit whose product is called
  \<open>compiled.json\<close> is planned and compiled, and the build then fails when it is published.
\<close>

lemma compiled_json_rejected_late:
  "fst (compile_build plain (demo_environment good_run) demo_request demo_bundle (demo_manifest ''compiled.json'')
     (\<lambda>name. if name = ''k/a.x'' then ''fn'' else if name = ''source-build.json'' then ''{}'' else ''std'') (\<lambda>_. ''elf'')
     (\<lambda>_. []) (\<lambda>_. JNull) demo_world) = Inl Publication_Shadow"
  by code_simp

section \<open>Role lists\<close>

text \<open>
  The listing of a role is portable: following each of its lines from the role's directory leads
  to the file it stands for, which is an input of the bundle or a file that one of its units writes.
\<close>

theorem listings_lead_to_files:
  assumes "plan_build pf b m = Inr plan" and "(role, paths) \<in> set (plan_rtl plan)" and "path \<in> set paths"
  shows "follow (path_parts role) (path_parts (relpath path role)) = path_parts path \<and>
    (path \<in> set (map (path_string \<circ> fst) (source_inputs m)) \<or> path \<in> set (all_written (plan_units plan)))"
proof -
  obtain bound products where bound: "foldE (bind_input pf b) [] (source_inputs m) = Inr bound"
    and units: "planned_units (map fst bound) (plan_tools plan) (plan_units plan, products)"
    and roles: "checkE (check_role (map fst bound) products) (plan_rtl plan) = Inr ()"
    using assms(1) by (rule plan_build_Inr)
  have names: "map fst bound = map (path_string \<circ> fst) (source_inputs m)"
    using bind_inputs_names[OF bound] by simp
  from roles assms(2,3) have "path \<in> set (map fst bound) \<or> path \<in> set products"
    by (fastforce simp: check_role_def bindE_Inr)
  moreover have "source_name_ok role" "source_name_ok path"
    using plan_rtl_names[OF assms(1,2)] assms(3) by (auto simp: list_all_iff)
  then have "''..'' \<notin> set (path_parts role)" "''..'' \<notin> set (path_parts path)"
    using normal_path_facts(3) by (auto simp: source_name_ok_def)
  ultimately show ?thesis
    using follow_relpath units unfolding names[symmetric] by (auto simp: planned_units_def)
qed

theorem listings_lead_to_files_witness:
  "\<exists>plan. plan_build plain demo_bundle (demo_manifest ''rtl/k.v'') = Inr plan \<and> plan_rtl plan = [(''k'', [''rtl/k.v''])] \<and>
     relpath ''rtl/k.v'' ''k'' = ''../rtl/k.v'' \<and> ''rtl/k.v'' \<in> set (all_written (plan_units plan))"
proof -
  obtain plan where plan: "plan_build plain demo_bundle (demo_manifest ''rtl/k.v'') = Inr plan"
    and rtl: "plan_rtl plan = [(''k'', [''rtl/k.v''])]"
    using demo_plan_ok by (auto split: sum.splits)
  have "relpath ''rtl/k.v'' ''k'' = ''../rtl/k.v''" "path_string ''k/a.x'' = ''k/a.x''" by code_simp+
  with listings_lead_to_files[OF plan, of "''k''" "[''rtl/k.v'']" "''rtl/k.v''"] plan rtl
  show ?thesis by (auto simp: demo_manifest_def)
qed

end
