(* ===== verification/Dslx_Lex.thy ===== *)
theory Dslx_Lex
  imports Prelude
begin

text \<open>
  The lexer of \<open>tools/dslx_source_contracts.py\<close>: the alternatives of \<open>LEXEME\<close> as one matcher, and
  \<open>tokens\<close>, which keeps code with its lines and remembers which tokens follow a comment directly.
  Sources are ASCII: the character classes are those of the regular expression on ASCII text.
\<close>

record token =
  token_text :: string
  token_line :: nat
  token_documented :: bool

datatype source_error = Source_Error nat string | Unknown_Bracket string | Out_Of_Fuel

section \<open>The regular expression\<close>

definition is_space :: "char \<Rightarrow> bool" where
  "is_space c \<longleftrightarrow> c = CHR '' '' \<or> c \<in> {CHR 0x09, CHR 0x0A, CHR 0x0B, CHR 0x0C, CHR 0x0D} \<or>
     c \<in> {CHR 0x1C, CHR 0x1D, CHR 0x1E, CHR 0x1F}"

definition name_start :: "char \<Rightarrow> bool" where
  "name_start c \<longleftrightarrow> is_upper c \<or> is_lower c \<or> c = CHR ''_''"

definition is_alnum :: "char \<Rightarrow> bool" where
  "is_alnum c \<longleftrightarrow> is_upper c \<or> is_lower c \<or> is_digit c"

text \<open>The rest of a block comment, of a string and of a character, with what follows.\<close>

fun block_end :: "string \<Rightarrow> (string \<times> string) option" where
  "block_end [] = None"
| "block_end (c # cs) =
     (if c = CHR ''*'' \<and> prefix ''/'' cs then Some (''*/'', tl cs)
      else map_option (apfst ((#) c)) (block_end cs))"

fun string_end :: "string \<Rightarrow> (string \<times> string) option" where
  "string_end [] = None"
| "string_end (c # cs) =
     (if c = CHR 0x22 then Some ([c], cs)
      else if c = CHR 0x5C then
        (case cs of [] \<Rightarrow> None | d # ds \<Rightarrow> map_option (apfst (\<lambda>s. c # d # s)) (string_end ds))
      else map_option (apfst ((#) c)) (string_end cs))"

definition character_end :: "string \<Rightarrow> (string \<times> string) option" where
  "character_end s = (case s of
      c # d # e # rest \<Rightarrow>
        if c = CHR 0x5C \<and> d \<noteq> CHR 0x0A \<and> e = CHR 0x27 then Some ([c, d, e], rest)
        else if c \<noteq> CHR 0x5C \<and> c \<noteq> CHR 0x27 \<and> d = CHR 0x27 then Some ([c, d], e # rest) else None
    | [c, d] \<Rightarrow> if c \<noteq> CHR 0x5C \<and> c \<noteq> CHR 0x27 \<and> d = CHR 0x27 then Some ([c, d], []) else None
    | _ \<Rightarrow> None)"

definition span :: "(char \<Rightarrow> bool) \<Rightarrow> string \<Rightarrow> string \<times> string" where
  "span P s = (takeWhile P s, dropWhile P s)"

text \<open>A single character that is neither a word character nor a space.\<close>

definition punctuation :: "string \<Rightarrow> (string \<times> string) option" where
  "punctuation s = (case s of [] \<Rightarrow> None
     | c # cs \<Rightarrow> if word_char c \<or> is_space c then None else Some ([c], cs))"

text \<open>The alternatives of \<open>LEXEME\<close>, in their order.\<close>

definition nonempty :: "string \<times> string \<Rightarrow> (string \<times> string) option" where
  "nonempty p = (if fst p = [] then None else Some p)"

definition after :: "string \<Rightarrow> (string \<Rightarrow> (string \<times> string) option) \<Rightarrow> string \<Rightarrow> (string \<times> string) option" where
  "after start m s = (if prefix start s then map_option (apfst ((@) start)) (m (drop (length start) s)) else None)"

definition line_comment :: "string \<Rightarrow> (string \<times> string) option" where
  "line_comment = after ''//'' (\<lambda>s. Some (span (\<lambda>d. d \<noteq> CHR 0x0A) s))"

definition identifier_at :: "string \<Rightarrow> (string \<times> string) option" where
  "identifier_at s = (if s \<noteq> [] \<and> name_start (hd s) then Some (span word_char s) else None)"

definition number_at :: "string \<Rightarrow> (string \<times> string) option" where
  "number_at s = (if s \<noteq> [] \<and> is_digit (hd s) then Some (span word_char s) else None)"

definition alternatives :: "(string \<Rightarrow> (string \<times> string) option) list" where
  "alternatives = [line_comment, after ''/*'' block_end, \<lambda>s. nonempty (span is_space s),
     after [CHR 0x22] string_end, after [CHR 0x27] character_end, identifier_at, number_at, punctuation]"

fun first_match :: "('a \<Rightarrow> 'b option) list \<Rightarrow> 'a \<Rightarrow> 'b option" where
  "first_match [] s = None"
| "first_match (m # ms) s = (case m s of None \<Rightarrow> first_match ms s | Some x \<Rightarrow> Some x)"

definition lexeme :: "string \<Rightarrow> (string \<times> string) option" where
  "lexeme = first_match alternatives"

section \<open>Tokens\<close>

definition is_comment :: "string \<Rightarrow> bool" where
  "is_comment t \<longleftrightarrow> prefix ''//'' t \<or> prefix ''/*'' t"

definition trivia :: "string \<Rightarrow> bool" where
  "trivia t \<longleftrightarrow> is_comment t \<or> list_all is_space t"

definition newlines :: "string \<Rightarrow> nat" where
  "newlines t = length (filter (\<lambda>c. c = CHR 0x0A) t)"

record lexer =
  lexed :: "token list"
  lexer_line :: nat
  comment_line :: nat
  comment_pending :: bool

definition lex_step :: "lexer \<Rightarrow> string \<Rightarrow> lexer" where
  "lex_step st text =
     (let end_line = lexer_line st + newlines text;
          st' = (if is_comment text
             then (if lexed st = [] \<or> token_line (last (lexed st)) < lexer_line st
               then st\<lparr>comment_pending := comment_pending st \<or> list_ex is_alnum text, comment_line := end_line\<rparr>
               else st)
             else if \<not> list_all is_space text
             then st\<lparr>lexed := lexed st @ [\<lparr>token_text = text, token_line = lexer_line st,
                 token_documented = comment_pending st \<and> lexer_line st \<le> comment_line st + 1\<rparr>],
               comment_pending := False\<rparr>
             else if end_line > comment_line st + 1 then st\<lparr>comment_pending := False\<rparr> else st)
      in st'\<lparr>lexer_line := end_line\<rparr>)"

text \<open>\<open>finditer\<close> skips what no alternative matches; the next match then is not at the offset.\<close>

fun matches_later :: "string \<Rightarrow> bool" where
  "matches_later [] = False"
| "matches_later (c # cs) = (lexeme (c # cs) \<noteq> None \<or> matches_later cs)"

lemma block_end_append: "block_end s = Some (t, r) \<Longrightarrow> t @ r = s"
  by (induction s arbitrary: t r) (auto simp: prefix_def split: if_splits)

lemma string_end_append: "string_end s = Some (t, r) \<Longrightarrow> t @ r = s"
  by (induction s arbitrary: t r rule: string_end.induct) (auto split: if_splits list.splits)

lemma character_end_append: "character_end s = Some (t, r) \<Longrightarrow> t @ r = s"
  by (auto simp: character_end_def split: list.splits if_splits)

text \<open>A lexeme is a nonempty prefix of what it is matched on.\<close>

definition consumes :: "(string \<Rightarrow> (string \<times> string) option) \<Rightarrow> bool" where
  "consumes m \<longleftrightarrow> (\<forall>s t r. m s = Some (t, r) \<longrightarrow> t @ r = s \<and> t \<noteq> [])"

lemma consumesI: "(\<And>s t r. m s = Some (t, r) \<Longrightarrow> t @ r = s \<and> t \<noteq> []) \<Longrightarrow> consumes m"
  by (simp add: consumes_def)

lemma first_match_Some: "first_match ms s = Some x \<Longrightarrow> \<exists>m\<in>set ms. m s = Some x"
  by (induction ms) (auto split: option.splits)

lemma after_consumes:
  assumes "\<And>s t r. m s = Some (t, r) \<Longrightarrow> t @ r = s" and "start \<noteq> []"
  shows "consumes (after start m)"
  using assms by (intro consumesI) (auto simp: after_def prefix_def split: if_splits)

lemma span_append: "Some (span P s) = Some (t, r) \<Longrightarrow> t @ r = s"
  by (auto simp: span_def)

lemma span_consumes: "consumes (\<lambda>s. nonempty (span P s))"
  by (intro consumesI) (auto simp: nonempty_def span_def split: if_splits)

lemma word_consumes:
  assumes "\<And>c. P c \<Longrightarrow> word_char c"
  shows "consumes (\<lambda>s. if s \<noteq> [] \<and> P (hd s) then Some (span word_char s) else None)"
proof (rule consumesI)
  fix s t r assume "(if s \<noteq> [] \<and> P (hd s) then Some (span word_char s) else None) = Some (t, r)"
  then show "t @ r = s \<and> t \<noteq> []" using assms by (cases s) (auto simp: span_def split: if_splits)
qed

lemma punctuation_consumes: "consumes punctuation"
  by (intro consumesI) (auto simp: punctuation_def split: list.splits if_splits)

lemma alternatives_consume: "list_all consumes alternatives"
proof -
  have "name_start c \<Longrightarrow> word_char c" "is_digit c \<Longrightarrow> word_char c" for c
    by (auto simp: name_start_def word_char_def)
  then have "consumes identifier_at" "consumes number_at"
    unfolding identifier_at_def[abs_def] number_at_def[abs_def] by (simp_all add: word_consumes)
  moreover have "consumes line_comment"
    unfolding line_comment_def by (intro after_consumes span_append) simp_all
  moreover have "consumes (after ''/*'' block_end)" "consumes (after [CHR 0x22] string_end)"
    "consumes (after [CHR 0x27] character_end)"
    using block_end_append string_end_append character_end_append by (intro after_consumes; simp)+
  ultimately show ?thesis
    by (simp add: alternatives_def span_consumes punctuation_consumes)
qed

lemma lexeme_append: "lexeme s = Some (t, r) \<Longrightarrow> t @ r = s \<and> t \<noteq> []"
  using first_match_Some[of alternatives s "(t, r)"] alternatives_consume
  unfolding lexeme_def list_all_iff consumes_def by blast

lemma lexeme_Nil [simp]: "lexeme [] = None"
  using lexeme_append[of "[]"] by (cases "lexeme []") auto

lemma lexeme_shorter: "lexeme s = Some (t, r) \<Longrightarrow> length r < length s"
  using lexeme_append[of s t r] by (metis length_append length_greater_0_conv less_add_same_cancel2)

function tokens_from :: "lexer \<Rightarrow> string \<Rightarrow> (source_error, token list) result" where
  "tokens_from st s = (if s = [] then Inr (lexed st) else
     case lexeme s of
       None \<Rightarrow> Inl (Source_Error (lexer_line st)
         (if matches_later s then ''unrecognized token or unterminated literal'' else ''unrecognized token''))
     | Some (text, rest) \<Rightarrow>
         if text \<in> {[CHR 0x22], [CHR 0x27]}
         then Inl (Source_Error (lexer_line st) ''unrecognized token or unterminated literal'')
         else tokens_from (lex_step st text) rest)"
  by pat_completeness auto
termination
  by (relation "measure (\<lambda>(_, s). length s)") (auto dest: lexeme_shorter)

declare tokens_from.simps [simp del]

definition tokens :: "string \<Rightarrow> (source_error, token list) result" where
  "tokens source = tokens_from \<lparr>lexed = [], lexer_line = 1, comment_line = 0, comment_pending = False\<rparr> source"

section \<open>What the lexer keeps\<close>

text \<open>The lexemes of a source, in order.\<close>

inductive lexes :: "string \<Rightarrow> string list \<Rightarrow> bool" where
  lexes_end: "lexes [] []"
| lexes_more: "lexeme s = Some (t, r) \<Longrightarrow> lexes r ts \<Longrightarrow> lexes s (t # ts)"

inductive_cases lexes_NilE: "lexes [] ts"

lemma lexes_concat: "lexes s ts \<Longrightarrow> concat ts = s"
  by (induction rule: lexes.induct) (auto dest: lexeme_append)

lemma lexes_deterministic: "lexes s ts \<Longrightarrow> lexes s us \<Longrightarrow> ts = us"
proof (induction arbitrary: us rule: lexes.induct)
  case (lexes_more s t r ts)
  from lexes_more.prems lexes_more.hyps(1) show ?case
    by (cases rule: lexes.cases) (use lexes_more.IH in auto)
qed (auto elim: lexes.cases)

lemma lex_step_texts:
  "map token_text (lexed (lex_step st t)) = map token_text (lexed st) @ (if trivia t then [] else [t])"
  by (auto simp: lex_step_def Let_def trivia_def)

lemma tokens_from_texts:
  assumes "tokens_from st s = Inr ts"
  shows "\<exists>ls. lexes s ls \<and> map token_text ts = map token_text (lexed st) @ filter (\<lambda>t. \<not> trivia t) ls"
  using assms
proof (induction st s rule: tokens_from.induct)
  case (1 st s)
  show ?case
  proof (cases "s = []")
    case True
    with 1 show ?thesis by (auto simp: tokens_from.simps intro: lexes_end exI[of _ "[]"])
  next
    case False
    with "1.prems" obtain t r where step: "lexeme s = Some (t, r)" "t \<notin> {[CHR 0x22], [CHR 0x27]}"
      "tokens_from (lex_step st t) r = Inr ts"
      by (subst (asm) tokens_from.simps) (auto split: option.splits if_splits)
    from "1.IH"[OF False step(1) refl step(2,3)] obtain ls where
      "lexes r ls" "map token_text ts = map token_text (lexed (lex_step st t)) @ filter (\<lambda>t. \<not> trivia t) ls" by blast
    with lexes_more[OF step(1)] show ?thesis
      unfolding lex_step_texts by (intro exI[of _ "t # ls"]) auto
  qed
qed

end
