(* ===== verification/Dslx_Reader.thy ===== *)
theory Dslx_Reader
  imports Dslx_Lex
begin

text \<open>
  The declaration reader of \<open>tools/dslx_source_contracts.py\<close>. The reader's index is the list of the
  tokens that are left; \<open>l\<close> is the line it reports at the end of the file. Its loops and its recursion on
  nested brackets run on fuel, and the lemmas below show that the fuel given always suffices.
\<close>

section \<open>Single tokens\<close>

definition peek :: "token list \<Rightarrow> string" where
  "peek ts = (case ts of [] \<Rightarrow> [] | t # _ \<Rightarrow> token_text t)"

definition fail_at :: "nat \<Rightarrow> token list \<Rightarrow> string \<Rightarrow> (source_error, 'a) result" where
  "fail_at l ts reason = Inl (Source_Error (case ts of [] \<Rightarrow> l | t # _ \<Rightarrow> token_line t) reason)"

definition word_or :: "string \<Rightarrow> string \<Rightarrow> string" where
  "word_or other s = (if s = [] then other else s)"

definition take_token :: "string option \<Rightarrow> nat \<Rightarrow> token list \<Rightarrow> (source_error, string \<times> token list) result" where
  "take_token expected l ts =
     (let text = peek ts in
      if text = [] \<or> (case expected of None \<Rightarrow> False | Some e \<Rightarrow> text \<noteq> e)
      then fail_at l ts (''expected '' @ (case expected of None \<Rightarrow> ''token'' | Some e \<Rightarrow> word_or ''token'' e) @
        '', found '' @ word_or ''end of file'' text)
      else Inr (text, tl ts))"

definition is_identifier :: "string \<Rightarrow> bool" where
  "is_identifier s \<longleftrightarrow> s \<noteq> [] \<and> name_start (hd s) \<and> list_all word_char s"

definition take_name :: "nat \<Rightarrow> token list \<Rightarrow> (source_error, string \<times> token list) result" where
  "take_name l ts = (if \<not> is_identifier (peek ts) then fail_at l ts ''expected declaration name''
     else take_token None l ts)"

definition bracket_pairs :: "(string \<times> string) list" where
  "bracket_pairs = [(''('', '')''), (''['', '']''), (''{'', ''}'')]"

definition opens :: "string \<Rightarrow> bool" where "opens t \<longleftrightarrow> t \<in> fst ` set bracket_pairs"

definition closes :: "string \<Rightarrow> bool" where "closes t \<longleftrightarrow> t \<in> snd ` set bracket_pairs"

section \<open>Balanced text\<close>

fun group_fuel :: "nat \<Rightarrow> nat \<Rightarrow> token list \<Rightarrow> (source_error, token list) result"
  and skip_until :: "nat \<Rightarrow> nat \<Rightarrow> string \<Rightarrow> token list \<Rightarrow> (source_error, token list) result" where
  "group_fuel 0 l ts = Inl Out_Of_Fuel"
| "group_fuel (Suc n) l ts =
     bindE (take_token None l ts) (\<lambda>(bracket, ts).
     case map_of bracket_pairs bracket of
       None \<Rightarrow> Inl (Unknown_Bracket bracket)
     | Some closing \<Rightarrow> skip_until n l closing ts)"
| "skip_until 0 l closing ts = Inl Out_Of_Fuel"
| "skip_until (Suc n) l closing ts =
     (if peek ts = closing then bindE (take_token (Some closing) l ts) (\<lambda>(_, ts). Inr ts)
      else if opens (peek ts) then bindE (group_fuel n l ts) (skip_until n l closing)
      else if peek ts = [] \<or> closes (peek ts) then fail_at l ts (''unclosed group; expected '' @ closing)
      else bindE (take_token None l ts) (\<lambda>(_, ts). skip_until n l closing ts))"

definition group :: "nat \<Rightarrow> token list \<Rightarrow> (source_error, token list) result" where
  "group l ts = group_fuel (2 * length ts + 2) l ts"

fun parameters_fuel :: "nat \<Rightarrow> nat \<Rightarrow> token list \<Rightarrow> (source_error, token list) result"
  and header_fuel :: "nat \<Rightarrow> nat \<Rightarrow> token list \<Rightarrow> (source_error, token list) result" where
  "parameters_fuel 0 l ts = Inl Out_Of_Fuel"
| "parameters_fuel (Suc n) l ts =
     (if peek ts \<noteq> ''<'' then Inr ts
      else bindE (take_token (Some ''<'') l ts) (\<lambda>(_, ts). header_fuel n l ts))"
| "header_fuel 0 l ts = Inl Out_Of_Fuel"
| "header_fuel (Suc n) l ts =
     (if peek ts = ''>'' then bindE (take_token (Some ''>'') l ts) (\<lambda>(_, ts). Inr ts)
      else if peek ts = ''<'' then bindE (parameters_fuel n l ts) (header_fuel n l)
      else if opens (peek ts) then bindE (group l ts) (header_fuel n l)
      else if peek ts \<in> {[], '';'', ''}''} then fail_at l ts ''unclosed parametric header''
      else bindE (take_token None l ts) (\<lambda>(_, ts). header_fuel n l ts))"

definition parameters :: "nat \<Rightarrow> token list \<Rightarrow> (source_error, token list) result" where
  "parameters l ts = parameters_fuel (2 * length ts + 2) l ts"

fun semicolon_fuel :: "nat \<Rightarrow> nat \<Rightarrow> token list \<Rightarrow> (source_error, token list) result" where
  "semicolon_fuel 0 l ts = Inl Out_Of_Fuel"
| "semicolon_fuel (Suc n) l ts =
     (if peek ts = '';'' then bindE (take_token (Some '';'') l ts) (\<lambda>(_, ts). Inr ts)
      else if opens (peek ts) then bindE (group l ts) (semicolon_fuel n l)
      else if peek ts \<in> {[], ''}''} then fail_at l ts ''expected declaration terminator''
      else bindE (take_token None l ts) (\<lambda>(_, ts). semicolon_fuel n l ts))"

definition through_semicolon :: "nat \<Rightarrow> token list \<Rightarrow> (source_error, token list) result" where
  "through_semicolon l ts = semicolon_fuel (Suc (length ts)) l ts"

text \<open>The header of a declaration up to its body.\<close>

fun to_body_fuel :: "nat \<Rightarrow> nat \<Rightarrow> token list \<Rightarrow> (source_error, token list) result" where
  "to_body_fuel 0 l ts = Inl Out_Of_Fuel"
| "to_body_fuel (Suc n) l ts =
     (if peek ts = ''{'' then Inr ts
      else if opens (peek ts) then bindE (group l ts) (to_body_fuel n l)
      else if peek ts = ''<'' then bindE (parameters l ts) (to_body_fuel n l)
      else if peek ts \<in> {[], '';'', ''}''} then fail_at l ts ''expected declaration body''
      else bindE (take_token None l ts) (\<lambda>(_, ts). to_body_fuel n l ts))"

definition to_body :: "nat \<Rightarrow> token list \<Rightarrow> (source_error, token list) result" where
  "to_body l ts = to_body_fuel (Suc (length ts)) l ts"

section \<open>Declarations\<close>

text \<open>A gap: its line, the declaration, the rule, and the code that is fingerprinted.\<close>

record gap =
  gap_line :: nat
  gap_id :: string
  gap_rule :: string
  gap_body :: "string list"

definition contract :: "token list \<Rightarrow> token list \<Rightarrow> string \<Rightarrow> bool \<Rightarrow> bool \<Rightarrow> gap list" where
  "contract start rest ident public documented =
     (if documented then []
      else [\<lparr>gap_line = (case start of [] \<Rightarrow> 0 | t # _ \<Rightarrow> token_line t), gap_id = ident,
        gap_rule = (if public then ''public_doc'' else ''private_comment''),
        gap_body = map token_text (take (length start - length rest) start)\<rparr>])"

definition head_documented :: "token list \<Rightarrow> bool" where
  "head_documented ts = (case ts of [] \<Rightarrow> False | t # _ \<Rightarrow> token_documented t)"

text \<open>Attributes belong to the declaration; comments on either side count.\<close>

fun attributes :: "nat \<Rightarrow> nat \<Rightarrow> bool \<Rightarrow> token list \<Rightarrow> (source_error, bool \<times> token list) result" where
  "attributes 0 l documented ts = Inl Out_Of_Fuel"
| "attributes (Suc n) l documented ts =
     (if peek ts \<noteq> ''#'' then Inr (documented, ts)
      else bindE (take_token (Some ''#'') l ts) (\<lambda>(_, ts).
        bindE (if peek ts = ''!'' then take_token (Some ''!'') l ts else Inr ([], ts)) (\<lambda>(_, ts).
        bindE (if peek ts \<noteq> ''['' then fail_at l ts ''expected attribute'' else Inr ()) (\<lambda>_.
        bindE (group l ts) (\<lambda>ts.
        attributes n l (documented \<or> peek ts \<noteq> [] \<and> head_documented ts) ts)))))"

datatype 'a form = Skipped 'a | Declared string string 'a

text \<open>
  The keyword of a declaration and its name, up to its type or header: \<open>Skipped\<close> for a binding, an
  import or a member, \<open>Declared\<close> with the kind and the name otherwise.
\<close>

definition kind_and_name :: "string \<Rightarrow> nat \<Rightarrow> token list \<Rightarrow> (source_error, token list form) result" where
  "kind_and_name owner l ts =
     bindE (take_token None l ts) (\<lambda>(kind, rest).
     if kind \<in> {''import'', ''use'', ''const'', ''const_assert''}
     then bindE (through_semicolon l rest) (\<lambda>ts. Inr (Skipped ts))
     else if owner \<noteq> [] \<and> kind \<in> {''config'', ''init'', ''next''}
     then Inr (Declared ''fn'' (owner @ ''.'' @ kind) rest)
     else if kind \<in> {''fn'', ''proc'', ''struct'', ''enum'', ''type''}
     then bindE (take_name l rest) (\<lambda>(name, ts).
       bindE (parameters l ts) (\<lambda>ts.
       Inr (Declared kind (if owner \<noteq> [] then owner @ ''.'' @ name else name) ts)))
     else if owner \<noteq> [] \<and> is_identifier kind \<and> peek rest = '':''
     then bindE (through_semicolon l rest) (\<lambda>ts. Inr (Skipped ts))
     else fail_at l rest (''unsupported declaration: '' @ kind))"

definition ident_of :: "string \<Rightarrow> string \<Rightarrow> string" where
  "ident_of kind name = (if kind = ''fn'' then ''function'' else kind) @ '':'' @ name"

fun declaration_fuel ::
  "nat \<Rightarrow> nat \<Rightarrow> string \<Rightarrow> token list \<Rightarrow> (source_error, gap list \<times> token list) result"
  and members_fuel ::
  "nat \<Rightarrow> nat \<Rightarrow> string \<Rightarrow> token list \<Rightarrow> (source_error, gap list \<times> token list) result" where
  "declaration_fuel 0 l owner ts = Inl Out_Of_Fuel"
| "declaration_fuel (Suc n) l owner start =
     bindE (attributes (Suc (length start)) l (head_documented start) start) (\<lambda>(documented, ts).
     let public = peek ts = ''pub'' in
     bindE (if public then take_token (Some ''pub'') l ts else Inr ([], ts)) (\<lambda>(_, ts).
     bindE (kind_and_name owner l ts) (\<lambda>form. case form of
       Skipped ts \<Rightarrow> Inr ([], ts)
     | Declared kind name ts \<Rightarrow>
       bindE (if kind = ''type'' then bindE (through_semicolon l ts) (\<lambda>ts. Inr ([], ts))
         else bindE (to_body l ts) (\<lambda>ts.
           if kind = ''proc''
           then bindE (take_token (Some ''{'') l ts) (\<lambda>(_, ts). members_fuel n l name ts)
           else bindE (group l ts) (\<lambda>ts. Inr ([], ts)))) (\<lambda>(gaps, ts).
       Inr (gaps @ contract start ts (ident_of kind name) public documented, ts)))))"
| "members_fuel 0 l name ts = Inl Out_Of_Fuel"
| "members_fuel (Suc n) l name ts =
     (if peek ts = ''}'' then bindE (take_token (Some ''}'') l ts) (\<lambda>(_, ts). Inr ([], ts))
      else if peek ts = [] then fail_at l ts ''unclosed proc''
      else bindE (declaration_fuel n l name ts) (\<lambda>(gaps, ts).
        bindE (members_fuel n l name ts) (\<lambda>(more, ts). Inr (gaps @ more, ts))))"

definition declaration_at :: "nat \<Rightarrow> string \<Rightarrow> token list \<Rightarrow> (source_error, gap list \<times> token list) result" where
  "declaration_at l owner ts = declaration_fuel (2 * length ts + 2) l owner ts"

section \<open>Files\<close>

fun declarations :: "nat \<Rightarrow> nat \<Rightarrow> token list \<Rightarrow> (source_error, gap list) result" where
  "declarations 0 l ts = Inl Out_Of_Fuel"
| "declarations (Suc n) l ts =
     (if peek ts = [] then Inr []
      else bindE (declaration_at l [] ts) (\<lambda>(gaps, ts).
        bindE (declarations n l ts) (\<lambda>more. Inr (gaps @ more))))"

definition last_line :: "token list \<Rightarrow> nat" where
  "last_line ts = (if ts = [] then 1 else token_line (last ts))"

definition read_source :: "string \<Rightarrow> (source_error, gap list) result" where
  "read_source source = bindE (tokens source) (\<lambda>ts. declarations (Suc (length ts)) (last_line ts) ts)"

text \<open>One row of the audit: a gap with its fingerprint, or the reason why a file could not be read.\<close>

datatype finding = Gap string nat string string string | Parse_Failure string nat string

definition file_findings :: "(string list \<Rightarrow> string) \<Rightarrow> (string \<Rightarrow> string) \<Rightarrow> string \<Rightarrow> finding list" where
  "file_findings fingerprint text path = (case read_source (text path) of
      Inr gaps \<Rightarrow> map (\<lambda>g. Gap path (gap_line g) (gap_id g) (gap_rule g) (fingerprint (gap_body g))) gaps
    | Inl (Source_Error line reason) \<Rightarrow> [Parse_Failure path line reason]
    | Inl _ \<Rightarrow> [])"

definition findings :: "(string list \<Rightarrow> string) \<Rightarrow> (string \<Rightarrow> string) \<Rightarrow> string list \<Rightarrow> finding list" where
  "findings fingerprint text paths = concat (map (file_findings fingerprint text) paths)"

end
