(* ===== verification/Dslx_Facts.thy ===== *)
theory Dslx_Facts
  imports Dslx_Reader
begin

text \<open>
  Every reader operation consumes tokens and never runs out of fuel, and skipping a group accepts
  exactly the balanced texts of a small reference grammar.
\<close>

section \<open>Progress\<close>

lemma take_token_Inr:
  "take_token e l ts = Inr (x, r) \<longleftrightarrow>
     (\<exists>t. ts = t # r \<and> token_text t = x) \<and> x \<noteq> [] \<and> (e = None \<or> e = Some x)"
  by (cases ts; cases e) (auto simp: take_token_def peek_def fail_at_def Let_def)

lemma take_token_fuel [simp]: "take_token e l ts \<noteq> Inl Out_Of_Fuel" "fail_at l ts reason \<noteq> Inl Out_Of_Fuel"
  by (auto simp: take_token_def fail_at_def Let_def)

lemma fail_at_Inr [simp]: "fail_at l ts reason \<noteq> Inr x"
  by (simp add: fail_at_def)

lemma take_token_shorter: "take_token e l ts = Inr (x, r) \<Longrightarrow> strict_suffix r ts"
  by (auto simp: take_token_Inr strict_suffix_def suffix_def)

lemma strict_suffix_length: "strict_suffix r ts \<Longrightarrow> length r < length ts"
  by (rule suffix_length_less)

lemma bind_fuel:
  "bindE m f = Inl Out_Of_Fuel \<longleftrightarrow> m = Inl Out_Of_Fuel \<or> (\<exists>x. m = Inr x \<and> f x = Inl Out_Of_Fuel)"
  by (cases m) (auto simp: bindE_def)

lemma group_skip_shorter:
  "group_fuel n l ts = Inr r \<Longrightarrow> strict_suffix r ts"
  "skip_until n l closing ts = Inr r \<Longrightarrow> strict_suffix r ts"
proof (induction n l ts and n l closing ts arbitrary: r and r rule: group_fuel_skip_until.induct)
  case (2 n l ts)
  from "2.prems" obtain b us c where "take_token None l ts = Inr (b, us)" "map_of bracket_pairs b = Some c"
    "skip_until n l c us = Inr r" by (auto simp: bindE_Inr split: option.splits)
  with "2.IH" take_token_shorter show ?case
    by (metis suffix_order.strict_trans)
next
  case (4 n l closing ts)
  consider x us where "take_token None l ts = Inr (x, us)" "skip_until n l closing us = Inr r"
      "peek ts \<noteq> closing" "\<not> opens (peek ts)" "\<not> (peek ts = [] \<or> closes (peek ts))"
    | us where "group_fuel n l ts = Inr us" "skip_until n l closing us = Inr r" "peek ts \<noteq> closing" "opens (peek ts)"
    | x where "take_token (Some closing) l ts = Inr (x, r)"
    using "4.prems" by (auto simp: bindE_Inr split: if_splits)
  then show ?case
  proof cases
    case (1 x us)
    with "4.IH"(3)[OF 1(3-5), of "(x, us)" x us r] take_token_shorter show ?thesis
      by (metis suffix_order.strict_trans)
  next
    case (2 us)
    with "4.IH"(1)[OF 2(3,4)] "4.IH"(2)[OF 2(3,4)] show ?thesis
      by (metis suffix_order.strict_trans)
  next
    case 3
    then show ?thesis by (rule take_token_shorter)
  qed
qed simp_all

lemma group_skip_fuel:
  "2 * length ts \<le> n \<Longrightarrow> 0 < n \<Longrightarrow> group_fuel n l ts \<noteq> Inl Out_Of_Fuel"
  "2 * length ts < n \<Longrightarrow> skip_until n l closing ts \<noteq> Inl Out_Of_Fuel"
proof (induction n l ts and n l closing ts rule: group_fuel_skip_until.induct)
  case (2 n l ts)
  have "skip_until n l c us \<noteq> Inl Out_Of_Fuel" if "take_token None l ts = Inr (b, us)" "map_of bracket_pairs b = Some c" for b us c
    using "2.IH"[of "(b, us)" b us c] that "2.prems" strict_suffix_length[OF take_token_shorter[OF that(1)]] by simp
  then show ?case by (auto simp: bind_fuel split: option.splits)
next
  case (4 n l closing ts)
  have "skip_until n l closing us \<noteq> Inl Out_Of_Fuel" if "take_token None l ts = Inr (x, us)"
    "peek ts \<noteq> closing" "\<not> opens (peek ts)" "\<not> (peek ts = [] \<or> closes (peek ts))" for x us
    using "4.IH"(3)[OF that(2-4), of "(x, us)" x us] that(1) "4.prems" strict_suffix_length[OF take_token_shorter[OF that(1)]] by simp
  moreover have "skip_until n l closing us \<noteq> Inl Out_Of_Fuel" if "group_fuel n l ts = Inr us" "peek ts \<noteq> closing" "opens (peek ts)" for us
    using "4.IH"(2)[OF that(2,3), of us] that(1) "4.prems" strict_suffix_length[OF group_skip_shorter(1)[OF that(1)]] by simp
  moreover have "group_fuel n l ts \<noteq> Inl Out_Of_Fuel" if "peek ts \<noteq> closing" "opens (peek ts)"
  proof -
    have "ts \<noteq> []" using that by (auto simp: peek_def opens_def bracket_pairs_def)
    then show ?thesis using "4.IH"(1)[OF that] "4.prems" by (cases ts) simp_all
  qed
  ultimately show ?case by (auto simp: bind_fuel)
qed simp_all

lemma group_facts:
  "group l ts = Inr r \<Longrightarrow> strict_suffix r ts" "group l ts \<noteq> Inl Out_Of_Fuel"
  unfolding group_def by (erule group_skip_shorter, simp add: group_skip_fuel del: group_fuel.simps)

text \<open>An operation proceeds when its fuel suffices and what it leaves is a suffix of what it was given.\<close>

definition proceeds ::
  "('a \<Rightarrow> token list) \<Rightarrow> (token list \<Rightarrow> token list \<Rightarrow> bool) \<Rightarrow> (source_error, 'a) result \<Rightarrow> token list \<Rightarrow> bool" where
  "proceeds rest R m ts \<longleftrightarrow> m \<noteq> Inl Out_Of_Fuel \<and> (\<forall>x. m = Inr x \<longrightarrow> R (rest x) ts)"

abbreviation "strictly rest \<equiv> proceeds rest strict_suffix"
abbreviation "weakly rest \<equiv> proceeds rest suffix"

named_theorems proceed_intros \<open>progress of the reader's operations\<close>

lemma weakly_strictly: "strictly g m ts \<Longrightarrow> weakly g m ts"
  by (auto simp: proceeds_def)

lemma strictly_bind:
  assumes "strictly g m ts" and "\<And>x. m = Inr x \<Longrightarrow> strict_suffix (g x) ts \<Longrightarrow> weakly h (f x) (g x)"
  shows "strictly h (bindE m f) ts"
  using assms by (fastforce simp: proceeds_def bind_fuel bindE_Inr dest: suffix_order.le_less_trans)

lemma weakly_bind:
  assumes "weakly g m ts" and "\<And>x. m = Inr x \<Longrightarrow> suffix (g x) ts \<Longrightarrow> weakly h (f x) (g x)"
  shows "weakly h (bindE m f) ts"
  using assms by (fastforce simp: proceeds_def bind_fuel bindE_Inr dest: suffix_order.order_trans)

lemmas weakly_by_bind = weakly_strictly[OF strictly_bind]

lemma weakly_strictly_bind:
  assumes "weakly g m ts" and "\<And>x. m = Inr x \<Longrightarrow> suffix (g x) ts \<Longrightarrow> strictly h (f x) (g x)"
  shows "strictly h (bindE m f) ts"
  using assms by (fastforce simp: proceeds_def bind_fuel bindE_Inr dest: suffix_order.less_le_trans)

lemma proceeds_simps [simp, proceed_intros]:
  "proceeds g R (fail_at l ts reason) us"
  "strictly snd (take_token e l ts) ts" "strictly (\<lambda>r. r) (group l ts) ts"
  "weakly g (Inr x) (g x)"
  by (auto simp: proceeds_def group_facts(2) dest: take_token_shorter group_facts(1))

lemma weakly_here [simp]: "weakly (\<lambda>r. r) (Inr ts) ts"
  by (simp add: proceeds_def)

lemma take_rest_proceeds [simp]: "strictly (\<lambda>r. r) (bindE (take_token e l ts) (\<lambda>(_, ts). Inr ts)) ts"
  by (auto simp: proceeds_def bind_fuel bindE_Inr dest: take_token_shorter)

lemma take_name_proceeds [proceed_intros]: "strictly snd (take_name l ts) ts"
  by (simp add: take_name_def)

lemma opens_nonempty: "opens (peek ts) \<Longrightarrow> ts \<noteq> []"
  by (auto simp: peek_def opens_def bracket_pairs_def)

lemma peek_nonempty: "peek ts = c # cs \<Longrightarrow> ts \<noteq> []"
  by (auto simp: peek_def)

lemma parameters_header_proceed:
  "2 * length ts \<le> n \<Longrightarrow> 0 < n \<Longrightarrow> weakly (\<lambda>r. r) (parameters_fuel n l ts) ts \<and>
     (peek ts = ''<'' \<longrightarrow> strictly (\<lambda>r. r) (parameters_fuel n l ts) ts)"
  "2 * length ts < n \<Longrightarrow> strictly (\<lambda>r. r) (header_fuel n l ts) ts"
proof (induction n l ts and n l ts rule: parameters_fuel_header_fuel.induct)
  case (2 n l ts)
  show ?case
  proof (cases "peek ts = ''<''")
    case True
    have "strictly (\<lambda>r. r) (parameters_fuel (Suc n) l ts) ts"
      using True "2.IH" "2.prems"
      by (auto intro!: strictly_bind[of snd] weakly_strictly dest: strict_suffix_length)
    then show ?thesis by (auto intro: weakly_strictly)
  qed (simp add: proceeds_def)
next
  case (4 n l ts)
  note close = take_rest_proceeds[of "Some ''>''" l ts]
  have nested: "strictly (\<lambda>r. r) (bindE (parameters_fuel n l ts) (header_fuel n l)) ts" if "peek ts = ''<''"
    using that "4.IH"(1,2) "4.prems" peek_nonempty[OF that]
    by (cases ts) (auto intro!: strictly_bind[of "\<lambda>r. r"] weakly_strictly dest!: strict_suffix_length)
  have grouped: "strictly (\<lambda>r. r) (bindE (group l ts) (header_fuel n l)) ts"
    if "peek ts \<noteq> ''>''" "peek ts \<noteq> ''<''" "opens (peek ts)"
    using that "4.IH"(3) "4.prems"
    by (auto intro!: strictly_bind[of "\<lambda>r. r"] weakly_strictly dest!: strict_suffix_length)
  have other: "strictly (\<lambda>r. r) (bindE (take_token None l ts) (\<lambda>(_, ts). header_fuel n l ts)) ts"
    if "peek ts \<noteq> ''>''" "peek ts \<noteq> ''<''" "\<not> opens (peek ts)" "peek ts \<notin> {[], '';'', ''}''}"
    using that "4.IH"(4) "4.prems"
    by (auto intro!: strictly_bind[of snd] weakly_strictly dest!: strict_suffix_length)
  show ?case using close nested grouped other by simp
qed (auto simp: proceeds_def)

lemma parameters_proceed [simp]: "weakly (\<lambda>r. r) (parameters l ts) ts"
  "peek ts = ''<'' \<Longrightarrow> strictly (\<lambda>r. r) (parameters l ts) ts"
  using parameters_header_proceed(1)[of ts "2 * length ts + 2" l] by (auto simp: parameters_def)

text \<open>The two plain loops have one shape: close, skip a nested text, fail, or take a token.\<close>

lemma semicolon_proceeds: "length ts < n \<Longrightarrow> strictly (\<lambda>r. r) (semicolon_fuel n l ts) ts"
proof (induction n l ts rule: semicolon_fuel.induct)
  case (2 n l ts)
  have grouped: "strictly (\<lambda>r. r) (bindE (group l ts) (semicolon_fuel n l)) ts"
    if "peek ts \<noteq> '';''" "opens (peek ts)"
    using that "2.IH"(1) "2.prems"
    by (auto intro!: strictly_bind[of "\<lambda>r. r"] weakly_strictly dest!: strict_suffix_length)
  have other: "strictly (\<lambda>r. r) (bindE (take_token None l ts) (\<lambda>(_, ts). semicolon_fuel n l ts)) ts"
    if "peek ts \<noteq> '';''" "\<not> opens (peek ts)" "peek ts \<notin> {[], ''}''}"
    using that "2.IH"(2) "2.prems"
    by (auto intro!: strictly_bind[of snd] weakly_strictly dest!: strict_suffix_length)
  show ?case using grouped other by simp
qed simp

lemma through_semicolon_proceeds [simp]: "strictly (\<lambda>r. r) (through_semicolon l ts) ts"
  by (simp add: through_semicolon_def semicolon_proceeds del: semicolon_fuel.simps)

lemma to_body_fuel_proceeds: "length ts < n \<Longrightarrow> weakly (\<lambda>r. r) (to_body_fuel n l ts) ts"
proof (induction n l ts rule: to_body_fuel.induct)
  case (2 n l ts)
  have grouped: "weakly (\<lambda>r. r) (bindE (group l ts) (to_body_fuel n l)) ts"
    if "peek ts \<noteq> ''{''" "opens (peek ts)"
    using that "2.IH"(1) "2.prems"
    by (auto intro!: weakly_by_bind[of "\<lambda>r. r"] dest!: strict_suffix_length)
  have nested: "weakly (\<lambda>r. r) (bindE (parameters l ts) (to_body_fuel n l)) ts"
    if "peek ts \<noteq> ''{''" "\<not> opens (peek ts)" "peek ts = ''<''"
    using that "2.IH"(2) "2.prems"
    by (auto intro!: weakly_by_bind[of "\<lambda>r. r"] dest!: strict_suffix_length)
  have other: "weakly (\<lambda>r. r) (bindE (take_token None l ts) (\<lambda>(_, ts). to_body_fuel n l ts)) ts"
    if "peek ts \<noteq> ''{''" "\<not> opens (peek ts)" "peek ts \<noteq> ''<''" "peek ts \<notin> {[], '';'', ''}''}"
    using that "2.IH"(3) "2.prems"
    by (auto intro!: weakly_by_bind[of snd] dest!: strict_suffix_length)
  show ?case using grouped nested other by (auto simp: proceeds_simps)
qed simp

lemma to_body_proceeds [simp]: "weakly (\<lambda>r. r) (to_body l ts) ts"
  by (simp add: to_body_def to_body_fuel_proceeds del: to_body_fuel.simps)

lemma attributes_proceed: "length ts < n \<Longrightarrow> weakly snd (attributes n l documented ts) ts"
proof (induction n arbitrary: documented ts)
  case (Suc n)
  have no_fuel: "attributes n l d r \<noteq> Inl Out_Of_Fuel" and ends: "attributes n l d r = Inr (x, b) \<Longrightarrow> suffix b ts"
    if "strict_suffix r ts" for r d x b
    using Suc.IH[of r d] Suc.prems strict_suffix_length[OF that] that
    by (auto simp: proceeds_def dest: suffix_order.less_imp_le suffix_order.order_trans)
  have plain: "strict_suffix r ts" if "take_token (Some ''#'') l ts = Inr (a, us)" "group l us = Inr r" for a us r
    using take_token_shorter[OF that(1)] group_facts(1)[OF that(2)] by (rule suffix_order.strict_trans[rotated])
  have banged: "strict_suffix r ts" if "take_token (Some ''#'') l ts = Inr (a, us)"
    "take_token (Some ''!'') l us = Inr (b, vs)" "group l vs = Inr r" for a us b vs r
    using plain[OF that(1)] take_token_shorter[OF that(1)] take_token_shorter[OF that(2)] group_facts(1)[OF that(3)]
    by (meson suffix_order.strict_trans)
  show ?case
    unfolding attributes.simps proceeds_def
    by (auto simp: bind_fuel bindE_Inr group_facts(2) no_fuel plain banged split: if_splits)
      (blast dest: plain banged ends no_fuel)+
qed simp

fun form_rest :: "token list form \<Rightarrow> token list" where
  "form_rest (Skipped ts) = ts"
| "form_rest (Declared kind name ts) = ts"

lemma kind_and_name_proceeds: "strictly form_rest (kind_and_name owner l ts) ts"
proof -
  have skip: "weakly form_rest (bindE (through_semicolon l us) (\<lambda>ts. Inr (Skipped ts))) us" for us
    by (rule weakly_by_bind[OF through_semicolon_proceeds]) (auto simp: proceeds_def)
  have named: "weakly form_rest (bindE (take_name l us) (\<lambda>(name, ts). bindE (parameters l ts) (\<lambda>ts. Inr (Declared kind (f name) ts)))) us"
    for us kind f
  proof (rule weakly_by_bind[OF take_name_proceeds])
    fix x :: "string \<times> token list"
    show "weakly form_rest (case x of (name, ts) \<Rightarrow> bindE (parameters l ts) (\<lambda>ts. Inr (Declared kind (f name) ts))) (snd x)"
      by (cases x) (auto intro!: weakly_bind[OF parameters_proceed(1)] simp: proceeds_def[of form_rest _ "Inr _"])
  qed
  have "weakly form_rest (case x of (kind, rest) \<Rightarrow>
      if kind \<in> {''import'', ''use'', ''const'', ''const_assert''}
      then bindE (through_semicolon l rest) (\<lambda>ts. Inr (Skipped ts))
      else if owner \<noteq> [] \<and> kind \<in> {''config'', ''init'', ''next''}
      then Inr (Declared ''fn'' (owner @ ''.'' @ kind) rest)
      else if kind \<in> {''fn'', ''proc'', ''struct'', ''enum'', ''type''}
      then bindE (take_name l rest) (\<lambda>(name, ts). bindE (parameters l ts) (\<lambda>ts.
        Inr (Declared kind (if owner \<noteq> [] then owner @ ''.'' @ name else name) ts)))
      else if owner \<noteq> [] \<and> is_identifier kind \<and> peek rest = '':''
      then bindE (through_semicolon l rest) (\<lambda>ts. Inr (Skipped ts))
      else fail_at l rest (''unsupported declaration: '' @ kind)) (snd x)" for x
    using skip named[where kind = "fst x" and f = "\<lambda>name. if owner \<noteq> [] then owner @ ''.'' @ name else name" and us = "snd x"]
    by (cases x; cases "owner = []") (simp_all add: proceeds_def[of form_rest _ "Inr _"] del: insert_iff)
  then show ?thesis unfolding kind_and_name_def by (intro strictly_bind[OF proceeds_simps(2)])
qed

lemma body_proceeds:
  assumes "\<And>vs. strict_suffix vs us \<Longrightarrow> weakly snd (members_fuel n l name vs) vs"
  shows "weakly snd (if kind = ''type'' then bindE (through_semicolon l us) (\<lambda>ts. Inr ([], ts))
      else bindE (to_body l us) (\<lambda>ts.
        if kind = ''proc'' then bindE (take_token (Some ''{'') l ts) (\<lambda>(_, ts). members_fuel n l name ts)
        else bindE (group l ts) (\<lambda>ts. Inr ([], ts)))) us"
proof -
  have "weakly snd (bindE (through_semicolon l us) (\<lambda>ts. Inr ([] :: gap list, ts))) us"
    by (rule weakly_by_bind[OF through_semicolon_proceeds]) (auto simp: proceeds_def)
  moreover have "weakly snd (bindE (group l ts) (\<lambda>ts. Inr ([] :: gap list, ts))) ts" for ts
    by (rule weakly_by_bind[OF proceeds_simps(3)]) (auto simp: proceeds_def)
  moreover have "weakly snd (bindE (take_token (Some ''{'') l ts) (\<lambda>(_, ts). members_fuel n l name ts)) ts"
    if "suffix ts us" for ts
    using assms that
    by (auto intro!: weakly_by_bind[OF proceeds_simps(2)] dest: suffix_order.less_le_trans)
  ultimately show ?thesis by (auto intro!: weakly_bind[OF to_body_proceeds])
qed

lemma form_proceeds:
  assumes "\<And>vs name. strict_suffix vs (form_rest form) \<Longrightarrow> weakly snd (members_fuel n l name vs) vs"
  shows "weakly snd (case form of Skipped ts \<Rightarrow> Inr ([], ts)
     | Declared kind name ts \<Rightarrow>
       bindE (if kind = ''type'' then bindE (through_semicolon l ts) (\<lambda>ts. Inr ([], ts))
         else bindE (to_body l ts) (\<lambda>ts.
           if kind = ''proc''
           then bindE (take_token (Some ''{'') l ts) (\<lambda>(_, ts). members_fuel n l name ts)
           else bindE (group l ts) (\<lambda>ts. Inr ([], ts)))) (\<lambda>(gaps, ts).
       Inr (gaps @ contract start ts (ident_of kind name) public documented, ts))) (form_rest form)"
proof (cases form)
  case (Declared kind name ts)
  then have members: "\<And>vs. strict_suffix vs ts \<Longrightarrow> weakly snd (members_fuel n l name vs) vs" using assms by simp
  show ?thesis
    unfolding Declared form.case form_rest.simps
    by (rule weakly_bind[OF body_proceeds[OF members]]) (auto simp: proceeds_def)
qed (simp add: proceeds_def)

lemma declaration_proceeds:
  assumes "\<And>vs name. length vs + 2 \<le> length start \<Longrightarrow> weakly snd (members_fuel n l name vs) vs"
  shows "strictly snd (declaration_fuel (Suc n) l owner start) start"
proof -
  have pub: "weakly snd (if public then take_token (Some ''pub'') l us else Inr ([], us)) us" for us public
    using weakly_strictly[OF proceeds_simps(2)] by (auto simp: proceeds_def)
  have "strictly snd (bindE (kind_and_name owner l us) (\<lambda>form. case form of
       Skipped ts \<Rightarrow> Inr ([], ts)
     | Declared kind name ts \<Rightarrow>
       bindE (if kind = ''type'' then bindE (through_semicolon l ts) (\<lambda>ts. Inr ([], ts))
         else bindE (to_body l ts) (\<lambda>ts.
           if kind = ''proc''
           then bindE (take_token (Some ''{'') l ts) (\<lambda>(_, ts). members_fuel n l name ts)
           else bindE (group l ts) (\<lambda>ts. Inr ([], ts)))) (\<lambda>(gaps, ts).
       Inr (gaps @ contract start ts (ident_of kind name) public documented, ts)))) us"
    if "suffix us start" for us public documented
  proof (rule strictly_bind[OF kind_and_name_proceeds], rule form_proceeds, rule assms)
    fix form vs assume "strict_suffix (form_rest form) us" "strict_suffix vs (form_rest form)"
    with that show "length vs + 2 \<le> length start"
      by (auto dest!: strict_suffix_length suffix_length_le)
  qed
  note named = this
  show ?thesis
    unfolding declaration_fuel.simps
  proof (rule weakly_strictly_bind[OF attributes_proceed[OF lessI]])
    fix x :: "bool \<times> token list" assume "suffix (snd x) start"
    then show "strictly snd (case x of (documented, ts) \<Rightarrow> let public = peek ts = ''pub'' in
      bindE (if public then take_token (Some ''pub'') l ts else Inr ([], ts)) (\<lambda>(_, ts).
      bindE (kind_and_name owner l ts) (\<lambda>form. case form of
       Skipped ts \<Rightarrow> Inr ([], ts)
     | Declared kind name ts \<Rightarrow>
       bindE (if kind = ''type'' then bindE (through_semicolon l ts) (\<lambda>ts. Inr ([], ts))
         else bindE (to_body l ts) (\<lambda>ts.
           if kind = ''proc''
           then bindE (take_token (Some ''{'') l ts) (\<lambda>(_, ts). members_fuel n l name ts)
           else bindE (group l ts) (\<lambda>ts. Inr ([], ts)))) (\<lambda>(gaps, ts).
       Inr (gaps @ contract start ts (ident_of kind name) public documented, ts))))) (snd x)"
      unfolding Let_def split_beta
      by (intro weakly_strictly_bind[OF pub] named[unfolded split_beta]) (rule suffix_order.order_trans)
  qed
qed

lemma declaration_members_proceed:
  "(2 * length ts \<le> n \<longrightarrow> 0 < n \<longrightarrow> strictly snd (declaration_fuel n l owner ts) ts) \<and>
   (2 * length ts < n \<longrightarrow> strictly snd (members_fuel n l name ts) ts)"
proof (induction n arbitrary: ts owner name)
  case (Suc n)
  have decl: "strictly snd (declaration_fuel (Suc n) l owner ts) ts" if "2 * length ts \<le> Suc n"
    using that Suc by (intro declaration_proceeds weakly_strictly) simp
  have "strictly snd (members_fuel (Suc n) l name ts) ts" if len: "2 * length ts < Suc n"
  proof -
    have close: "strictly snd (bindE (take_token (Some ''}'') l ts) (\<lambda>(_, ts). Inr ([] :: gap list, ts))) ts"
      by (rule strictly_bind[OF proceeds_simps(2)]) (auto simp: proceeds_def)
    have more: "strictly snd (bindE (declaration_fuel n l name ts) (\<lambda>(gaps, ts).
        bindE (members_fuel n l name ts) (\<lambda>(more, ts). Inr (gaps @ more, ts)))) ts" if "peek ts \<noteq> []"
    proof -
      have "0 < n" using that len by (cases ts) (auto simp: peek_def)
      then have "strictly snd (declaration_fuel n l name ts) ts" using Suc[of ts name] len by auto
      moreover have "weakly snd (bindE (members_fuel n l name us) (\<lambda>(more, us). Inr (gaps @ more, us))) us"
        if "strict_suffix us ts" for us gaps
        using Suc[of us name name] len strict_suffix_length[OF that]
        by (intro weakly_by_bind[of snd]) (auto simp: proceeds_def[of snd _ "Inr _"])
      ultimately show ?thesis by (auto intro!: strictly_bind[of snd])
    qed
    from close more show ?thesis by (simp add: proceeds_simps(1))
  qed
  with decl show ?case by blast
qed simp

lemma declaration_at_proceeds [simp]: "strictly snd (declaration_at l owner ts) ts"
  unfolding declaration_at_def using declaration_members_proceed[of ts "2 * length ts + 2" l owner] by simp

lemma declarations_fuel: "length ts < n \<Longrightarrow> declarations n l ts \<noteq> Inl Out_Of_Fuel"
proof (induction n arbitrary: ts)
  case (Suc n)
  have "declaration_at l [] ts \<noteq> Inl Out_Of_Fuel"
    and "\<And>gaps r. declaration_at l [] ts = Inr (gaps, r) \<Longrightarrow> length r < length ts"
    using declaration_at_proceeds[of l "[]" ts] by (auto simp: proceeds_def dest: strict_suffix_length)
  with Suc show ?case by (auto simp: bind_fuel)
qed simp

section \<open>The reference grammar of bracketed text\<close>

inductive balanced :: "string list \<Rightarrow> bool" where
  nothing: "balanced []"
| plain: "t \<noteq> [] \<Longrightarrow> \<not> opens t \<Longrightarrow> \<not> closes t \<Longrightarrow> balanced ts \<Longrightarrow> balanced (t # ts)"
| nested: "(b, c) \<in> set bracket_pairs \<Longrightarrow> balanced us \<Longrightarrow> balanced ts \<Longrightarrow> balanced (b # us @ c # ts)"

abbreviation texts :: "token list \<Rightarrow> string list" where
  "texts \<equiv> map token_text"

lemma bracket_facts:
  assumes "(b, c) \<in> set bracket_pairs"
  shows "opens b" "closes c" "c \<noteq> []" "b \<noteq> []" "map_of bracket_pairs b = Some c" "\<not> opens c" "\<not> closes b" "b \<noteq> c"
  using assms by (auto simp: opens_def closes_def bracket_pairs_def)

lemma map_of_bracket: "map_of bracket_pairs b = Some c \<Longrightarrow> (b, c) \<in> set bracket_pairs"
  by (rule map_of_SomeD)

lemma balanced_sound:
  "group_fuel n l ts = Inr r \<Longrightarrow>
     \<exists>t u t'. ts = t # u @ t' # r \<and> (token_text t, token_text t') \<in> set bracket_pairs \<and> balanced (texts u)"
  "skip_until n l closing ts = Inr r \<Longrightarrow>
     \<exists>u t. ts = u @ t # r \<and> token_text t = closing \<and> balanced (texts u)"
proof (induction n arbitrary: ts r closing rule: nat.induct)
  case (Suc n)
  {
    case 1
    then obtain t us c where "ts = t # us" "map_of bracket_pairs (token_text t) = Some c" "skip_until n l c us = Inr r"
      by (auto simp: bindE_Inr take_token_Inr split: option.splits)
    moreover from Suc(2)[OF this(3)] obtain u t' where "us = u @ t' # r" "token_text t' = c" "balanced (texts u)" by blast
    ultimately show ?case by (auto dest!: map_of_bracket)
  next
    case 2
    consider t where "ts = t # r" "token_text t = closing"
      | us where "group_fuel n l ts = Inr us" "skip_until n l closing us = Inr r"
      | t us where "ts = t # us" "token_text t \<noteq> []" "\<not> opens (token_text t)" "\<not> closes (token_text t)"
          "skip_until n l closing us = Inr r"
      using 2 by (auto simp: bindE_Inr take_token_Inr peek_def split: if_splits)
    then show ?case
    proof cases
      case 1
      then show ?thesis by (intro exI[of _ "[]"] exI[of _ t]) (simp add: balanced.nothing)
    next
      case (2 us)
      from Suc(1)[OF 2(1)] obtain t u t' where g: "ts = t # u @ t' # us"
        "(token_text t, token_text t') \<in> set bracket_pairs" "balanced (texts u)" by blast
      from Suc(2)[OF 2(2)] obtain v w where s: "us = v @ w # r" "token_text w = closing" "balanced (texts v)" by blast
      from balanced.nested[OF g(2,3) s(3)] g(1) s(1,2) show ?thesis
        by (intro exI[of _ "t # u @ t' # v"] exI[of _ w]) simp
    next
      case (3 t us)
      from Suc(2)[OF 3(5)] obtain v w where s: "us = v @ w # r" "token_text w = closing" "balanced (texts v)" by blast
      with balanced.plain[OF 3(2-4) s(3)] 3(1) show ?thesis by (intro exI[of _ "t # v"] exI[of _ w]) simp
    qed
  }
qed simp_all

lemma balanced_complete:
  assumes "balanced us"
  shows "texts u = us \<Longrightarrow> (b, token_text t) \<in> set bracket_pairs \<Longrightarrow> 2 * length (u @ t # r) < n \<Longrightarrow>
    skip_until n l (token_text t) (u @ t # r) = Inr r"
  using assms
proof (induction arbitrary: u b t r n rule: balanced.induct)
  case nothing
  then show ?case
    using bracket_facts(3)[OF nothing.prems(2)] by (cases n) (auto simp: peek_def take_token_def bindE_def)
next
  case (plain x ts)
  then obtain y u' m where u: "u = y # u'" "token_text y = x" "texts u' = ts" "n = Suc m" by (cases n) auto
  have "skip_until m l (token_text t) (u' @ t # r) = Inr r"
    using plain.prems u by (intro plain.IH) auto
  moreover have "x \<noteq> token_text t" using plain.hyps(3) bracket_facts(2)[OF plain.prems(2)] by auto
  ultimately show ?case
    using u plain.hyps(1-3) by (simp add: peek_def take_token_def bindE_def)
next
  case (nested x y us ts)
  then obtain a u1 c u2 where u: "u = a # u1 @ c # u2" "token_text a = x" "texts u1 = us" "token_text c = y" "texts u2 = ts"
    by (auto simp: map_eq_Cons_conv map_eq_append_conv)
  have "4 \<le> n" using nested.prems(3) u by simp
  then have n: "n = Suc (Suc (Suc (n - 3)))" by simp
  then obtain m where n: "n = Suc (Suc (Suc m))" by blast
  have first: "skip_until (Suc m) l (token_text c) (u1 @ c # (u2 @ t # r)) = Inr (u2 @ t # r)"
    using nested.prems u nested.hyps n by (intro nested.IH(1)[of u1 x]) auto
  have second: "skip_until (Suc (Suc m)) l (token_text t) (u2 @ t # r) = Inr r"
    using nested.prems u n by (intro nested.IH(2)) auto
  have "x \<noteq> token_text t"
    using bracket_facts(1)[OF nested.hyps(1)] bracket_facts(6)[OF nested.prems(2)] by auto
  moreover have "group_fuel (Suc (Suc m)) l (u @ t # r) = Inr (u2 @ t # r)"
    using first u bracket_facts(4,5)[OF nested.hyps(1)] by (simp add: take_token_def peek_def)
  ultimately show ?case
    using second u n bracket_facts(1)[OF nested.hyps(1)] by (simp add: peek_def del: group_fuel.simps skip_until.simps add: skip_until.simps(2)[of "Suc (Suc m)"])
qed

lemma group_iff:
  "group l ts = Inr r \<longleftrightarrow>
     (\<exists>t u t'. ts = t # u @ t' # r \<and> (token_text t, token_text t') \<in> set bracket_pairs \<and> balanced (texts u))"
proof
  show "group l ts = Inr r \<Longrightarrow> \<exists>t u t'. ts = t # u @ t' # r \<and> (token_text t, token_text t') \<in> set bracket_pairs \<and>
      balanced (texts u)"
    unfolding group_def by (rule balanced_sound)
next
  assume "\<exists>t u t'. ts = t # u @ t' # r \<and> (token_text t, token_text t') \<in> set bracket_pairs \<and> balanced (texts u)"
  then obtain t u t' where ts: "ts = t # u @ t' # r" and b: "(token_text t, token_text t') \<in> set bracket_pairs"
    and u: "balanced (texts u)" by blast
  have "skip_until (2 * length ts + 1) l (token_text t') (u @ t' # r) = Inr r"
    by (rule balanced_complete[OF u refl b]) (simp add: ts)
  then have "group_fuel (Suc (2 * length ts + 1)) l ts = Inr r"
    unfolding ts using bracket_facts(4,5)[OF b] by (simp add: take_token_def peek_def del: skip_until.simps)
  then show "group l ts = Inr r" by (simp add: group_def)
qed

end
