(* ===== verification/Dslx_Located.thy ===== *)
theory Dslx_Located
  imports Dslx_Facts
begin

text \<open>
  Errors of the reader are located: \<open>group\<close> is only called on an opening bracket, so the lookup of its closing one
  cannot miss, and every line that is reported is the line of a token of the source.
\<close>

section \<open>Lines\<close>

definition lines_in :: "nat set \<Rightarrow> token list \<Rightarrow> bool" where
  "lines_in L ts \<longleftrightarrow> token_line ` set ts \<subseteq> L"

text \<open>An operation is located when its errors name a line of the set and its results satisfy a predicate.\<close>

definition located :: "nat set \<Rightarrow> ('a \<Rightarrow> bool) \<Rightarrow> (source_error, 'a) result \<Rightarrow> bool" where
  "located L P m \<longleftrightarrow> (case m of
       Inr x \<Rightarrow> P x
     | Inl (Source_Error line reason) \<Rightarrow> line \<in> L
     | Inl (Unknown_Bracket _) \<Rightarrow> False
     | Inl Out_Of_Fuel \<Rightarrow> True)"

lemma located_simps [simp]:
  "located L P (Inr x) \<longleftrightarrow> P x" "located L P (Inl Out_Of_Fuel)" "located L P (Inl (Source_Error line reason)) \<longleftrightarrow> line \<in> L"
  by (simp_all add: located_def)

lemma located_bind:
  assumes "located L P m" and "\<And>x. m = Inr x \<Longrightarrow> P x \<Longrightarrow> located L Q (f x)"
  shows "located L Q (bindE m f)"
  using assms by (cases m) (auto simp: bindE_def located_def)

lemma located_mono: "located L P m \<Longrightarrow> (\<And>x. m = Inr x \<Longrightarrow> P x \<Longrightarrow> Q x) \<Longrightarrow> located L Q m"
  by (auto simp: located_def split: sum.splits source_error.splits)

lemma lines_in_simps [simp]:
  "lines_in L []" "lines_in L (t # ts) \<longleftrightarrow> token_line t \<in> L \<and> lines_in L ts"
  by (auto simp: lines_in_def)

lemma lines_in_suffix: "suffix r ts \<Longrightarrow> lines_in L ts \<Longrightarrow> lines_in L r"
  by (auto simp: lines_in_def dest: set_mono_suffix)

lemma fail_located [simp]: "l \<in> L \<Longrightarrow> lines_in L ts \<Longrightarrow> located L P (fail_at l ts reason)"
  by (cases ts) (simp_all add: fail_at_def)

lemma take_located [simp]:
  "l \<in> L \<Longrightarrow> lines_in L ts \<Longrightarrow> located L (\<lambda>x. lines_in L (snd x)) (take_token e l ts)"
  unfolding take_token_def Let_def by (cases ts) (simp_all add: peek_def)

lemma take_bind_located:
  assumes "l \<in> L" "lines_in L ts" and "\<And>x r. take_token e l ts = Inr (x, r) \<Longrightarrow> lines_in L r \<Longrightarrow> located L Q (f x r)"
  shows "located L Q (bindE (take_token e l ts) (\<lambda>(x, r). f x r))"
  using assms by (intro located_bind[OF take_located]) auto

section \<open>Balanced text\<close>

lemma opens_known: "opens b \<Longrightarrow> map_of bracket_pairs b \<noteq> None"
  by (auto simp: opens_def bracket_pairs_def)

lemma group_skip_located:
  "l \<in> L \<Longrightarrow> lines_in L ts \<Longrightarrow> opens (peek ts) \<Longrightarrow> located L (lines_in L) (group_fuel n l ts)"
  "l \<in> L \<Longrightarrow> lines_in L ts \<Longrightarrow> located L (lines_in L) (skip_until n l closing ts)"
proof (induction n l ts and n l closing ts rule: group_fuel_skip_until.induct)
  case (2 n l ts)
  show ?case unfolding group_fuel.simps
  proof (rule take_bind_located[OF 2(2,3)])
    fix b r
    assume t: "take_token None l ts = Inr (b, r)" and r: "lines_in L r"
    then have "b = peek ts" by (auto simp: take_token_Inr peek_def)
    with 2(4) obtain c where c: "map_of bracket_pairs b = Some c" using opens_known by blast
    from "2.IH"[OF t refl c 2(2) r]
    show "located L (lines_in L) (case map_of bracket_pairs b of None \<Rightarrow> Inl (Unknown_Bracket b) | Some c \<Rightarrow> skip_until n l c r)"
      using c by simp
  qed
next
  case (4 n l closing ts)
  have close: "located L (lines_in L) (bindE (take_token (Some closing) l ts) (\<lambda>(_, ts). Inr ts))"
    by (rule take_bind_located[OF 4(4,5)]) simp
  have grouped: "located L (lines_in L) (bindE (group_fuel n l ts) (skip_until n l closing))"
    if "peek ts \<noteq> closing" "opens (peek ts)"
    by (rule located_bind[OF "4.IH"(1)[OF that 4(4,5) that(2)]]) (use "4.IH"(2)[OF that] 4(4) in blast)
  have other: "located L (lines_in L) (bindE (take_token None l ts) (\<lambda>(_, ts). skip_until n l closing ts))"
    if "peek ts \<noteq> closing" "\<not> opens (peek ts)" "\<not> (peek ts = [] \<or> closes (peek ts))"
    by (rule take_bind_located[OF 4(4,5)]) (use "4.IH"(3)[OF that _ refl] 4(4) in blast)
  show ?case using close grouped other 4(4,5) by simp
qed simp_all

lemma group_located: "l \<in> L \<Longrightarrow> lines_in L ts \<Longrightarrow> opens (peek ts) \<Longrightarrow> located L (lines_in L) (group l ts)"
  by (simp add: group_def group_skip_located(1) del: group_fuel.simps)

lemma parameters_header_located:
  "l \<in> L \<Longrightarrow> lines_in L ts \<Longrightarrow> located L (lines_in L) (parameters_fuel n l ts)"
  "l \<in> L \<Longrightarrow> lines_in L ts \<Longrightarrow> located L (lines_in L) (header_fuel n l ts)"
proof (induction n l ts and n l ts rule: parameters_fuel_header_fuel.induct)
  case (2 n l ts)
  have "located L (lines_in L) (bindE (take_token (Some ''<'') l ts) (\<lambda>(_, ts). header_fuel n l ts))" if "\<not> peek ts \<noteq> ''<''"
    by (rule take_bind_located[OF 2(2,3)]) (use "2.IH"[OF that _ refl] 2(2) in blast)
  with 2 show ?case by simp
next
  case (4 n l ts)
  have close: "located L (lines_in L) (bindE (take_token (Some ''>'') l ts) (\<lambda>(_, ts). Inr ts))"
    by (rule take_bind_located[OF 4(5,6)]) simp
  have nested: "located L (lines_in L) (bindE (parameters_fuel n l ts) (header_fuel n l))" if "peek ts \<noteq> ''>''" "peek ts = ''<''"
    by (rule located_bind[OF "4.IH"(1)[OF that 4(5,6)]]) (use "4.IH"(2)[OF that] 4(5) in blast)
  have grouped: "located L (lines_in L) (bindE (group l ts) (header_fuel n l))"
    if "peek ts \<noteq> ''>''" "peek ts \<noteq> ''<''" "opens (peek ts)"
    by (rule located_bind[OF group_located[OF 4(5,6) that(3)]]) (use "4.IH"(3)[OF that] 4(5) in blast)
  have other: "located L (lines_in L) (bindE (take_token None l ts) (\<lambda>(_, ts). header_fuel n l ts))"
    if "peek ts \<noteq> ''>''" "peek ts \<noteq> ''<''" "\<not> opens (peek ts)" "peek ts \<notin> {[], '';'', ''}''}"
    by (rule take_bind_located[OF 4(5,6)]) (use "4.IH"(4)[OF that _ refl] 4(5) in blast)
  show ?case using close nested grouped other 4(5,6) by simp
qed simp_all

lemma parameters_located: "l \<in> L \<Longrightarrow> lines_in L ts \<Longrightarrow> located L (lines_in L) (parameters l ts)"
  by (simp add: parameters_def parameters_header_located(1) del: parameters_fuel.simps)

lemma semicolon_located: "l \<in> L \<Longrightarrow> lines_in L ts \<Longrightarrow> located L (lines_in L) (semicolon_fuel n l ts)"
proof (induction n l ts rule: semicolon_fuel.induct)
  case (2 n l ts)
  have close: "located L (lines_in L) (bindE (take_token (Some '';'') l ts) (\<lambda>(_, ts). Inr ts))"
    by (rule take_bind_located[OF 2(3,4)]) simp
  have grouped: "located L (lines_in L) (bindE (group l ts) (semicolon_fuel n l))" if "peek ts \<noteq> '';''" "opens (peek ts)"
    by (rule located_bind[OF group_located[OF 2(3,4) that(2)]]) (use "2.IH"(1)[OF that] 2(3) in blast)
  have other: "located L (lines_in L) (bindE (take_token None l ts) (\<lambda>(_, ts). semicolon_fuel n l ts))"
    if "peek ts \<noteq> '';''" "\<not> opens (peek ts)" "peek ts \<notin> {[], ''}''}"
    by (rule take_bind_located[OF 2(3,4)]) (use "2.IH"(2)[OF that _ refl] 2(3) in blast)
  show ?case using close grouped other 2(3,4) by simp
qed simp

lemma through_semicolon_located: "l \<in> L \<Longrightarrow> lines_in L ts \<Longrightarrow> located L (lines_in L) (through_semicolon l ts)"
  by (simp add: through_semicolon_def semicolon_located del: semicolon_fuel.simps)

text \<open>The body of a declaration starts with a brace.\<close>

lemma to_body_fuel_located:
  "l \<in> L \<Longrightarrow> lines_in L ts \<Longrightarrow> located L (\<lambda>r. lines_in L r \<and> peek r = ''{'') (to_body_fuel n l ts)"
proof (induction n l ts rule: to_body_fuel.induct)
  case (2 n l ts)
  let ?P = "\<lambda>r. lines_in L r \<and> peek r = ''{''"
  have grouped: "located L ?P (bindE (group l ts) (to_body_fuel n l))" if "peek ts \<noteq> ''{''" "opens (peek ts)"
    by (rule located_bind[OF group_located[OF 2(4,5) that(2)]]) (use "2.IH"(1)[OF that] 2(4) in blast)
  have nested: "located L ?P (bindE (parameters l ts) (to_body_fuel n l))"
    if "peek ts \<noteq> ''{''" "\<not> opens (peek ts)" "peek ts = ''<''"
    by (rule located_bind[OF parameters_located[OF 2(4,5)]]) (use "2.IH"(2)[OF that] 2(4) in blast)
  have other: "located L ?P (bindE (take_token None l ts) (\<lambda>(_, ts). to_body_fuel n l ts))"
    if "peek ts \<noteq> ''{''" "\<not> opens (peek ts)" "peek ts \<noteq> ''<''" "peek ts \<notin> {[], '';'', ''}''}"
    by (rule take_bind_located[OF 2(4,5)]) (use "2.IH"(3)[OF that _ refl] 2(4) in blast)
  show ?case using grouped nested other 2(4,5) by simp
qed simp

lemma to_body_located:
  "l \<in> L \<Longrightarrow> lines_in L ts \<Longrightarrow> located L (\<lambda>r. lines_in L r \<and> peek r = ''{'') (to_body l ts)"
  by (simp add: to_body_def to_body_fuel_located del: to_body_fuel.simps)

section \<open>Declarations\<close>

lemma attributes_located:
  "l \<in> L \<Longrightarrow> lines_in L ts \<Longrightarrow> located L (\<lambda>x. lines_in L (snd x)) (attributes n l documented ts)"
proof (induction n arbitrary: documented ts)
  case (Suc n)
  let ?P = "\<lambda>x. lines_in L (snd x)"
  have grouped: "located L ?P (bindE (if peek us \<noteq> ''['' then fail_at l us ''expected attribute'' else Inr ()) (\<lambda>_.
        bindE (group l us) (\<lambda>ts. attributes n l (documented \<or> peek ts \<noteq> [] \<and> head_documented ts) ts)))"
    if us: "lines_in L us" for us
  proof (cases "peek us = ''[''")
    case True
    then have o: "opens (peek us)" by (simp add: opens_def bracket_pairs_def)
    have "located L ?P (bindE (group l us) (\<lambda>ts. attributes n l (documented \<or> peek ts \<noteq> [] \<and> head_documented ts) ts))"
      by (rule located_bind[OF group_located[OF Suc.prems(1) us o]]) (rule Suc.IH[OF Suc.prems(1)])
    then show ?thesis by (simp add: True)
  next
    case False
    with Suc.prems(1) us show ?thesis by (intro located_bind[where P = "\<lambda>_. False"]) simp_all
  qed
  have bang: "located L ?P (if peek us = ''!'' then take_token (Some ''!'') l us else Inr ([], us))" if "lines_in L us" for us
    using that Suc.prems(1) by simp
  have "located L ?P (bindE (take_token (Some ''#'') l ts) (\<lambda>(_, ts).
      bindE (if peek ts = ''!'' then take_token (Some ''!'') l ts else Inr ([], ts)) (\<lambda>(_, ts).
        bindE (if peek ts \<noteq> ''['' then fail_at l ts ''expected attribute'' else Inr ()) (\<lambda>_.
        bindE (group l ts) (\<lambda>ts. attributes n l (documented \<or> peek ts \<noteq> [] \<and> head_documented ts) ts)))))"
  proof (rule take_bind_located[OF Suc.prems])
    fix r
    assume r: "lines_in L r"
    show "located L ?P (bindE (if peek r = ''!'' then take_token (Some ''!'') l r else Inr ([], r)) (\<lambda>(_, ts).
        bindE (if peek ts \<noteq> ''['' then fail_at l ts ''expected attribute'' else Inr ()) (\<lambda>_.
        bindE (group l ts) (\<lambda>ts. attributes n l (documented \<or> peek ts \<noteq> [] \<and> head_documented ts) ts))))"
      by (rule located_bind[OF bang[OF r]]) (use grouped in \<open>simp only: split_beta\<close>)
  qed
  with Suc.prems show ?case by simp
qed simp

lemma take_name_located: "l \<in> L \<Longrightarrow> lines_in L ts \<Longrightarrow> located L (\<lambda>x. lines_in L (snd x)) (take_name l ts)"
  by (simp add: take_name_def)

lemma kind_and_name_located:
  assumes "l \<in> L" and "lines_in L ts"
  shows "located L (\<lambda>f. lines_in L (form_rest f) \<and> ts \<noteq> []) (kind_and_name owner l ts)"
  unfolding kind_and_name_def
proof (rule take_bind_located[OF assms])
  fix kind rest
  assume "take_token None l ts = Inr (kind, rest)" and r: "lines_in L rest"
  then have ne: "ts \<noteq> []" by (auto simp: take_token_Inr)
  let ?P = "\<lambda>f. lines_in L (form_rest f) \<and> ts \<noteq> []"
  have skip: "located L ?P (bindE (through_semicolon l rest) (\<lambda>ts. Inr (Skipped ts)))"
    by (rule located_bind[OF through_semicolon_located[OF assms(1) r]]) (simp add: ne)
  have named: "located L ?P (bindE (take_name l rest) (\<lambda>(name, ts). bindE (parameters l ts) (\<lambda>ts. Inr (Declared kind (g name) ts))))" for g
    by (rule located_bind[OF take_name_located[OF assms(1) r]])
      (auto simp: ne split_beta intro!: located_bind[OF parameters_located[OF assms(1)]])
  show "located L ?P (if kind \<in> {''import'', ''use'', ''const'', ''const_assert''}
     then bindE (through_semicolon l rest) (\<lambda>ts. Inr (Skipped ts))
     else if owner \<noteq> [] \<and> kind \<in> {''config'', ''init'', ''next''} then Inr (Declared ''fn'' (owner @ ''.'' @ kind) rest)
     else if kind \<in> {''fn'', ''proc'', ''struct'', ''enum'', ''type''}
     then bindE (take_name l rest) (\<lambda>(name, ts). bindE (parameters l ts) (\<lambda>ts.
       Inr (Declared kind (if owner \<noteq> [] then owner @ ''.'' @ name else name) ts)))
     else if owner \<noteq> [] \<and> is_identifier kind \<and> peek rest = '':'' then bindE (through_semicolon l rest) (\<lambda>ts. Inr (Skipped ts))
     else fail_at l rest (''unsupported declaration: '' @ kind))"
    using skip named r ne assms(1) by (simp del: insert_iff)
qed

definition gaps_in :: "nat set \<Rightarrow> gap list \<Rightarrow> bool" where
  "gaps_in L gs \<longleftrightarrow> list_all (\<lambda>g. gap_line g \<in> L) gs"

lemma gaps_in_simps [simp]: "gaps_in L []" "gaps_in L (gs @ hs) \<longleftrightarrow> gaps_in L gs \<and> gaps_in L hs"
  by (simp_all add: gaps_in_def)

lemma contract_located: "start \<noteq> [] \<Longrightarrow> lines_in L start \<Longrightarrow> gaps_in L (contract start rest ident public documented)"
  by (cases start) (simp_all add: contract_def gaps_in_def)

text \<open>The gaps and what is left have their lines in the set.\<close>

abbreviation gaps_left :: "nat set \<Rightarrow> gap list \<times> token list \<Rightarrow> bool" where
  "gaps_left L x \<equiv> gaps_in L (fst x) \<and> lines_in L (snd x)"

lemma declared_located:
  assumes l: "l \<in> L" and ts: "lines_in L ts" and members: "\<And>us. lines_in L us \<Longrightarrow> located L (gaps_left L) (members_fuel n l name us)"
  shows "located L (gaps_left L) (if kind = ''type'' then bindE (through_semicolon l ts) (\<lambda>ts. Inr ([], ts))
    else bindE (to_body l ts) (\<lambda>ts. if kind = ''proc''
      then bindE (take_token (Some ''{'') l ts) (\<lambda>(_, ts). members_fuel n l name ts)
      else bindE (group l ts) (\<lambda>ts. Inr ([], ts))))"
proof -
  have aliased: "located L (gaps_left L) (bindE (through_semicolon l ts) (\<lambda>ts. Inr ([], ts)))"
    by (rule located_bind[OF through_semicolon_located[OF l ts]]) simp
  have "located L (gaps_left L) (bindE (to_body l ts) (\<lambda>ts. if kind = ''proc''
      then bindE (take_token (Some ''{'') l ts) (\<lambda>(_, ts). members_fuel n l name ts)
      else bindE (group l ts) (\<lambda>ts. Inr ([], ts))))"
  proof (rule located_bind[OF to_body_located[OF l ts]])
    fix us
    assume us: "lines_in L us \<and> peek us = ''{''"
    then have "opens (peek us)" by (simp add: opens_def bracket_pairs_def)
    with us have body: "located L (gaps_left L) (bindE (group l us) (\<lambda>ts. Inr ([], ts)))"
      by (intro located_bind[OF group_located[OF l]]) simp_all
    have "located L (gaps_left L) (bindE (take_token (Some ''{'') l us) (\<lambda>(_, ts). members_fuel n l name ts))"
      by (rule take_bind_located[OF l]) (use us members in simp_all)
    with body show "located L (gaps_left L) (if kind = ''proc''
      then bindE (take_token (Some ''{'') l us) (\<lambda>(_, ts). members_fuel n l name ts)
      else bindE (group l us) (\<lambda>ts. Inr ([], ts)))" by simp
  qed
  with aliased show ?thesis by simp
qed

lemma form_located:
  assumes l: "l \<in> L" and start: "lines_in L start" "start \<noteq> []" and f: "lines_in L (form_rest f)"
    and members: "\<And>name us. lines_in L us \<Longrightarrow> located L (gaps_left L) (members_fuel n l name us)"
  shows "located L (gaps_left L) (case f of
       Skipped ts \<Rightarrow> Inr ([], ts)
     | Declared kind name ts \<Rightarrow>
       bindE (if kind = ''type'' then bindE (through_semicolon l ts) (\<lambda>ts. Inr ([], ts))
         else bindE (to_body l ts) (\<lambda>ts.
           if kind = ''proc''
           then bindE (take_token (Some ''{'') l ts) (\<lambda>(_, ts). members_fuel n l name ts)
           else bindE (group l ts) (\<lambda>ts. Inr ([], ts)))) (\<lambda>(gaps, ts).
       Inr (gaps @ contract start ts (ident_of kind name) public documented, ts)))"
proof (cases f)
  case (Declared kind name ts)
  with f have ts: "lines_in L ts" by simp
  show ?thesis unfolding Declared form.case
    by (rule located_bind[OF declared_located[OF l ts members]]) (use contract_located[OF start(2,1)] in \<open>auto simp: split_beta\<close>)
qed (use f in simp)

lemma declaration_members_located:
  assumes l: "l \<in> L"
  shows "(\<forall>owner ts. lines_in L ts \<longrightarrow> located L (gaps_left L) (declaration_fuel n l owner ts)) \<and>
    (\<forall>name ts. lines_in L ts \<longrightarrow> located L (gaps_left L) (members_fuel n l name ts))"
proof (induction n)
  case (Suc n)
  then have D: "lines_in L ts \<Longrightarrow> located L (gaps_left L) (declaration_fuel n l owner ts)"
    and M: "lines_in L ts \<Longrightarrow> located L (gaps_left L) (members_fuel n l name ts)" for owner name ts
    by blast+
  have "located L (gaps_left L) (declaration_fuel (Suc n) l owner start)" if start: "lines_in L start" for owner start
    unfolding declaration_fuel.simps
  proof (rule located_bind[OF attributes_located[OF l start]])
    fix x
    assume "attributes (Suc (length start)) l (head_documented start) start = Inr x" and x: "lines_in L (snd x)"
    then have "suffix (snd x) start" using attributes_proceed[of start "Suc (length start)" l "head_documented start"]
      by (simp add: proceeds_def)
    obtain documented ts where ts: "x = (documented, ts)" by (cases x)
    let ?public = "peek ts = ''pub''"
    have pub: "located L (\<lambda>y. lines_in L (snd y)) (if ?public then take_token (Some ''pub'') l ts else Inr ([], ts))"
      using x ts l by simp
    show "located L (gaps_left L) (case x of (documented, ts) \<Rightarrow> let public = peek ts = ''pub'' in
     bindE (if public then take_token (Some ''pub'') l ts else Inr ([], ts)) (\<lambda>(_, ts).
     bindE (kind_and_name owner l ts) (\<lambda>form. case form of
       Skipped ts \<Rightarrow> Inr ([], ts)
     | Declared kind name ts \<Rightarrow>
       bindE (if kind = ''type'' then bindE (through_semicolon l ts) (\<lambda>ts. Inr ([], ts))
         else bindE (to_body l ts) (\<lambda>ts.
           if kind = ''proc''
           then bindE (take_token (Some ''{'') l ts) (\<lambda>(_, ts). members_fuel n l name ts)
           else bindE (group l ts) (\<lambda>ts. Inr ([], ts)))) (\<lambda>(gaps, ts).
       Inr (gaps @ contract start ts (ident_of kind name) public documented, ts)))))"
      unfolding ts prod.case Let_def
    proof (rule located_bind[OF pub])
      fix y
      assume y: "(if ?public then take_token (Some ''pub'') l ts else Inr ([], ts)) = Inr y" "lines_in L (snd y)"
      have "ts = [] \<Longrightarrow> snd y = []" using y(1) by (auto simp: peek_def)
      with \<open>suffix (snd x) start\<close> ts have "start = [] \<Longrightarrow> snd y = []" by simp
      then show "located L (gaps_left L) (case y of (_, ts) \<Rightarrow> bindE (kind_and_name owner l ts) (\<lambda>form. case form of
         Skipped ts \<Rightarrow> Inr ([], ts)
       | Declared kind name ts \<Rightarrow>
         bindE (if kind = ''type'' then bindE (through_semicolon l ts) (\<lambda>ts. Inr ([], ts))
           else bindE (to_body l ts) (\<lambda>ts.
             if kind = ''proc''
             then bindE (take_token (Some ''{'') l ts) (\<lambda>(_, ts). members_fuel n l name ts)
             else bindE (group l ts) (\<lambda>ts. Inr ([], ts)))) (\<lambda>(gaps, ts).
         Inr (gaps @ contract start ts (ident_of kind name) ?public documented, ts))))"
        unfolding split_beta[of _ y]
        by (intro located_bind[OF kind_and_name_located[OF l y(2)]]) (use form_located[OF l start _ _ M] in blast)
    qed
  qed
  moreover have "located L (gaps_left L) (members_fuel (Suc n) l name ts)" if ts: "lines_in L ts" for name ts
  proof -
    have close: "located L (gaps_left L) (bindE (take_token (Some ''}'') l ts) (\<lambda>(_, ts). Inr ([], ts)))"
      by (rule take_bind_located[OF l ts]) simp
    have "located L (gaps_left L) (bindE (declaration_fuel n l name ts) (\<lambda>(gaps, ts).
        bindE (members_fuel n l name ts) (\<lambda>(more, ts). Inr (gaps @ more, ts))))"
    proof (rule located_bind[OF D[OF ts]])
      fix x
      assume x: "gaps_left L x"
      show "located L (gaps_left L) (case x of (gaps, ts) \<Rightarrow> bindE (members_fuel n l name ts) (\<lambda>(more, ts). Inr (gaps @ more, ts)))"
        unfolding split_beta[of _ x] by (rule located_bind[OF M]) (use x in \<open>auto simp: split_beta\<close>)
    qed
    with close l ts show ?thesis by simp
  qed
  ultimately show ?case by blast
qed simp

section \<open>Files\<close>

lemma declarations_located:
  "l \<in> L \<Longrightarrow> lines_in L ts \<Longrightarrow> located L (gaps_in L) (declarations n l ts)"
proof (induction n l ts rule: declarations.induct)
  case (2 n l ts)
  have "located L (gaps_in L) (bindE (declaration_at l [] ts) (\<lambda>(gaps, ts). bindE (declarations n l ts) (\<lambda>more. Inr (gaps @ more))))"
    if ne: "peek ts \<noteq> []"
  proof (rule located_bind)
    show "located L (gaps_left L) (declaration_at l [] ts)"
      using declaration_members_located[OF 2(2)] 2(3) unfolding declaration_at_def by blast
    fix x
    assume "declaration_at l [] ts = Inr x" and x: "gaps_left L x"
    with "2.IH"[OF ne, of x "fst x" "snd x"] 2(2) have "located L (gaps_in L) (declarations n l (snd x))" by simp
    then show "located L (gaps_in L) (case x of (gaps, ts) \<Rightarrow> bindE (declarations n l ts) (\<lambda>more. Inr (gaps @ more)))"
      unfolding split_beta by (rule located_bind) (use x in simp)
  qed
  then show ?case by simp
qed simp

text \<open>The lexer counts the lines of the source from 1.\<close>

lemma newlines_append: "newlines (s @ t) = newlines s + newlines t"
  by (simp add: newlines_def)

lemma lex_step_line [simp]: "lexer_line (lex_step st t) = lexer_line st + newlines t"
  by (simp add: lex_step_def Let_def)

lemma lex_step_lines: "lines_in {1..N} (lexed st) \<Longrightarrow> 1 \<le> lexer_line st \<Longrightarrow> lexer_line st \<le> N \<Longrightarrow> lines_in {1..N} (lexed (lex_step st t))"
  by (auto simp: lex_step_def Let_def lines_in_def)

lemma tokens_from_located:
  "lines_in {1..lexer_line st + newlines s} (lexed st) \<Longrightarrow> 1 \<le> lexer_line st \<Longrightarrow>
    located {1..lexer_line st + newlines s} (lines_in {1..lexer_line st + newlines s}) (tokens_from st s)"
proof (induction st s rule: tokens_from.induct)
  case (1 st s)
  let ?L = "{1..lexer_line st + newlines s}"
  show ?case
  proof (cases "lexeme s")
    case None
    with 1 show ?thesis by (cases "s = []") (subst tokens_from.simps; simp)+
  next
    case (Some p)
    obtain t r where p: "p = (t, r)" by (cases p)
    with Some have s: "s \<noteq> []" "newlines s = newlines t + newlines r"
      using lexeme_append[of s t r] by (auto simp: newlines_append[symmetric])
    have "located ?L (lines_in ?L) (tokens_from (lex_step st t) r)" if q: "t \<notin> {[CHR 0x22], [CHR 0x27]}"
    proof -
      have "?L = {1..lexer_line (lex_step st t) + newlines r}" by (simp add: s(2) add.assoc)
      moreover have "lines_in ?L (lexed (lex_step st t))" by (rule lex_step_lines) (use "1.prems" in simp_all)
      ultimately show ?thesis using "1.IH"[OF s(1) Some[unfolded p] refl q] "1.prems"(2) by (simp add: add.assoc)
    qed
    with Some p s(1) "1.prems" show ?thesis by (subst tokens_from.simps) simp
  qed
qed

lemma tokens_located:
  "located {1..1 + newlines source} (lines_in {1..1 + newlines source}) (tokens source)"
  using tokens_from_located[of "\<lparr>lexed = [], lexer_line = 1, comment_line = 0, comment_pending = False\<rparr>" source]
  by (simp add: tokens_def)

lemma read_source_located:
  "located {1..1 + newlines source} (gaps_in {1..1 + newlines source}) (read_source source)"
  unfolding read_source_def
proof (rule located_bind[OF tokens_located])
  fix ts
  assume ts: "lines_in {1..1 + newlines source} ts"
  then have "last_line ts \<in> {1..1 + newlines source}"
    by (cases "ts = []") (auto simp: last_line_def lines_in_def image_subset_iff)
  from declarations_located[OF this ts]
  show "located {1..1 + newlines source} (gaps_in {1..1 + newlines source}) (declarations (Suc (length ts)) (last_line ts) ts)" .
qed

end
