(* ===== verification/Dslx_Properties.thy ===== *)
theory Dslx_Properties
  imports Dslx_Located
begin

text \<open>
  The properties of the DSLX declaration audit: the lexer loses nothing, bracketed text is skipped exactly,
  and reading always ends.
\<close>

text \<open>
  C38. The lexer neither loses nor invents text: when it succeeds, its lexemes are the unique
  decomposition of the source, and the tokens are exactly the lexemes that are no comments or spaces, in order.
\<close>

theorem tokens_are_lexemes:
  assumes "tokens source = Inr ts"
  shows "\<exists>ls. lexes source ls \<and> (\<forall>ls'. lexes source ls' \<longrightarrow> ls' = ls) \<and> concat ls = source \<and>
    texts ts = filter (\<lambda>t. \<not> trivia t) ls"
  using tokens_from_texts[OF assms[unfolded tokens_def]] lexes_concat lexes_deterministic by fastforce

definition demo_source :: string where
  "demo_source = ''// doc'' @ [CHR 0x0A] @ ''fn f(x: u8) { x[0] }''"

theorem tokens_are_lexemes_witness:
  "\<exists>ts ls. tokens demo_source = Inr ts \<and> concat ls = demo_source \<and> texts ts = filter (\<lambda>t. \<not> trivia t) ls \<and>
    texts ts = [''fn'', ''f'', ''('', ''x'', '':'', ''u8'', '')'', ''{'', ''x'', ''['', ''0'', '']'', ''}'']"
proof -
  have "map_sum id texts (tokens demo_source) =
    Inr [''fn'', ''f'', ''('', ''x'', '':'', ''u8'', '')'', ''{'', ''x'', ''['', ''0'', '']'', ''}'']"
    by code_simp
  then obtain ts where ts: "tokens demo_source = Inr ts"
    "texts ts = [''fn'', ''f'', ''('', ''x'', '':'', ''u8'', '')'', ''{'', ''x'', ''['', ''0'', '']'', ''}'']"
    by (cases "tokens demo_source") simp_all
  from tokens_are_lexemes[OF ts(1)] obtain ls where "concat ls = demo_source" "texts ts = filter (\<lambda>t. \<not> trivia t) ls"
    by (elim exE conjE)
  with ts show ?thesis by (intro exI[of _ ts] exI[of _ ls]) simp
qed

text \<open>
  C27. Skipping a group is exact: \<open>group\<close> succeeds precisely on an opening bracket, balanced text and the
  matching closing bracket, and leaves what follows; unbalanced or unfinished text is an error.
\<close>

theorem group_skips_balanced:
  "group l ts = Inr r \<longleftrightarrow>
     (\<exists>t u t'. ts = t # u @ t' # r \<and> (token_text t, token_text t') \<in> set bracket_pairs \<and> balanced (texts u))"
  by (rule group_iff)

text \<open>
  C39. Reading a source always ends with its gaps or with a located error, whatever the source is: no loop or
  recursion of the reader runs out of the fuel it is given, no bracket is looked up that has no closing one, and the
  line of every gap and of every error is a line of the source.
\<close>

theorem reader_terminates:
  "case read_source source of
     Inr gaps \<Rightarrow> list_all (\<lambda>g. 1 \<le> gap_line g \<and> gap_line g \<le> 1 + newlines source) gaps
   | Inl (Source_Error line reason) \<Rightarrow> 1 \<le> line \<and> line \<le> 1 + newlines source
   | Inl (Unknown_Bracket bracket) \<Rightarrow> False
   | Inl Out_Of_Fuel \<Rightarrow> False"
proof -
  have "tokens_from st s \<noteq> Inl Out_Of_Fuel" for st s
    by (induction st s rule: tokens_from.induct) (subst tokens_from.simps, auto split: option.splits)
  then have "read_source source \<noteq> Inl Out_Of_Fuel"
    by (auto simp: read_source_def tokens_def bind_fuel declarations_fuel simp del: declarations.simps)
  with read_source_located[of source] show ?thesis
    by (auto simp: located_def gaps_in_def split: sum.splits source_error.splits)
qed

text \<open>The audit on a documented and an undocumented declaration.\<close>

lemma demo_findings:
  "findings concat (\<lambda>_. demo_source @ '' pub type T = u8;'') [''a.x''] = [Gap ''a.x'' 2 ''type:T'' ''public_doc'' ''pubtypeT=u8;'']"
  by code_simp

end
