(* ===== verification/Regression_Inventory.thy ===== *)
theory Regression_Inventory
  imports Build_Paths
begin

text \<open>
  The regression inventory (\<open>tools/regression_inventory.py\<close>): its checked metadata, the selection of
  cases for changed paths, and the changed paths themselves; and the plan of the continuous integration
  (\<open>tools/ci_plan.py\<close>). What Git answers is an argument.
\<close>

record case_info =
  case_group :: "string option"
  default_stage :: string
  dependencies :: "string list"

record inventory =
  groups :: "string list"
  cases :: "(string, case_info) dict"

datatype inventory_error =
    Bad_Fields | Bad_Groups | Bad_Cases | Bad_Case string | Unknown_Group string | Bad_Stage string
  | Bad_Dependencies string | Not_Exact string | Unknown_Groups | Missing_Key string

section \<open>Passive files\<close>

definition image_suffixes :: "string list" where
  "image_suffixes = [''.png'', ''.svg'', ''.pdf'', ''.jpg'', ''.jpeg'']"

definition documentation :: "string \<Rightarrow> bool" where
  "documentation path \<longleftrightarrow> path_suffix path = ''.md'' \<or>
     path_suffix path \<in> set image_suffixes \<and>
       (prefix ''docs/'' path \<or> prefix ''yap/'' path \<or> sublist ''/results/'' path)"

section \<open>Loading\<close>

definition fields :: "json \<Rightarrow> string list option" where
  "fields v = (case v of JObj kvs \<Rightarrow> Some (map fst kvs) | _ \<Rightarrow> None)"

definition field_of :: "json \<Rightarrow> string \<Rightarrow> json" where
  "field_of v k = (case v of JObj kvs \<Rightarrow> (case map_of kvs k of Some x \<Rightarrow> x | None \<Rightarrow> JNull) | _ \<Rightarrow> JNull)"

definition strings :: "json \<Rightarrow> string list option" where
  "strings v = (case v of JArr xs \<Rightarrow>
       if list_all (\<lambda>x. case x of JStr _ \<Rightarrow> True | _ \<Rightarrow> False) xs
       then Some (map (\<lambda>x. case x of JStr s \<Rightarrow> s | _ \<Rightarrow> []) xs) else None
     | _ \<Rightarrow> None)"

definition case_name :: "string \<Rightarrow> bool" where
  "case_name s = (case s of [] \<Rightarrow> False
     | c # cs \<Rightarrow> is_lower c \<and> list_all (\<lambda>d. is_lower d \<or> is_digit d \<or> d = CHR ''_'') cs)"

definition stage_ok :: "string \<Rightarrow> bool" where
  "stage_ok s \<longleftrightarrow> \<not> (is_absolute s \<or> ''..'' \<in> set (path_parts s) \<or> path_string s \<noteq> s \<or>
     take 1 (path_parts s) \<noteq> [''_build''] \<or> length (path_parts s) < 2)"

definition dependency_ok :: "string \<Rightarrow> bool" where
  "dependency_ok p \<longleftrightarrow> \<not> (is_absolute p \<or> ''..'' \<in> set (path_parts p) \<or> path_string p \<noteq> p \<or>
     take 1 (path_parts p) \<notin> {[''test''], [''test_data'']} \<or> list_ex (\<lambda>c. c \<in> set ''*?[]'') p \<or> documentation p)"

definition load_case :: "string list \<Rightarrow> string \<times> json \<Rightarrow> (inventory_error, string \<times> case_info) result" where
  "load_case known row = (let (name, v) = row in
     bindE (ensure (case_name name \<and> (case fields v of None \<Rightarrow> False
         | Some fs \<Rightarrow> set fs = {''group'', ''default_stage'', ''dependencies''})) (Bad_Case name)) (\<lambda>_.
     bindE (case field_of v ''group'' of JNull \<Rightarrow> Inr None
        | JStr g \<Rightarrow> if g \<in> set known then Inr (Some g) else Inl (Unknown_Group name)
        | _ \<Rightarrow> Inl (Unknown_Group name)) (\<lambda>group.
     bindE (case field_of v ''default_stage'' of JStr s \<Rightarrow> if stage_ok s then Inr s else Inl (Bad_Stage name)
        | _ \<Rightarrow> Inl (Bad_Stage name)) (\<lambda>stage.
     bindE (case strings (field_of v ''dependencies'') of None \<Rightarrow> Inl (Bad_Dependencies name)
        | Some ps \<Rightarrow> if distinct ps then Inr ps else Inl (Bad_Dependencies name)) (\<lambda>ps.
     bindE (checkE (\<lambda>p. ensure (dependency_ok p) (Not_Exact p)) ps) (\<lambda>_.
     Inr (name, \<lparr>case_group = group, default_stage = stage, dependencies = ps\<rparr>)))))))"

definition load_inventory :: "json \<Rightarrow> (inventory_error, inventory) result" where
  "load_inventory v =
     bindE (ensure ((case fields v of None \<Rightarrow> False | Some fs \<Rightarrow> set fs = {''version'', ''groups'', ''cases''}) \<and>
       field_of v ''version'' = JInt 1) Bad_Fields) (\<lambda>_.
     bindE (case strings (field_of v ''groups'') of None \<Rightarrow> Inl Bad_Groups
        | Some gs \<Rightarrow> if gs \<noteq> [] \<and> list_all c_identifier gs \<and> distinct gs then Inr gs else Inl Bad_Groups) (\<lambda>gs.
     bindE (case field_of v ''cases'' of JObj kvs \<Rightarrow> if kvs \<noteq> [] then Inr kvs else Inl Bad_Cases
        | _ \<Rightarrow> Inl Bad_Cases) (\<lambda>kvs.
     bindE (mapE (load_case gs) kvs) (\<lambda>infos. Inr \<lparr>groups = gs, cases = infos\<rparr>))))"

section \<open>Selection\<close>

definition consumers :: "inventory \<Rightarrow> string \<Rightarrow> string list" where
  "consumers table path = map fst (filter (\<lambda>(_, c). path \<in> set (dependencies c)) (cases table))"

definition select_path :: "inventory \<Rightarrow> string list \<Rightarrow> string \<Rightarrow> string list" where
  "select_path table chosen path =
     (if documentation path then chosen
      else chosen @ (if consumers table path = [] then map fst (cases table) else consumers table path))"

definition in_groups :: "inventory \<Rightarrow> string list option \<Rightarrow> string \<Rightarrow> bool" where
  "in_groups table gs name = (case gs of None \<Rightarrow> True
     | Some gs \<Rightarrow> (case map_of (cases table) name of None \<Rightarrow> False
        | Some c \<Rightarrow> (case case_group c of None \<Rightarrow> False | Some g \<Rightarrow> g \<in> set gs)))"

definition select_cases ::
  "string list option \<Rightarrow> inventory \<Rightarrow> string list option \<Rightarrow> bool \<Rightarrow> (inventory_error, string list) result" where
  "select_cases paths table gs full =
     bindE (ensure (\<not> (case gs of None \<Rightarrow> False | Some gs \<Rightarrow> list_ex (\<lambda>g. g \<notin> set (groups table)) gs)) Unknown_Groups) (\<lambda>_.
     let chosen = foldl (select_path table) (if full \<or> paths = None then map fst (cases table) else [])
           (case paths of None \<Rightarrow> [] | Some ps \<Rightarrow> ps)
     in Inr (sort (filter (in_groups table gs) (uniq chosen))))"

section \<open>Changed paths\<close>

text \<open>What Git and the file system answer; \<open>None\<close> where the command fails.\<close>

record repository =
  diff_paths :: "string \<Rightarrow> string list option"
  tree_mode :: "string \<Rightarrow> string \<Rightarrow> string option"
  working_paths :: "string list option"
  untracked_paths :: "string list option"
  is_symlink :: "string \<Rightarrow> bool"
  is_executable :: "string \<Rightarrow> bool"

text \<open>Documentation is passive only as a regular file; an absent entry is no objection.\<close>

definition passive_at :: "repository \<Rightarrow> string \<Rightarrow> string \<Rightarrow> bool" where
  "passive_at repo revision path = (case tree_mode repo revision path of None \<Rightarrow> True | Some m \<Rightarrow> m = ''100644'')"

definition changed_paths :: "string \<Rightarrow> repository \<Rightarrow> string list option" where
  "changed_paths base repo =
     (if base = [] \<or> set base = {CHR ''0''} then None
      else case diff_paths repo base of None \<Rightarrow> None
      | Some paths \<Rightarrow>
          if list_ex (\<lambda>p. documentation p \<and> \<not> (passive_at repo base p \<and> passive_at repo ''HEAD'' p)) paths
          then None else Some paths)"

definition paths_since :: "string \<Rightarrow> repository \<Rightarrow> string list option" where
  "paths_since base repo = (case changed_paths base repo of None \<Rightarrow> None
     | Some committed \<Rightarrow>
       (case (working_paths repo, untracked_paths repo) of
          (Some working, Some untracked) \<Rightarrow>
            (let paths = sort (uniq (committed @ filter (\<lambda>p. p \<noteq> []) (working @ untracked))) in
             if list_ex (\<lambda>p. documentation p \<and>
                  (\<not> passive_at repo ''HEAD'' p \<or> is_symlink repo p \<or> is_executable repo p)) paths
             then None else Some paths)
        | _ \<Rightarrow> None))"

section \<open>The plan of a run\<close>

definition names_in :: "inventory \<Rightarrow> string list \<Rightarrow> string \<Rightarrow> string list" where
  "names_in table names g =
     filter (\<lambda>n. case map_of (cases table) n of None \<Rightarrow> False | Some c \<Rightarrow> case_group c = Some g) names"

text \<open>A group called \<open>qualify\<close> or \<open>test_cases\<close> would be overwritten, as in the code.\<close>

definition ci_plan :: "string list option \<Rightarrow> inventory \<Rightarrow> bool \<Rightarrow> (inventory_error, (string, json) dict) result" where
  "ci_plan paths table manual =
     bindE (select_cases paths table None manual) (\<lambda>names.
     let affected = map (\<lambda>g. (g, names_in table names g \<noteq> [])) (groups table) in
     bindE (case map_of affected ''test'' of None \<Rightarrow> Inl (Missing_Key ''test'') | Some b \<Rightarrow> Inr b) (\<lambda>test.
     let test = (test \<or> paths = None \<or> manual \<or>
           (case paths of None \<Rightarrow> False | Some ps \<Rightarrow> list_ex (\<lambda>p. \<not> documentation p) ps));
         selected = AList.update ''test'' test affected;
         base = AList.update ''qualify'' (JBool (list_ex snd selected)) (map (\<lambda>(g, b). (g, JBool b)) selected)
     in Inr (foldl (\<lambda>d g. AList.update (g @ ''_cases'') (JArr (map JStr (names_in table names g))) d) base (groups table))))"

text \<open>The qualification key: the hash of a seed and every tree entry but passive documentation.\<close>

record tree_entry =
  entry_mode :: string
  entry_path :: string
  entry_text :: string

definition fingerprint_text :: "string \<Rightarrow> bool \<Rightarrow> tree_entry list \<Rightarrow> string" where
  "fingerprint_text suite extended tree =
     ''ci-v1:'' @ suite @ '':'' @ (if extended then ''True'' else ''False'') @ [CHR 0x00] @
     concat (map (\<lambda>e. entry_text e @ [CHR 0x00])
       (filter (\<lambda>e. \<not> (entry_mode e = ''100644'' \<and> documentation (entry_path e))) tree))"

definition source_fingerprint :: "(string \<Rightarrow> string) \<Rightarrow> string \<Rightarrow> bool \<Rightarrow> tree_entry list \<Rightarrow> string" where
  "source_fingerprint sha256 suite extended tree = sha256 (fingerprint_text suite extended tree)"

end
