(* ===== verification/Regression_Steps.thy ===== *)
theory Regression_Steps
  imports Build_Paths
begin

text \<open>
  The step language of \<open>tools/regression_steps.py\<close>: commands, copies and generated rows, and the methods of
  \<open>Case\<close>, each of which appends its steps to the case. Paths are normalized strings; \<open>environ\<close> is the process
  environment and \<open>interpreter\<close> the running Python.
\<close>

section \<open>Steps\<close>

datatype argument = Argument string | File_Text string string string

record command_step =
  step_name :: string
  step_argv :: "argument list"
  step_stdout :: "string option"
  step_products :: "string list"
  step_directories :: "string list"
  step_timeout :: int
  step_nonempty :: bool
  step_rejection :: "string option"
  step_completion :: "string option"

datatype step =
    Command command_step
  | Copy string string string
  | Rows string nat "string list \<Rightarrow> command_step list"

record regression_case =
  case_root :: string
  case_xls :: string
  case_stage :: string
  placements :: "string list"
  steps :: "step list"
  import_roots :: "string list"
  stage_import :: bool

definition new_case :: "string \<Rightarrow> string \<Rightarrow> string \<Rightarrow> string list \<Rightarrow> regression_case" where
  "new_case root xls stage places = \<lparr>case_root = root, case_xls = xls, case_stage = stage, placements = places,
     steps = [], import_roots = [''lib''], stage_import = False\<rparr>"

definition below :: "string \<Rightarrow> string \<Rightarrow> string" where
  "below a b = a @ ''/'' @ b"

definition case_path :: "regression_case \<Rightarrow> string \<Rightarrow> string" where
  "case_path c name = below (case_stage c) name"

section \<open>Commands\<close>

definition plain_command :: "string \<Rightarrow> string list \<Rightarrow> command_step" where
  "plain_command name argv = \<lparr>step_name = name, step_argv = map Argument argv, step_stdout = None,
     step_products = [], step_directories = [], step_timeout = 300, step_nonempty = False,
     step_rejection = None, step_completion = None\<rparr>"

definition add_command :: "command_step \<Rightarrow> regression_case \<Rightarrow> regression_case" where
  "add_command cmd c = c\<lparr>steps := steps c @ [Command cmd]\<rparr>"

definition add_compile :: "regression_case \<Rightarrow> regression_case" where
  "add_compile = add_command (plain_command ''beam-compile'' [''rebar3'', ''as'', ''test'', ''compile''])"

definition add_erl :: "string \<Rightarrow> string list \<Rightarrow> string \<Rightarrow> regression_case \<Rightarrow> regression_case" where
  "add_erl expression arguments name c = add_command
     ((plain_command name ([''erl'', ''-noshell'', ''-pa'', below (case_root c) ''_build/test/lib/erl_hls/ebin'',
         below (case_root c) ''_build/test/lib/hls_runtime/ebin'', below (case_root c) ''_build/test/lib/erl_hls/test'',
         ''-eval'', expression, ''-extra''] @ (if arguments = [] then [case_stage c] else arguments)))
      \<lparr>step_directories := [case_stage c]\<rparr>) c"

definition add_fixture :: "string \<Rightarrow> string option \<Rightarrow> regression_case \<Rightarrow> regression_case" where
  "add_fixture name placement =
     add_erl (''ok = xls_regression_fixtures:write('' @ name @ '', hd(init:get_plain_arguments())'' @
       (case placement of None \<Rightarrow> [] | Some p \<Rightarrow> '', '' @ p) @ ''), halt().'') [] ''fixtures''"

definition add_generate :: "string \<Rightarrow> regression_case \<Rightarrow> regression_case" where
  "add_generate module c =
     add_erl (''ok = '' @ module @ '':write(hd(init:get_plain_arguments())), halt().'') [] ''fixtures'' (add_compile c)"

definition import_options :: "bool \<Rightarrow> regression_case \<Rightarrow> string list" where
  "import_options warnings c =
     (let paths = (if stage_import c then [case_stage c] else []) @
        map (\<lambda>p. below (case_root c) (''priv/xls/'' @ p)) (import_roots c) in
      [''--warnings_as_errors='' @ (if warnings then ''true'' else ''false''),
       ''--dslx_path='' @ join_on (CHR '':'') paths,
       ''--dslx_stdlib_path='' @ below (case_xls c) ''xls/dslx/stdlib''])"

datatype source_file = Named string | At_Path string

definition source_path :: "regression_case \<Rightarrow> source_file \<Rightarrow> string" where
  "source_path c source = (case source of Named n \<Rightarrow> case_path c n | At_Path p \<Rightarrow> p)"

definition add_interpret ::
  "(string \<Rightarrow> string option) \<Rightarrow> source_file \<Rightarrow> string \<Rightarrow> string list \<Rightarrow> string option \<Rightarrow> bool \<Rightarrow> bool \<Rightarrow>
   regression_case \<Rightarrow> regression_case" where
  "add_interpret environ source compare flags rejection warnings overridden c =
     (let source = source_path c source; default = below (case_xls c) ''interpreter_main'';
          tool = (if overridden then (case environ ''ERL_HLS_INTERPRETER'' of None \<Rightarrow> default | Some t \<Rightarrow> t) else default)
      in add_command ((plain_command (path_stem source @ ''-interpret'')
           ([tool, ''--compare='' @ compare] @ import_options warnings c @ flags @ [source]))
         \<lparr>step_rejection := rejection\<rparr>) c)"

definition add_convert ::
  "string \<Rightarrow> string \<Rightarrow> source_file option \<Rightarrow> string option \<Rightarrow> bool \<Rightarrow> regression_case \<Rightarrow> regression_case" where
  "add_convert name main source rejection optimize c =
     (let source = source_path c (case source of None \<Rightarrow> Named (name @ ''.x'') | Some (Named []) \<Rightarrow> Named (name @ ''.x'')
            | Some s \<Rightarrow> s);
          converted = add_command ((plain_command (name @ ''-convert'')
              ([below (case_xls c) ''ir_converter_main'', ''--top='' @ main] @ import_options False c @ [source]))
            \<lparr>step_stdout := Some (case_path c (name @ ''.ir'')), step_nonempty := rejection = None,
             step_rejection := rejection\<rparr>) c
      in if optimize \<and> rejection = None
         then add_command ((plain_command (name @ ''-opt'') [below (case_xls c) ''opt_main'', case_path c (name @ ''.ir'')])
            \<lparr>step_stdout := Some (case_path c (name @ ''.opt.ir'')), step_nonempty := True\<rparr>) converted
         else converted)"

definition add_codegen ::
  "string \<Rightarrow> string option \<Rightarrow> string option \<Rightarrow> string list \<Rightarrow> regression_case \<Rightarrow> regression_case" where
  "add_codegen name source module flags c =
     (let options = flags @ [''--use_system_verilog=false''] @
            (case module of None \<Rightarrow> [] | Some m \<Rightarrow> [''--module_name='' @ m]);
          stem = (case source of None \<Rightarrow> name | Some [] \<Rightarrow> name | Some s \<Rightarrow> s)
      in add_command ((plain_command (name @ ''-codegen'')
           ([below (case_xls c) ''codegen_main''] @ options @ [case_path c (stem @ ''.opt.ir'')]))
         \<lparr>step_stdout := Some (case_path c (name @ ''.v'')), step_nonempty := True\<rparr>) c)"

definition add_structure :: "string \<Rightarrow> string \<Rightarrow> string list \<Rightarrow> regression_case \<Rightarrow> regression_case" where
  "add_structure name main sources c = add_command (plain_command (name @ ''-structure'')
     ([''bash'', below (case_root c) ''tools/check_rtl_structure.sh'', main, case_path c (name @ ''-check'')] @ sources)) c"

definition add_simulate ::
  "string \<Rightarrow> string \<Rightarrow> string list \<Rightarrow> argument list \<Rightarrow> argument list \<Rightarrow> int \<Rightarrow> string option \<Rightarrow>
   regression_case \<Rightarrow> regression_case" where
  "add_simulate name main sources flags arguments seconds completion c =
     (let vvp = case_path c (name @ ''.vvp'') in
      add_command ((plain_command (name @ ''-simulate'') [])
          \<lparr>step_argv := map Argument [''vvp'', vvp] @ arguments, step_stdout := Some (case_path c (name @ ''.sim.log'')),
           step_timeout := seconds, step_completion := completion\<rparr>)
        (add_command ((plain_command (name @ ''-iverilog'') [])
          \<lparr>step_argv := map Argument [''iverilog'', ''-g2012''] @ flags @ map Argument ([''-s'', main, ''-o'', vvp] @ sources),
           step_products := [vvp]\<rparr>) c))"

definition add_python ::
  "string \<Rightarrow> string \<Rightarrow> string \<Rightarrow> string list \<Rightarrow> int \<Rightarrow> regression_case \<Rightarrow> regression_case" where
  "add_python interpreter name script arguments seconds c = add_command
     ((plain_command name ([interpreter, below (case_root c) (''tools/'' @ script)] @ arguments))
      \<lparr>step_timeout := seconds\<rparr>) c"

definition add_library :: "string list \<Rightarrow> regression_case \<Rightarrow> regression_case" where
  "add_library directories c = c\<lparr>steps := steps c @
     map (\<lambda>d. Copy (below (case_root c) (''priv/xls/'' @ d)) ''*.x'' (case_stage c)) directories\<rparr>"

definition add_compiled ::
  "string \<Rightarrow> string \<Rightarrow> string \<Rightarrow> string \<Rightarrow> int \<Rightarrow> int option \<Rightarrow> string list \<Rightarrow> regression_case \<Rightarrow>
   string \<times> regression_case" where
  "add_compiled interpreter name source artifact stages interval flags c =
     (let arguments = [case_path c source, case_xls c, ''--output'', case_path c name, ''--top'', ''Top'',
            ''--name'', artifact, ''--pipeline-stages'', show_int stages] @ flags @
            (case interval of None \<Rightarrow> [] | Some i \<Rightarrow> [''--initiation-interval'', show_int i]);
          product = case_path c (name @ ''/'' @ artifact @ ''.v'')
      in (product, add_command ((plain_command (name @ ''-compile'')
            ([interpreter, below (case_root c) ''tools/compile_xls.py''] @ arguments))
          \<lparr>step_products := [product], step_timeout := 900\<rparr>) c))"

definition add_yosys ::
  "(string \<Rightarrow> string option) \<Rightarrow> string \<Rightarrow> string \<Rightarrow> string \<Rightarrow> regression_case \<Rightarrow> regression_case" where
  "add_yosys environ name program variable c = add_command
     ((plain_command name [case environ variable of None \<Rightarrow> ''yosys'' | Some t \<Rightarrow> t, ''-Q'', ''-T'', ''-p'', program])
      \<lparr>step_stdout := Some (case_path c (name @ ''.log'')), step_timeout := 180\<rparr>) c"

definition pipeline :: "int \<Rightarrow> int option \<Rightarrow> bool \<Rightarrow> string list" where
  "pipeline stages interval flop =
     [''--pipeline_stages='' @ show_int stages, ''--delay_model=unit'', ''--reset=reset'', ''--fifo_module=''] @
     (if flop then [''--flop_inputs=false'', ''--flop_outputs=true''] else []) @
     (case interval of None \<Rightarrow> [] | Some i \<Rightarrow> [''--worst_case_throughput='' @ show_int i])"

end
