(* ===== verification/Regression_Run.thy ===== *)
theory Regression_Run
  imports Regression_Inventory Regression_Steps Build_Cache
begin

text \<open>
  The regression runner \<open>tools/run_regression.py\<close>: selection, construction of the cases, and the execution of
  a case step by step with its receipts. What a command does to the files of the case is an argument.
\<close>

section \<open>Selection and construction\<close>

datatype run_error =
    Not_Scalar string
  | Empty_Table string
  | Bad_Row string string
  | Stale_Stage string
  | No_Inputs string
  | Missing_Product string
  | Missing_Witness string
  | No_File string
  | Tool_Error build_error
  | Bad_Cases_Json
  | No_Selection
  | Unknown_Cases "string list"
  | Inventory inventory_error

datatype selection =
    Cases_Json "json option"
  | Cases "string list"
  | All_Cases
  | Changed_Since string
  | Nothing_Selected

definition selected ::
  "selection \<Rightarrow> inventory \<Rightarrow> repository \<Rightarrow> (run_error, string list) result" where
  "selected choice table repo =
     bindE (case choice of
         Cases_Json v \<Rightarrow> (case v of None \<Rightarrow> Inl Bad_Cases_Json
           | Some v \<Rightarrow> (case strings v of None \<Rightarrow> Inl Bad_Cases_Json | Some names \<Rightarrow> Inr names))
       | Cases names \<Rightarrow> Inr names
       | All_Cases \<Rightarrow> Inr (map fst (cases table))
       | Changed_Since base \<Rightarrow> (case select_cases (paths_since base repo) table None False of
             Inl e \<Rightarrow> Inl (Inventory e) | Inr names \<Rightarrow> Inr names)
       | Nothing_Selected \<Rightarrow> Inl No_Selection) (\<lambda>names.
     let names = uniq names; unknown = filter (\<lambda>n. n \<notin> set (map fst (cases table))) names
     in if unknown \<noteq> [] then Inl (Unknown_Cases (sort unknown)) else Inr names)"

definition is_beam_compile :: "step \<Rightarrow> bool" where
  "is_beam_compile s = (case s of Command c \<Rightarrow> step_name c = ''beam-compile'' | _ \<Rightarrow> False)"

definition case_directory ::
  "string \<Rightarrow> string \<Rightarrow> string option \<Rightarrow> string list \<Rightarrow> inventory \<Rightarrow> string \<Rightarrow> string" where
  "case_directory root run_id place names table name = (case place of
      None \<Rightarrow> below (below root (case map_of (cases table) name of Some c \<Rightarrow> default_stage c | None \<Rightarrow> [])) run_id
    | Some s \<Rightarrow> if length names = 1 then s else below s name)"

definition hoist_compile :: "(string \<times> regression_case) list \<Rightarrow> (string \<times> regression_case) list" where
  "hoist_compile cs =
     (case filter is_beam_compile (concat (map (steps \<circ> snd) cs)) of
        [] \<Rightarrow> cs
      | compile_step # _ \<Rightarrow>
          (case map (\<lambda>(n, c). (n, c\<lparr>steps := filter (\<lambda>s. \<not> is_beam_compile s) (steps c)\<rparr>)) cs of
             [] \<Rightarrow> []
           | (n, c) # rest \<Rightarrow> (n, c\<lparr>steps := compile_step # steps c\<rparr>) # rest))"

definition make_cases ::
  "(string \<Rightarrow> regression_case \<Rightarrow> regression_case) \<Rightarrow> string \<Rightarrow> string list \<Rightarrow> inventory \<Rightarrow> string \<Rightarrow> string \<Rightarrow>
   string option \<Rightarrow> string list \<Rightarrow> (string \<times> regression_case) list" where
  "make_cases factory run_id names table root xls place places =
     hoist_compile (map (\<lambda>name. (name, factory name
       (new_case root xls (case_directory root run_id place names table name) places))) names)"

section \<open>Previews\<close>

definition argument_json :: "argument \<Rightarrow> json" where
  "argument_json a = (case a of Argument s \<Rightarrow> JStr s
     | File_Text path pre post \<Rightarrow> JObj [(''path'', JStr path), (''prefix'', JStr pre), (''suffix'', JStr post)])"

definition optional :: "string option \<Rightarrow> json" where
  "optional s = (case s of None \<Rightarrow> JNull | Some t \<Rightarrow> JStr t)"

definition describe :: "step \<Rightarrow> json" where
  "describe s = (case s of
      Rows source columns _ \<Rightarrow>
        JObj [(''kind'', JStr ''generated_rows''), (''source'', JStr source), (''columns'', JInt (int columns))]
    | Command c \<Rightarrow> JObj [(''name'', JStr (step_name c)), (''argv'', JArr (map argument_json (step_argv c))),
        (''stdout'', optional (step_stdout c)), (''products'', JArr (map JStr (step_products c))),
        (''directories'', JArr (map JStr (step_directories c))), (''timeout'', JInt (step_timeout c)),
        (''nonempty'', JBool (step_nonempty c)), (''rejection'', optional (step_rejection c)),
        (''completion'', optional (step_completion c)), (''kind'', JStr ''command'')]
    | Copy source glob target \<Rightarrow> JObj [(''source'', JStr source), (''pattern'', JStr glob), (''target'', JStr target),
        (''kind'', JStr ''copy'')])"

section \<open>Execution\<close>

type_synonym filesystem = "string \<rightharpoonup> string"

text \<open>
  \<open>acts\<close> is what the command of the given number does; \<open>finds\<close> lists the names a pattern matches in a
  directory; \<open>occurs\<close> is the search for a diagnostic; \<open>lines\<close> and \<open>fields\<close> are \<open>splitlines\<close> and \<open>split\<close>.
\<close>

record surroundings =
  acts :: "nat \<Rightarrow> string list \<Rightarrow> filesystem \<Rightarrow> process_result \<times> filesystem"
  finds :: "filesystem \<Rightarrow> string \<Rightarrow> string \<Rightarrow> string list"
  occurs :: "string \<Rightarrow> string \<Rightarrow> bool"
  stripped :: "string \<Rightarrow> string"
  lines_of :: "string \<Rightarrow> string list"
  words_of :: "string \<Rightarrow> string list"

datatype row_status = Running | Passed | Failed

record run_state =
  receipts :: "(string \<times> row_status) list"
  run_files :: filesystem
  failure :: "run_error option"

definition read_text :: "filesystem \<Rightarrow> string \<Rightarrow> (run_error, string) result" where
  "read_text fs path = (case fs path of None \<Rightarrow> Inl (No_File path) | Some text \<Rightarrow> Inr text)"

definition resolve_argument :: "surroundings \<Rightarrow> filesystem \<Rightarrow> argument \<Rightarrow> (run_error, string) result" where
  "resolve_argument env fs a = (case a of Argument s \<Rightarrow> Inr s
     | File_Text path pre post \<Rightarrow> bindE (read_text fs path) (\<lambda>raw.
         let text = stripped env raw in
         if text = [] \<or> CHR 0x0A \<in> set text then Inl (Not_Scalar path) else Inr (pre @ text @ post)))"

definition log_character :: "char \<Rightarrow> char" where
  "log_character c = (if word_char c \<or> c = CHR ''.'' \<or> c = CHR ''-'' then c else CHR ''_'')"

definition log_directory :: "string \<Rightarrow> nat \<Rightarrow> string \<Rightarrow> string" where
  "log_directory place index label =
     (let n = show_nat index in
      below (below place ''logs'') (replicate (3 - length n) (CHR ''0'') @ n @ ''-'' @ map log_character label))"

text \<open>The body of one command, after its row was opened.\<close>

definition run_command ::
  "surroundings \<Rightarrow> string \<Rightarrow> nat \<Rightarrow> command_step \<Rightarrow> filesystem \<Rightarrow> (run_error, unit) result \<times> filesystem" where
  "run_command env place index c fs =
     (case mapE (resolve_argument env fs) (step_argv c) of
        Inl e \<Rightarrow> (Inl e, fs)
      | Inr argv \<Rightarrow>
        (let out = (case step_stdout c of
               None \<Rightarrow> below (log_directory place index (step_name c)) ''stdout.log'' | Some p \<Rightarrow> p);
             (p, fs') = acts env index argv fs; fs' = fs'(out \<mapsto> stdout_bytes p)
         in (bindE (case run_tool p (\<not> step_nonempty c) (map_option (occurs env) (step_rejection c)) of
               Inl e \<Rightarrow> Inl (Tool_Error e) | Inr u \<Rightarrow> Inr u) (\<lambda>_.
             bindE (checkE (\<lambda>q. case fs' q of None \<Rightarrow> Inl (Missing_Product q)
               | Some bytes \<Rightarrow> ensure (bytes \<noteq> []) (Missing_Product q)) (step_products c)) (\<lambda>_.
             case step_completion c of None \<Rightarrow> Inr ()
             | Some w \<Rightarrow> ensure (sublist w (stdout_bytes p)) (Missing_Witness w))), fs')))"

definition run_copy ::
  "surroundings \<Rightarrow> string \<Rightarrow> string \<Rightarrow> string \<Rightarrow> filesystem \<Rightarrow> (run_error, unit) result \<times> filesystem" where
  "run_copy env source glob target fs =
     (case sort (finds env fs source glob) of
        [] \<Rightarrow> (Inl (No_Inputs (below source glob)), fs)
      | names \<Rightarrow> (Inr (), foldl (\<lambda>fs n. fs(below target n := fs (below source n))) fs names))"

text \<open>A row opens as running and closes as passed or failed.\<close>

definition with_row ::
  "string \<Rightarrow> (nat \<Rightarrow> filesystem \<Rightarrow> (run_error, unit) result \<times> filesystem) \<Rightarrow> run_state \<Rightarrow> run_state" where
  "with_row label body st =
     (if failure st \<noteq> None then st else
      let opened = st\<lparr>receipts := receipts st @ [(label, Running)]\<rparr> in
      case body (length (receipts st)) (run_files st) of
        (Inr _, fs) \<Rightarrow> opened\<lparr>receipts := butlast (receipts opened) @ [(label, Passed)], run_files := fs\<rparr>
      | (Inl e, fs) \<Rightarrow> opened\<lparr>receipts := butlast (receipts opened) @ [(label, Failed)], run_files := fs,
          failure := Some e\<rparr>)"

definition exec_command :: "surroundings \<Rightarrow> string \<Rightarrow> run_state \<Rightarrow> command_step \<Rightarrow> run_state" where
  "exec_command env place st c = with_row (step_name c) (\<lambda>index. run_command env place index c) st"

text \<open>Generated rows are read when they are reached, and each is checked before its commands run.\<close>

definition exec_line ::
  "surroundings \<Rightarrow> string \<Rightarrow> string \<Rightarrow> nat \<Rightarrow> (string list \<Rightarrow> command_step list) \<Rightarrow> run_state \<Rightarrow> string \<Rightarrow> run_state" where
  "exec_line env place source columns expand st line =
     (if failure st \<noteq> None then st else
      let row = words_of env line in
      if length row \<noteq> columns then st\<lparr>failure := Some (Bad_Row source line)\<rparr>
      else foldl (exec_command env place) st (expand row))"

definition exec_step :: "surroundings \<Rightarrow> string \<Rightarrow> run_state \<Rightarrow> step \<Rightarrow> run_state" where
  "exec_step env place st s = (case s of
      Command c \<Rightarrow> exec_command env place st c
    | Copy source glob target \<Rightarrow> with_row (''copy-'' @ path_name source) (\<lambda>_. run_copy env source glob target) st
    | Rows source columns expand \<Rightarrow>
        (if failure st \<noteq> None then st else
         case read_text (run_files st) source of
           Inl e \<Rightarrow> st\<lparr>failure := Some e\<rparr>
         | Inr text \<Rightarrow>
             if lines_of env text = [] then st\<lparr>failure := Some (Empty_Table source)\<rparr>
             else foldl (exec_line env place source columns expand) st (lines_of env text)))"

definition require_fresh :: "bool \<Rightarrow> bool \<Rightarrow> string list \<Rightarrow> string \<Rightarrow> (run_error, unit) result" where
  "require_fresh exists is_directory entries place =
     ensure (\<not> (exists \<and> (\<not> is_directory \<or> entries \<noteq> []))) (Stale_Stage place)"

definition case_status :: "run_state \<Rightarrow> row_status" where
  "case_status st = (if failure st = None then Passed else Failed)"

definition run_steps :: "surroundings \<Rightarrow> regression_case \<Rightarrow> filesystem \<Rightarrow> run_state" where
  "run_steps env c fs =
     foldl (exec_step env (case_stage c)) \<lparr>receipts = [], run_files = fs, failure = None\<rparr> (steps c)"

text \<open>The stage is checked before anything is written; its state is that of its path on disk.\<close>

definition run_case ::
  "surroundings \<Rightarrow> bool \<Rightarrow> bool \<Rightarrow> string list \<Rightarrow> regression_case \<Rightarrow> filesystem \<Rightarrow> (run_error, run_state) result" where
  "run_case env exists is_directory entries c fs =
     bindE (require_fresh exists is_directory entries (case_stage c)) (\<lambda>_. Inr (run_steps env c fs))"

end
