(* ===== verification/Regression_Cases.thy ===== *)
theory Regression_Cases
  imports Regression_Run
begin

text \<open>
  The regression cases (\<open>tools/regression_cases.py\<close>): each is a list of calls of the step language, here a recipe
  of operations with the files they name relative to the stage, the root or the XLS tree, and its steps are what
  the operations append to a case. \<open>vector_case\<close> and the other helpers are recipes with parameters.
\<close>

section \<open>Operations\<close>

datatype place = In_Stage string | In_Root string | Stage_Directory | Xls_Directory

datatype part = Text string | Path_Of place | Quoted_Path place | Environ string string | Interpreter

text \<open>An argument joins its parts; a generated scalar is read when the step runs.\<close>

datatype item = Words "part list" | Scalar_Of place string

datatype operation =
    Compile
  | Erl string string
  | Fixture string "string option"
  | Generate string
  | Interpret place string "string list" "string option" bool bool
  | Convert string string "place option" "string option" bool
  | Codegen string "string option" "string option" "string list"
  | Structure string string "place list"
  | Simulate string string "place list" "item list" "item list" int "string option"
  | Python string string "item list"
  | Library "string list"
  | Compiled string string string int "int option" "string list"
  | Yosys string "part list" string
  | Copy_File place string
  | Direct string "item list" "place list" int
  | Imports "string list"
  | Stage_Import

record host =
  environ :: "string \<Rightarrow> string option"
  interpreter :: string

definition place_path :: "regression_case \<Rightarrow> place \<Rightarrow> string" where
  "place_path c p = (case p of In_Stage n \<Rightarrow> case_path c n | In_Root n \<Rightarrow> below (case_root c) n
     | Stage_Directory \<Rightarrow> case_stage c | Xls_Directory \<Rightarrow> case_xls c)"

definition part_text :: "host \<Rightarrow> regression_case \<Rightarrow> part \<Rightarrow> string" where
  "part_text h c p = (case p of Text s \<Rightarrow> s | Path_Of q \<Rightarrow> place_path c q | Quoted_Path q \<Rightarrow> quote_string (place_path c q)
     | Environ v d \<Rightarrow> (case environ h v of None \<Rightarrow> d | Some s \<Rightarrow> s) | Interpreter \<Rightarrow> interpreter h)"

definition parts_text :: "host \<Rightarrow> regression_case \<Rightarrow> part list \<Rightarrow> string" where
  "parts_text h c ps = concat (map (part_text h c) ps)"

definition item_argument :: "host \<Rightarrow> regression_case \<Rightarrow> item \<Rightarrow> argument" where
  "item_argument h c i = (case i of Words ps \<Rightarrow> Argument (parts_text h c ps)
     | Scalar_Of p pre \<Rightarrow> File_Text (place_path c p) pre [])"

definition place_source :: "regression_case \<Rightarrow> place \<Rightarrow> source_file" where
  "place_source c p = (case p of In_Stage n \<Rightarrow> Named n | _ \<Rightarrow> At_Path (place_path c p))"

definition apply_operation :: "host \<Rightarrow> operation \<Rightarrow> regression_case \<Rightarrow> regression_case" where
  "apply_operation h b c = (case b of
       Compile \<Rightarrow> add_compile c
     | Erl expression name \<Rightarrow> add_erl expression [] name c
     | Fixture name placement \<Rightarrow> add_fixture name placement c
     | Generate module \<Rightarrow> add_generate module c
     | Interpret source compare flags rejection warnings overridden \<Rightarrow>
         add_interpret (environ h) (place_source c source) compare flags rejection warnings overridden c
     | Convert name main source rejection optimize \<Rightarrow>
         add_convert name main (map_option (place_source c) source) rejection optimize c
     | Codegen name source module flags \<Rightarrow> add_codegen name source module flags c
     | Structure name main sources \<Rightarrow> add_structure name main (map (place_path c) sources) c
     | Simulate name main sources flags arguments seconds witnessed \<Rightarrow>
         add_simulate name main (map (place_path c) sources) (map (item_argument h c) flags) (map (item_argument h c) arguments)
           seconds witnessed c
     | Python name script arguments \<Rightarrow> add_command
         ((plain_command name [])\<lparr>step_argv := map Argument [interpreter h, below (case_root c) (''tools/'' @ script)] @
            map (item_argument h c) arguments, step_timeout := 600\<rparr>) c
     | Library directories \<Rightarrow> add_library directories c
     | Compiled name source artifact stages interval flags \<Rightarrow>
         snd (add_compiled (interpreter h) name source artifact stages interval flags c)
     | Yosys name program variable \<Rightarrow> add_yosys (environ h) name (parts_text h c program) variable c
     | Copy_File source glob \<Rightarrow> c\<lparr>steps := steps c @ [Copy (place_path c source) glob (case_stage c)]\<rparr>
     | Direct name argv products seconds \<Rightarrow> add_command
         ((plain_command name [])\<lparr>step_argv := map (item_argument h c) argv, step_products := map (place_path c) products,
            step_timeout := seconds\<rparr>) c
     | Imports directories \<Rightarrow> c\<lparr>import_roots := directories\<rparr>
     | Stage_Import \<Rightarrow> c\<lparr>stage_import := True\<rparr>)"

definition apply_operations :: "host \<Rightarrow> operation list \<Rightarrow> regression_case \<Rightarrow> regression_case" where
  "apply_operations h bs c = fold (apply_operation h) bs c"

text \<open>
  A case is a list of operations, of cases in a directory of their own (with import roots and stage import), and
  of tables whose rows expand to the commands of a fresh case of the same stage.
\<close>

datatype recipe =
    Here operation
  | Child string "string list" bool "operation list"
  | Table string nat "string list \<Rightarrow> operation list"

definition commands_of :: "step list \<Rightarrow> command_step list" where
  "commands_of ss = concat (map (\<lambda>s. case s of Command cmd \<Rightarrow> [cmd] | _ \<Rightarrow> []) ss)"

definition fresh_case :: "regression_case \<Rightarrow> string \<Rightarrow> regression_case" where
  "fresh_case c place = new_case (case_root c) (case_xls c) place [''direct'', ''ingress_direct'']"

definition apply_recipe :: "host \<Rightarrow> recipe \<Rightarrow> regression_case \<Rightarrow> regression_case" where
  "apply_recipe h r c = (case r of
       Here b \<Rightarrow> apply_operation h b c
     | Child place directories staged bs \<Rightarrow> c\<lparr>steps := steps c @ steps (apply_operations h bs
         ((fresh_case c (case_path c place))\<lparr>import_roots := directories, stage_import := staged\<rparr>))\<rparr>
     | Table source columns expand \<Rightarrow> c\<lparr>steps := steps c @ [Rows (case_path c source) columns
         (\<lambda>row. commands_of (steps (apply_operations h (expand row) (fresh_case c (case_stage c)))))]\<rparr>)"

section \<open>Helpers\<close>

definition schedules :: "(int \<times> int) list" where
  "schedules = [(1, 1), (2, 1), (3, 2)]"

definition type_error :: string where
  "type_error = ''TypeInferenceError|[Tt]ype[Mm]ismatch|[Tt]ype mismatch|[Ss]ize mismatch''"

definition bench :: "string \<Rightarrow> place" where
  "bench name = In_Root (''test/rtl/'' @ name @ ''.sv'')"

definition combinational :: "string list" where
  "combinational = [''--generator=combinational'']"

definition interpreted :: "string \<Rightarrow> operation" where
  "interpreted source = Interpret (In_Stage source) ''jit'' [] None False False"

definition converted :: "string \<Rightarrow> string \<Rightarrow> operation" where
  "converted name main = Convert name main None None True"

definition rejected :: "string \<Rightarrow> string \<Rightarrow> string \<Rightarrow> operation" where
  "rejected name main diagnostic = Convert name main None (Some diagnostic) True"

definition simulated :: "string \<Rightarrow> string \<Rightarrow> place list \<Rightarrow> operation" where
  "simulated name tb sources = Simulate name tb sources [] [] 300 None"

definition rtl_file :: "string \<Rightarrow> place" where
  "rtl_file name = In_Stage (name @ ''.v'')"

definition text_item :: "string \<Rightarrow> item" where
  "text_item s = Words [Text s]"

definition stage_include :: "item list" where
  "stage_include = [text_item ''-I'', Words [Path_Of Stage_Directory]]"

definition quoted_define :: "string \<Rightarrow> place \<Rightarrow> item" where
  "quoted_define name p = Words [Text (''-D'' @ name @ ''='' @ [CHR 0x22]), Path_Of p, Text [CHR 0x22]]"

definition scalar_case :: "string \<Rightarrow> string \<Rightarrow> string \<Rightarrow> operation list" where
  "scalar_case name main module = [interpreted (name @ ''.x''), converted name main, Codegen name None (Some module) combinational,
     simulated name (name @ ''_tb'') [rtl_file name, In_Stage (name @ ''_tb.sv'')]]"

definition vector_case :: "string \<Rightarrow> string \<Rightarrow> string \<Rightarrow> item list \<Rightarrow> int \<Rightarrow> operation list" where
  "vector_case name module tb defines seconds = [interpreted (name @ ''.x''), converted name ''probe'',
     Codegen name None (Some module) combinational, Simulate name tb [bench tb, rtl_file name] defines [] seconds None]"

definition service_probe :: "operation list" where
  "service_probe = [converted ''service'' ''Top'', Codegen ''service'' None None (pipeline 2 None True),
     Simulate ''service'' ''logical_service_tb'' [bench ''logical_service_tb'', rtl_file ''service''] []
       [Words [Text ''+requests='', Path_Of (In_Stage ''requests.mem'')], Words [Text ''+replies='', Path_Of (In_Stage ''replies.mem'')]] 300 None]"

definition scheduled_name :: "string \<Rightarrow> int \<times> int \<Rightarrow> string" where
  "scheduled_name pre s = pre @ ''p'' @ show_int (fst s) @ ''-ii'' @ show_int (snd s)"

definition scheduled :: "int \<times> int \<Rightarrow> string list" where
  "scheduled s = pipeline (fst s) (Some (snd s)) True"

end
