(* ===== verification/Regression_Catalogue.thy ===== *)
theory Regression_Catalogue
  imports Regression_Cases
begin

text \<open>
  The cases of \<open>tools/regression_cases.py\<close>, in its order, one definition per function, and their table.
\<close>

section \<open>Values and control\<close>

definition source_context :: "operation list" where
  "source_context = Generate ''hls_source_dslx'' # map (\<lambda>k. interpreted (''source_'' @ k @ ''.x'')) [''narrow'', ''wide'']"

definition phase_values :: "operation list" where
  "phase_values = Generate ''xls_phase_values_dslx'' # map (\<lambda>n. interpreted (n @ ''.x'')) [''phase_baseline'', ''phase_candidate'']"

definition entry_outcomes :: "operation list" where
  "entry_outcomes = [Compile, Fixture ''entry_outcomes'' None] @
     map (\<lambda>n. interpreted (n @ ''.x'')) [''xls_entry_outcome'', ''xls_entry_branch'', ''xls_entry_reduction'', ''xls_entry_storage'', ''known_bits''] @
     concat (map (\<lambda>(n, main). [converted n main, Codegen n None (Some main) combinational,
         simulated n (n @ ''_tb'') [In_Stage (n @ ''_tb.sv''), rtl_file n]])
       [(''xls_entry_outcome'', ''entry_probe''), (''xls_entry_branch'', ''entry_cycle_probe'')])"

definition type_shapes :: "operation list" where
  "type_shapes = [Generate ''xls_type_shape_dslx''] @ scalar_case ''shape'' ''probe'' ''probe'' @
     [Convert ''nested'' ''probe'' None None False, rejected ''nested_mismatch'' ''probe'' ''const_assert! failure'']"

definition pattern_cases :: "operation list" where
  "pattern_cases = [Generate ''xls_patterns_dslx'', Interpret (In_Root ''priv/xls/lib/hls_patterns.x'') ''jit'' [] None False False] @
     scalar_case ''patterns'' ''probe'' ''probe'' @
     map (\<lambda>n. rejected n ''probe'' ''const_assert! failure'') [''empty_tail'', ''overlong_tail''] @ [converted ''list_reduction'' ''Service'']"

definition name_cases :: "operation list" where
  "name_cases = [Compile, Fixture ''names'' None, Interpret (In_Stage ''unused.x'') ''jit'' [] None True False] @
     concat (map (\<lambda>n. [interpreted (n @ ''.x''), converted n ''probe'']) [''names'', ''gs'']) @
     map (\<lambda>n. Convert (n @ ''.service'') ''Service'' (Some (In_Stage (n @ ''.x''))) None False) [''ordinary'', ''gs''] @
     [Codegen ''names'' None (Some ''probe'') combinational,
      simulated ''names'' ''names_tb'' [rtl_file ''names'', In_Stage ''names_tb.sv'']]"

definition integer_arithmetic :: "operation list" where
  "integer_arithmetic = [Generate ''xls_integer_dslx''] @
     concat (concat (map (\<lambda>w. map (\<lambda>sign. let n = sign @ show_nat w in
         vector_case n ''integer_probe'' ''xls_integer_tb'' [text_item (''-DINTEGER_WIDTH='' @ show_nat w),
           Scalar_Of (In_Stage (n @ ''.count'')) ''-DINTEGER_COUNT='', quoted_define ''INTEGER_VECTORS'' (In_Stage (n @ ''.mem''))] 300)
       [''u'', ''s'']) [1, 3, 8, 9, 16, 32, 64])) @
     [interpreted ''static_integer.x'', converted ''static_integer'' ''probe'',
      Codegen ''static_integer'' None (Some ''static_integer_probe'') combinational,
      Simulate ''static_integer'' ''xls_static_integer_tb'' [bench ''xls_static_integer_tb'', rtl_file ''static_integer'']
        [Scalar_Of (In_Stage ''static_integer.count'') ''-DSTATIC_INTEGER_COUNT='', quoted_define ''STATIC_INTEGER_VECTORS'' (In_Stage ''static_integer.mem'')]
        [] 300 (Some ''PASS: static integer BEAM/optimized-RTL expressions and failure flags'')]"

text \<open>A row of the variant table: a name, two widths and a count, as texts.\<close>

definition shift_row :: "string list \<Rightarrow> operation list" where
  "shift_row row = (case row of
       [n, w, cw, k] \<Rightarrow> vector_case n ''shift_probe'' ''xls_shift_tb'' [text_item (''-DSHIFT_WIDTH='' @ w),
         text_item (''-DSHIFT_COUNT_WIDTH='' @ cw), text_item (''-DSHIFT_CASES='' @ k), quoted_define ''SHIFT_VECTORS'' (In_Stage (n @ ''.mem''))] 300
     | _ \<Rightarrow> [])"

definition integer_shifts :: "recipe list" where
  "integer_shifts = map Here [Generate ''xls_shift_dslx'', Interpret (In_Root ''priv/xls/lib/hls_integer.x'') ''jit'' [] None False False] @
     [Table ''variants.txt'' 4 shift_row]"

definition comparisons :: "operation list" where
  "comparisons = [Generate ''xls_comparison_dslx''] @
     concat (map (\<lambda>(l, r). let n = ''cmp_'' @ show_nat l @ ''_'' @ show_nat r in
         vector_case n ''comparison_probe'' ''xls_comparison_tb'' [text_item (''-DLEFT_WIDTH='' @ show_nat l),
           text_item (''-DRIGHT_WIDTH='' @ show_nat r), Scalar_Of (In_Stage (n @ ''.count'')) ''-DCOMPARISON_COUNT='',
           quoted_define ''COMPARISON_VECTORS'' (In_Stage (n @ ''.mem''))] 300)
       [(1, 1), (3, 8), (8, 8), (8, 9), (32, 8), (64, 32), (65, 64), (128, 65)]) @ service_probe"

definition serial_cases :: "operation list" where
  "serial_cases = [Generate ''hls_serial_dslx''] @
     concat (map (\<lambda>w. let n = ''serial'' @ show_nat w in
         vector_case n ''serial_probe'' ''hls_serial_tb'' [text_item (''-DSERIAL_WIDTH='' @ show_nat w),
           Scalar_Of (In_Stage (n @ ''.count'')) ''-DSERIAL_COUNT='', quoted_define ''SERIAL_VECTORS'' (In_Stage (n @ ''.mem''))] 300)
       [1, 3, 8, 9, 32, 64, 65]) @ service_probe"

text \<open>A program that reads one file and shows it to be wires only.\<close>

definition wires_program :: "string \<Rightarrow> string \<Rightarrow> string \<Rightarrow> part list" where
  "wires_program reading n main = [Text (reading @ [CHR 0x22]), Path_Of (rtl_file n), Text ([CHR 0x22] @ ''; hierarchy -top '' @ main @
     ''; proc; opt; check -assert; select -assert-none t:*'')]"

definition collection_cases :: "operation list" where
  "collection_cases = [Generate ''xls_collection_dslx'', Interpret (In_Root ''priv/xls/lib/hls_lists.x'') ''jit'' [] None False False,
      interpreted ''constant.x'', converted ''constant'' ''constant_probe'', Codegen ''constant'' None (Some ''constant_probe'') combinational,
      Yosys ''constant'' (wires_program ''read_verilog -sv '' ''constant'' ''constant_probe'') ''ERL_HLS_YOSYS''] @
     concat (concat (map (\<lambda>w. map (\<lambda>sign. let n = sign @ show_nat w in
         vector_case n ''collection_probe'' ''xls_collection_tb'' [text_item (''-DCOLLECTION_WIDTH='' @ show_nat w),
           Scalar_Of (In_Stage (n @ ''.count'')) ''-DCOLLECTION_COUNT='', quoted_define ''COLLECTION_VECTORS'' (In_Stage (n @ ''.mem''))] 60)
       [''u'', ''s'']) [8, 32, 64]))"

definition helper_cases :: "operation list" where
  "helper_cases = [Generate ''xls_helpers_dslx'', interpreted ''helpers.x''] @
     concat (map (\<lambda>main. [Convert main main (Some (In_Stage ''helpers.x'')) None True, Codegen main None (Some main) combinational])
       [''factored'', ''inline'']) @
     [simulated ''helpers'' ''helpers_tb'' [In_Stage ''helpers_tb.sv'', rtl_file ''factored'', rtl_file ''inline''],
      Yosys ''equivalence'' [Text (''read_verilog '' @ [CHR 0x22]), Path_Of (rtl_file ''factored''), Text ([CHR 0x22] @ '' '' @ [CHR 0x22]),
        Path_Of (rtl_file ''inline''), Text ([CHR 0x22] @ ''; miter -equiv -flatten factored inline helper_equivalence; prep -top helper_equivalence; '' @
        ''sat -verify -prove trigger 0 -show-inputs -show-outputs'')] ''YOSYS''] @
     map (\<lambda>n. rejected n ''root'' ''[Tt]ype[Mm]ismatch|[Tt]ype mismatch|[Ss]ize mismatch'') [''wrong_argument'', ''wrong_result'', ''wrong_join''] @
     [Erl ''ok = xls_literal_types_dslx:write(hd(init:get_plain_arguments())), halt().'' ''literal-fixtures''] @
     scalar_case ''literal_context'' ''run'' ''literal_context'' @
     map (\<lambda>n. rejected n ''root'' type_error) [''literal_conflicting_uses'', ''literal_existing_value'', ''literal_record_existing_value'',
       ''literal_record_conflicting_uses''] @
     [Erl ''ok = hls_nested_records_dslx:write(hd(init:get_plain_arguments())), halt().'' ''nested-fixtures''] @
     scalar_case ''nested_records'' ''nested_transition'' ''nested_records'' @
     map (\<lambda>k. Interpret (In_Stage (''nested_wrong_'' @ k @ ''.x'')) ''none'' []
         (Some ''TypeInferenceError|[Tt]ype[Mm]ismatch|[Tt]ype mismatch'') False False)
       [''nested'', ''expression_case'', ''empty_case'', ''field_access'']"

definition control_failures :: "operation list" where
  "control_failures = [Generate ''xls_control_failure_dslx'', interpreted ''control.x''] @
     map (\<lambda>k. rejected (''bad_'' @ k @ ''_init'') ''bits_from_report'' ''const_assert! failure.*INITIAL_'')
       [''case'', ''if'', ''div'', ''rem'', ''nth'', ''set'', ''slice''] @
     map (\<lambda>main. Convert main main (Some (In_Stage ''control.x'')) None True) [''control_probe'', ''Top''] @
     [Codegen ''control_probe'' None (Some ''control_probe'') combinational] @
     concat (map (\<lambda>s. let n = scheduled_name ''service-'' s in
         [Codegen n (Some ''Top'') (Some ''control_service'') (scheduled s), Structure n ''control_service'' [rtl_file n],
          Simulate n ''xls_control_failure_tb'' [bench ''xls_control_failure_tb'', rtl_file ''control_probe'', rtl_file n] stage_include [] 300 None])
       schedules)"

definition float_arithmetic :: "operation list" where
  "float_arithmetic = [Generate ''hls_float_dslx''] @
     concat (map (\<lambda>(w, initial). let n = ''float'' @ show_nat w in
         [interpreted (n @ ''.x''), interpreted (n @ ''_actor.x''),
          Convert (n @ ''_slice'') ''slice'' (Some (In_Stage (n @ ''.x''))) None True, Codegen (n @ ''_slice'') None None combinational,
          Convert (n @ ''_probe'') ''probe'' (Some (In_Stage (n @ ''.x''))) None True,
          Codegen (n @ ''_probe'') None (Some ''float_probe'') combinational,
          Simulate (n @ ''_probe'') ''hls_float_probe_tb'' [bench ''hls_float_probe_tb'', rtl_file (n @ ''_probe'')]
            (stage_include @ [text_item (''-DFLOAT_WIDTH='' @ show_nat w),
              text_item (''-DFLOAT_VECTORS='' @ [CHR 0x22] @ n @ ''.svh'' @ [CHR 0x22])]) [] 300 None,
          converted (n @ ''_actor'') ''Top'', Codegen (n @ ''_actor'') None (Some ''float_actor'') (pipeline 3 None True),
          Structure (n @ ''_actor'') ''float_actor'' [rtl_file (n @ ''_actor'')],
          Simulate (n @ ''_actor'') ''hls_float_actor_tb'' [bench ''hls_float_actor_tb'', rtl_file (n @ ''_actor'')]
            (stage_include @ [text_item (''-DFLOAT_WIDTH='' @ show_nat w), text_item (''-DFLOAT_INITIAL='' @ initial),
              text_item (''-DFLOAT_ACTOR_VECTORS='' @ [CHR 0x22] @ n @ ''_actor.svh'' @ [CHR 0x22])]) [] 300 None])
       [(16, ''16'' @ [CHR 0x27] @ ''h3e00''), (32, ''32'' @ [CHR 0x27] @ ''h3fc00000''), (64, ''64'' @ [CHR 0x27] @ ''h3ff8000000000000'')]) @
     map (\<lambda>n. rejected n ''probe'' ''TypeInferenceError|TypeMismatch|Type mismatch|type mismatch|type error'')
       [''integer_operator'', ''wrong_precision'', ''integer_operand'']"

section \<open>Streams and services\<close>

definition binary_cases :: "operation list" where
  "binary_cases = [Imports [''lib'', ''debug''], Compile, Fixture ''binary'' None,
      Interpret (In_Root ''priv/xls/lib/hls_bits.x'') ''jit'' [] None False False] @
     concat (map (\<lambda>(n, main). scalar_case n main main) [(''binary'', ''probe''), (''binary_codecs'', ''codec_probe'')]) @
     [Convert ''wires'' ''wire_probe'' (Some (In_Stage ''binary.x'')) None True, Codegen ''wires'' None (Some ''wire_probe'') combinational,
      Yosys ''wires'' (wires_program ''read_verilog '' ''wires'' ''wire_probe'') ''ERL_HLS_YOSYS''] @
     concat (map (\<lambda>(n, main, stages, interval).
         (if n \<noteq> ''packed_samples'' then [Copy_File (In_Root ''priv/xls/debug'') (n @ ''.x'')] else []) @
         [converted n main, Codegen n None None (pipeline stages (Some interval) False)])
       [(''packed_samples'', ''Top'', 3, 2), (''hls_debug_observer'', ''Observer'', 2, 1), (''hls_debug_server'', ''DebugServer'', 3, 2)]) @
     [Structure ''service'' ''__packed_samples__Top_0_next'' [rtl_file ''packed_samples''],
      Python ''packed-samples'' ''test_packed_samples.py'' [Words [Path_Of Stage_Directory], text_item ''--stage'', Words [Path_Of (In_Stage ''live'')]]]"

definition application_frames :: "operation list" where
  "application_frames = [Imports [''lib'', ''fabric''], Interpret (In_Root ''priv/xls/lib/axis.x'') ''jit'' [] None False False] @
     concat (map (\<lambda>(main, defines). Convert main main (Some (In_Root ''test_data/application_frames_rtl.x'')) None True #
         concat (map (\<lambda>s. let n = scheduled_name (main @ ''-'') s in
             [Codegen n (Some main) (Some ''application_frames'') (scheduled s), Structure n ''application_frames'' [rtl_file n]] @
             (if main \<noteq> ''DebugTop''
              then [Simulate n ''application_frames_tb'' [bench ''application_frames_tb'', rtl_file n] (map text_item defines) [] 300 None] else []))
           schedules))
       [(''RawTop'', []), (''ReservedTop'', [''-DRESERVED'']), (''EndpointTop'', [''-DROUTED'']), (''DebugTop'', [])]) @
     [Compile, Fixture ''application_frames'' None, converted ''application_service'' ''Top''] @
     concat (map (\<lambda>s. let n = scheduled_name ''service-'' s in
         [Codegen n (Some ''application_service'') (Some ''application_service'') (scheduled s), Structure n ''application_service'' [rtl_file n],
          simulated n ''application_service_tb'' [bench ''application_service_tb'', rtl_file n]]) schedules) @
     [Python ''frame-backpressure-debug'' ''test_topology_debug_integration.py'' [text_item ''--top'', text_item ''application_frames'',
        text_item ''--stage'', Words [Path_Of (In_Stage ''debug'')], Words [Path_Of (rtl_file ''DebugTop-p2-ii1'')]]]"

definition direct_actor_codegen :: "operation list" where
  "direct_actor_codegen = [Imports [''lib'', ''fabric''], Stage_Import, Generate ''xls_actor_observation_tests''] @
     concat (map (\<lambda>n. [converted n ''Top'', Codegen n None (Some n) (pipeline 2 None True)])
       [''hls_dense_statem_fixture'', ''debug_scalar'', ''debug_rectangle'', ''debug_commit'']) @
     [Simulate ''commit'' ''hls_actor_observation_tb'' [bench ''debug/hls_actor_observation_tb'', rtl_file ''debug_commit''] stage_include [] 300 None,
      Python ''observation-ports'' ''check_actor_observation_ports.py'' [Words [Path_Of Stage_Directory]]]"

definition direct_admission :: "operation list" where
  "direct_admission = [Imports [''lib'', ''fabric''], Stage_Import, Compile, Fixture ''direct_admission'' None,
      Interpret (In_Stage ''large_mailbox_64.x'') ''none'' [] None False False,
      Interpret (In_Stage ''large_mailbox_255.x'') ''none'' [''--test_filter=^$''] None False False] @
     concat (map (\<lambda>(kind, source, main, module, tb). Convert kind main (Some (In_Stage source)) None True #
         concat (map (\<lambda>s. let n = scheduled_name (kind @ ''-'') s in
             [Codegen n (Some kind) (Some module) (scheduled s), Structure n module [rtl_file n],
              Simulate n tb [bench tb, rtl_file n] [] [] 60 None]) schedules))
       [(''service'', ''ordered_egress_actor.x'', ''Service'', ''direct_admission_service'', ''direct_admission_tb''),
        (''d1'', ''d1/ordered_egress_topology.x'', ''Top'', ''__ordered_egress_topology__Top_0_next'', ''ordered_egress_topology_tb''),
        (''d2'', ''d2/ordered_egress_topology.x'', ''Top'', ''__ordered_egress_topology__Top_0_next'', ''ordered_egress_topology_tb'')]) @
     [Python ''admission-formal'' ''test_direct_admission_formal.py'' ([text_item ''--stage'', Words [Path_Of (In_Stage ''formal'')]] @
        map (\<lambda>s. Words [Path_Of (rtl_file (scheduled_name ''service-'' s))]) schedules),
      Python ''admission-debug'' ''test_topology_debug_integration.py'' [text_item ''--yosys'', Words [Environ ''ERL_HLS_YOSYS'' ''yosys''],
        text_item ''--top'', text_item ''__ordered_egress_topology__Top_0_next'', text_item ''--stage'', Words [Path_Of (In_Stage ''debug'')],
        Words [Path_Of (rtl_file ''d1-p2-ii1'')]]]"

definition initialization :: "operation list" where
  "initialization = [Imports [''lib'', ''fabric''], Stage_Import, Generate ''xls_init_dslx''] @
     concat (map (\<lambda>k. [interpreted (''init_'' @ k @ ''.x''),
         rejected (''bad_'' @ k) ''bits_from_report'' ''const_assert! failure.*INITIAL_'']) [''gs'', ''statem'']) @
     concat (map (\<lambda>(f, main, tb). converted (''init_'' @ f) main #
         concat (map (\<lambda>stages. let n = ''init_'' @ f @ ''_'' @ show_int stages;
               wrapper = (if f = ''direct'' then ''init_direct_wrapper'' else main) in
             [Codegen n (Some (''init_'' @ f)) (Some (''init_'' @ f)) (pipeline stages None True @ [''--ram_configurations='']),
              Simulate n tb ([bench tb, rtl_file n] @ (if f = ''direct'' then [rtl_file wrapper] else []))
                (stage_include @ [text_item (''-DINIT_TOP='' @ wrapper)]) [] 300 None]) [1, 2]))
       [(''gs'', ''FrameTop'', ''xls_init_gs_tb''), (''direct'', ''Top'', ''xls_init_topology_tb'')])"

text \<open>\<open>compiled\<close> and the RTL file it names.\<close>

definition compiled_file :: "string \<Rightarrow> string \<Rightarrow> place" where
  "compiled_file name artifact = rtl_file (name @ ''/'' @ artifact)"

definition framed_service :: "string \<Rightarrow> string \<Rightarrow> string \<Rightarrow> string \<Rightarrow> (int \<times> int) list \<Rightarrow> operation list" where
  "framed_service fixture source artifact tb plan = [Compile, Fixture fixture None, Library [''lib'']] @
     concat (map (\<lambda>s. let n = scheduled_name [] s in
         [Compiled n source artifact (fst s) (Some (snd s)) [],
          Structure n (''__'' @ path_stem source @ ''__Top_0_next'') [compiled_file n artifact],
          simulated n tb [bench tb, compiled_file n artifact]]) plan)"

definition deferred_replies :: "operation list" where
  "deferred_replies = framed_service ''deferred_replies'' ''batch.x'' ''deferred_server'' ''deferred_server_tb'' [(2, 2), (3, 3)]"

definition service_contracts :: "operation list" where
  "service_contracts = framed_service ''service_contracts'' ''service.x'' ''reply_service'' ''service_contracts_tb'' schedules"

definition logical_types :: "operation list" where
  "logical_types = [Compile, Fixture ''logical_types'' None, interpreted ''codecs.x'', interpreted ''struct_codecs.x'',
      converted ''codecs'' ''probe'', Codegen ''codecs'' None (Some ''probe'') combinational,
      Simulate ''codecs'' ''logical_codecs_tb'' [rtl_file ''codecs'', bench ''logical_codecs_tb''] []
        [Words [Text ''+vectors='', Path_Of (In_Stage ''codecs.mem'')]] 300 None,
      Convert ''wires'' ''wire_probe'' (Some (In_Stage ''codecs.x'')) None True, Codegen ''wires'' None (Some ''wire_probe'') combinational,
      Yosys ''wires'' (wires_program ''read_verilog '' ''wires'' ''wire_probe'') ''ERL_HLS_YOSYS'', Library [''lib'']] @
     concat (map (\<lambda>s. let n = scheduled_name [] s; rtl = compiled_file n ''logical_service'' in
         [Compiled n ''service.x'' ''logical_service'' (fst s) (Some (snd s)) [], Structure n ''__service__Top_0_next'' [rtl],
          Simulate n ''logical_service_tb'' [bench ''logical_service_tb'', rtl] []
            [Words [Text ''+requests='', Path_Of (In_Stage ''requests.mem'')], Words [Text ''+replies='', Path_Of (In_Stage ''replies.mem'')]] 300 None])
       schedules) @
     [Library [''fabric'']] @
     concat (map (\<lambda>f. let n = ''dense_'' @ f; rtl = compiled_file (n @ ''-build'') n; wrapper = n @ ''_wrapper'' in
         [Compiled (n @ ''-build'') (n @ ''.x'') n 2 None [], Structure n wrapper [rtl, rtl_file wrapper],
          Simulate n ''logical_topology_tb'' [bench ''logical_topology_tb'', rtl, rtl_file wrapper]
            (stage_include @ [text_item (''-DDENSE_TOP='' @ wrapper)]) [] 300 None]) [''direct'', ''family''])"

definition reduction_dslx :: "operation list" where
  "reduction_dslx = [Compile, Fixture ''reduction_dslx'' None] @
     concat (map (\<lambda>n. [interpreted (n @ ''.x''), Convert n ''Top'' None None False]) [''reduction'', ''failure'', ''mask'', ''mask_debug'', ''signed_mask''])"

definition overridden :: "string \<Rightarrow> operation" where
  "overridden source = Interpret (In_Stage source) ''jit'' [] None False True"

definition statem_gathers :: "operation list" where
  "statem_gathers = [Generate ''xls_statem_gather_dslx'', Library [''lib'', ''fabric''], Imports [], Stage_Import] @
     map (\<lambda>n. overridden (n @ ''.x'')) [''statem_gather'', ''statem_gather_sites'', ''statem_gather_debug'']"

definition statem_replies :: "operation list" where
  "statem_replies = [Generate ''hls_statem_reply_dslx'', Library [''lib'', ''fabric''], Imports [], Stage_Import] @
     map (\<lambda>n. overridden (n @ ''.x'')) [''statem_direct'', ''statem_events'', ''statem_reduction_replies'', ''hls_reply''] @
     concat (concat (map (\<lambda>kind. map (\<lambda>stages.
         let n = kind @ ''-p'' @ show_int stages; rtl = compiled_file n ''statem''; tb = ''statem_reply_'' @ kind @ ''_tb'';
             main = (if kind = ''topology'' then ''statem_topology_wrapper'' else ''__statem_direct__Top_0_next'');
             sources = [rtl] @ (if kind = ''topology'' then [rtl_file ''statem_topology_wrapper''] else []) in
         [Compiled n (''statem_'' @ kind @ ''.x'') ''statem'' stages None [''--ram-configurations'', []],
          Structure n main sources, simulated n tb (bench tb # sources)]) [2, 3]) [''direct'', ''topology'']))"

section \<open>Topologies and examples\<close>

definition placement_case :: "string \<Rightarrow> operation list" where
  "placement_case placement = [Fixture ''mixed_topology'' (Some placement),
      Convert ''topology'' ''Top'' (Some (In_Stage ''mixed_topology.x'')) None True] @
     concat (map (\<lambda>stages. let n = ''topology_'' @ show_int stages; p = ''p'' @ show_int stages in
         [Codegen n (Some ''topology'') (Some ''mixed_topology'') (pipeline stages None True),
          Python (p @ ''-debug'') ''test_topology_debug_integration.py'' [text_item ''--yosys'', Words [Environ ''YOSYS'' ''yosys''],
            text_item ''--top'', text_item ''mixed_topology_wrapper'', text_item ''--stage'', Words [Path_Of (In_Stage p)],
            text_item ''--actor-projection'', Words [Path_Of (In_Stage ''actors.json'')], text_item ''--actor-test'',
            text_item (if placement = ''direct'' then ''mixed_direct'' else ''ingress_direct''),
            Words [Path_Of (rtl_file n)], Words [Path_Of (rtl_file ''mixed_topology_wrapper'')]]]) [2, 3])"

definition mixed_topology :: "string list \<Rightarrow> recipe list" where
  "mixed_topology places = Here Compile # map (\<lambda>p. Child p [''lib'', ''fabric''] True (placement_case p)) places"

definition selection_equivalence :: "operation list" where
  "selection_equivalence = [Copy_File (In_Root ''test_data'') ''xls_selection.x''] @
     concat (map (\<lambda>w.
         concat (map (\<lambda>form. let n = form @ show_nat w in
             [Convert n n (Some (In_Stage ''xls_selection.x'')) None True, Codegen n None (Some n) combinational]) [''indexed'', ''direct'', ''early'']) @
         map (\<lambda>form. let l = ''indexed'' @ show_nat w; r = form @ show_nat w in
             Yosys (''equivalence-'' @ r) [Text ''read_verilog '', Quoted_Path (rtl_file l), Text '' '', Quoted_Path (rtl_file r),
               Text (''; miter -equiv -flatten '' @ l @ '' '' @ r @ '' miter; prep -top miter; '' @
                 ''sat -verify -prove trigger 0 -show-inputs -show-outputs'')] ''ERL_HLS_YOSYS'') [''direct'', ''early'']) [19, 22])"

definition state_updates :: "operation list" where
  "state_updates = [Copy_File (In_Root ''test_data'') ''xls_state_updates.x'', Copy_File (In_Root ''test/rtl'') ''xls_state_updates_tb.sv'',
      Convert ''state_updates'' ''Rows'' (Some (In_Stage ''xls_state_updates.x'')) None True,
      Codegen ''state_updates'' None (Some ''state_updates'') (pipeline 2 None True),
      Simulate ''state_updates'' ''xls_state_updates_tb'' [In_Stage ''xls_state_updates_tb.sv'', rtl_file ''state_updates''] [] [] 120
        (Some ''PASS: 8192 replies''),
      Direct ''state-census'' [Words [Interpreter], Words [Path_Of (In_Root ''tools/xls_ir_census.py'')],
        Words [Path_Of (In_Stage ''state_updates.opt.ir'')], text_item ''--output'', Words [Path_Of (In_Stage ''state_updates.census.json'')]]
        [In_Stage ''state_updates.census.json''] 300]"

definition telemetry :: "operation list" where
  "telemetry = [Generate ''telemetry_example_fixture'',
      Direct ''telemetry-bundle'' [Words [Interpreter], Words [Path_Of (In_Root ''priv/tools/compile_source_build.py'')],
        Words [Path_Of Xls_Directory], Words [Path_Of (In_Stage ''bundle'')], text_item ''--output'', Words [Path_Of (In_Stage ''compiled'')],
        text_item ''--cache'', Words [Path_Of (In_Stage ''cache'')]] [rtl_file ''compiled/telemetry''] 900,
      Structure ''telemetry'' ''telemetry_top'' [rtl_file ''compiled/telemetry''],
      Simulate ''telemetry'' ''telemetry_example_tb'' [bench ''telemetry_example_tb'', rtl_file ''compiled/telemetry''] stage_include
        [Words [Text ''+vectors='', Path_Of Stage_Directory]] 60
        (Some ''PASS: telemetry CPU/RTL windows, malformed ingress, stalls and reset'')]"

section \<open>The table of cases\<close>

definition catalogue :: "(string \<times> operation list) list" where
  "catalogue = [(''source_context'', source_context), (''phase_values'', phase_values), (''entry_outcomes'', entry_outcomes),
     (''type_shapes'', type_shapes), (''patterns'', pattern_cases), (''names'', name_cases), (''integer_arithmetic'', integer_arithmetic),
     (''comparisons'', comparisons), (''serial'', serial_cases), (''collections'', collection_cases), (''helpers'', helper_cases),
     (''control_failures'', control_failures), (''float_arithmetic'', float_arithmetic), (''binary'', binary_cases),
     (''application_frames'', application_frames), (''direct_actor_codegen'', direct_actor_codegen), (''direct_admission'', direct_admission),
     (''initialization'', initialization), (''deferred_replies'', deferred_replies), (''service_contracts'', service_contracts),
     (''logical_types'', logical_types), (''reduction_dslx'', reduction_dslx), (''statem_gathers'', statem_gathers),
     (''statem_replies'', statem_replies), (''selection_equivalence'', selection_equivalence), (''state_updates'', state_updates),
     (''telemetry'', telemetry)]"

definition recipe_of :: "string list \<Rightarrow> string \<Rightarrow> recipe list option" where
  "recipe_of places name =
     (if name = ''integer_shifts'' then Some integer_shifts
      else if name = ''mixed_topology''
      then (if places = [] \<or> list_ex (\<lambda>p. p \<notin> {''direct'', ''ingress_direct''}) places then None else Some (mixed_topology places))
      else map_option (map Here) (map_of catalogue name))"

definition build_case :: "host \<Rightarrow> string \<Rightarrow> regression_case \<Rightarrow> regression_case option" where
  "build_case h name c = map_option (\<lambda>rs. fold (apply_recipe h) rs c) (recipe_of (placements c) name)"

end
