(* ===== verification/Regression_Ready.thy ===== *)
theory Regression_Ready
  imports Regression_Catalogue
begin

text \<open>
  Files of a case before they are used. \<open>ready\<close> is a definite-production analysis of a list of operations: the
  optimized IR and every Verilog file an operation names below the stage must be products of earlier operations: the
  outputs of the tools that the operations check for, and the wrappers that the Erlang fixture writers put there. It is
  sound for the execution of the steps.
\<close>

section \<open>The analysis\<close>

definition places_of_part :: "part \<Rightarrow> place list" where
  "places_of_part p = (case p of Path_Of q \<Rightarrow> [q] | Quoted_Path q \<Rightarrow> [q] | _ \<Rightarrow> [])"

definition places_of_item :: "item \<Rightarrow> place list" where
  "places_of_item i = (case i of Words ps \<Rightarrow> concat (map places_of_part ps) | Scalar_Of p _ \<Rightarrow> [p])"

definition stage_names :: "place list \<Rightarrow> string list" where
  "stage_names ps = concat (map (\<lambda>p. case p of In_Stage n \<Rightarrow> [n] | _ \<Rightarrow> []) ps)"

text \<open>The files below the stage that an operation names, its own products apart.\<close>

definition mentions :: "operation \<Rightarrow> string list" where
  "mentions b = stage_names (case b of
       Interpret source _ _ _ _ _ \<Rightarrow> [source]
     | Convert _ _ source _ _ \<Rightarrow> (case source of None \<Rightarrow> [] | Some p \<Rightarrow> [p])
     | Codegen name source _ _ \<Rightarrow> [In_Stage ((case source of None \<Rightarrow> name | Some [] \<Rightarrow> name | Some s \<Rightarrow> s) @ ''.opt.ir'')]
     | Structure _ _ sources \<Rightarrow> sources
     | Simulate _ _ sources flags arguments _ _ \<Rightarrow> sources @ concat (map places_of_item (flags @ arguments))
     | Python _ _ arguments \<Rightarrow> concat (map places_of_item arguments)
     | Compiled _ source _ _ _ _ \<Rightarrow> [In_Stage source]
     | Yosys _ program _ \<Rightarrow> concat (map places_of_part program)
     | Direct _ argv _ _ \<Rightarrow> concat (map places_of_item argv)
     | _ \<Rightarrow> [])"

definition generated :: "string \<Rightarrow> bool" where
  "generated n \<longleftrightarrow> suffix ''.opt.ir'' n \<or> suffix ''.v'' n"

text \<open>
  The wrappers that the Erlang fixture writers leave in the stage, by the expression a case evaluates:
  \<open>write/1\<close> of \<open>test/xls_init_dslx.erl\<close> and \<open>test/hls_statem_reply_dslx.erl\<close>, and the suites of
  \<open>test/xls_regression_fixtures.erl\<close> that end in \<open>test/hls_dense_topology_dslx.erl\<close> and
  \<open>test/hls_mixed_topology_dslx.erl\<close>. No step of a case checks for them.
\<close>

definition write_expression :: "string \<Rightarrow> string" where
  "write_expression module = ''ok = '' @ module @ '':write(hd(init:get_plain_arguments())), halt().''"

definition suite_expression :: "string \<Rightarrow> string option \<Rightarrow> string" where
  "suite_expression name placement = ''ok = xls_regression_fixtures:write('' @ name @ '', hd(init:get_plain_arguments())'' @
     (case placement of None \<Rightarrow> [] | Some p \<Rightarrow> '', '' @ p) @ ''), halt().''"

definition fixture_wrappers :: "string \<Rightarrow> string list" where
  "fixture_wrappers expression =
     (if expression = write_expression ''xls_init_dslx'' then [''init_direct_wrapper.v'']
      else if expression = write_expression ''hls_statem_reply_dslx'' then [''statem_topology_wrapper.v'']
      else if expression = suite_expression ''logical_types'' None then [''dense_direct_wrapper.v'', ''dense_family_wrapper.v'']
      else if expression \<in> {suite_expression ''mixed_topology'' (Some ''direct''), suite_expression ''mixed_topology'' (Some ''ingress_direct'')}
      then [''mixed_topology_wrapper.v''] else [])"

definition supplies :: "operation \<Rightarrow> string list" where
  "supplies b = filter generated (case b of
       Generate module \<Rightarrow> fixture_wrappers (write_expression module)
     | Fixture name placement \<Rightarrow> fixture_wrappers (suite_expression name placement)
     | _ \<Rightarrow> [])"

text \<open>What an operation leaves, never empty; and what it writes without such a check.\<close>

definition produces :: "operation \<Rightarrow> string list" where
  "produces b = filter generated (case b of
       Convert name _ _ None True \<Rightarrow> [name @ ''.opt.ir'']
     | Codegen name _ _ _ \<Rightarrow> [name @ ''.v'']
     | Compiled name _ artifact _ _ _ \<Rightarrow> [name @ ''/'' @ artifact @ ''.v'']
     | Direct _ _ products _ \<Rightarrow> stage_names products
     | _ \<Rightarrow> [])"

definition spoils :: "operation \<Rightarrow> string list" where
  "spoils b = (case b of
       Convert name _ _ rejection _ \<Rightarrow> (if rejection = None then [] else [name @ ''.ir''])
     | Simulate name _ _ _ _ _ _ \<Rightarrow> [name @ ''.sim.log'']
     | Yosys name _ _ \<Rightarrow> [name @ ''.log'']
     | _ \<Rightarrow> [])"

definition plain_character :: "char \<Rightarrow> bool" where
  "plain_character ch \<longleftrightarrow> ch \<notin> set ''*?[]''"

definition glob_match :: "string \<Rightarrow> string \<Rightarrow> bool" where
  "glob_match pat n = (case pat of [] \<Rightarrow> False | ch # rest \<Rightarrow>
     if ch = CHR ''*'' \<and> list_all plain_character rest then suffix rest n
     else if list_all plain_character pat then n = pat else True)"

definition copied :: "operation \<Rightarrow> string list" where
  "copied b = (case b of Library ds \<Rightarrow> map (\<lambda>_. ''*.x'') ds | Copy_File _ glob \<Rightarrow> [glob] | _ \<Rightarrow> [])"

fun ready :: "string list \<Rightarrow> operation list \<Rightarrow> bool" where
  "ready made [] = True"
| "ready made (b # bs) \<longleftrightarrow> list_all (\<lambda>n. generated n \<longrightarrow> n \<in> set made) (mentions b) \<and>
     list_all (\<lambda>n. n \<notin> set (spoils b) \<and> \<not> list_ex (\<lambda>pat. glob_match pat n) (copied b)) (made @ supplies b @ produces b) \<and>
     ready (supplies b @ produces b @ made) bs"

section \<open>Soundness\<close>

definition filled :: "filesystem \<Rightarrow> string \<Rightarrow> bool" where
  "filled fs q \<longleftrightarrow> (\<exists>bytes. fs q = Some bytes \<and> bytes \<noteq> [])"

text \<open>Tools never empty or remove a file that was filled; patterns match what they say.\<close>

definition tools_keep :: "surroundings \<Rightarrow> bool" where
  "tools_keep env \<longleftrightarrow> (\<forall>i argv fs q. filled fs q \<longrightarrow> filled (snd (acts env i argv fs)) q)"

definition globs_match :: "surroundings \<Rightarrow> bool" where
  "globs_match env \<longleftrightarrow> (\<forall>fs d pat n. n \<in> set (finds env fs d pat) \<longrightarrow> glob_match pat n)"

text \<open>A fixture writer that exits with 0 has written its wrappers, not empty, into the directory it was given.\<close>

definition writers_supply :: "surroundings \<Rightarrow> bool" where
  "writers_supply env \<longleftrightarrow> (\<forall>i argv fs expression place n. n \<in> set (fixture_wrappers expression) \<longrightarrow>
     suffix [''-eval'', expression, ''-extra'', place] argv \<longrightarrow> wait_result (fst (acts env i argv fs)) = Exited 0 \<longrightarrow>
     filled (snd (acts env i argv fs)) (below place n))"

text \<open>A command whose tool fills a file whenever it exits with 0.\<close>

definition supplied :: "surroundings \<Rightarrow> command_step \<Rightarrow> string \<Rightarrow> bool" where
  "supplied env cmd q \<longleftrightarrow> step_rejection cmd = None \<and> (\<forall>i argv fs. mapE (resolve_argument env fs) (step_argv cmd) = Inr argv \<longrightarrow>
     wait_result (fst (acts env i argv fs)) = Exited 0 \<longrightarrow> filled (snd (acts env i argv fs)) q)"

lemma generated_no_log: "generated n \<Longrightarrow> case_path c n \<noteq> below d ''stdout.log''"
proof
  assume g: "generated n" and eq: "case_path c n = below d ''stdout.log''"
  from g have "n \<noteq> []" and "last n \<in> {CHR ''r'', CHR ''v''}" by (auto simp: generated_def suffix_def)
  then have "last (case_path c n) \<in> {CHR ''r'', CHR ''v''}" by (simp add: case_path_def below_def)
  moreover have "last (below d ''stdout.log'') = CHR ''g''" by (simp add: below_def)
  ultimately show False using eq by simp
qed

lemma case_path_inj [simp]: "case_path c n = case_path c m \<longleftrightarrow> n = m"
  by (simp add: case_path_def below_def)

text \<open>One command that passes.\<close>

lemma run_command_files:
  assumes "run_command env place i cmd fs = (Inr u, fs')" and "tools_keep env"
  shows "\<And>c n. generated n \<Longrightarrow> filled fs (case_path c n) \<Longrightarrow>
        (\<And>p. step_stdout cmd = Some p \<Longrightarrow> \<not> step_nonempty cmd \<Longrightarrow> p \<noteq> case_path c n) \<Longrightarrow> filled fs' (case_path c n)"
    and "q \<in> set (step_products cmd) \<Longrightarrow> filled fs' q"
    and "step_stdout cmd = Some q \<Longrightarrow> step_nonempty cmd \<Longrightarrow> filled fs' q"
    and "\<And>c n. generated n \<Longrightarrow> supplied env cmd (case_path c n) \<Longrightarrow>
        (\<And>p. step_stdout cmd = Some p \<Longrightarrow> \<not> step_nonempty cmd \<Longrightarrow> p \<noteq> case_path c n) \<Longrightarrow> filled fs' (case_path c n)"
proof -
  let ?out = "case step_stdout cmd of None \<Rightarrow> below (log_directory place i (step_name cmd)) ''stdout.log'' | Some p \<Rightarrow> p"
  obtain argv where argv: "mapE (resolve_argument env fs) (step_argv cmd) = Inr argv"
    using assms(1) by (cases "mapE (resolve_argument env fs) (step_argv cmd)") (simp_all add: run_command_def)
  obtain p fs1 where act: "acts env i argv fs = (p, fs1)" by fastforce
  from assms(1) have fs': "fs' = fs1(?out \<mapsto> stdout_bytes p)"
    and body: "bindE (case run_tool p (\<not> step_nonempty cmd) (map_option (occurs env) (step_rejection cmd)) of
        Inl e \<Rightarrow> Inl (Tool_Error e) | Inr u \<Rightarrow> Inr u) (\<lambda>_.
      bindE (checkE (\<lambda>q. case fs' q of None \<Rightarrow> Inl (Missing_Product q)
        | Some bytes \<Rightarrow> ensure (bytes \<noteq> []) (Missing_Product q)) (step_products cmd)) (\<lambda>_.
      case step_completion cmd of None \<Rightarrow> Inr () | Some w \<Rightarrow> ensure (sublist w (stdout_bytes p)) (Missing_Witness w))) = Inr u"
    by (auto simp: run_command_def argv act Let_def)
  from body have tool: "run_tool p (\<not> step_nonempty cmd) (map_option (occurs env) (step_rejection cmd)) = Inr ()"
    and checked: "\<forall>q\<in>set (step_products cmd). (case fs' q of None \<Rightarrow> Inl (Missing_Product q)
        | Some bytes \<Rightarrow> ensure (bytes \<noteq> []) (Missing_Product q)) = Inr ()"
    by (simp_all add: bindE_Inr split: sum.splits)
  from checked have products: "\<forall>q\<in>set (step_products cmd). filled fs' q"
    by (fastforce simp: filled_def split: option.splits)
  have out: "stdout_bytes p \<noteq> []" if "step_nonempty cmd"
    using tool that by (auto simp: run_tool_def bindE_Inr split: option.splits wait_result.splits)
  have kept: "filled fs1 q" if "filled fs q" for q
    using assms(2) that act unfolding tools_keep_def by (metis snd_conv)
  show "q \<in> set (step_products cmd) \<Longrightarrow> filled fs' q" using products by blast
  show "step_stdout cmd = Some q \<Longrightarrow> step_nonempty cmd \<Longrightarrow> filled fs' q" using out by (simp add: fs' filled_def)
  have survives: "filled fs' (case_path c n)" if g: "generated n" and f: "filled fs1 (case_path c n)"
    and s: "\<And>p. step_stdout cmd = Some p \<Longrightarrow> \<not> step_nonempty cmd \<Longrightarrow> p \<noteq> case_path c n" for c n
  proof (cases "?out = case_path c n")
    case True
    with generated_no_log[OF g, of c "log_directory place i (step_name cmd)"] have "step_stdout cmd = Some (case_path c n)"
      by (cases "step_stdout cmd") simp_all
    with s have "step_nonempty cmd" by blast
    with out True show ?thesis by (simp add: fs' filled_def)
  next
    case False
    with f show ?thesis by (simp add: fs' filled_def)
  qed
  show "filled fs' (case_path c n)" if "generated n" "filled fs (case_path c n)"
    "\<And>p. step_stdout cmd = Some p \<Longrightarrow> \<not> step_nonempty cmd \<Longrightarrow> p \<noteq> case_path c n" for c n
    using survives that kept by blast
  show "filled fs' (case_path c n)" if g: "generated n" and sup: "supplied env cmd (case_path c n)"
    and s: "\<And>p. step_stdout cmd = Some p \<Longrightarrow> \<not> step_nonempty cmd \<Longrightarrow> p \<noteq> case_path c n" for c n
  proof -
    from sup tool have "wait_result p = Exited 0"
      by (auto simp: supplied_def run_tool_def bindE_Inr split: wait_result.splits)
    with sup argv act have "filled fs1 (case_path c n)" unfolding supplied_def by (metis fst_conv snd_conv)
    with survives g s show ?thesis by blast
  qed
qed

text \<open>Steps that all pass.\<close>

definition passed :: "surroundings \<Rightarrow> string \<Rightarrow> step list \<Rightarrow> run_state \<Rightarrow> run_state \<Rightarrow> bool" where
  "passed env place ss st st' \<longleftrightarrow> st' = foldl (exec_step env place) st ss \<and> failure st' = None"

lemma failed_stays: "failure st \<noteq> None \<Longrightarrow> exec_step env place st s = st"
  by (cases s) (simp_all add: exec_step_def exec_command_def with_row_def)

lemma foldl_failed: "failure st \<noteq> None \<Longrightarrow> foldl (exec_step env place) st ss = st"
  by (induction ss) (simp_all add: failed_stays del: not_None_eq)

lemma passed_Nil [simp]: "passed env place [] st st' \<longleftrightarrow> st' = st \<and> failure st = None"
  by (auto simp: passed_def)

lemma foldl_started: "failure (foldl (exec_step env place) st ss) = None \<Longrightarrow> failure st = None"
  using foldl_failed by (metis not_None_eq)

lemma passed_Cons: "passed env place (s # ss) st st' \<longleftrightarrow> (\<exists>u. passed env place [s] st u \<and> passed env place ss u st')"
  using foldl_started[of env place "exec_step env place st s" ss] by (auto simp: passed_def)

lemma passed_append: "passed env place (ss @ ts) st st' \<longleftrightarrow> (\<exists>u. passed env place ss st u \<and> passed env place ts u st')"
  using foldl_started[of env place "foldl (exec_step env place) st ss" ts] by (auto simp: passed_def)

lemma passed_command:
  assumes "passed env place [Command cmd] st st'"
  shows "\<exists>i u. run_command env place i cmd (run_files st) = (Inr u, run_files st')"
  using assms by (auto simp: passed_def exec_step_def exec_command_def with_row_def Let_def split: if_splits prod.splits sum.splits)

lemma passed_copy:
  assumes "passed env place [Copy source glob target] st st'"
  shows "\<exists>u. run_copy env source glob target (run_files st) = (Inr u, run_files st')"
  using assms by (auto simp: passed_def exec_step_def with_row_def Let_def split: if_splits prod.splits sum.splits)

definition leaves :: "command_step \<Rightarrow> string \<Rightarrow> bool" where
  "leaves cmd q \<longleftrightarrow> q \<in> set (step_products cmd) \<or> step_stdout cmd = Some q \<and> step_nonempty cmd"

definition may_empty :: "command_step \<Rightarrow> string \<Rightarrow> bool" where
  "may_empty cmd q \<longleftrightarrow> step_stdout cmd = Some q \<and> \<not> step_nonempty cmd"

lemma commands_files:
  assumes "tools_keep env" and "generated n"
  shows "passed env place (map Command cmds) st st' \<Longrightarrow> list_all (\<lambda>cmd. \<not> may_empty cmd (case_path c n)) cmds \<Longrightarrow>
    filled (run_files st) (case_path c n) \<or> list_ex (\<lambda>cmd. leaves cmd (case_path c n) \<or> supplied env cmd (case_path c n)) cmds \<Longrightarrow>
    filled (run_files st') (case_path c n)"
proof (induction cmds arbitrary: st)
  case (Cons cmd cmds)
  from Cons.prems(1) have "passed env place (Command cmd # map Command cmds) st st'" by simp
  then obtain u where first: "passed env place [Command cmd] st u" and rest: "passed env place (map Command cmds) u st'"
    using passed_Cons[THEN iffD1] by blast
  obtain i r where run: "run_command env place i cmd (run_files st) = (Inr r, run_files u)" using passed_command[OF first] by blast
  note F = run_command_files[OF run assms(1)]
  have "filled (run_files u) (case_path c n) \<or> list_ex (\<lambda>cmd. leaves cmd (case_path c n) \<or> supplied env cmd (case_path c n)) cmds"
    using Cons.prems(2,3) F(1)[OF assms(2), of c] F(4)[OF assms(2), of c] F(2,3)[of "case_path c n"]
    by (auto simp: leaves_def may_empty_def)
  with Cons.IH[OF rest] Cons.prems(2) show ?case by simp
qed simp

lemma copies_files:
  assumes "globs_match env"
  shows "passed env place (map (\<lambda>(d, glob). Copy d glob (case_stage c)) cs) st st' \<Longrightarrow>
    list_all (\<lambda>(d, glob). \<not> glob_match glob n) cs \<Longrightarrow> filled (run_files st) (case_path c n) \<Longrightarrow> filled (run_files st') (case_path c n)"
proof (induction cs arbitrary: st)
  case (Cons dg cs)
  obtain d glob where dg: "dg = (d, glob)" by fastforce
  from Cons.prems(1) have "passed env place (Copy d glob (case_stage c) # map (\<lambda>(d, glob). Copy d glob (case_stage c)) cs) st st'"
    by (simp add: dg)
  then obtain u where first: "passed env place [Copy d glob (case_stage c)] st u"
    and rest: "passed env place (map (\<lambda>(d, glob). Copy d glob (case_stage c)) cs) u st'"
    using passed_Cons[THEN iffD1] by blast
  have other: "foldl (\<lambda>fs n. fs(below (case_stage c) n := fs (below d n))) fs ns (case_path c n) = fs (case_path c n)"
    if "n \<notin> set ns" for ns fs
    using that by (induction ns arbitrary: fs) (auto simp: case_path_def below_def)
  from Cons.prems(2) have absent: "n \<notin> set (sort (finds env (run_files st) d glob))"
    using assms by (auto simp: globs_match_def dg)
  have files: "run_files u = foldl (\<lambda>fs n. fs(below (case_stage c) n := fs (below d n))) (run_files st)
      (sort (finds env (run_files st) d glob))"
    using passed_copy[OF first] by (auto simp: run_copy_def split: list.splits)
  have "run_files u (case_path c n) = run_files st (case_path c n)" unfolding files by (rule other[OF absent])
  with Cons.prems(3) have "filled (run_files u) (case_path c n)" by (simp add: filled_def)
  with Cons.IH[OF rest] Cons.prems(2) show ?case by simp
qed simp

text \<open>The steps an operation appends.\<close>

definition new_steps :: "host \<Rightarrow> operation \<Rightarrow> regression_case \<Rightarrow> step list" where
  "new_steps h b c = steps (apply_operation h b (c\<lparr>steps := []\<rparr>))"

lemmas appenders = add_compile_def add_erl_def add_fixture_def add_generate_def add_interpret_def add_convert_def add_codegen_def
  add_structure_def add_simulate_def add_library_def add_compiled_def add_yosys_def add_command_def

text \<open>What a case names does not depend on its steps.\<close>

lemma names_of_case [simp]:
  "case_path (c\<lparr>steps := S\<rparr>) = case_path c" "place_path (c\<lparr>steps := S\<rparr>) = place_path c"
  by (simp_all add: fun_eq_iff case_path_def place_path_def split: place.split)

lemma arguments_of_case [simp]:
  "part_text h (c\<lparr>steps := S\<rparr>) = part_text h c" "place_source (c\<lparr>steps := S\<rparr>) = place_source c"
  "source_path (c\<lparr>steps := S\<rparr>) = source_path c" "import_options w (c\<lparr>steps := S\<rparr>) = import_options w c"
  by (simp_all add: fun_eq_iff part_text_def place_source_def source_path_def import_options_def split: part.split place.split source_file.split)

lemma items_of_case [simp]:
  "parts_text h (c\<lparr>steps := S\<rparr>) = parts_text h c" "item_argument h (c\<lparr>steps := S\<rparr>) = item_argument h c"
  by (simp_all add: fun_eq_iff parts_text_def item_argument_def split: item.split)

lemma apply_operation_steps:
  "steps (apply_operation h b c) = steps c @ new_steps h b c \<and> case_stage (apply_operation h b c) = case_stage c"
  by (cases b) (simp_all add: new_steps_def apply_operation_def appenders Let_def del: append.simps)

lemma only_commands:
  assumes "copied b = []"
  shows "new_steps h b c = map Command (commands_of (new_steps h b c))"
  using assms by (cases b) (simp_all add: new_steps_def apply_operation_def appenders commands_of_def copied_def Let_def del: append.simps)

lemma commands_spoil:
  "cmd \<in> set (commands_of (new_steps h b c)) \<Longrightarrow> may_empty cmd (case_path c n) \<Longrightarrow> n \<in> set (spoils b)"
  by (cases b) (auto simp: new_steps_def apply_operation_def appenders commands_of_def may_empty_def spoils_def plain_command_def Let_def
    simp del: append.simps split: if_splits)

lemma stage_names_iff: "n \<in> set (stage_names ps) \<longleftrightarrow> In_Stage n \<in> set ps"
  by (force simp: stage_names_def split: place.splits)

lemma commands_leave:
  "n \<in> set (produces b) \<Longrightarrow> list_ex (\<lambda>cmd. leaves cmd (case_path c n)) (commands_of (new_steps h b c))"
proof (cases b)
  case (Direct name argv products seconds)
  assume "n \<in> set (produces b)"
  then have "In_Stage n \<in> set products" by (simp add: produces_def Direct stage_names_iff)
  then have "place_path c (In_Stage n) \<in> place_path c ` set products" by blast
  then have "case_path c n \<in> place_path c ` set products" by (simp add: place_path_def)
  then show ?thesis
    by (simp add: Direct new_steps_def apply_operation_def add_command_def commands_of_def leaves_def)
qed (auto simp: new_steps_def apply_operation_def appenders commands_of_def leaves_def produces_def plain_command_def Let_def
    simp del: append.simps split: if_splits option.splits bool.splits)

lemma writer_supplies:
  assumes "writers_supply env" and "n \<in> set (fixture_wrappers expression)"
    and cmd: "cmd = (plain_command name (pre @ [''-eval'', expression, ''-extra'', case_stage c]))\<lparr>step_directories := ds\<rparr>"
  shows "supplied env cmd (case_path c n)"
proof -
  have plain: "mapE (resolve_argument env fs) (map Argument as) = Inr as" for fs as
    by (induction as) (simp_all add: resolve_argument_def)
  have "suffix [''-eval'', expression, ''-extra'', case_stage c] (pre @ [''-eval'', expression, ''-extra'', case_stage c])"
    by (simp add: suffix_def)
  with assms(1,2) show ?thesis
    unfolding cmd supplied_def writers_supply_def plain_command_def case_path_def
    by (auto simp: plain simp del: list.map map_append)
qed

lemma commands_supply:
  assumes env: "writers_supply env" and n: "n \<in> set (supplies b)"
  shows "list_ex (\<lambda>cmd. supplied env cmd (case_path c n)) (commands_of (new_steps h b c))"
proof -
  let ?pre = "[''erl'', ''-noshell'', ''-pa'', below (case_root c) ''_build/test/lib/erl_hls/ebin'',
      below (case_root c) ''_build/test/lib/hls_runtime/ebin'', below (case_root c) ''_build/test/lib/erl_hls/test'']"
  let ?cmd = "\<lambda>e. (plain_command ''fixtures'' (?pre @ [''-eval'', e, ''-extra'', case_stage c]))\<lparr>step_directories := [case_stage c]\<rparr>"
  show ?thesis
  proof (cases b)
    case (Generate m)
    have "supplied env (?cmd (write_expression m)) (case_path c n)"
      by (rule writer_supplies[OF env _ refl]) (use n in \<open>simp add: supplies_def Generate\<close>)
    moreover have "?cmd (write_expression m) \<in> set (commands_of (new_steps h b c))"
      by (simp add: new_steps_def apply_operation_def appenders commands_of_def write_expression_def Generate)
    ultimately show ?thesis unfolding list_ex_iff by blast
  next
    case (Fixture f place)
    have "supplied env (?cmd (suite_expression f place)) (case_path c n)"
      by (rule writer_supplies[OF env _ refl]) (use n in \<open>simp add: supplies_def Fixture\<close>)
    moreover have "?cmd (suite_expression f place) \<in> set (commands_of (new_steps h b c))"
      by (simp add: new_steps_def apply_operation_def appenders commands_of_def suite_expression_def Fixture)
    ultimately show ?thesis unfolding list_ex_iff by blast
  qed (use n in \<open>simp_all add: supplies_def\<close>)
qed

lemma copies_of_operation:
  assumes "copied b \<noteq> []"
  shows "\<exists>ds. new_steps h b c = map (\<lambda>(d, glob). Copy d glob (case_stage c)) ds \<and> map snd ds = copied b \<and>
    produces b = [] \<and> supplies b = []"
proof (cases b)
  case (Library ds)
  then show ?thesis
    by (intro exI[of _ "map (\<lambda>d. (below (case_root c) (''priv/xls/'' @ d), ''*.x'')) ds"])
      (simp add: new_steps_def apply_operation_def add_library_def copied_def produces_def supplies_def comp_def)
next
  case (Copy_File source glob)
  then show ?thesis
    by (intro exI[of _ "[(place_path c source, glob)]"]) (simp add: new_steps_def apply_operation_def copied_def produces_def supplies_def)
qed (use assms in \<open>simp_all add: copied_def\<close>)

lemma operation_files:
  assumes env: "tools_keep env" "globs_match env" "writers_supply env" and run: "passed env (case_stage c) (new_steps h b c) st st'" and g: "generated n"
    and source: "filled (run_files st) (case_path c n) \<or> n \<in> set (supplies b @ produces b)"
    and safe: "n \<notin> set (spoils b)" "\<not> list_ex (\<lambda>pat. glob_match pat n) (copied b)"
  shows "filled (run_files st') (case_path c n)"
proof (cases "copied b = []")
  case True
  let ?cmds = "commands_of (new_steps h b c)"
  have "passed env (case_stage c) (map Command ?cmds) st st'" using run only_commands[OF True] by metis
  moreover have "list_all (\<lambda>cmd. \<not> may_empty cmd (case_path c n)) ?cmds" using commands_spoil safe(1) by (fastforce simp: list_all_iff)
  moreover have "filled (run_files st) (case_path c n) \<or> 
      list_ex (\<lambda>cmd. leaves cmd (case_path c n) \<or> supplied env cmd (case_path c n)) ?cmds"
    using source commands_leave commands_supply[OF env(3)] unfolding list_ex_iff by fastforce
  ultimately show ?thesis by (rule commands_files[OF env(1) g])
next
  case False
  then obtain ds where ds: "new_steps h b c = map (\<lambda>(d, glob). Copy d glob (case_stage c)) ds" "map snd ds = copied b" "produces b = []" "supplies b = []"
    using copies_of_operation by blast
  have "list_all (\<lambda>(d, glob). \<not> glob_match glob n) ds"
    using safe(2) unfolding ds(2)[symmetric] by (auto simp: list_all_iff list_ex_iff)
  with copies_files[OF env(2)] run source show ?thesis by (simp add: ds(1,3,4))
qed

text \<open>
  After the operations before \<open>b\<close> all passed, every generated file that \<open>b\<close> names is there and not empty.
\<close>

lemma ready_sound:
  assumes env: "tools_keep env" "globs_match env" "writers_supply env"
  shows "ready made (pre @ b # post) \<Longrightarrow> list_all generated made \<Longrightarrow>
    passed env (case_stage c) (drop (length (steps c)) (steps (apply_operations h pre c))) st st' \<Longrightarrow>
    \<forall>n\<in>set made. filled (run_files st) (case_path c n) \<Longrightarrow> n \<in> set (mentions b) \<Longrightarrow> generated n \<Longrightarrow>
    filled (run_files st') (case_path c n)"
proof (induction pre arbitrary: made c st)
  case Nil
  then show ?case by (auto simp: apply_operations_def list_all_iff)
next
  case (Cons a pre)
  let ?c = "apply_operation h a c"
  have stage: "case_stage ?c = case_stage c" and path: "case_path ?c = case_path c" and new: "steps ?c = steps c @ new_steps h a c"
    by (simp_all add: apply_operation_steps case_path_def fun_eq_iff)
  have "\<exists>rest. steps (apply_operations h pre ?c) = steps ?c @ rest" for pre
    by (induction pre rule: rev_induct) (auto simp: apply_operations_def apply_operation_steps)
  then obtain rest where rest: "steps (apply_operations h pre ?c) = steps ?c @ rest" by blast
  have "passed env (case_stage c) (new_steps h a c @ rest) st st'"
    using Cons.prems(3) rest new by (simp add: apply_operations_def)
  then obtain u where u: "passed env (case_stage c) (new_steps h a c) st u" "passed env (case_stage c) rest u st'"
    using passed_append[THEN iffD1] by blast
  from Cons.prems(1) have r: "ready (supplies a @ produces a @ made) (pre @ b # post)"
    and safe: "\<forall>n\<in>set (made @ supplies a @ produces a). n \<notin> set (spoils a) \<and> \<not> list_ex (\<lambda>pat. glob_match pat n) (copied a)"
    by (simp_all add: list_all_iff)
  have g: "list_all generated (supplies a @ produces a @ made)" using Cons.prems(2) by (auto simp: produces_def supplies_def list_all_iff)
  have "filled (run_files u) (case_path c n)" if "n \<in> set (supplies a @ produces a @ made)" for n
    using that g safe Cons.prems(4) by (intro operation_files[OF env u(1)]) (auto simp: list_all_iff)
  moreover have "passed env (case_stage ?c) (drop (length (steps ?c)) (steps (apply_operations h pre ?c))) u st'"
    using u(2) rest stage by simp
  ultimately show ?case using Cons.IH[OF r g, of ?c u] Cons.prems(5,6) by (simp add: path)
qed

lemma generated_ends: "generated s \<Longrightarrow> last s \<in> {CHR ''r'', CHR ''v''}"
  by (auto simp: generated_def suffix_def)

lemma generated_opt [simp]: "generated (n @ ''.opt.ir'')"
  by (simp add: generated_def suffix_def)

lemma ready_vector_case:
  assumes "list_all (\<lambda>m. \<not> generated m) (stage_names (concat (map places_of_item ds)))"
  shows "ready [] (vector_case n m tb ds seconds)"
proof -
  have "\<not> generated (n @ ''.x'')" using generated_ends[of "n @ ''.x''"] by auto
  with assms show ?thesis
    by (auto simp: vector_case_def interpreted_def converted_def mentions_def produces_def supplies_def spoils_def copied_def stage_names_def
        bench_def rtl_file_def list_all_iff)
qed

lemma ready_row: "ready [] (shift_row row)"
proof -
  have "\<not> generated (n @ ''.mem'')" for n using generated_ends[of "n @ ''.mem''"] by auto
  then show ?thesis
    unfolding shift_row_def by (auto split: list.split intro!: ready_vector_case simp: quoted_define_def text_item_def places_of_item_def
        places_of_part_def stage_names_def)
qed

end
