(* ===== verification/Regression_Checked.thy ===== *)
theory Regression_Checked
  imports Regression_Ready
begin

text \<open>The analysis evaluated on every case of the catalogue.\<close>

lemma ready_source_context: "ready [] source_context" by code_simp

lemma ready_phase_values: "ready [] phase_values" by code_simp

lemma ready_entry_outcomes: "ready [] entry_outcomes" by code_simp

lemma ready_type_shapes: "ready [] type_shapes" by code_simp

lemma ready_pattern_cases: "ready [] pattern_cases" by code_simp

lemma ready_name_cases: "ready [] name_cases" by code_simp

lemma ready_integer_arithmetic: "ready [] integer_arithmetic" by code_simp

lemma ready_comparisons: "ready [] comparisons" by code_simp

lemma ready_serial_cases: "ready [] serial_cases" by code_simp

lemma ready_collection_cases: "ready [] collection_cases" by code_simp

lemma ready_helper_cases: "ready [] helper_cases" by code_simp

lemma ready_control_failures: "ready [] control_failures" by code_simp

lemma ready_float_arithmetic: "ready [] float_arithmetic" by code_simp

lemma ready_binary_cases: "ready [] binary_cases" by code_simp

lemma ready_application_frames: "ready [] application_frames" by code_simp

lemma ready_direct_actor_codegen: "ready [] direct_actor_codegen" by code_simp

lemma ready_direct_admission: "ready [] direct_admission" by code_simp

lemma ready_initialization: "ready [] initialization" by code_simp

lemma ready_deferred_replies: "ready [] deferred_replies" by code_simp

lemma ready_service_contracts: "ready [] service_contracts" by code_simp

lemma ready_logical_types: "ready [] logical_types" by code_simp

lemma ready_reduction_dslx: "ready [] reduction_dslx" by code_simp

lemma ready_statem_gathers: "ready [] statem_gathers" by code_simp

lemma ready_statem_replies: "ready [] statem_replies" by code_simp

lemma ready_selection_equivalence: "ready [] selection_equivalence" by code_simp

lemma ready_state_updates: "ready [] state_updates" by code_simp

lemma ready_telemetry: "ready [] telemetry" by code_simp

lemma ready_placements: "ready [] (placement_case ''direct'')" "ready [] (placement_case ''ingress_direct'')"
  by code_simp+

lemmas all_ready = ready_source_context ready_phase_values ready_entry_outcomes ready_type_shapes ready_pattern_cases ready_name_cases ready_integer_arithmetic ready_comparisons ready_serial_cases ready_collection_cases ready_helper_cases ready_control_failures ready_float_arithmetic ready_binary_cases ready_application_frames ready_direct_actor_codegen ready_direct_admission ready_initialization ready_deferred_replies ready_service_contracts ready_logical_types ready_reduction_dslx ready_statem_gathers ready_statem_replies ready_selection_equivalence ready_state_updates ready_telemetry

lemma catalogue_ready: "(name, bs) \<in> set catalogue \<Longrightarrow> ready [] bs"
  unfolding catalogue_def by (auto simp only: set_simps insert_iff empty_iff prod.inject all_ready)

lemma catalogue_names: "distinct (map fst catalogue) \<and> ''integer_shifts'' \<notin> fst ` set catalogue \<and> ''mixed_topology'' \<notin> fst ` set catalogue"
  by (simp add: catalogue_def)

lemma here_operations: "fold (apply_recipe h) (map Here bs) c = apply_operations h bs c"
  by (induction bs arbitrary: c) (simp_all add: apply_operations_def apply_recipe_def)

lemma build_catalogued:
  assumes "(name, bs) \<in> set catalogue"
  shows "build_case h name c = Some (apply_operations h bs c)"
proof -
  have "map_of catalogue name = Some bs" using assms catalogue_names by simp
  moreover have "name \<noteq> ''integer_shifts''" "name \<noteq> ''mixed_topology''" using assms catalogue_names by force+
  ultimately show ?thesis by (simp add: build_case_def recipe_of_def here_operations)
qed

end
