(* ===== verification/Regression_Properties.thy ===== *)
theory Regression_Properties
  imports Regression_Run Regression_Checked
begin

text \<open>
  The properties of the regression tools: the selection is exact and never misses a consumer, the plan
  of the integration keeps its base checks, and the receipts of a run tell what happened.
\<close>

section \<open>Selection\<close>

lemma select_path_set:
  "set (select_path table chosen path) = set chosen \<union>
     (if documentation path then {} else if consumers table path = [] then fst ` set (cases table)
      else set (consumers table path))"
  by (simp add: select_path_def)

lemma select_fold_set:
  "set (foldl (select_path table) chosen paths) = set chosen \<union>
     {n. \<exists>p\<in>set paths. \<not> documentation p \<and>
       (if consumers table p = [] then n \<in> fst ` set (cases table) else n \<in> set (consumers table p))}"
  by (induction paths arbitrary: chosen) (auto simp: select_path_set)

lemma consumers_iff: "n \<in> set (consumers table p) \<longleftrightarrow> (\<exists>c. (n, c) \<in> set (cases table) \<and> p \<in> set (dependencies c))"
  by (force simp: consumers_def)

text \<open>
  C31. Selection is exact: a case of the requested groups is selected precisely when the whole suite is asked
  for, the history is unknown, or some changed path that is no passive documentation is one of its declared
  dependencies or is declared by no case at all. The names come sorted and once each.
\<close>

theorem select_cases_exact:
  assumes "select_cases paths table gs full = Inr names"
  shows "sorted names \<and> distinct names \<and>
    (name \<in> set names \<longleftrightarrow> in_groups table gs name \<and> name \<in> fst ` set (cases table) \<and>
       (full \<or> (case paths of None \<Rightarrow> True | Some ps \<Rightarrow> list_ex (\<lambda>p. \<not> documentation p \<and>
          ((\<exists>c. (name, c) \<in> set (cases table) \<and> p \<in> set (dependencies c)) \<or>
           \<not> (\<exists>(n, c)\<in>set (cases table). p \<in> set (dependencies c)))) ps)))"
proof -
  have none: "consumers table p = [] \<longleftrightarrow> \<not> (\<exists>(n, c)\<in>set (cases table). p \<in> set (dependencies c))" for p
    by (auto simp: consumers_def filter_empty_conv)
  have keys: "n \<in> set (consumers table p) \<Longrightarrow> n \<in> fst ` set (cases table)" for n p
    by (force simp: consumers_iff)
  from assms have "names = sort (filter (in_groups table gs) (uniq (foldl (select_path table)
      (if full \<or> paths = None then map fst (cases table) else []) (case paths of None \<Rightarrow> [] | Some ps \<Rightarrow> ps))))"
    by (auto simp: select_cases_def bindE_Inr Let_def)
  then show ?thesis
    unfolding consumers_iff[symmetric] none[symmetric]
    by (auto simp: select_fold_set list_ex_iff keys split: option.splits if_splits)
qed

definition demo_inventory :: inventory where
  "demo_inventory = \<lparr>groups = [''test'', ''rtl''], cases =
     [(''fifo'', \<lparr>case_group = Some ''rtl'', default_stage = ''_build/fifo'', dependencies = [''test/fifo.erl'']\<rparr>),
      (''ram'', \<lparr>case_group = None, default_stage = ''_build/ram'', dependencies = []\<rparr>)]\<rparr>"

theorem select_cases_exact_witness:
  "select_cases (Some [''README.md'', ''test/fifo.erl'']) demo_inventory None False = Inr [''fifo''] \<and>
   select_cases (Some [''src/a.erl'']) demo_inventory None False = Inr [''fifo'', ''ram''] \<and>
   sorted [''fifo'', ''ram''] \<and> \<not> (''ram'' \<in> set [''fifo''])"
proof -
  have run: "select_cases (Some [''README.md'', ''test/fifo.erl'']) demo_inventory None False = Inr [''fifo'']"
    "select_cases (Some [''src/a.erl'']) demo_inventory None False = Inr [''fifo'', ''ram'']"
    by code_simp+
  with select_cases_exact[OF run(1), of "''ram''"] select_cases_exact[OF run(2)] show ?thesis by simp
qed

lemma load_case_Inr:
  assumes "load_case known row = Inr (n, c)"
  shows "list_all dependency_ok (dependencies c)" and "n = fst row"
  using assms by (auto simp: load_case_def bindE_Inr list_all_iff split: prod.splits)

lemma load_inventory_dependencies:
  assumes "load_inventory v = Inr table" and "(n, c) \<in> set (cases table)"
  shows "list_all dependency_ok (dependencies c)"
proof -
  obtain gs kvs infos where "mapE (load_case gs) kvs = Inr infos" "cases table = infos"
    using assms(1) by (auto simp: load_inventory_def bindE_Inr)
  with assms(2) obtain row where "load_case gs row = Inr (n, c)"
    using mapE_member by metis
  then show ?thesis by (rule load_case_Inr)
qed

text \<open>
  C4. No declared consumer is ever missed: in an inventory that loads, a changed path that a case declares
  as a dependency selects that case, since a declared dependency is never taken for documentation.
\<close>

theorem consumers_never_missed:
  assumes "load_inventory v = Inr table" and "(name, c) \<in> set (cases table)" and "path \<in> set (dependencies c)"
    and "path \<in> set paths" and "select_cases (Some paths) table None full = Inr names"
  shows "name \<in> set names"
proof -
  have "\<not> documentation path"
    using load_inventory_dependencies[OF assms(1,2)] assms(3) by (auto simp: list_all_iff dependency_ok_def)
  moreover have "name \<in> set (consumers table path)" using assms(2,3) by (auto simp: consumers_iff)
  moreover from this have "consumers table path \<noteq> []" by auto
  moreover from assms(5) have "set names = set (foldl (select_path table) (if full then map fst (cases table) else []) paths)"
    by (auto simp: select_cases_def bindE_Inr Let_def in_groups_def)
  ultimately show ?thesis using assms(4) by (auto simp: select_fold_set)
qed

definition demo_json :: json where
  "demo_json = JObj [(''version'', JInt 1), (''groups'', JArr [JStr ''test'', JStr ''rtl'']), (''cases'', JObj
     [(''fifo'', JObj [(''group'', JStr ''rtl''), (''default_stage'', JStr ''_build/fifo''),
        (''dependencies'', JArr [JStr ''test/fifo.erl''])]),
      (''ram'', JObj [(''group'', JNull), (''default_stage'', JStr ''_build/ram''), (''dependencies'', JArr [])])])]"

theorem consumers_never_missed_witness:
  "load_inventory demo_json = Inr demo_inventory \<and> ''fifo'' \<in> set [''fifo'']"
proof -
  have load: "load_inventory demo_json = Inr demo_inventory" by code_simp
  have run: "select_cases (Some [''test/fifo.erl'']) demo_inventory None False = Inr [''fifo'']" by code_simp
  have "(''fifo'', \<lparr>case_group = Some ''rtl'', default_stage = ''_build/fifo'', dependencies = [''test/fifo.erl'']\<rparr>)
      \<in> set (cases demo_inventory)"
    by (simp add: demo_inventory_def)
  from consumers_never_missed[OF load this _ _ run, of "''test/fifo.erl''"] load show ?thesis by simp
qed

text \<open>
  The plan keeps the base checks: whenever the history is unknown, the run is manual, or anything but
  documentation changed, \<open>test\<close> and \<open>qualify\<close> are selected, whatever the groups are called.
\<close>

theorem ci_plan_keeps_base:
  assumes "ci_plan paths table manual = Inr plan"
    and "manual \<or> paths = None \<or> (case paths of None \<Rightarrow> False | Some ps \<Rightarrow> list_ex (\<lambda>p. \<not> documentation p) ps)"
  shows "map_of plan ''test'' = Some (JBool True) \<and> map_of plan ''qualify'' = Some (JBool True)"
proof -
  obtain names where plan: "plan = foldl (\<lambda>d g. AList.update (g @ ''_cases'') (JArr (map JStr (names_in table names g))) d)
      (AList.update ''qualify'' (JBool (list_ex snd (AList.update ''test'' True (map (\<lambda>g. (g, names_in table names g \<noteq> [])) (groups table)))))
        (map (\<lambda>(g, b). (g, JBool b)) (AList.update ''test'' True (map (\<lambda>g. (g, names_in table names g \<noteq> [])) (groups table)))))
      (groups table)"
    using assms by (auto simp: ci_plan_def bindE_Inr Let_def split: option.splits)
  have keep: "map_of (foldl (\<lambda>d g. AList.update (g @ ''_cases'') (f g) d) d gs) k = map_of d k"
    if "\<And>g. k \<noteq> g @ ''_cases''" for f gs k and d :: "(string, json) dict"
    using that by (induction gs arbitrary: d) (auto simp: update_conv')
  have last_differs: "''test'' \<noteq> g @ ''_cases''" "''qualify'' \<noteq> g @ ''_cases''" for g
    by (auto dest!: arg_cong[of _ _ last])
  have mapped: "map_of (map (\<lambda>(g, b). (g, JBool b)) xs) k = map_option JBool (map_of xs k)" for xs k
    by (induction xs) auto
  have "list_ex snd (AList.update k True xs)" for k xs
    by (induction xs) auto
  then show ?thesis
    unfolding plan keep[OF last_differs(1)] keep[OF last_differs(2)]
    by (simp add: update_conv' mapped)
qed

theorem ci_plan_keeps_base_witness:
  "\<exists>plan. ci_plan (Some [''README.md'', ''src/a.erl'']) demo_inventory False = Inr plan \<and>
     map_of plan ''test'' = Some (JBool True) \<and> map_of plan ''qualify'' = Some (JBool True)"
proof -
  have "case ci_plan (Some [''README.md'', ''src/a.erl'']) demo_inventory False of Inl _ \<Rightarrow> False | Inr _ \<Rightarrow> True"
    by code_simp
  then obtain plan where plan: "ci_plan (Some [''README.md'', ''src/a.erl'']) demo_inventory False = Inr plan"
    by (auto split: sum.splits)
  have "list_ex (\<lambda>p. \<not> documentation p) [''README.md'', ''src/a.erl'']" by code_simp
  with ci_plan_keeps_base[OF plan] plan show ?thesis by simp
qed

section \<open>Construction\<close>

lemma hoist_compile_shape:
  assumes "filter is_beam_compile (concat (map (steps \<circ> snd) cs)) = b # bs"
  obtains n c rest where "hoist_compile cs = (n, c\<lparr>steps := b # filter (\<lambda>s. \<not> is_beam_compile s) (steps c)\<rparr>) #
      map (\<lambda>(n, c). (n, c\<lparr>steps := filter (\<lambda>s. \<not> is_beam_compile s) (steps c)\<rparr>)) rest" and "cs = (n, c) # rest"
proof (cases cs)
  case Nil
  with assms show ?thesis by simp
next
  case (Cons row rest)
  obtain n c where "row = (n, c)" by fastforce
  with assms Cons that show ?thesis by (auto simp: hoist_compile_def split: list.splits)
qed

text \<open>
  The test BEAMs are compiled once: if any selected case asks for it, the first step of the first case
  is that command and no other step is; every case keeps its name and all its other steps in order.
\<close>

theorem beam_compile_once:
  assumes "list_ex is_beam_compile (concat (map (steps \<circ> snd) cs))"
  shows "\<exists>b rest. concat (map (steps \<circ> snd) (hoist_compile cs)) = b # rest \<and> is_beam_compile b \<and>
    list_all (\<lambda>s. \<not> is_beam_compile s) rest \<and>
    map (\<lambda>(n, c). (n, filter (\<lambda>s. \<not> is_beam_compile s) (steps c))) (hoist_compile cs) =
      map (\<lambda>(n, c). (n, filter (\<lambda>s. \<not> is_beam_compile s) (steps c))) cs"
proof -
  let ?rest = "\<lambda>c. filter (\<lambda>s. \<not> is_beam_compile s) (steps c)"
  obtain b bs where b: "filter is_beam_compile (concat (map (steps \<circ> snd) cs)) = b # bs"
    using assms by (metis filter_empty_conv list.exhaust list_ex_iff)
  then have comp: "is_beam_compile b"
    by (metis filter_eq_ConsD)
  obtain n c rest where h: "hoist_compile cs = (n, c\<lparr>steps := b # ?rest c\<rparr>) #
      map (\<lambda>(n, c). (n, c\<lparr>steps := ?rest c\<rparr>)) rest" and cs: "cs = (n, c) # rest"
    by (rule hoist_compile_shape[OF b])
  have "concat (map (steps \<circ> snd) (hoist_compile cs)) =
      b # ?rest c @ concat (map (steps \<circ> snd) (map (\<lambda>(n, c). (n, c\<lparr>steps := ?rest c\<rparr>)) rest))"
    by (simp add: h)
  moreover have "list_all (\<lambda>s. \<not> is_beam_compile s)
      (?rest c @ concat (map (steps \<circ> snd) (map (\<lambda>(n, c). (n, c\<lparr>steps := ?rest c\<rparr>)) rest)))"
    by (auto simp: list_all_iff)
  moreover have "map (\<lambda>(n, c). (n, ?rest c)) (hoist_compile cs) = map (\<lambda>(n, c). (n, ?rest c)) cs"
    using comp unfolding h by (simp add: cs case_prod_unfold)
  ultimately show ?thesis using comp by blast
qed

definition two_cases :: "(string \<times> regression_case) list" where
  "two_cases = map (\<lambda>n. (n, add_generate n (new_case ''/r'' ''/x'' (''/s/'' @ n) []))) [''a'', ''b'']"

theorem beam_compile_once_witness:
  "\<exists>b rest. concat (map (steps \<circ> snd) (hoist_compile two_cases)) = b # rest \<and> is_beam_compile b \<and>
    list_all (\<lambda>s. \<not> is_beam_compile s) rest"
proof -
  have "list_ex is_beam_compile (concat (map (steps \<circ> snd) two_cases))"
    by (simp add: two_cases_def add_generate_def add_compile_def add_command_def add_erl_def is_beam_compile_def
        new_case_def plain_command_def)
  from beam_compile_once[OF this] show ?thesis by blast
qed

section \<open>Receipts\<close>

text \<open>No row is left running, only the last can have failed, and a failed row is a failed case.\<close>

definition receipts_ok :: "run_state \<Rightarrow> bool" where
  "receipts_ok st \<longleftrightarrow>
     list_all (\<lambda>(_, s). s = Passed) (butlast (receipts st)) \<and>
     (receipts st \<noteq> [] \<longrightarrow> snd (last (receipts st)) \<in> {Passed, Failed}) \<and>
     (failure st = None \<longrightarrow> list_all (\<lambda>(_, s). s = Passed) (receipts st))"

lemma with_row_ok: "receipts_ok st \<Longrightarrow> receipts_ok (with_row label body st)"
  by (auto simp: with_row_def receipts_ok_def Let_def split: prod.splits sum.splits)

lemma failed_ok: "receipts_ok st \<Longrightarrow> receipts_ok (st\<lparr>failure := Some e\<rparr>)"
  by (auto simp: receipts_ok_def)

lemma foldl_ok: "receipts_ok st \<Longrightarrow> (\<And>st x. receipts_ok st \<Longrightarrow> receipts_ok (f st x)) \<Longrightarrow> receipts_ok (foldl f st xs)"
  by (induction xs arbitrary: st) auto

lemma exec_command_ok: "receipts_ok st \<Longrightarrow> receipts_ok (exec_command env place st c)"
  unfolding exec_command_def by (rule with_row_ok)

lemma exec_line_ok: "receipts_ok st \<Longrightarrow> receipts_ok (exec_line env place source columns expand st l)"
  by (simp add: exec_line_def Let_def failed_ok foldl_ok exec_command_ok)

lemma exec_step_ok: "receipts_ok st \<Longrightarrow> receipts_ok (exec_step env place st s)"
  by (cases s)
    (auto simp: exec_step_def exec_command_ok with_row_ok failed_ok foldl_ok exec_line_ok split: sum.splits)

text \<open>
  C34. The receipts of a case: it is passed exactly when no step failed, and then all its rows are passed;
  otherwise every row but the last is passed, the last is passed or failed, and none is left running.
\<close>

theorem receipts_tell_what_happened:
  "Running \<notin> snd ` set (receipts (run_steps env c fs)) \<and>
   (if case_status (run_steps env c fs) = Passed
    then failure (run_steps env c fs) = None \<and> list_all (\<lambda>(_, s). s = Passed) (receipts (run_steps env c fs))
    else failure (run_steps env c fs) \<noteq> None \<and> list_all (\<lambda>(_, s). s = Passed) (butlast (receipts (run_steps env c fs))))"
proof -
  let ?st = "run_steps env c fs"
  have "receipts_ok \<lparr>receipts = [], run_files = fs, failure = None\<rparr>" by (simp add: receipts_ok_def)
  then have ok: "receipts_ok ?st"
    unfolding run_steps_def by (rule foldl_ok) (rule exec_step_ok)
  moreover have "Running \<notin> snd ` set (receipts ?st)"
  proof (cases "receipts ?st = []")
    case False
    then have "set (receipts ?st) = insert (last (receipts ?st)) (set (butlast (receipts ?st)))"
      by (metis append_butlast_last_id list.set(1,2) set_append Un_insert_right sup_bot.right_neutral)
    with ok False show ?thesis by (auto simp: receipts_ok_def list_all_iff)
  qed simp
  ultimately show ?thesis by (auto simp: case_status_def receipts_ok_def)
qed

text \<open>
  What a passed command has shown: its generated arguments were single scalars; the tool exited as
  demanded, with success or with a positive status and the expected diagnostic, and printed something if
  required; every product is there and not empty; and its output holds the completion witness.
\<close>

theorem command_passes_iff:
  "fst (run_command env place index c fs) = Inr u \<longleftrightarrow>
     (\<exists>argv p fs' code out. mapE (resolve_argument env fs) (step_argv c) = Inr argv \<and> acts env index argv fs = (p, fs') \<and>
        out = (case step_stdout c of None \<Rightarrow> below (log_directory place index (step_name c)) ''stdout.log'' | Some q \<Rightarrow> q) \<and>
        wait_result p = Exited code \<and>
        (case step_rejection c of None \<Rightarrow> code = 0
         | Some pattern \<Rightarrow> 0 < code \<and> occurs env pattern (stderr_bytes p @ stdout_bytes p)) \<and>
        (if step_nonempty c then stdout_bytes p \<noteq> [] else True) \<and>
        list_all (\<lambda>q. \<exists>bytes. (fs'(out \<mapsto> stdout_bytes p)) q = Some bytes \<and> bytes \<noteq> []) (step_products c) \<and>
        (case step_completion c of None \<Rightarrow> True | Some w \<Rightarrow> sublist w (stdout_bytes p)))"
proof (cases "mapE (resolve_argument env fs) (step_argv c)")
  case (Inr argv)
  obtain p fs' where act: "acts env index argv fs = (p, fs')" by fastforce
  define out where "out = (case step_stdout c of None \<Rightarrow> below (log_directory place index (step_name c)) ''stdout.log'' | Some q \<Rightarrow> q)"
  have tool: "(case run_tool p (\<not> step_nonempty c) (map_option (occurs env) (step_rejection c)) of
      Inl e \<Rightarrow> Inl (Tool_Error e) | Inr u \<Rightarrow> Inr u) = Inr v \<longleftrightarrow>
    (\<exists>code. wait_result p = Exited code \<and>
       (case step_rejection c of None \<Rightarrow> code = 0 | Some pattern \<Rightarrow> 0 < code \<and> occurs env pattern (stderr_bytes p @ stdout_bytes p)) \<and>
       (\<not> step_nonempty c \<or> stdout_bytes p \<noteq> []))" for v
  proof -
    have "(case m of Inl e \<Rightarrow> Inl (Tool_Error e) | Inr u \<Rightarrow> Inr u) = Inr v \<longleftrightarrow> m = Inr ()" for m :: "(build_error, unit) result"
      by (cases m) simp_all
    then show ?thesis
      by (cases "step_rejection c") (simp_all add: run_tool_iff)
  qed
  have products: "checkE (\<lambda>q. case gs q of None \<Rightarrow> Inl (Missing_Product q)
      | Some bytes \<Rightarrow> ensure (bytes \<noteq> []) (Missing_Product q)) qs = Inr v \<longleftrightarrow>
    list_all (\<lambda>q. \<exists>bytes. gs q = Some bytes \<and> bytes \<noteq> []) qs" for gs qs v
    by (auto simp: list_all_iff split: option.splits)
  have witness: "(case x of None \<Rightarrow> Inr () | Some w \<Rightarrow> ensure (P w) (Missing_Witness w)) = Inr v \<longleftrightarrow>
      (case x of None \<Rightarrow> True | Some w \<Rightarrow> P w)" for x P v
    by (cases x) simp_all
  have "fst (run_command env place index c fs) = Inr u \<longleftrightarrow> (\<exists>code. wait_result p = Exited code \<and>
       (case step_rejection c of None \<Rightarrow> code = 0 | Some pattern \<Rightarrow> 0 < code \<and> occurs env pattern (stderr_bytes p @ stdout_bytes p)) \<and>
       (\<not> step_nonempty c \<or> stdout_bytes p \<noteq> [])) \<and>
     list_all (\<lambda>q. \<exists>bytes. (fs'(out \<mapsto> stdout_bytes p)) q = Some bytes \<and> bytes \<noteq> []) (step_products c) \<and>
     (case step_completion c of None \<Rightarrow> True | Some w \<Rightarrow> sublist w (stdout_bytes p))"
    unfolding run_command_def Inr sum.case Let_def act prod.case fst_conv bindE_Inr out_def[symmetric] tool products witness
    by simp
  note outcome = this
  show ?thesis
    unfolding outcome Inr out_def[symmetric] by (simp add: act) blast
qed (simp add: run_command_def)

section \<open>Cases\<close>

text \<open>
  C18. Every case builds its steps from its operations, and in every case, every case of a placement and every row of the
  table of shifts, the optimized IR and every Verilog file below the stage that an operation names, wrappers included,
  are there and not empty when it starts: they were left by operations that passed before. The assumptions on the outside:
  tools never empty or remove a file that was filled, patterns match what they say, and an Erlang fixture writer that
  exits with 0 has written the wrappers its source names (\<open>fixture_wrappers\<close>); no assumption supplies any other file.
\<close>

theorem generated_inputs_present:
  assumes "tools_keep env" and "globs_match env" and "writers_supply env"
    and "(name, bs) \<in> set catalogue \<or> bs \<in> set (map placement_case [''direct'', ''ingress_direct'']) \<or> bs \<in> range shift_row"
    and "bs = pre @ b # post"
    and "passed env (case_stage c) (drop (length (steps c)) (steps (apply_operations h pre c))) st st'"
    and "n \<in> set (mentions b)" and "generated n"
  shows "(\<exists>bytes. run_files st' (case_path c n) = Some bytes \<and> bytes \<noteq> []) \<and>
    ((name, bs) \<in> set catalogue \<longrightarrow> build_case h name c = Some (apply_operations h bs c))"
proof -
  have "ready [] bs" using assms(4) catalogue_ready ready_placements ready_row by auto
  then have "filled (run_files st') (case_path c n)"
    using ready_sound[OF assms(1-3), of "[]" pre b post c h st st' n] assms(5-8) by simp
  then show ?thesis using build_catalogued by (auto simp: filled_def)
qed

text \<open>Tools that succeed and print one character; a fixture writer writes its wrappers as well.\<close>

definition echo_files :: "string list \<Rightarrow> string list" where
  "echo_files argv = (case rev argv of
       place # extra # expression # eval # _ \<Rightarrow> map (below place) (fixture_wrappers expression)
     | _ \<Rightarrow> [])"

definition echo_tools :: surroundings where
  "echo_tools = \<lparr>acts = (\<lambda>_ argv fs. (\<lparr>wait_result = Exited 0, stdout_bytes = ''x'', stderr_bytes = [], time_bytes = []\<rparr>,
       \<lambda>q. if q \<in> set (echo_files argv) then Some ''x'' else fs q)), finds = (\<lambda>_ _ _. []),
     occurs = (\<lambda>_ _. False), stripped = (\<lambda>s. s), lines_of = (\<lambda>s. [s]), words_of = (\<lambda>s. [s])\<rparr>"

definition plain_host :: host where
  "plain_host = \<lparr>environ = (\<lambda>_. None), interpreter = ''python3''\<rparr>"

lemma echo_writes: "writers_supply echo_tools"
proof -
  have "below place n \<in> set (echo_files argv)"
    if "n \<in> set (fixture_wrappers expression)" "suffix [''-eval'', expression, ''-extra'', place] argv" for expression place argv n
    using that by (auto simp: suffix_def echo_files_def)
  then show ?thesis by (simp add: writers_supply_def echo_tools_def filled_def)
qed

theorem generated_inputs_present_witness:
  "run_files (foldl (exec_step echo_tools ''/s'') \<lparr>receipts = [], run_files = (\<lambda>_. None), failure = None\<rparr>
     (steps (apply_operations plain_host (take 3 (placement_case ''direct'')) (new_case ''/r'' ''/x'' ''/s'' []))))
     ''/s/mixed_topology_wrapper.v'' = Some ''x''"
proof -
  let ?bs = "placement_case ''direct''" and ?c = "new_case ''/r'' ''/x'' ''/s'' []"
  let ?st = "foldl (exec_step echo_tools ''/s'') \<lparr>receipts = [], run_files = (\<lambda>_. None), failure = None\<rparr>
     (steps (apply_operations plain_host (take 3 ?bs) ?c))"
  have env: "tools_keep echo_tools" "globs_match echo_tools"
    by (simp_all add: tools_keep_def globs_match_def echo_tools_def filled_def)
  have parts: "?bs = take 3 ?bs @ (?bs ! 3) # drop 4 ?bs" by code_simp
  have run: "passed echo_tools (case_stage ?c) (drop (length (steps ?c)) (steps (apply_operations plain_host (take 3 ?bs) ?c)))
      \<lparr>receipts = [], run_files = (\<lambda>_. None), failure = None\<rparr> ?st"
  proof -
    have "failure ?st = None" by code_simp
    then show ?thesis by (simp add: passed_def new_case_def)
  qed
  have named: "''mixed_topology_wrapper.v'' \<in> set (mentions (?bs ! 3))" by code_simp
  have gen: "generated ''mixed_topology_wrapper.v''" by code_simp
  have "?bs \<in> set (map placement_case [''direct'', ''ingress_direct''])" by simp
  then have "\<exists>bytes. run_files ?st (case_path ?c ''mixed_topology_wrapper.v'') = Some bytes \<and> bytes \<noteq> []"
    using generated_inputs_present[OF env echo_writes _ parts run named gen, of "[]"] by blast
  moreover have "case_path ?c ''mixed_topology_wrapper.v'' = ''/s/mixed_topology_wrapper.v''"
    by (simp add: case_path_def below_def new_case_def)
  moreover have "run_files ?st ''/s/mixed_topology_wrapper.v'' = Some ''x''" by code_simp
  ultimately show ?thesis by blast
qed

end
