(* ===== verification/Topo_Netlist.thy ===== *)
theory Topo_Netlist
  imports Prelude
begin

text \<open>
  Elaborated netlists as the debug tools read them (\<open>tools/erl_hls_tools/topology_debug.py\<close>): the
  decoded JSON Yosys writes, with its modules, ports, cells, net names and memories, the handshake
  pairs of a module, the walk over the instances below a top module and the lookup of a probe in
  the flattened design. Dictionaries keep the order of the document; the attributes the tools never
  read are left out, and a cell or module always has its (possibly empty) dictionaries.
\<close>

section \<open>Data\<close>

text \<open>A bit of a net is a number, or one of the constant strings \<open>0\<close>, \<open>1\<close>, \<open>x\<close> and \<open>z\<close>.\<close>

datatype bit = Net nat | Constant string

record port =
  direction :: string
  port_bits :: "bit list"

record cell =
  cell_type :: string
  parameters :: "(string, string) dict"
  connections :: "(string, bit list) dict"

record memory =
  memory_width :: int
  memory_size :: int
  start_offset :: int
  memory_attributes :: "(string, string) dict"

record module =
  ports :: "(string, port) dict"
  cells :: "(string, cell) dict"
  netnames :: "(string, bit list) dict"
  memories :: "(string, memory) dict"
  hdlname :: string

type_synonym hierarchy = "(string, module) dict"

text \<open>A \<open>ValueError\<close> with its message; a missing key or a number that cannot be read otherwise.\<close>

datatype topology_error = Rejected string | Recursive_Hierarchy "string list" | Missing_Key | Bad_Number

definition lookup :: "(string, 'a) dict \<Rightarrow> string \<Rightarrow> (topology_error, 'a) result" where
  "lookup d k = (case map_of d k of None \<Rightarrow> Inl Missing_Key | Some v \<Rightarrow> Inr v)"

lemma lookup_Inr [result_simps, simp]: "lookup d k = Inr v \<longleftrightarrow> map_of d k = Some v"
  by (simp add: lookup_def split: option.split)

text \<open>\<open>int(s, 2)\<close> on the binary digits of a Yosys parameter.\<close>

definition binary_number :: "string \<Rightarrow> (topology_error, nat) result" where
  "binary_number s = (if s \<noteq> [] \<and> list_all (\<lambda>c. c = CHR ''0'' \<or> c = CHR ''1'') s
     then Inr (foldl (\<lambda>n c. 2 * n + (if c = CHR ''1'' then 1 else 0)) 0 s) else Inl Bad_Number)"

section \<open>Handshakes of a module\<close>

definition port_pairs :: "(string \<times> string) list" where
  "port_pairs = [(''_vld'', ''_rdy''), (''_valid'', ''_ready''), (''_tvalid'', ''_tready'')]"

record handshake =
  stem :: string
  valid_name :: string
  ready_name :: string
  valid_direction :: string

definition channel_port ::
  "(string, port) dict \<Rightarrow> string \<times> port \<Rightarrow> (topology_error, handshake list) result" where
  "channel_port ps np = (let (name, v) = np in
     case List.find (\<lambda>(vs, _). suffix vs name) port_pairs of
       None \<Rightarrow> Inr []
     | Some (vs, rs) \<Rightarrow>
         let st = take (length name - length vs) name; rn = st @ rs in
         (case map_of ps rn of
            None \<Rightarrow> Inl (Rejected (''missing ready port for '' @ name))
          | Some r \<Rightarrow>
              bindE (ensure (\<not> (length (port_bits v) \<noteq> 1 \<or> length (port_bits r) \<noteq> 1))
                (Rejected (''handshake must be one bit: '' @ st))) (\<lambda>_.
              bindE (ensure ({direction v, direction r} = {''input'', ''output''})
                (Rejected (''handshake directions disagree: '' @ st))) (\<lambda>_.
              Inr [\<lparr>stem = st, valid_name = name, ready_name = rn, valid_direction = direction v\<rparr>]))))"

definition channel_ports :: "module \<Rightarrow> (topology_error, handshake list) result" where
  "channel_ports m = bindE (mapE (channel_port (ports m)) (sort_key fst (ports m))) (\<lambda>hs. Inr (concat hs))"

section \<open>Instances\<close>

text \<open>
  The generator \<open>descendants\<close> as the list of what it yields, an error as its last useful item: the
  loops over it stop there. An instance is its path, module name and module.
\<close>

type_synonym inst = "string list \<times> string \<times> module"

lemma ancestors_decrease:
  assumes "name \<notin> set ancestors" and "map_of mods name = Some m"
  shows "card (fst ` set mods - set (ancestors @ [name])) < card (fst ` set mods - set ancestors)"
proof (rule psubset_card_mono)
  have "name \<in> fst ` set mods" using assms(2) by (force dest: map_of_SomeD)
  with assms(1) show "fst ` set mods - set (ancestors @ [name]) \<subset> fst ` set mods - set ancestors" by auto
qed simp

function walk ::
  "hierarchy \<Rightarrow> string \<Rightarrow> string list \<Rightarrow> string list \<Rightarrow> (topology_error, inst) result list" where
  "walk mods name path ancestors =
     (if name \<in> set ancestors then [Inl (Recursive_Hierarchy path)]
      else case map_of mods name of
        None \<Rightarrow> [Inl Missing_Key]
      | Some m \<Rightarrow> Inr (path, name, m) #
          concat (map (\<lambda>(inst, c). if cell_type c \<in> fst ` set mods
            then walk mods (cell_type c) (path @ [inst]) (ancestors @ [name]) else [])
            (sort_key fst (cells m))))"
  by pat_completeness auto

termination
  by (relation "measure (\<lambda>(mods, _, _, ancestors). card (fst ` set mods - set ancestors))")
    (use ancestors_decrease in auto)

declare walk.simps [simp del]

definition descendants :: "hierarchy \<Rightarrow> string \<Rightarrow> (topology_error, inst) result list" where
  "descendants mods top_name = walk mods top_name [] []"

definition hierarchical :: "string list \<Rightarrow> string \<Rightarrow> string" where
  "hierarchical path name = join_on (CHR ''.'') (path @ [name])"

definition flat_bit :: "module \<Rightarrow> string list \<Rightarrow> string \<Rightarrow> (topology_error, bit) result" where
  "flat_bit flat path name = (let key = hierarchical path name in
     case map_of (netnames flat) key of
       None \<Rightarrow> Inl (Rejected (''flattening lost probe '' @ key))
     | Some bs \<Rightarrow> (case bs of [b] \<Rightarrow> Inr b
         | _ \<Rightarrow> Inl (Rejected (''probe '' @ key @ '' has width '' @ show_nat (length bs)))))"

definition flat_bits :: "module \<Rightarrow> string list \<Rightarrow> string \<Rightarrow> (topology_error, bit list) result" where
  "flat_bits flat path name = lookup (netnames flat) (hierarchical path name)"

end
