(* ===== verification/Topo_Fields.thy ===== *)
theory Topo_Fields
  imports Topo_Netlist
begin

text \<open>
  Actor projections of the compiler and the validation of their observed fields
  (\<open>reduction_bits\<close>, \<open>live_collection\<close>, \<open>ram_reduction_width\<close> and \<open>selected_fields\<close> of
  \<open>tools/erl_hls_tools/topology_debug_actors.py\<close>). Values whose type the code inspects stay JSON; an
  optional key is an option, present exactly when the key is.
\<close>

section \<open>Projections\<close>

record field =
  field_offset :: "json option"
  live_offset :: "json option"
  field_width :: json
  observation_offset :: json

record population =
  population_size :: json
  population_mode :: string
  runtime_mask :: "json option"
  population_members :: "json list option"

record site =
  site_id :: int
  site_phase :: json
  site_name :: json
  site_population :: population
  site_kind :: "string option"

record reduction =
  reduction_fields :: "(string, field) dict"
  reduction_width :: int
  sites :: "site list"

record mailbox =
  mailbox_width :: int
  mailbox_capacity :: int
  mailbox_kind :: string
  mailbox_offset :: "json option"
  mailbox_port :: "string option"

record live_state =
  live_width :: int
  live_port :: string

record actor =
  actor_slot :: int
  actor_key :: string
  actor_name :: string

record bank =
  bank_index :: int
  bank_slots :: json
  bank_width :: json
  bank_fields :: "(string, field) dict"
  bank_reduction :: "reduction option"
  bank_phases :: "json list"
  bank_actors :: "actor list"
  bank_ram :: "string option"
  bank_port :: "string option"
  bank_mailbox :: "mailbox option"
  bank_live :: "live_state option"
  bank_module :: string
  bank_failures :: json

abbreviation slots :: "bank \<Rightarrow> int" where "slots b \<equiv> as_int (bank_slots b)"
abbreviation width :: "bank \<Rightarrow> int" where "width b \<equiv> as_int (bank_width b)"

section \<open>Collections\<close>

definition masked :: "population \<Rightarrow> bool" where
  "masked p = truthy_opt (runtime_mask p)"

definition sizes_of :: "reduction \<Rightarrow> (string \<times> int \<times> int) list" where
  "sizes_of r = (let has = (\<lambda>k. k \<in> fst ` set (reduction_fields r)) in
     [(''status'', 2, 2), (''site'', 1, 8), (''key'', 32, 32), (''remaining'', 1, 8), (''failure'', 16, 16)]
     @ (if has ''expected'' then [(''expected'', 1, 255)] else []) @ (if has ''seen'' then [(''seen'', 1, 255)] else []))"

definition check_sizes :: "reduction \<Rightarrow> (topology_error, unit) result" where
  "check_sizes r = (let entries = reduction_fields r; has = (\<lambda>k. k \<in> fst ` set entries);
       runtime = list_ex (\<lambda>s. masked (site_population s)) (sites r) in
     bindE (ensure (\<not> (has ''expected'' \<and> \<not> runtime)) (Rejected ''unexpected runtime membership projection'')) (\<lambda>_.
     bindE (ensure (\<not> (has ''seen'' \<and> (\<not> has ''expected'' \<or>
          map_option field_width (map_of entries ''seen'') \<noteq> map_option field_width (map_of entries ''expected''))))
        (Rejected ''seen members require a matching expected mask'')) (\<lambda>_.
     ensure (fst ` set entries = fst ` set (sizes_of r)) (Rejected ''unknown reduction observation fields''))))"

definition offset_of :: "bool \<Rightarrow> field \<Rightarrow> json option" where
  "offset_of live f = (if live then live_offset f else field_offset f)"

definition bit_range :: "int \<Rightarrow> int \<Rightarrow> nat list" where
  "bit_range start n = [nat start..<nat (start + n)]"

definition reduction_field ::
  "reduction \<Rightarrow> int \<Rightarrow> bool \<Rightarrow> nat list \<times> int \<Rightarrow> string \<times> int \<times> int \<Rightarrow> (topology_error, nat list \<times> int) result" where
  "reduction_field r w live st entry = (let (selected, observed) = st; (name, minimum, maximum) = entry in
     bindE (lookup (reduction_fields r) name) (\<lambda>f.
     let offset = offset_of live f; size = field_width f in
     bindE (ensure (\<not> ((field_offset f \<noteq> None) \<noteq> (\<not> live) \<or> (live_offset f \<noteq> None) \<noteq> live \<or>
          \<not> is_int size \<or> \<not> (minimum \<le> as_int size \<and> as_int size \<le> maximum) \<or>
          \<not> is_int (the offset) \<or> \<not> (0 \<le> as_int (the offset) \<and> as_int (the offset) \<le> w - as_int size) \<or>
          \<not> eq_int (observation_offset f) observed))
        (Rejected (''invalid reduction field: '' @ name))) (\<lambda>_.
     Inr (selected @ bit_range (as_int (the offset)) (as_int size), observed + as_int size))))"

definition member_ok :: "json \<Rightarrow> bool" where
  "member_ok m \<longleftrightarrow> is_int m \<and> 0 \<le> as_int m \<and> as_int m < 2 ^ 32"

definition width_in :: "(string, field) dict \<Rightarrow> string \<Rightarrow> (topology_error, int) result" where
  "width_in fs name = bindE (lookup fs name) (\<lambda>f. Inr (as_int (field_width f)))"

definition check_members :: "reduction \<Rightarrow> population \<Rightarrow> (topology_error, unit) result" where
  "check_members r p = (let size = as_int (population_size p); fields = reduction_fields r in
     case population_members p of None \<Rightarrow> Inl Missing_Key | Some members \<Rightarrow>
     bindE (ensure (\<not> (int (length members) \<noteq> size \<or> int (length (uniq members)) \<noteq> size \<or> \<not> list_all member_ok members))
        (Rejected ''invalid reduction members'')) (\<lambda>_.
     bindE (ensure (\<not> (masked p \<and> map as_int members \<noteq> map int [0..<nat size]))
        (Rejected ''runtime mask members must be numeric slot indices'')) (\<lambda>_.
     if ''expected'' \<in> fst ` set fields
     then bindE (width_in fields ''expected'') (\<lambda>w. ensure (\<not> size > w) (Rejected ''expected mask is too narrow''))
     else Inr ())))"

definition is_string :: "json \<Rightarrow> bool" where
  "is_string v = (case v of JStr _ \<Rightarrow> True | _ \<Rightarrow> False)"

definition check_site :: "reduction \<Rightarrow> json list \<Rightarrow> site \<Rightarrow> (topology_error, unit) result" where
  "check_site r phases s = (let p = site_population s; size = population_size p;
       kind = (case site_kind s of None \<Rightarrow> ''reduction'' | Some k \<Rightarrow> k) in
     bindE (ensure (\<not> (kind \<notin> {''reduction'', ''gather''} \<or>
          kind = ''gather'' \<and> (population_mode p \<noteq> ''members'' \<or> \<not> masked p)))
        (Rejected ''invalid collection kind'')) (\<lambda>_.
     bindE (width_in (reduction_fields r) ''remaining'') (\<lambda>remaining.
     bindE (ensure (\<not> (site_phase s \<notin> set phases \<or> \<not> is_string (site_name s) \<or>
          \<not> is_int size \<or> \<not> (1 \<le> as_int size \<and> as_int size \<le> 255) \<or>
          as_int size \<ge> 2 ^ nat remaining \<or> population_mode p \<notin> {''count'', ''members''}))
        (Rejected ''invalid reduction population'')) (\<lambda>_.
     bindE (ensure (\<not> (masked p \<and> population_mode p \<noteq> ''members'')) (Rejected ''runtime mask requires member mode'')) (\<lambda>_.
     if population_mode p = ''members'' then check_members r p else Inr ())))))"

definition reduction_bits ::
  "reduction \<Rightarrow> json list \<Rightarrow> int \<Rightarrow> bool \<Rightarrow> (topology_error, nat list) result" where
  "reduction_bits r phases w live =
     bindE (check_sizes r) (\<lambda>_.
     bindE (foldE (reduction_field r w live) ([], 56) (sizes_of r)) (\<lambda>(selected, observed).
     bindE (ensure (\<not> (reduction_width r \<noteq> observed - 56 \<or> reduction_width r > 72))
        (Rejected ''invalid reduction width'')) (\<lambda>_.
     bindE (width_in (reduction_fields r) ''site'') (\<lambda>site_width.
     bindE (ensure (\<not> (\<not> (1 \<le> length (sites r) \<and> length (sites r) \<le> 256) \<or>
          map site_id (sites r) \<noteq> map int [0..<length (sites r)] \<or> length (sites r) > 2 ^ nat site_width))
        (Rejected ''invalid reduction sites'')) (\<lambda>_.
     bindE (checkE (check_site r phases) (sites r)) (\<lambda>_. Inr selected))))))"

definition live_collection :: "bank \<Rightarrow> bool" where
  "live_collection b \<longleftrightarrow> (case bank_reduction b of None \<Rightarrow> False
     | Some r \<Rightarrow> list_ex (\<lambda>(_, f). live_offset f \<noteq> None) (reduction_fields r))"

definition ram_reduction_width :: "bank \<Rightarrow> int" where
  "ram_reduction_width b = (if live_collection b then 0
     else case bank_reduction b of None \<Rightarrow> 0 | Some r \<Rightarrow> reduction_width r)"

section \<open>The fields of a bank\<close>

definition state_field :: "bank \<Rightarrow> nat list \<Rightarrow> string \<times> int \<Rightarrow> (topology_error, nat list) result" where
  "state_field b selected entry = (let (name, size) = entry in
     bindE (lookup (bank_fields b) name) (\<lambda>f.
     case field_offset f of None \<Rightarrow> Inl Missing_Key | Some offset \<Rightarrow>
     bindE (ensure (\<not> (\<not> eq_int (field_width f) size \<or> \<not> is_int offset \<or>
          \<not> (0 \<le> as_int offset \<and> as_int offset \<le> width b - size)))
        (Rejected (''invalid actor field: '' @ name))) (\<lambda>_.
     Inr (selected @ bit_range (as_int offset) size))))"

definition state_fields :: "(string \<times> int) list" where
  "state_fields = [(''phase'', 8), (''enter_pending'', 1), (''failure'', 16)]"

definition collection_bits :: "bank \<Rightarrow> (topology_error, nat list) result" where
  "collection_bits b = (case bank_reduction b of
       None \<Rightarrow> Inr []
     | Some r \<Rightarrow>
         if live_collection b then
           (case bank_live b of
              None \<Rightarrow> Inl (Rejected ''invalid live actor state projection'')
            | Some live \<Rightarrow>
                bindE (ensure (live_width live = 26 + reduction_width r) (Rejected ''invalid live actor state projection'')) (\<lambda>_.
                bindE (reduction_bits r (bank_phases b) (live_width live) True) (\<lambda>bits.
                bindE (ensure (\<not> (has_duplicates bits \<or> list_ex (\<lambda>i. i < 26) bits)) (Rejected ''overlapping live actor fields''))
                  (\<lambda>_. Inr []))))
         else reduction_bits r (bank_phases b) (width b) False)"

definition check_actor :: "string list \<Rightarrow> actor \<Rightarrow> (topology_error, string list) result" where
  "check_actor keys a = (let k = actor_key a in
     bindE (ensure (\<not> (length k \<noteq> 64 \<or> list_ex (\<lambda>c. c \<notin> set ''0123456789abcdef'') k \<or> k \<in> set keys))
       (Rejected ''invalid or duplicate actor identity'')) (\<lambda>_. Inr (keys @ [k])))"

text \<open>The selected bits, and the set of actor identities extended by the bank's.\<close>

definition selected_fields :: "bank \<Rightarrow> string list \<Rightarrow> (topology_error, nat list \<times> string list) result" where
  "selected_fields b keys =
     bindE (foldE (state_field b) [] state_fields) (\<lambda>state.
     bindE (collection_bits b) (\<lambda>bits.
     let selected = state @ bits; phases = bank_phases b in
     bindE (ensure (\<not> has_duplicates selected) (Rejected ''overlapping actor fields'')) (\<lambda>_.
     bindE (ensure (\<not> (\<not> (1 \<le> length phases \<and> length phases \<le> 256) \<or> has_duplicates phases \<or> \<not> list_all is_string phases))
        (Rejected ''invalid phase codebook'')) (\<lambda>_.
     bindE (ensure (map actor_slot (bank_actors b) = map int [0..<nat (slots b)])
        (Rejected ''actor slots must cover the bank exactly'')) (\<lambda>_.
     bindE (foldE check_actor keys (bank_actors b)) (\<lambda>keys'.
     Inr (selected, keys')))))))"

section \<open>What selected bits are\<close>

lemma bit_range_facts:
  assumes "0 \<le> i" and "0 \<le> n" and "i \<le> w - n"
  shows "length (bit_range i n) = nat n" and "\<forall>j\<in>set (bit_range i n). int j < w"
  using assms by (auto simp: bit_range_def nat_add_distrib)

lemma state_field_Inr:
  assumes "state_field b selected (name, n) = Inr s" and "0 \<le> n"
  shows "\<exists>bs. s = selected @ bs \<and> length bs = nat n \<and> (\<forall>i\<in>set bs. int i < width b)"
proof -
  from assms(1) obtain v where "0 \<le> as_int v" "as_int v \<le> width b - n" "s = selected @ bit_range (as_int v) n"
    by (auto simp: state_field_def bindE_Inr split: option.splits)
  with bit_range_facts[of "as_int v" n "width b"] assms(2) show ?thesis by blast
qed

lemma reduction_field_Inr:
  assumes "reduction_field r w live (selected, k) (name, lo, hi) = Inr (s, k')" and "0 \<le> lo"
  shows "\<exists>bs. s = selected @ bs \<and> int (length bs) = k' - k \<and> (\<forall>i\<in>set bs. int i < w)"
proof -
  from assms(1) obtain v n where v: "0 \<le> as_int v" "as_int v \<le> w - n" "lo \<le> n" "s = selected @ bit_range (as_int v) n" "k' = k + n"
    unfolding reduction_field_def Let_def prod.case bindE_Inr ensure_Inr by auto
  with bit_range_facts[of "as_int v" n w] assms(2) show ?thesis by auto
qed

lemma reduction_fields_Inr:
  "foldE (reduction_field r w live) (selected, k) sizes = Inr (s, k') \<Longrightarrow> \<forall>(n, lo, hi)\<in>set sizes. 0 \<le> lo \<Longrightarrow>
   \<exists>bs. s = selected @ bs \<and> int (length bs) = k' - k \<and> (\<forall>i\<in>set bs. int i < w)"
proof (induction sizes arbitrary: selected k)
  case (Cons e sizes)
  obtain n lo hi where e: "e = (n, lo, hi)" by (cases e)
  with Cons.prems obtain s1 k1 where u: "reduction_field r w live (selected, k) (n, lo, hi) = Inr (s1, k1)"
    "foldE (reduction_field r w live) (s1, k1) sizes = Inr (s, k')" by (auto simp: bindE_Inr)
  have "0 \<le> lo" using Cons.prems(2) e by simp
  from reduction_field_Inr[OF u(1) this] obtain b1 where b1: "s1 = selected @ b1" "int (length b1) = k1 - k"
    "\<forall>i\<in>set b1. int i < w" by blast
  from Cons.IH[OF u(2)] Cons.prems(2) obtain b2 where "s = s1 @ b2" "int (length b2) = k' - k1" "\<forall>i\<in>set b2. int i < w"
    by auto
  with b1 show ?case by (intro exI[of _ "b1 @ b2"]) auto
qed simp

lemma sizes_of_nonneg: "\<forall>(n, lo, hi)\<in>set (sizes_of r). 0 \<le> lo"
  by (auto simp: sizes_of_def Let_def)

lemma reduction_bits_Inr:
  assumes "reduction_bits r phases w live = Inr bits"
  shows "int (length bits) = reduction_width r" and "reduction_width r \<le> 72" and "\<forall>i\<in>set bits. int i < w"
proof -
  from assms obtain k where s: "foldE (reduction_field r w live) ([], 56) (sizes_of r) = Inr (bits, k)"
    "reduction_width r = k - 56" "reduction_width r \<le> 72"
    by (auto simp: reduction_bits_def bindE_Inr)
  from reduction_fields_Inr[OF s(1) sizes_of_nonneg] s(2,3)
  show "int (length bits) = reduction_width r" "reduction_width r \<le> 72" "\<forall>i\<in>set bits. int i < w" by auto
qed

lemma selected_fields_Inr:
  assumes "selected_fields b keys = Inr (selected, keys')"
  shows "distinct selected" and "int (length selected) = 25 + ram_reduction_width b"
    and "\<forall>i\<in>set selected. int i < width b" and "0 \<le> ram_reduction_width b" and "ram_reduction_width b \<le> 72"
    and "length (bank_actors b) = nat (slots b)"
proof -
  from assms obtain state bits where state: "foldE (state_field b) [] state_fields = Inr state"
    and bits: "collection_bits b = Inr bits" and sel: "selected = state @ bits" "distinct selected"
    and actors: "map actor_slot (bank_actors b) = map int [0..<nat (slots b)]"
    by (auto simp: selected_fields_def bindE_Inr Let_def)
  from state obtain b1 b2 b3 where "state = b1 @ b2 @ b3" "length b1 = 8" "length b2 = 1" "length b3 = 16"
    "\<forall>i\<in>set (b1 @ b2 @ b3). int i < width b"
    using that[of _ _ _] by (auto simp: state_fields_def bindE_Inr ball_Un dest!: state_field_Inr)
  moreover have "int (length bits) = ram_reduction_width b \<and> (\<forall>i\<in>set bits. int i < width b) \<and> ram_reduction_width b \<le> 72"
    using bits reduction_bits_Inr
    by (auto simp: collection_bits_def ram_reduction_width_def live_collection_def bindE_Inr split: option.splits if_splits)
  ultimately show "int (length selected) = 25 + ram_reduction_width b" "\<forall>i\<in>set selected. int i < width b"
    "0 \<le> ram_reduction_width b" "ram_reduction_width b \<le> 72" by (auto simp: sel)
  show "distinct selected" by (rule sel)
  from actors have "length (map actor_slot (bank_actors b)) = length (map int [0..<nat (slots b)])" by simp
  then show "length (bank_actors b) = nat (slots b)" by simp
qed

end
