(* ===== verification/Topo_Discover.thy ===== *)
theory Topo_Discover
  imports Topo_Netlist "HOL-Library.Multiset"
begin

text \<open>
  Discovery of the observable channels (\<open>discover\<close> of \<open>tools/erl_hls_tools/topology_debug.py\<close>): the
  handshakes of every instance below the top module are grouped by their flattened valid and ready
  bits; each group is a probe whose endpoints are the deepest aliases of each role.
\<close>

section \<open>XLS FIFO modules\<close>

text \<open>
  \<open>FIFO.fullmatch\<close>: \<open>fifo_for_depth_\<close>, the digits of the depth, \<open>_ty_\<close>, any text without a line
  break, \<open>_with_bypass\<close> or \<open>_no_bypass\<close>, and the optional suffixes. The result is the depth text.
\<close>

definition fifo_suffixes :: "string list" where
  "fifo_suffixes = [w @ r. w \<leftarrow> [''_with_bypass'', ''_no_bypass''], r \<leftarrow> [[], ''_register_push'']]"

definition fifo_tail :: "string \<Rightarrow> bool" where
  "fifo_tail s \<longleftrightarrow> list_ex (\<lambda>w. s = w \<or> (prefix (w @ ''___'') s \<and>
     (let n = drop (length w + 3) s in n \<noteq> [] \<and> list_all is_digit n))) fifo_suffixes"

definition fifo_depth :: "string \<Rightarrow> string option" where
  "fifo_depth name = (let s = drop 15 name; n = takeWhile is_digit s; r = dropWhile is_digit s in
     if prefix ''fifo_for_depth_'' name \<and> n \<noteq> [] \<and> prefix ''_ty_'' r \<and>
       list_ex (\<lambda>i. list_all (\<lambda>c. c \<noteq> CHR 0x0A) (take i (drop 4 r)) \<and> fifo_tail (drop i (drop 4 r)))
         [0..<length r]
     then Some n else None)"

section \<open>Probes\<close>

datatype role = Producer | Consumer

record endpoint =
  at_path :: "string list"
  at_module :: string
  at_port :: string
  role :: role
  external :: bool

record probe =
  probe_id :: nat
  probe_name :: string
  valid_bit :: bit
  ready_bit :: bit
  endpoints :: "endpoint list"
  aliases :: "endpoint list"
  constant_handshake :: bool

definition deepest :: "endpoint list \<Rightarrow> endpoint list" where
  "deepest es = filter (\<lambda>e. \<not> list_ex (\<lambda>d. take (length (at_path e)) (at_path d) = at_path e \<and>
     length (at_path e) < length (at_path d)) es) es"

text \<open>At the application boundary the external world has the opposite role.\<close>

definition endpoint_of :: "string list \<Rightarrow> string \<Rightarrow> handshake \<Rightarrow> endpoint" where
  "endpoint_of path name h = (let out = (valid_direction h = ''output'') in
     \<lparr>at_path = path, at_module = name, at_port = stem h,
      role = (if path = [] then if out then Consumer else Producer else if out then Producer else Consumer),
      external = (path = [])\<rparr>)"

type_synonym channels = "(bit \<times> bit, endpoint list) dict"

text \<open>\<open>channels[key].append(e)\<close> on a \<open>defaultdict(list)\<close>.\<close>

definition append_to :: "'k \<Rightarrow> 'a \<Rightarrow> ('k, 'a list) dict \<Rightarrow> ('k, 'a list) dict" where
  "append_to k x d = AList.update k ((case map_of d k of None \<Rightarrow> [] | Some xs \<Rightarrow> xs) @ [x]) d"

definition add_endpoint ::
  "module \<Rightarrow> string list \<Rightarrow> string \<Rightarrow> channels \<Rightarrow> handshake \<Rightarrow> (topology_error, channels) result" where
  "add_endpoint flat path name ch h =
     bindE (flat_bit flat path (valid_name h)) (\<lambda>v.
     bindE (flat_bit flat path (ready_name h)) (\<lambda>r.
     Inr (append_to (v, r) (endpoint_of path name h) ch)))"

definition clock_names :: "string list" where "clock_names = [''clk'', ''aclk'', ''clock'']"

definition same_clock ::
  "module \<Rightarrow> bit \<Rightarrow> string \<Rightarrow> string list \<Rightarrow> module \<Rightarrow> (topology_error, unit) result" where
  "same_clock flat root_clock top_name path m =
     (let err = Rejected (''unsupported clock domain at '' @
        (if join_on (CHR ''.'') path = [] then top_name else join_on (CHR ''.'') path)) in
      case filter (\<lambda>n. n \<in> fst ` set (ports m)) clock_names of
        [c] \<Rightarrow> bindE (flat_bit flat path c) (\<lambda>b. ensure (b = root_clock) err)
      | _ \<Rightarrow> Inl err)"

definition discover_at ::
  "module \<Rightarrow> bit \<Rightarrow> string \<Rightarrow> channels \<Rightarrow> (topology_error, inst) result \<Rightarrow> (topology_error, channels) result" where
  "discover_at flat root_clock top_name ch item =
     bindE item (\<lambda>(path, name, m).
     bindE (channel_ports m) (\<lambda>pairs.
     if pairs = [] then Inr ch
     else bindE (same_clock flat root_clock top_name path m) (\<lambda>_.
       if fifo_depth name \<noteq> None \<and> prefix ''fifo_for_depth_0_'' name then Inr ch
       else foldE (add_endpoint flat path name) ch pairs)))"

definition is_constant :: "bit \<Rightarrow> bool" where
  "is_constant b = (case b of Net _ \<Rightarrow> False | Constant _ \<Rightarrow> True)"

definition chosen_endpoints :: "endpoint list \<Rightarrow> endpoint list" where
  "chosen_endpoints es = concat (map (\<lambda>r. let group = filter (\<lambda>e. role e = r) es in
     filter external group @ deepest (filter (\<lambda>e. \<not> external e) group)) [Producer, Consumer])"

definition label :: "endpoint \<Rightarrow> string" where
  "label e = join_on (CHR ''/'') (at_path e @ [at_port e])"

definition probe_of :: "(bit \<times> bit) \<times> endpoint list \<Rightarrow> probe" where
  "probe_of ch = (let ((v, r), es) = ch; ends = chosen_endpoints es in
     \<lparr>probe_id = 0, probe_name = Min (set (map label ends)), valid_bit = v, ready_bit = r,
      endpoints = ends, aliases = es, constant_handshake = (is_constant v \<or> is_constant r)\<rparr>)"

definition number_probes :: "probe list \<Rightarrow> probe list" where
  "number_probes ps = map (\<lambda>(i, p). p\<lparr>probe_id := i\<rparr>) (enumerate 0 ps)"

definition discover ::
  "hierarchy \<Rightarrow> hierarchy \<Rightarrow> string \<Rightarrow> string \<Rightarrow> (topology_error, probe list) result" where
  "discover mods flat_design top_name clock =
     bindE (lookup flat_design top_name) (\<lambda>flat.
     bindE (flat_bit flat [] clock) (\<lambda>root_clock.
     bindE (foldE (discover_at flat root_clock top_name) [] (descendants mods top_name)) (\<lambda>ch.
     let probes = number_probes (sort_key probe_name (map probe_of ch)) in
     bindE (ensure (probes \<noteq> []) (Rejected ''no ready/valid channels discovered'')) (\<lambda>_. Inr probes))))"

section \<open>Endpoints\<close>

text \<open>Containers whose port is forwarded into a child never stand for it: some deeper alias does.\<close>

lemma deepest_iff:
  "e \<in> set (deepest es) \<longleftrightarrow> e \<in> set es \<and> \<not> (\<exists>d\<in>set es. strict_prefix (at_path e) (at_path d))"
  by (auto simp: deepest_def list_ex_iff strict_prefix_def prefix_def) (metis append_eq_conv_conj append_take_drop_id length_append le_add1 nat_less_le)+

section \<open>Grouped entries\<close>

text \<open>The entries of a dictionary of lists, and the dictionaries the discovery loop builds.\<close>

definition entries :: "('k, 'a list) dict \<Rightarrow> ('k \<times> 'a) set" where
  "entries d = {(k, x). \<exists>xs. map_of d k = Some xs \<and> x \<in> set xs}"

definition grouped :: "('k, 'a list) dict \<Rightarrow> bool" where
  "grouped d \<longleftrightarrow> distinct (map fst d) \<and> [] \<notin> snd ` set d"

lemma entries_append_to: "entries (append_to k x d) = insert (k, x) (entries d)"
  by (auto simp: entries_def append_to_def update_conv split: if_splits option.splits)

lemma grouped_append_to: "grouped d \<Longrightarrow> grouped (append_to k x d)"
  by (auto simp: grouped_def append_to_def set_update distinct_update split: option.splits)

lemma grouped_entry: "grouped d \<Longrightarrow> (k, xs) \<in> set d \<Longrightarrow> x \<in> set xs \<longleftrightarrow> (k, x) \<in> entries d"
  by (auto simp: grouped_def entries_def dest: eq_key_imp_eq_value)

lemma grouped_key: "grouped d \<Longrightarrow> (k, x) \<in> entries d \<Longrightarrow> \<exists>xs. (k, xs) \<in> set d \<and> x \<in> set xs"
  by (auto simp: entries_def dest: map_of_SomeD)

lemma foldE_entries:
  assumes "foldE f s xs = Inr t"
    and "\<And>u x v. x \<in> set xs \<Longrightarrow> f u x = Inr v \<Longrightarrow> entries v = entries u \<union> G x \<and> P x \<and> (grouped u \<longrightarrow> grouped v)"
  shows "entries t = entries s \<union> (\<Union>x\<in>set xs. G x) \<and> (\<forall>x\<in>set xs. P x) \<and> (grouped s \<longrightarrow> grouped t)"
  using assms
proof (induction xs arbitrary: s)
  case (Cons x xs)
  from Cons.prems(1) obtain u where u: "f s x = Inr u" "foldE f u xs = Inr t"
    by (auto simp: bindE_Inr)
  have "entries t = entries u \<union> (\<Union>x\<in>set xs. G x) \<and> (\<forall>x\<in>set xs. P x) \<and> (grouped u \<longrightarrow> grouped t)"
    by (rule Cons.IH[OF u(2)], rule Cons.prems(2)) simp_all
  with Cons.prems(2)[OF _ u(1)] show ?case by auto
qed simp

section \<open>What discovery collects\<close>

definition watched :: "module \<Rightarrow> inst \<Rightarrow> ((bit \<times> bit) \<times> endpoint) set" where
  "watched flat i = (let (path, name, m) = i in
     {((v, r), endpoint_of path name h) | v r h hs. channel_ports m = Inr hs \<and> h \<in> set hs \<and>
        \<not> (fifo_depth name \<noteq> None \<and> prefix ''fifo_for_depth_0_'' name) \<and>
        flat_bit flat path (valid_name h) = Inr v \<and> flat_bit flat path (ready_name h) = Inr r})"

text \<open>An instance with handshakes has one clock port, connected to the root clock.\<close>

definition in_domain :: "module \<Rightarrow> bit \<Rightarrow> inst \<Rightarrow> bool" where
  "in_domain flat root_clock i \<longleftrightarrow> (let (path, name, m) = i in
     \<exists>hs. channel_ports m = Inr hs \<and> (hs = [] \<or>
       (\<exists>c. filter (\<lambda>n. n \<in> fst ` set (ports m)) clock_names = [c] \<and> flat_bit flat path c = Inr root_clock)))"

lemma same_clock_Inr:
  "same_clock flat root_clock top_name path m = Inr u \<longleftrightarrow>
     (\<exists>c. filter (\<lambda>n. n \<in> fst ` set (ports m)) clock_names = [c] \<and> flat_bit flat path c = Inr root_clock)"
  by (auto simp: same_clock_def Let_def bindE_Inr split: list.split)

lemma add_endpoint_Inr:
  "add_endpoint flat path name ch h = Inr ch' \<longleftrightarrow>
     (\<exists>v r. flat_bit flat path (valid_name h) = Inr v \<and> flat_bit flat path (ready_name h) = Inr r \<and>
        ch' = append_to (v, r) (endpoint_of path name h) ch)"
  by (auto simp: add_endpoint_def bindE_Inr)

lemma add_endpoints:
  assumes "foldE (add_endpoint flat path name) ch hs = Inr ch'"
  shows "entries ch' = entries ch \<union> (\<Union>h\<in>set hs. {((v, r), endpoint_of path name h) | v r.
      flat_bit flat path (valid_name h) = Inr v \<and> flat_bit flat path (ready_name h) = Inr r}) \<and>
    (grouped ch \<longrightarrow> grouped ch')"
proof -
  let ?G = "\<lambda>h. {((v, r), endpoint_of path name h) | v r.
      flat_bit flat path (valid_name h) = Inr v \<and> flat_bit flat path (ready_name h) = Inr r}"
  have "entries v = entries u \<union> ?G h \<and> True \<and> (grouped u \<longrightarrow> grouped v)"
    if "add_endpoint flat path name u h = Inr v" for u h v
    using that by (auto simp: add_endpoint_Inr entries_append_to grouped_append_to)
  from foldE_entries[OF assms, where P = "\<lambda>_. True", OF this] show ?thesis by simp
qed

lemma discover_at_Inr:
  assumes "discover_at flat root_clock top_name ch item = Inr ch'"
  shows "\<exists>i. item = Inr i \<and> in_domain flat root_clock i \<and>
    entries ch' = entries ch \<union> watched flat i \<and> (grouped ch \<longrightarrow> grouped ch')"
proof -
  from assms obtain path name m hs where item: "item = Inr (path, name, m)" and hs: "channel_ports m = Inr hs"
    and rest: "(if hs = [] then Inr ch else bindE (same_clock flat root_clock top_name path m) (\<lambda>_.
       if fifo_depth name \<noteq> None \<and> prefix ''fifo_for_depth_0_'' name then Inr ch
       else foldE (add_endpoint flat path name) ch hs)) = Inr ch'"
    by (auto simp: discover_at_def bindE_Inr)
  show ?thesis
  proof (cases "hs = [] \<or> fifo_depth name \<noteq> None \<and> prefix ''fifo_for_depth_0_'' name")
    case True
    with rest hs item show ?thesis
      by (auto simp: in_domain_def watched_def bindE_Inr same_clock_Inr split: if_splits)
  next
    case False
    with rest have clock: "same_clock flat root_clock top_name path m = Inr ()"
      and fold: "foldE (add_endpoint flat path name) ch hs = Inr ch'" by (auto simp: bindE_Inr)
    from add_endpoints[OF fold] False hs have "entries ch' = entries ch \<union> watched flat (path, name, m) \<and> (grouped ch \<longrightarrow> grouped ch')"
      by (auto simp: watched_def)
    with clock hs item show ?thesis by (auto simp: in_domain_def same_clock_Inr)
  qed
qed

lemma discover_channels:
  assumes "foldE (discover_at flat root_clock top_name) [] items = Inr ch"
  shows "(\<forall>item\<in>set items. \<exists>i. item = Inr i \<and> in_domain flat root_clock i) \<and> grouped ch \<and>
    entries ch = (\<Union>i\<in>{i. Inr i \<in> set items}. watched flat i)"
proof -
  have nil: "entries ([] :: channels) = {}" "grouped ([] :: channels)" by (simp_all add: entries_def grouped_def)
  let ?G = "\<lambda>x. case x of Inl _ \<Rightarrow> {} | Inr i \<Rightarrow> watched flat i"
  have "entries v = entries u \<union> ?G x \<and> (\<exists>i. x = Inr i \<and> in_domain flat root_clock i) \<and> (grouped u \<longrightarrow> grouped v)"
    if d: "discover_at flat root_clock top_name u x = Inr v" for u x v
  proof -
    obtain i where "x = Inr i" "in_domain flat root_clock i" "entries v = entries u \<union> watched flat i"
      "grouped u \<longrightarrow> grouped v" using discover_at_Inr[OF d] by metis
    then show ?thesis by simp
  qed
  note step = this
  have "entries ch = entries [] \<union> (\<Union>x\<in>set items. ?G x) \<and>
      (\<forall>item\<in>set items. \<exists>i. item = Inr i \<and> in_domain flat root_clock i) \<and> (grouped ([] :: channels) \<longrightarrow> grouped ch)"
    by (rule foldE_entries[OF assms, where G = ?G and P = "\<lambda>x. \<exists>i. x = Inr i \<and> in_domain flat root_clock i"])
      (rule step)
  moreover have "(\<Union>x\<in>set items. ?G x) = (\<Union>i\<in>{i. Inr i \<in> set items}. watched flat i)"
  proof (intro set_eqI iffI)
    fix e assume "e \<in> (\<Union>x\<in>set items. ?G x)"
    then obtain x where x: "x \<in> set items" "e \<in> ?G x" by blast
    then obtain i where "x = Inr i" by (metis (no_types, lifting) empty_iff obj_sumE sum.case(1))
    with x have "Inr i \<in> set items" "e \<in> watched flat i" by simp_all
    then show "e \<in> (\<Union>i\<in>{i. Inr i \<in> set items}. watched flat i)" by blast
  next
    fix e assume "e \<in> (\<Union>i\<in>{i. Inr i \<in> set items}. watched flat i)"
    then obtain i where "Inr i \<in> set items" "e \<in> watched flat i" by blast
    then show "e \<in> (\<Union>x\<in>set items. ?G x)" by (intro UN_I[of "Inr i"]) simp_all
  qed
  ultimately show ?thesis using nil by simp
qed

section \<open>Probes of a discovery\<close>

lemma number_probes_ids: "map probe_id (number_probes ps) = [0..<length ps]"
  by (rule nth_equalityI) (simp_all add: number_probes_def nth_enumerate_eq)

lemma number_probes_fields:
  assumes "\<And>p i. f (p\<lparr>probe_id := i\<rparr>) = f p"
  shows "map f (number_probes ps) = map f ps"
proof -
  have "map f (number_probes ps) = map f (map snd (enumerate 0 ps))"
    unfolding number_probes_def map_map by (rule map_cong) (auto simp: assms)
  then show ?thesis by simp
qed

lemma probe_of_simps [simp]:
  "valid_bit (probe_of c) = fst (fst c)" "ready_bit (probe_of c) = snd (fst c)" "aliases (probe_of c) = snd c"
  "endpoints (probe_of c) = chosen_endpoints (snd c)"
  "probe_name (probe_of c) = Min (set (map label (chosen_endpoints (snd c))))"
  "constant_handshake (probe_of c) = (is_constant (fst (fst c)) \<or> is_constant (snd (fst c)))"
  by (simp_all add: probe_of_def Let_def split: prod.splits)

text \<open>The deepest aliases reach below every alias.\<close>

lemma deepest_below:
  assumes "e \<in> set es"
  shows "\<exists>d\<in>set (deepest es). prefix (at_path e) (at_path d)"
proof -
  define S where "S = {d \<in> set es. prefix (at_path e) (at_path d)}"
  let ?n = "\<lambda>d. length (at_path d)"
  have fin: "finite S" "S \<noteq> {}" using assms by (auto simp: S_def)
  then have "Max (?n ` S) \<in> ?n ` S" by (intro Max_in) simp_all
  then obtain d where d: "d \<in> S" and longest: "?n d = Max (?n ` S)" by auto
  have "\<not> strict_prefix (at_path d) (at_path x)" if x: "x \<in> set es" for x
  proof
    assume s: "strict_prefix (at_path d) (at_path x)"
    with d x have "x \<in> S" unfolding S_def by (auto intro: prefix_order.trans prefix_order.less_imp_le)
    then have "?n x \<le> ?n d" unfolding longest using fin by (intro Max_ge) simp_all
    with prefix_length_less[OF s] show False by simp
  qed
  then have "d \<in> set (deepest es)" using d by (auto simp: deepest_iff S_def)
  with d show ?thesis by (intro bexI[of _ d]) (simp_all add: S_def)
qed

lemma chosen_endpoints_iff:
  "e \<in> set (chosen_endpoints es) \<longleftrightarrow> e \<in> set es \<and> (external e \<or>
     \<not> (\<exists>d\<in>set es. role d = role e \<and> \<not> external d \<and> strict_prefix (at_path e) (at_path d)))"
  by (cases "role e") (auto simp: chosen_endpoints_def deepest_iff Let_def)

lemma chosen_endpoints_below:
  assumes "e \<in> set es"
  shows "\<exists>d\<in>set (chosen_endpoints es). role d = role e \<and> external d = external e \<and> prefix (at_path e) (at_path d)"
proof (cases "external e")
  case True
  with assms show ?thesis by (intro bexI[of _ e]) (auto simp: chosen_endpoints_iff)
next
  case False
  let ?g = "filter (\<lambda>d. \<not> external d) (filter (\<lambda>d. role d = role e) es)"
  from False assms have "e \<in> set ?g" by simp
  from deepest_below[OF this] obtain d where "d \<in> set (deepest ?g)" "prefix (at_path e) (at_path d)" by blast
  with False show ?thesis
    by (intro bexI[of _ d]) (auto simp: chosen_endpoints_iff deepest_iff)
qed

lemma discovered_probes:
  assumes "grouped ch"
  defines "ps \<equiv> number_probes (sort_key probe_name (map probe_of ch))"
  shows "map probe_id ps = [0..<length ps]" and "sorted (map probe_name ps)"
    and "distinct (map (\<lambda>p. (valid_bit p, ready_bit p)) ps)"
    and "(\<Union>p\<in>set ps. {(valid_bit p, ready_bit p)} \<times> set (aliases p)) = entries ch"
    and "\<forall>p\<in>set ps. aliases p \<noteq> [] \<and> endpoints p = chosen_endpoints (aliases p) \<and>
      probe_name p = Min (set (map label (endpoints p))) \<and>
      constant_handshake p = (is_constant (valid_bit p) \<or> is_constant (ready_bit p))"
proof -
  let ?key = "\<lambda>p. (valid_bit p, ready_bit p)"
  show "map probe_id ps = [0..<length ps]" unfolding ps_def by (simp add: number_probes_ids) (simp add: number_probes_def)
  show "sorted (map probe_name ps)" unfolding ps_def by (simp add: number_probes_fields)
  have keys: "map ?key (map probe_of ch) = map fst ch" by simp
  have "mset (map ?key ps) = mset (map ?key (map probe_of ch))"
    unfolding ps_def by (subst number_probes_fields) (simp_all add: image_mset.compositionality comp_def)
  then show "distinct (map ?key ps)"
    using assms(1) unfolding grouped_def keys by (metis mset_eq_imp_distinct_iff)
  have tuples: "(\<lambda>p. (?key p, aliases p)) ` set ps = set ch"
  proof -
    have "set (map (\<lambda>p. (?key p, aliases p)) ps) = set ch"
      unfolding ps_def by (simp add: number_probes_fields image_image)
    then show ?thesis by simp
  qed
  have "(\<Union>p\<in>set ps. {?key p} \<times> set (aliases p)) =
      (\<Union>(k, es)\<in>(\<lambda>p. (?key p, aliases p)) ` set ps. {k} \<times> set es)" by simp
  also have "\<dots> = (\<Union>(k, es)\<in>set ch. {k} \<times> set es)" by (simp only: tuples)
  also have "\<dots> = entries ch"
    using assms(1) by (auto simp: grouped_entry dest: grouped_key)
  finally show "(\<Union>p\<in>set ps. {?key p} \<times> set (aliases p)) = entries ch" .
  show "\<forall>p\<in>set ps. aliases p \<noteq> [] \<and> endpoints p = chosen_endpoints (aliases p) \<and>
      probe_name p = Min (set (map label (endpoints p))) \<and>
      constant_handshake p = (is_constant (valid_bit p) \<or> is_constant (ready_bit p))"
  proof
    fix p assume "p \<in> set ps"
    then obtain c i where "c \<in> set ch" "p = (probe_of c)\<lparr>probe_id := i\<rparr>"
      by (auto simp: ps_def number_probes_def enumerate_eq_zip dest!: set_zip_rightD)
    with assms(1) show "aliases p \<noteq> [] \<and> endpoints p = chosen_endpoints (aliases p) \<and>
      probe_name p = Min (set (map label (endpoints p))) \<and>
      constant_handshake p = (is_constant (valid_bit p) \<or> is_constant (ready_bit p))"
      unfolding grouped_def by (auto simp: image_iff)
  qed
qed

end
