(* ===== verification/Topo_Actors.thy ===== *)
theory Topo_Actors
  imports Topo_Fields Topo_Discover
begin

text \<open>
  Binding actor projections to the netlist (\<open>tools/erl_hls_tools/topology_debug_actors.py\<close>): the contract of
  the state RAM's write port, the observation sources of shared and direct actors, and \<open>discover\<close>, which
  turns every bank into the list of bits it taps.
\<close>

section \<open>The write contract of a state RAM\<close>

text \<open>A filter whose condition may raise.\<close>

fun filterE :: "('a \<Rightarrow> ('e, bool) result) \<Rightarrow> 'a list \<Rightarrow> ('e, 'a list) result" where
  "filterE f [] = Inr []"
| "filterE f (x # xs) = bindE (f x) (\<lambda>b. bindE (filterE f xs) (\<lambda>ys. Inr (if b then x # ys else ys)))"

definition mux_on :: "module \<Rightarrow> bit list \<Rightarrow> cell \<Rightarrow> (topology_error, bool) result" where
  "mux_on m bits c =
     (if cell_type c \<noteq> ''$mux'' then Inr False
      else bindE (lookup (connections c) ''Y'') (\<lambda>y.
        if y \<noteq> bits then Inr False
        else bindE (lookup (connections c) ''S'') (\<lambda>s.
          bindE (lookup (ports m) ''wr_en'') (\<lambda>en. Inr (s = port_bits en)))))"

definition mux_arms :: "module \<Rightarrow> bit list list" where
  "mux_arms m = concat (map (\<lambda>c. map snd (filter (\<lambda>(n, _). n = ''A'' \<or> n = ''B'') (connections c))) (map snd (cells m)))"

text \<open>
  \<open>selected\<close>: follow the arm of the enable's value through the multiplexers. Every step but the first
  looks at an arm of some multiplexer, and none is looked at twice.
\<close>

lemma mux_arm_member:
  assumes "filterE (mux_on m bits) (map snd (cells m)) = Inr (c # cs)"
    and "lookup (connections c) (if enabled then ''B'' else ''A'') = Inr arm"
  shows "arm \<in> set (mux_arms m)"
proof -
  have "set ys \<subseteq> set xs" if "filterE f xs = Inr ys" for f :: "cell \<Rightarrow> (topology_error, bool) result" and xs ys
    using that by (induction xs arbitrary: ys) (auto simp: bindE_Inr split: if_splits)
  from this[OF assms(1)] have "c \<in> snd ` set (cells m)" by simp
  moreover from assms(2) have "((if enabled then ''B'' else ''A''), arm) \<in> set (connections c)"
    by (auto dest: map_of_SomeD split: if_splits)
  then have "arm \<in> set (map snd (filter (\<lambda>(n, _). n = ''A'' \<or> n = ''B'') (connections c)))"
    by (force split: if_splits)
  ultimately show ?thesis by (auto simp: mux_arms_def)
qed

function follow_enable ::
  "module \<Rightarrow> bool \<Rightarrow> bit list list \<Rightarrow> bit list \<Rightarrow> (topology_error, bit list) result" where
  "follow_enable m enabled seen bits =
     (if bits \<in> set seen then Inl (Rejected ''cyclic RAM write logic'')
      else case filterE (mux_on m bits) (map snd (cells m)) of
        Inl e \<Rightarrow> Inl e
      | Inr [] \<Rightarrow> Inr bits
      | Inr (c # _) \<Rightarrow>
          (case lookup (connections c) (if enabled then ''B'' else ''A'') of
             Inl e \<Rightarrow> Inl e
           | Inr arm \<Rightarrow> follow_enable m enabled (seen @ [bits]) arm))"
  by pat_completeness auto
termination
proof (relation "measure (\<lambda>(m, _, seen, bits). 2 * card (set (mux_arms m) - set seen) +
    (if bits \<in> set (mux_arms m) then 0 else 1))", goal_cases)
  case (2 m enabled seen bits muxes c cs arm)
  then have arm: "arm \<in> set (mux_arms m)" by (intro mux_arm_member) auto
  show ?case
  proof (cases "bits \<in> set (mux_arms m)")
    case True
    with 2(1) have "card (set (mux_arms m) - set (seen @ [bits])) < card (set (mux_arms m) - set seen)"
      by (intro psubset_card_mono) auto
    with arm True show ?thesis by simp
  next
    case False
    then have "set (mux_arms m) - set (seen @ [bits]) = set (mux_arms m) - set seen" by auto
    with arm False show ?thesis by simp
  qed
qed simp

declare follow_enable.simps [simp del]

definition port_bits_of :: "module \<Rightarrow> string \<Rightarrow> (topology_error, bit list) result" where
  "port_bits_of m n = bindE (lookup (ports m) n) (\<lambda>p. Inr (port_bits p))"

definition parameter_one :: "cell \<Rightarrow> string \<Rightarrow> topology_error \<Rightarrow> (topology_error, unit) result" where
  "parameter_one c n err = bindE (lookup (parameters c) n) (\<lambda>t. bindE (binary_number t) (\<lambda>v. ensure (v = 1) err))"

definition follows :: "module \<Rightarrow> cell \<Rightarrow> string \<Rightarrow> bool \<Rightarrow> bit list \<Rightarrow> (topology_error, unit) result" where
  "follows m c n enabled expected =
     bindE (lookup (connections c) n) (\<lambda>bits.
     bindE (follow_enable m enabled [] bits) (\<lambda>reached.
     ensure (reached = expected) (Rejected ''state RAM accepted-write contract mismatch'')))"

definition check_write_contract :: "module \<Rightarrow> (topology_error, unit) result" where
  "check_write_contract m =
     (case filter (\<lambda>c. prefix ''$memwr'' (cell_type c)) (map snd (cells m)) of
        [write] \<Rightarrow>
          bindE (ensure (cell_type write = ''$memwr_v2'') (Rejected ''unsupported state RAM write implementation'')) (\<lambda>_.
          let clock = Rejected ''state RAM write clock mismatch'' in
          bindE (parameter_one write ''CLK_ENABLE'' clock) (\<lambda>_.
          bindE (parameter_one write ''CLK_POLARITY'' clock) (\<lambda>_.
          bindE (lookup (connections write) ''CLK'') (\<lambda>k.
          bindE (port_bits_of m ''clk'') (\<lambda>clk.
          bindE (ensure (k = clk) clock) (\<lambda>_.
          bindE (port_bits_of m ''wr_data'') (\<lambda>data.
          bindE (lookup (parameters write) ''MEMID'') (\<lambda>memid.
          bindE (port_bits_of m ''wr_addr'') (\<lambda>addr.
          bindE (ensure (case map_of (memories m) (dropWhile (\<lambda>c. c = CHR 0x5C) memid) of
                None \<Rightarrow> False
              | Some mem \<Rightarrow> memory_width mem = int (length data) \<and> memory_size mem = 2 ^ length addr \<and> start_offset mem = 0)
            (Rejected ''state RAM memory dimensions mismatch'')) (\<lambda>_.
          bindE (follows m write ''ADDR'' True addr) (\<lambda>_.
          bindE (follows m write ''DATA'' True data) (\<lambda>_.
          bindE (follows m write ''EN'' True (replicate (length data) (Constant ''1''))) (\<lambda>_.
          follows m write ''EN'' False (replicate (length data) (Constant ''0'')))))))))))))))
      | _ \<Rightarrow> Inl (Rejected ''unsupported state RAM write implementation''))"

section \<open>Observation sources\<close>

fun bit_length :: "nat \<Rightarrow> nat" where
  "bit_length n = (if n = 0 then 0 else Suc (bit_length (n div 2)))"

declare bit_length.simps [simp del]

text \<open>A source is the instance path, the width of the row address, the prefix taps and the observed values.\<close>

record source =
  source_path :: "string list"
  address_width :: nat
  enable_taps :: "bit list"
  source_values :: "bit list"

definition ram_port ::
  "module \<Rightarrow> module \<Rightarrow> string list \<Rightarrow> string \<times> string \<times> int \<Rightarrow> (topology_error, unit) result" where
  "ram_port ram flat path entry = (let (name, d, n) = entry in
     let err = Rejected (''state RAM port mismatch: '' @ join_on (CHR ''.'') path @ ''.'' @ name) in
     bindE (lookup (ports ram) name) (\<lambda>p.
     bindE (ensure (\<not> (direction p \<noteq> d \<or> int (length (port_bits p)) \<noteq> n)) err) (\<lambda>_.
     bindE (flat_bits flat path name) (\<lambda>bits. ensure (int (length bits) = n) err))))"

definition ram_source ::
  "bank \<Rightarrow> string list \<Rightarrow> module \<Rightarrow> hierarchy \<Rightarrow> module \<Rightarrow> bit \<Rightarrow> (topology_error, source) result" where
  "ram_source b root m mods flat clock_bit = (let aw = max 1 (bit_length (nat (slots b - 1))) in
     case bank_ram b of None \<Rightarrow> Inl Missing_Key | Some r \<Rightarrow>
     let path = root @ [r] in
     bindE (lookup (cells m) r) (\<lambda>c.
     bindE (lookup mods (cell_type c)) (\<lambda>ram.
     bindE (ensure ((if prefix [CHR 0x5C] (hdlname ram) then tl (hdlname ram) else hdlname ram) = ''hls_1r1w_ram'')
       (Rejected (''unsupported state RAM at '' @ join_on (CHR ''.'') path))) (\<lambda>_.
     bindE (check_write_contract ram) (\<lambda>_.
     bindE (checkE (ram_port ram flat path) [(''clk'', ''input'', 1), (''wr_en'', ''input'', 1),
        (''wr_addr'', ''input'', int aw), (''wr_data'', ''input'', width b)]) (\<lambda>_.
     bindE (flat_bits flat path ''clk'') (\<lambda>clk.
     bindE (ensure (clk = [clock_bit]) (Rejected ''state RAM is in a different clock domain'')) (\<lambda>_.
     bindE (flat_bits flat path ''wr_en'') (\<lambda>en.
     bindE (flat_bits flat path ''wr_addr'') (\<lambda>addr.
     bindE (flat_bits flat path ''wr_data'') (\<lambda>data.
     Inr \<lparr>source_path = path, address_width = aw, enable_taps = en @ addr, source_values = data\<rparr>)))))))))))"

text \<open>The generated output of an always-ready observation: the one instance that connects the port.\<close>

definition observation_port ::
  "cell \<Rightarrow> module \<Rightarrow> module \<Rightarrow> string list \<Rightarrow> topology_error \<Rightarrow> string \<times> string \<times> int \<Rightarrow> (topology_error, unit) result" where
  "observation_port c app flat path err entry = (let (signal, d, n) = entry in
     bindE (lookup (ports app) signal) (\<lambda>p.
     bindE (ensure (\<not> (direction p \<noteq> d \<or> int (length (port_bits p)) \<noteq> n)) err) (\<lambda>_.
     bindE (lookup (connections c) signal) (\<lambda>conn.
     bindE (ensure (int (length conn) = n) err) (\<lambda>_.
     bindE (flat_bits flat path signal) (\<lambda>bits. ensure (int (length bits) = n) err))))))"

definition observed_output ::
  "string \<Rightarrow> int \<Rightarrow> string list \<Rightarrow> module \<Rightarrow> hierarchy \<Rightarrow> module \<Rightarrow> bit \<Rightarrow> string \<Rightarrow> string \<Rightarrow>
   (topology_error, string list \<times> bit list \<times> bit list) result" where
  "observed_output p n root m mods flat clock_bit who what =
     (case filter (\<lambda>(_, c). p \<in> fst ` set (connections c)) (cells m) of
        [(name, c)] \<Rightarrow>
          bindE (lookup mods (cell_type c)) (\<lambda>app.
          let path = root @ [name] in
          bindE (checkE (observation_port c app flat path (Rejected (who @ '' observation port mismatch'')))
            [(p, ''output'', n), (p @ ''_vld'', ''output'', 1), (p @ ''_rdy'', ''input'', 1)]) (\<lambda>_.
          bindE (lookup (connections c) (p @ ''_rdy'')) (\<lambda>conn.
          bindE (flat_bits flat path (p @ ''_rdy'')) (\<lambda>ready.
          bindE (ensure (\<not> (conn \<noteq> [Constant ''1''] \<or> ready \<noteq> [Constant ''1'']))
            (Rejected (who @ '' observation output must always be ready''))) (\<lambda>_.
          bindE (flat_bits flat path ''clk'') (\<lambda>clk.
          bindE (ensure (clk = [clock_bit]) (Rejected (who @ '' observation clock mismatch''))) (\<lambda>_.
          bindE (flat_bits flat path (p @ ''_vld'')) (\<lambda>v.
          bindE (flat_bits flat path p) (\<lambda>values.
          Inr (path, v, values))))))))))
      | _ \<Rightarrow> Inl (Rejected (''expected one generated '' @ what @ '' observation output'')))"

definition direct_source ::
  "bank \<Rightarrow> string list \<Rightarrow> module \<Rightarrow> hierarchy \<Rightarrow> module \<Rightarrow> bit \<Rightarrow> (topology_error, source) result" where
  "direct_source b root m mods flat clock_bit =
     bindE (ensure (\<not> (slots b \<noteq> 1 \<or> bank_mailbox b = None \<or> bank_ram b \<noteq> None))
       (Rejected ''invalid direct actor observation provider'')) (\<lambda>_.
     case bank_port b of None \<Rightarrow> Inl Missing_Key | Some p \<Rightarrow>
     bindE (observed_output p (width b) root m mods flat clock_bit ''direct actor'' ''direct actor'') (\<lambda>(path, v, values).
     Inr \<lparr>source_path = path, address_width = 1, enable_taps = v @ [Constant ''0''], source_values = values\<rparr>))"

definition sampled_array_source ::
  "string \<Rightarrow> int \<Rightarrow> string list \<Rightarrow> module \<Rightarrow> hierarchy \<Rightarrow> module \<Rightarrow> bit \<Rightarrow> string \<Rightarrow> (topology_error, bit list) result" where
  "sampled_array_source p n root m mods flat clock_bit what =
     bindE (observed_output p n root m mods flat clock_bit what what) (\<lambda>(_, v, values). Inr (v @ values))"

definition mailbox_source ::
  "string \<Rightarrow> int \<Rightarrow> string list \<Rightarrow> module \<Rightarrow> hierarchy \<Rightarrow> module \<Rightarrow> bit \<Rightarrow> (topology_error, bit list) result" where
  "mailbox_source p n root m mods flat clock_bit =
     sampled_array_source p (24 * n) root m mods flat clock_bit ''mailbox''"

section \<open>Banks bound to their taps\<close>

record projection =
  projection_schema :: int
  shared_banks :: "bank list"
  direct_banks :: "bank list"

record bound_bank =
  bank :: bank
  bound_source :: source
  taps :: "bit list"

text \<open>\<open>[values[i] for i in selected]\<close>, an index out of range raising.\<close>

definition select_bits :: "bit list \<Rightarrow> nat list \<Rightarrow> (topology_error, bit list) result" where
  "select_bits values = mapE (\<lambda>i. if i < length values then Inr (values ! i) else Inl Missing_Key)"

definition slice :: "nat \<Rightarrow> nat \<Rightarrow> 'a list \<Rightarrow> 'a list" where
  "slice start n xs = take n (drop start xs)"

definition mailbox_taps ::
  "bool \<Rightarrow> bank \<Rightarrow> nat list \<Rightarrow> source \<Rightarrow> string list \<Rightarrow> module \<Rightarrow> hierarchy \<Rightarrow> module \<Rightarrow> bit \<Rightarrow>
   (topology_error, bit list) result" where
  "mailbox_taps is_direct b selected src root m mods flat clock_bit = (case bank_mailbox b of
       None \<Rightarrow> Inr []
     | Some mb \<Rightarrow>
         bindE (ensure (\<not> (mailbox_width mb \<noteq> 24 \<or> \<not> (1 \<le> mailbox_capacity mb \<and> mailbox_capacity mb \<le> 255) \<or>
              mailbox_kind mb \<noteq> (if is_direct then ''direct'' else ''shared''))) (Rejected ''invalid mailbox projection'')) (\<lambda>_.
         if is_direct then
           (case mailbox_offset mb of None \<Rightarrow> Inl Missing_Key | Some offset \<Rightarrow>
              bindE (ensure (\<not> (\<not> is_int offset \<or> \<not> (0 \<le> as_int offset \<and> as_int offset \<le> width b - 24) \<or>
                   list_ex (\<lambda>i. as_int offset \<le> int i \<and> int i < as_int offset + 24) selected \<or>
                   int (length selected) + 24 \<noteq> width b)) (Rejected ''invalid direct mailbox fields'')) (\<lambda>_.
              Inr (take 1 (enable_taps src) @ slice (nat (as_int offset)) 24 (source_values src))))
         else (case mailbox_port mb of None \<Rightarrow> Inl Missing_Key
              | Some p \<Rightarrow> mailbox_source p (slots b) root m mods flat clock_bit)))"

definition live_taps ::
  "int \<Rightarrow> bool \<Rightarrow> bank \<Rightarrow> string list \<Rightarrow> module \<Rightarrow> hierarchy \<Rightarrow> module \<Rightarrow> bit \<Rightarrow> (topology_error, bit list) result" where
  "live_taps version is_direct b root m mods flat clock_bit = (case bank_live b of
       None \<Rightarrow> Inr []
     | Some live \<Rightarrow>
         bindE (ensure (version = 5 \<and> \<not> is_direct \<and> (case bank_reduction b of None \<Rightarrow> False
              | Some r \<Rightarrow> live_width live = 26 + reduction_width r)) (Rejected ''invalid live actor state projection'')) (\<lambda>_.
         sampled_array_source (live_port live) (live_width live * slots b) root m mods flat clock_bit ''live actor''))"

definition bind_bank ::
  "projection \<Rightarrow> string list \<Rightarrow> module \<Rightarrow> hierarchy \<Rightarrow> module \<Rightarrow> bit \<Rightarrow> bound_bank list \<times> string list \<Rightarrow> nat \<times> bank \<Rightarrow>
   (topology_error, bound_bank list \<times> string list) result" where
  "bind_bank pj root m mods flat clock_bit st ib = (let (bound, keys) = st; (i, b) = ib;
       is_direct = (length (shared_banks pj) \<le> i) in
     bindE (ensure (bank_index b = int i) (Rejected ''actor bank indices must be contiguous'')) (\<lambda>_.
     bindE (ensure (\<not> (\<not> is_int (bank_slots b) \<or> slots b < 1 \<or> \<not> is_int (bank_width b) \<or>
          width b < (if is_direct then 49 else 33))) (Rejected ''invalid actor observation dimensions'')) (\<lambda>_.
     bindE (selected_fields b keys) (\<lambda>(selected, keys').
     bindE ((if is_direct then direct_source else ram_source) b root m mods flat clock_bit) (\<lambda>src.
     bindE (select_bits (source_values src) selected) (\<lambda>chosen.
     bindE (mailbox_taps is_direct b selected src root m mods flat clock_bit) (\<lambda>mb.
     bindE (live_taps (projection_schema pj) is_direct b root m mods flat clock_bit) (\<lambda>live.
     Inr (bound @ [\<lparr>bank = b, bound_source = src, taps = enable_taps src @ chosen @ mb @ live\<rparr>], keys')))))))))"

fun descend_into :: "hierarchy \<Rightarrow> module \<Rightarrow> string list \<Rightarrow> (topology_error, module) result" where
  "descend_into mods m [] = Inr m"
| "descend_into mods m (inst # path) =
     bindE (lookup (cells m) inst) (\<lambda>c. bindE (lookup mods (cell_type c)) (\<lambda>m'. descend_into mods m' path))"

definition discover_actors ::
  "projection \<Rightarrow> string list \<Rightarrow> hierarchy \<Rightarrow> module \<Rightarrow> string \<Rightarrow> bit \<Rightarrow> (topology_error, bound_bank list) result" where
  "discover_actors pj root mods flat top_name clock_bit =
     (let banks = shared_banks pj @ direct_banks pj in
      bindE (ensure (\<not> (projection_schema pj \<notin> {4, 5} \<or> banks = []))
        (Rejected ''expected a nonempty actor projection, schema 4 or 5'')) (\<lambda>_.
      bindE (lookup mods top_name) (\<lambda>top_module.
      bindE (descend_into mods top_module root) (\<lambda>m.
      bindE (foldE (bind_bank pj root m mods flat clock_bit) ([], []) (enumerate 0 banks)) (\<lambda>(bound, _).
      Inr bound)))))"

section \<open>Actor resources\<close>

record actor_resource =
  actor_id :: nat
  actor_of :: actor
  actor_width :: int
  actor_reduction :: "reduction option"
  actor_bank :: int
  actor_mailbox :: "(int \<times> string) option"
  actor_module :: string
  actor_phases :: "json list"
  actor_failures :: json

definition actor_resources :: "bound_bank list \<Rightarrow> nat \<Rightarrow> actor_resource list" where
  "actor_resources bound first =
     map (\<lambda>(i, b, a). \<lparr>actor_id = i, actor_of = a,
         actor_width = (case bank_reduction b of Some r \<Rightarrow> 56 + reduction_width r
           | None \<Rightarrow> if bank_mailbox b \<noteq> None then 56 else 26),
         actor_reduction = bank_reduction b, actor_bank = bank_index b,
         actor_mailbox = map_option (\<lambda>mb. (mailbox_capacity mb, mailbox_kind mb)) (bank_mailbox b),
         actor_module = bank_module b, actor_phases = bank_phases b, actor_failures = bank_failures b\<rparr>)
       (enumerate first (concat (map (\<lambda>bb. map (Pair (bank bb)) (bank_actors (bank bb))) bound)))"

end
