(* ===== verification/Topo_Resources.thy ===== *)
theory Topo_Resources
  imports Topo_Discover
begin

text \<open>
  The observed resources of \<open>tools/erl_hls_tools/topology_debug.py\<close>: queue occupancies that the checked XLS
  FIFO shapes register (\<open>fifo_resources\<close>), the numbered resources (\<open>resources_for\<close>) and the export of their
  bits as additional outputs of an otherwise unchanged module (\<open>export_probes\<close>).
\<close>

section \<open>Queue occupancies\<close>

record queue =
  queue_name :: string
  queue_path :: "string list"
  queue_module :: string
  queue_capacity :: nat
  queue_width :: nat
  queue_bits :: "bit list"
  queue_push :: nat
  queue_pop :: nat

record unsupported_queue =
  unsupported_path :: "string list"
  unsupported_module :: string

text \<open>\<open>any\<close> over conditions that may raise: the first true one ends it.\<close>

fun anyE :: "('a \<Rightarrow> ('e, bool) result) \<Rightarrow> 'a list \<Rightarrow> ('e, bool) result" where
  "anyE f [] = Inr False"
| "anyE f (x # xs) = bindE (f x) (\<lambda>b. if b then Inr True else anyE f xs)"

text \<open>The register of the occupancy: a flip-flop driving it on the rising edge of the module's clock.\<close>

definition registers :: "module \<Rightarrow> bit list \<Rightarrow> cell \<Rightarrow> (topology_error, bool) result" where
  "registers m slots c =
     (if cell_type c \<noteq> ''$dff'' then Inr False
      else bindE (lookup (connections c) ''Q'') (\<lambda>q.
        if q \<noteq> slots then Inr False
        else bindE (lookup (connections c) ''CLK'') (\<lambda>k.
          bindE (lookup (ports m) ''clk'') (\<lambda>clk.
          if k \<noteq> port_bits clk then Inr False
          else bindE (lookup (parameters c) ''CLK_POLARITY'') (\<lambda>pol.
            bindE (binary_number pol) (\<lambda>n. Inr (n = 1)))))))"

text \<open>\<open>int("".join(reversed(bits)), 2)\<close> on constant bits, least significant first.\<close>

definition is_binary :: "bit \<Rightarrow> bool" where
  "is_binary b \<longleftrightarrow> b = Constant ''0'' \<or> b = Constant ''1''"

definition constant_value :: "bit list \<Rightarrow> (topology_error, nat) result" where
  "constant_value bs = (if bs = [] then Inl Bad_Number
     else Inr (foldr (\<lambda>b n. 2 * n + (if b = Constant ''1'' then 1 else 0)) bs 0))"

text \<open>The full predicate: an equality of the occupancy with the constant capacity.\<close>

definition compares ::
  "bit list \<Rightarrow> bit list \<Rightarrow> nat \<Rightarrow> bool \<Rightarrow> cell \<Rightarrow> (topology_error, bool) result" where
  "compares slots full capacity compared c =
     (if cell_type c \<noteq> ''$eq'' then Inr compared
      else bindE (lookup (connections c) ''Y'') (\<lambda>y.
        if y \<noteq> full then Inr compared
        else bindE (lookup (connections c) ''A'') (\<lambda>a0.
          bindE (lookup (connections c) ''B'') (\<lambda>b0.
          let (a, b) = (if b0 = slots then (b0, a0) else (a0, b0)) in
          if a = slots \<and> list_all is_binary b
          then bindE (constant_value b) (\<lambda>n. Inr (compared \<or> n = capacity))
          else Inr compared))))"

definition channel_at ::
  "(bit \<times> bit, nat) dict \<Rightarrow> module \<Rightarrow> string list \<Rightarrow> string \<Rightarrow> (topology_error, nat) result" where
  "channel_at ids flat path st =
     bindE (flat_bit flat path (st @ ''_valid'')) (\<lambda>v.
     bindE (flat_bit flat path (st @ ''_ready'')) (\<lambda>r.
     case map_of ids (v, r) of None \<Rightarrow> Inl Missing_Key | Some i \<Rightarrow> Inr i))"

definition fifo_queue ::
  "(bit \<times> bit, nat) dict \<Rightarrow> module \<Rightarrow> inst \<Rightarrow> nat \<Rightarrow> (topology_error, queue) result" where
  "fifo_queue ids flat i capacity = (let (path, name, m) = i;
       get = (\<lambda>n. case map_of (netnames m) n of None \<Rightarrow> [] | Some bs \<Rightarrow> bs);
       slots = get ''slots''; full = get ''is_full_bool''; cs = map snd (cells m) in
     bindE (anyE (registers m slots) cs) (\<lambda>registered.
     bindE (foldE (compares slots full capacity) (capacity = 1 \<and> length slots = 1 \<and> full = slots) cs) (\<lambda>compared.
     bindE (ensure (0 < length slots \<and> length slots \<le> 32 \<and> registered \<and> compared)
       (Rejected (''unrecognized XLS FIFO occupancy at '' @ join_on (CHR ''/'') path))) (\<lambda>_.
     bindE (flat_bits flat path ''slots'') (\<lambda>occupancy.
     bindE (channel_at ids flat path ''push'') (\<lambda>push.
     bindE (channel_at ids flat path ''pop'') (\<lambda>pop.
     Inr \<lparr>queue_name = join_on (CHR ''/'') path, queue_path = path, queue_module = name,
        queue_capacity = capacity, queue_width = length slots, queue_bits = occupancy,
        queue_push = push, queue_pop = pop\<rparr>)))))))"

definition fifo_at ::
  "(bit \<times> bit, nat) dict \<Rightarrow> module \<Rightarrow> queue list \<times> unsupported_queue list \<Rightarrow> (topology_error, inst) result \<Rightarrow>
   (topology_error, queue list \<times> unsupported_queue list) result" where
  "fifo_at ids flat st item = (let (queues, unsupported) = st in
     bindE item (\<lambda>(path, name, m).
     if \<not> prefix ''fifo_for_depth_'' name then Inr st
     else case fifo_depth name of
       None \<Rightarrow> Inr (queues, unsupported @ [\<lparr>unsupported_path = path, unsupported_module = name\<rparr>])
     | Some digits \<Rightarrow>
         if read_nat digits = 0 then Inr st
         else bindE (fifo_queue ids flat (path, name, m) (read_nat digits)) (\<lambda>q.
           Inr (queues @ [q], unsupported))))"

definition channel_ids :: "probe list \<Rightarrow> (bit \<times> bit, nat) dict" where
  "channel_ids ps = map (\<lambda>(k, p). (k, probe_id p)) (dict_of (\<lambda>p. (valid_bit p, ready_bit p)) ps)"

definition fifo_resources ::
  "hierarchy \<Rightarrow> hierarchy \<Rightarrow> string \<Rightarrow> probe list \<Rightarrow>
   (topology_error, queue list \<times> unsupported_queue list) result" where
  "fifo_resources mods flat_design top_name ps =
     bindE (lookup flat_design top_name) (\<lambda>flat.
     foldE (fifo_at (channel_ids ps) flat) ([], []) (descendants mods top_name))"

section \<open>Numbered resources\<close>

datatype physical = Channel | Fifo queue

record resource =
  resource_id :: nat
  resource_name :: string
  resource_width :: nat
  resource_bits :: "bit list"
  physical :: physical

definition resources_for :: "probe list \<Rightarrow> queue list \<Rightarrow> resource list" where
  "resources_for ps qs =
     foldl (\<lambda>rs q. rs @ [\<lparr>resource_id = length rs, resource_name = queue_name q, resource_width = queue_width q,
        resource_bits = queue_bits q, physical = Fifo q\<rparr>])
       (map (\<lambda>p. \<lparr>resource_id = probe_id p, resource_name = probe_name p, resource_width = 2,
          resource_bits = [valid_bit p, ready_bit p], physical = Channel\<rparr>) ps)
       (sort_key queue_name qs)"

section \<open>Export\<close>

text \<open>\<open>["0"] * k\<close> is empty for a negative \<open>k\<close>, as truncated subtraction makes it.\<close>

definition padded_bits :: "resource \<Rightarrow> bit list" where
  "padded_bits r = resource_bits r @ replicate (64 - resource_width r) (Constant ''0'')"

definition add_output :: "module \<Rightarrow> string \<times> bit list \<Rightarrow> (topology_error, module) result" where
  "add_output m nb = (let (name, bits) = nb in
     bindE (ensure (\<not> (name \<in> fst ` set (ports m) \<or> name \<in> fst ` set (netnames m)))
       (Rejected (''reserved probe name already exists: '' @ name))) (\<lambda>_.
     Inr (m\<lparr>ports := ports m @ [(name, \<lparr>direction = ''output'', port_bits = bits\<rparr>)],
            netnames := netnames m @ [(name, bits)]\<rparr>)))"

definition export_probes ::
  "hierarchy \<Rightarrow> string \<Rightarrow> resource list \<Rightarrow> string \<Rightarrow> bit list list \<Rightarrow> (topology_error, hierarchy) result" where
  "export_probes flat_design top_name rs output_top bank_taps =
     bindE (lookup flat_design top_name) (\<lambda>m.
     bindE (foldE add_output m ((''hls_probe_values'', concat (map padded_bits rs)) #
        (if bank_taps = [] then [] else [(''hls_actor_writes'', concat bank_taps)]))) (\<lambda>m'.
     Inr [(output_top, m')]))"

section \<open>What a queue's occupancy is\<close>

lemma anyE_True: "anyE f xs = Inr True \<Longrightarrow> \<exists>x\<in>set xs. f x = Inr True"
  by (induction xs) (auto simp: bindE_Inr split: if_splits)

definition occupancy_register :: "module \<Rightarrow> bit list \<Rightarrow> cell \<Rightarrow> bool" where
  "occupancy_register m slots c \<longleftrightarrow> cell_type c = ''$dff'' \<and> map_of (connections c) ''Q'' = Some slots \<and>
     (\<exists>clk pol. map_of (ports m) ''clk'' = Some clk \<and> map_of (connections c) ''CLK'' = Some (port_bits clk) \<and>
        map_of (parameters c) ''CLK_POLARITY'' = Some pol \<and> binary_number pol = Inr 1)"

definition full_comparison :: "bit list \<Rightarrow> bit list \<Rightarrow> nat \<Rightarrow> cell \<Rightarrow> bool" where
  "full_comparison slots full capacity c \<longleftrightarrow> cell_type c = ''$eq'' \<and> map_of (connections c) ''Y'' = Some full \<and>
     (\<exists>b. list_all is_binary b \<and> constant_value b = Inr capacity \<and>
        (map_of (connections c) ''A'' = Some slots \<and> map_of (connections c) ''B'' = Some b \<or>
         map_of (connections c) ''A'' = Some b \<and> map_of (connections c) ''B'' = Some slots))"

lemma registers_True: "registers m slots c = Inr True \<longleftrightarrow> occupancy_register m slots c"
  by (auto simp: registers_def occupancy_register_def bindE_Inr)

lemma compares_step:
  assumes "compares slots full capacity compared c = Inr compared'"
  shows "compared' \<longleftrightarrow> compared \<or> compared' \<and> full_comparison slots full capacity c" and "compared \<Longrightarrow> compared'"
  using assms by (auto simp: compares_def full_comparison_def bindE_Inr Let_def split: if_splits)

lemma compares_fold:
  "foldE (compares slots full capacity) compared cs = Inr True \<Longrightarrow>
   compared \<or> (\<exists>c\<in>set cs. full_comparison slots full capacity c)"
proof (induction cs arbitrary: compared)
  case (Cons c cs)
  then obtain b where "compares slots full capacity compared c = Inr b"
    "foldE (compares slots full capacity) b cs = Inr True" by (auto simp: bindE_Inr)
  with Cons.IH[of b] compares_step[of slots full capacity compared c b] show ?case by auto
qed simp

definition probed :: "module \<Rightarrow> probe list \<Rightarrow> string list \<Rightarrow> string \<Rightarrow> nat \<Rightarrow> bool" where
  "probed flat ps path st k \<longleftrightarrow> (\<exists>p\<in>set ps. probe_id p = k \<and>
     flat_bit flat path (st @ ''_valid'') = Inr (valid_bit p) \<and> flat_bit flat path (st @ ''_ready'') = Inr (ready_bit p))"

lemma dict_of_member: "(k, x) \<in> set (dict_of key xs) \<Longrightarrow> x \<in> set xs \<and> key x = k"
proof -
  have "(k, x) \<in> set (fold (\<lambda>x d. AList.update (key x) x d) xs d) \<Longrightarrow>
      (\<forall>(k, x)\<in>set d. x \<in> S \<and> key x = k) \<Longrightarrow> set xs \<subseteq> S \<Longrightarrow> x \<in> S \<and> key x = k" for d S
  proof (induction xs arbitrary: d)
    case (Cons y xs)
    have "set (AList.update (key y) y d) \<subseteq> insert (key y, y) (set d)"
      by (induction d) auto
    with Cons.prems(2,3) have "\<forall>(k, x)\<in>set (AList.update (key y) y d). x \<in> S \<and> key x = k" by fastforce
    with Cons.IH[of "AList.update (key y) y d"] Cons.prems show ?case by simp
  qed auto
  from this[of "[]" "set xs"] show "(k, x) \<in> set (dict_of key xs) \<Longrightarrow> x \<in> set xs \<and> key x = k"
    by (simp add: dict_of_def)
qed

lemma channel_ids_probe:
  assumes "map_of (channel_ids ps) (v, r) = Some k"
  shows "\<exists>p\<in>set ps. probe_id p = k \<and> valid_bit p = v \<and> ready_bit p = r"
proof -
  from assms obtain p where "((v, r), p) \<in> set (dict_of (\<lambda>p. (valid_bit p, ready_bit p)) ps)" "probe_id p = k"
    by (auto simp: channel_ids_def dest!: map_of_SomeD)
  with dict_of_member show ?thesis by fastforce
qed

lemma channel_at_probed:
  assumes "channel_at (channel_ids ps) flat path st = Inr k"
  shows "probed flat ps path st k"
proof -
  from assms obtain v r where "flat_bit flat path (st @ ''_valid'') = Inr v" "flat_bit flat path (st @ ''_ready'') = Inr r"
    "map_of (channel_ids ps) (v, r) = Some k"
    by (auto simp: channel_at_def bindE_Inr split: option.splits)
  with channel_ids_probe show ?thesis unfolding probed_def by metis
qed

definition bits_of :: "module \<Rightarrow> string \<Rightarrow> bit list" where
  "bits_of m n = (case map_of (netnames m) n of None \<Rightarrow> [] | Some bs \<Rightarrow> bs)"

text \<open>What a reported queue is, for the instance it stands for.\<close>

definition queue_of :: "module \<Rightarrow> probe list \<Rightarrow> inst \<Rightarrow> queue \<Rightarrow> bool" where
  "queue_of flat ps i q \<longleftrightarrow> (let (path, name, m) = i; slots = bits_of m ''slots''; full = bits_of m ''is_full_bool'' in
     queue_path q = path \<and> queue_module q = name \<and>
     (\<exists>digits. fifo_depth name = Some digits \<and> queue_capacity q = read_nat digits) \<and> 0 < queue_capacity q \<and>
     queue_width q = length slots \<and> 0 < queue_width q \<and> queue_width q \<le> 32 \<and>
     (\<exists>c\<in>snd ` set (cells m). occupancy_register m slots c) \<and>
     (queue_capacity q = 1 \<and> length slots = 1 \<and> full = slots \<or>
      (\<exists>c\<in>snd ` set (cells m). full_comparison slots full (queue_capacity q) c)) \<and>
     flat_bits flat path ''slots'' = Inr (queue_bits q) \<and>
     probed flat ps path ''push'' (queue_push q) \<and> probed flat ps path ''pop'' (queue_pop q))"

lemma fifo_queue_correct:
  assumes "fifo_queue (channel_ids ps) flat (path, name, m) capacity = Inr q"
    and "fifo_depth name = Some digits" and "capacity = read_nat digits" and "capacity \<noteq> 0"
  shows "queue_of flat ps (path, name, m) q"
proof -
  let ?slots = "bits_of m ''slots''" and ?full = "bits_of m ''is_full_bool''" and ?cs = "map snd (cells m)"
  obtain registered compared occ push pop where
    r: "anyE (registers m ?slots) ?cs = Inr registered"
    and c: "foldE (compares ?slots ?full capacity) (capacity = 1 \<and> length ?slots = 1 \<and> ?full = ?slots) ?cs = Inr compared"
    and ok: "0 < length ?slots" "length ?slots \<le> 32" registered compared
    and rest: "flat_bits flat path ''slots'' = Inr occ" "channel_at (channel_ids ps) flat path ''push'' = Inr push"
      "channel_at (channel_ids ps) flat path ''pop'' = Inr pop"
    and q: "q = \<lparr>queue_name = join_on (CHR ''/'') path, queue_path = path, queue_module = name,
        queue_capacity = capacity, queue_width = length ?slots, queue_bits = occ, queue_push = push, queue_pop = pop\<rparr>"
    using assms(1) unfolding fifo_queue_def Let_def prod.case bindE_Inr ensure_Inr bits_of_def[symmetric] by blast
  from r ok(3) have "anyE (registers m ?slots) ?cs = Inr True" by simp
  from anyE_True[OF this] have reg: "\<exists>c\<in>snd ` set (cells m). occupancy_register m ?slots c"
    by (simp add: registers_True)
  from c ok(4) have "foldE (compares ?slots ?full capacity) (capacity = 1 \<and> length ?slots = 1 \<and> ?full = ?slots) ?cs = Inr True"
    by simp
  from compares_fold[OF this] have cmp: "capacity = 1 \<and> length ?slots = 1 \<and> ?full = ?slots \<or>
      (\<exists>c\<in>snd ` set (cells m). full_comparison ?slots ?full capacity c)" by simp
  show ?thesis
    unfolding queue_of_def Let_def prod.case q queue.simps
    using cmp reg ok(1,2) rest(1) channel_at_probed[OF rest(2)] channel_at_probed[OF rest(3)] assms(2-4)
    by (intro conjI) (assumption | simp)+
qed

text \<open>The loop over the instances.\<close>

definition stateful :: "inst \<Rightarrow> bool" where
  "stateful i \<longleftrightarrow> (let (path, name, m) = i in case fifo_depth name of None \<Rightarrow> False | Some d \<Rightarrow> read_nat d \<noteq> 0)"

lemma fifo_depth_prefix: "fifo_depth name = Some d \<Longrightarrow> prefix ''fifo_for_depth_'' name"
  by (auto simp: fifo_depth_def Let_def split: if_splits)

lemma fifo_at_step:
  assumes "fifo_at (channel_ids ps) flat st item = Inr st'"
  shows "\<exists>i. item = Inr i \<and>
    (if stateful i then \<exists>q. queue_of flat ps i q \<and> fst st' = fst st @ [q] else fst st' = fst st)"
proof -
  obtain queues uns where st: "st = (queues, uns)" by fastforce
  from assms obtain path name m where item: "item = Inr (path, name, m)"
    by (cases item) (auto simp: fifo_at_def st)
  with assms have rest: "(if \<not> prefix ''fifo_for_depth_'' name then Inr (queues, uns)
     else case fifo_depth name of
       None \<Rightarrow> Inr (queues, uns @ [\<lparr>unsupported_path = path, unsupported_module = name\<rparr>])
     | Some digits \<Rightarrow>
         if read_nat digits = 0 then Inr (queues, uns)
         else bindE (fifo_queue (channel_ids ps) flat (path, name, m) (read_nat digits)) (\<lambda>q.
           Inr (queues @ [q], uns))) = Inr st'"
    by (simp only: fifo_at_def st Let_def prod.case bindE_simps)
  show ?thesis
  proof (cases "stateful (path, name, m)")
    case True
    then obtain d where d: "fifo_depth name = Some d" "read_nat d \<noteq> 0"
      by (auto simp: stateful_def split: option.splits)
    with rest fifo_depth_prefix[OF d(1)] obtain q where
      "fifo_queue (channel_ids ps) flat (path, name, m) (read_nat d) = Inr q" "st' = (queues @ [q], uns)"
      by (auto simp: bindE_Inr)
    with fifo_queue_correct[OF _ d(1) refl] d(2) True item show ?thesis by (auto simp: st)
  next
    case False
    with rest item show ?thesis
      by (auto simp: stateful_def st split: if_splits option.splits)
  qed
qed

lemma fifo_fold:
  "foldE (fifo_at (channel_ids ps) flat) st items = Inr st' \<Longrightarrow>
   \<exists>insts qs. items = map Inr insts \<and> fst st' = fst st @ qs \<and> list_all2 (queue_of flat ps) (filter stateful insts) qs"
proof (induction items arbitrary: st)
  case (Cons item items)
  then obtain u where u: "fifo_at (channel_ids ps) flat st item = Inr u"
    "foldE (fifo_at (channel_ids ps) flat) u items = Inr st'" by (auto simp: bindE_Inr)
  from Cons.IH[OF u(2)] obtain insts qs where I: "items = map Inr insts" "fst st' = fst u @ qs"
    "list_all2 (queue_of flat ps) (filter stateful insts) qs" by blast
  from fifo_at_step[OF u(1)] obtain i where i: "item = Inr i"
    "if stateful i then \<exists>q. queue_of flat ps i q \<and> fst u = fst st @ [q] else fst u = fst st" by blast
  show ?case
  proof (cases "stateful i")
    case True
    with i(2) obtain q where "queue_of flat ps i q" "fst u = fst st @ [q]" by auto
    with I i(1) True show ?thesis by (intro exI[of _ "i # insts"] exI[of _ "q # qs"]) simp
  next
    case False
    with I i show ?thesis by (intro exI[of _ "i # insts"] exI[of _ qs]) simp
  qed
qed simp

section \<open>Layout of the probe bus\<close>

lemma concat_chunk:
  assumes "\<forall>x\<in>set xs. length x = n" and "i < length xs"
  shows "take n (drop (n * i) (concat xs)) = xs ! i"
  using assms
proof (induction xs arbitrary: i)
  case (Cons x xs)
  then show ?case by (cases i) simp_all
qed simp

lemma resources_for_nth:
  assumes "map probe_id ps = [0..<length ps]"
  shows "map resource_id (resources_for ps qs) = [0..<length ps + length qs]"
    and "resources_for ps qs = map (\<lambda>p. \<lparr>resource_id = probe_id p, resource_name = probe_name p, resource_width = 2,
          resource_bits = [valid_bit p, ready_bit p], physical = Channel\<rparr>) ps @
        map (\<lambda>(i, q). \<lparr>resource_id = i, resource_name = queue_name q, resource_width = queue_width q,
          resource_bits = queue_bits q, physical = Fifo q\<rparr>) (enumerate (length ps) (sort_key queue_name qs))"
proof -
  let ?r = "\<lambda>i q. \<lparr>resource_id = i, resource_name = queue_name q, resource_width = queue_width q,
      resource_bits = queue_bits q, physical = Fifo q\<rparr>"
  have fold: "foldl (\<lambda>rs q. rs @ [?r (length rs) q]) rs xs = rs @ map (\<lambda>(i, q). ?r i q) (enumerate (length rs) xs)" for rs xs
    by (induction xs arbitrary: rs) simp_all
  show eq: "resources_for ps qs = map (\<lambda>p. \<lparr>resource_id = probe_id p, resource_name = probe_name p, resource_width = 2,
          resource_bits = [valid_bit p, ready_bit p], physical = Channel\<rparr>) ps @
        map (\<lambda>(i, q). ?r i q) (enumerate (length ps) (sort_key queue_name qs))"
    unfolding resources_for_def fold by simp
  have "map resource_id (resources_for ps qs) = map probe_id ps @ map fst (enumerate (length ps) (sort_key queue_name qs))"
    unfolding eq by (simp add: comp_def split_beta)
  then show "map resource_id (resources_for ps qs) = [0..<length ps + length qs]"
    by (simp add: assms upt_add_eq_append[of 0 "length ps" "length qs"])
qed

lemma add_output_Inr:
  "add_output m (n, bs) = Inr m' \<longleftrightarrow> n \<notin> fst ` set (ports m) \<and> n \<notin> fst ` set (netnames m) \<and>
     m' = m\<lparr>ports := ports m @ [(n, \<lparr>direction = ''output'', port_bits = bs\<rparr>)], netnames := netnames m @ [(n, bs)]\<rparr>"
  by (auto simp: add_output_def bindE_Inr)

text \<open>An exported module is the application's with outputs added that it did not have.\<close>

definition only_outputs_added :: "module \<Rightarrow> module \<Rightarrow> (string \<times> bit list) list \<Rightarrow> bool" where
  "only_outputs_added m m' outs \<longleftrightarrow>
     m' = m\<lparr>ports := ports m @ map (\<lambda>(n, bs). (n, \<lparr>direction = ''output'', port_bits = bs\<rparr>)) outs,
            netnames := netnames m @ outs\<rparr> \<and>
     distinct (map fst outs) \<and> fst ` set outs \<inter> (fst ` set (ports m) \<union> fst ` set (netnames m)) = {}"

lemma add_outputs:
  "foldE add_output m outs = Inr m' \<Longrightarrow> only_outputs_added m m' outs"
proof (induction outs arbitrary: m)
  case (Cons o1 outs)
  obtain n bs where o1: "o1 = (n, bs)" by fastforce
  with Cons.prems obtain u where u: "add_output m (n, bs) = Inr u" "foldE add_output u outs = Inr m'"
    by (auto simp: bindE_Inr)
  let ?p = "\<lambda>(n, bs). (n, \<lparr>direction = ''output'', port_bits = bs\<rparr>)"
  from u(1) have new: "n \<notin> fst ` set (ports m)" "n \<notin> fst ` set (netnames m)"
    and u': "ports u = ports m @ [?p (n, bs)]" "netnames u = netnames m @ [(n, bs)]"
      "u = m\<lparr>ports := ports u, netnames := netnames u\<rparr>"
    by (simp_all add: add_output_Inr)
  from Cons.IH[OF u(2)] have I: "m' = u\<lparr>ports := ports u @ map ?p outs, netnames := netnames u @ outs\<rparr>"
    "distinct (map fst outs)" "fst ` set outs \<inter> (fst ` set (ports u) \<union> fst ` set (netnames u)) = {}"
    unfolding only_outputs_added_def by blast+
  have "m' = m\<lparr>ports := ports m @ map ?p ((n, bs) # outs), netnames := netnames m @ (n, bs) # outs\<rparr>"
    unfolding I(1) u'(1,2) by (subst u'(3)) simp
  moreover have "n \<notin> fst ` set outs" "fst ` set outs \<inter> (fst ` set (ports m) \<union> fst ` set (netnames m)) = {}"
    using I(3) unfolding u'(1,2) by auto
  ultimately show ?case
    using new I(2) unfolding o1 only_outputs_added_def by simp
qed (simp add: only_outputs_added_def)

lemma export_probes_Inr:
  assumes "export_probes flat_design top_name rs output_top bank_taps = Inr ex"
  shows "\<exists>m m'. map_of flat_design top_name = Some m \<and> ex = [(output_top, m')] \<and>
    only_outputs_added m m' ((''hls_probe_values'', concat (map padded_bits rs)) #
      (if bank_taps = [] then [] else [(''hls_actor_writes'', concat bank_taps)]))"
  using assms add_outputs unfolding export_probes_def bindE_Inr lookup_Inr by blast

end
