(* ===== verification/Topo_Wrapper.thy ===== *)
theory Topo_Wrapper
  imports Topo_Actors Topo_Resources
begin

text \<open>
  The generated Verilog of the actor snapshots and of the query multiplexer (\<open>wrapper\<close> and
  \<open>live_state_wrapper\<close> of \<open>tools/erl_hls_tools/topology_debug_actors.py\<close>). The numbers that a bank's text
  holds are its view.
\<close>

section \<open>Views of the banks\<close>

record view =
  view_bank :: bound_bank
  view_offset :: nat
  view_resource :: nat

definition bank_count :: "bound_bank \<Rightarrow> nat" where
  "bank_count bb = nat (slots (bank bb))"

text \<open>\<open>offset\<close> and \<open>resource\<close> of the loop over the banks.\<close>

fun views :: "nat \<Rightarrow> nat \<Rightarrow> bound_bank list \<Rightarrow> view list" where
  "views offset resource [] = []"
| "views offset resource (bb # bbs) =
     \<lparr>view_bank = bb, view_offset = offset, view_resource = resource\<rparr> #
     views (offset + length (taps bb)) (resource + bank_count bb) bbs"

definition row_width :: "view \<Rightarrow> nat" where
  "row_width v = address_width (bound_source (view_bank v))"

definition write_width :: "view \<Rightarrow> nat" where
  "write_width v = 25 + nat (ram_reduction_width (bank (view_bank v)))"

definition mailbox_position :: "view \<Rightarrow> nat" where
  "mailbox_position v = view_offset v + 1 + row_width v + write_width v"

definition has_mailbox :: "view \<Rightarrow> bool" where
  "has_mailbox v \<longleftrightarrow> bank_mailbox (bank (view_bank v)) \<noteq> None"

definition live_position :: "view \<Rightarrow> nat" where
  "live_position v = mailbox_position v + (if has_mailbox v then 1 + 24 * bank_count (view_bank v) else 0)"

definition row_base :: "view \<Rightarrow> nat" where
  "row_base v = view_resource v mod 2 ^ row_width v"

section \<open>Text\<close>

definition nl :: string where "nl = [CHR 0x0A]"

definition escaped :: "string \<Rightarrow> string" where
  "escaped n = CHR 0x5C # n @ '' ''"

definition reset_term :: "bool \<Rightarrow> string \<Rightarrow> string" where
  "reset_term active_low reset = (if active_low then ''!'' else []) @ escaped reset"

definition tap :: "nat \<Rightarrow> string" where
  "tap n = ''actor_writes['' @ show_nat n @ '']''"

definition tap_slice :: "nat \<Rightarrow> nat \<Rightarrow> string" where
  "tap_slice n w = ''actor_writes['' @ show_nat n @ '' +: '' @ show_nat w @ '']''"

fun join_text :: "string \<Rightarrow> string list \<Rightarrow> string" where
  "join_text sep [] = []"
| "join_text sep [w] = w"
| "join_text sep (w # ws) = w @ sep @ join_text sep ws"

definition live_payload :: "bank \<Rightarrow> reduction \<Rightarrow> string" where
  "live_payload b r = (let row = ''actor_live_row_'' @ show_int (bank_index b) in
     if live_collection b
     then join_text '', '' (map (\<lambda>f. row @ ''['' @ show_int (as_int (the (live_offset f))) @ '' +: '' @
         show_int (as_int (field_width f)) @ '']'')
       (rev (sort_key (\<lambda>f. as_int (observation_offset f)) (rev (map snd (reduction_fields r))))))
     else row @ ''[26 +: '' @ show_int (reduction_width r) @ '']'')"

text \<open>The live rows of a bank replace the RAM's value except for its mailbox bits.\<close>

definition live_state_wrapper :: "bank \<Rightarrow> reduction \<Rightarrow> live_state \<Rightarrow> nat \<Rightarrow> string \<Rightarrow> string \<Rightarrow> bool \<Rightarrow> string" where
  "live_state_wrapper b r live start clock reset active_low =
     (let i = show_int (bank_index b); count = show_int (slots b); w = live_width live; total = show_int (slots b * w) in
      ''reg ['' @ show_int (slots b * w - 1) @ '':0] actor_live_'' @ i @ '';'' @ nl @
      ''always @(posedge '' @ escaped clock @ '') begin'' @ nl @
      ''  if ('' @ reset_term active_low reset @ '') actor_live_'' @ i @ '' <= 0;'' @ nl @
      ''  else if ('' @ tap start @ '') actor_live_'' @ i @ '' <= actor_writes['' @ show_nat (start + 1) @ '' +: '' @ total @ ''];'' @ nl @
      ''end'' @ nl @
      ''wire ['' @ show_int (w - 1) @ '':0] actor_live_row_'' @ i @ '' = actor_live_'' @ i @ ''[actor_address_'' @ i @ ''*'' @
        show_int w @ '' +: '' @ show_int w @ ''];'' @ nl @
      ''assign actor_value_'' @ i @ '' = actor_address_'' @ i @ '' < '' @ count @ '' && actor_live_row_'' @ i @ ''[25] ?'' @ nl @
      ''  {{('' @ show_int (72 - reduction_width r) @ ''){1'b0}}, '' @ live_payload b r @ '', '' @
      ''actor_ram_value_'' @ i @ ''[55:32], 6'b0, actor_live_row_'' @ i @ ''[25:0]} : 128'b0;'' @ nl)"

definition bank_lines :: "string \<Rightarrow> string \<Rightarrow> bool \<Rightarrow> view \<Rightarrow> string" where
  "bank_lines clock reset active_low v =
     (let bb = view_bank v; b = bank bb; i = show_int (bank_index b); aw = row_width v; at = view_offset v;
          rw = show_int (ram_reduction_width b); mb = has_mailbox v in
      (if bank_live b \<noteq> None then ''wire [127:0] actor_ram_value_'' @ i @ '';'' @ nl else []) @
      ''wire ['' @ show_int (int aw - 1) @ '':0] actor_address_'' @ i @ '' = probe_address['' @ show_int (int aw - 1) @ '':0] - '' @
        show_nat aw @ [CHR 0x27] @ ''d'' @ show_nat (row_base v) @ '';'' @ nl @
      ''wire [127:0] actor_value_'' @ i @ '';'' @ nl @
      ''hls_actor_snapshot #(.SLOTS('' @ show_int (slots b) @ ''), .ADDRESS_WIDTH('' @ show_nat aw @ ''), .MAILBOX('' @
        (if mb then ''1'' else ''0'') @ ''), .REDUCTION_WIDTH('' @ rw @ '')) snapshot_'' @ i @ '' (.clk('' @ escaped clock @
        ''), .reset('' @ reset_term active_low reset @ ''), .write_enable('' @ tap at @ ''), .write_address('' @ tap_slice (at + 1) aw @
        ''), .write_value('' @ tap_slice (at + 1 + aw) (write_width v) @ ''), .mailbox_valid('' @
        (if mb then tap (mailbox_position v) else ''1'b0'') @ ''), .mailbox_values('' @
        (if mb then tap_slice (mailbox_position v + 1) (24 * bank_count bb) else [CHR 0x27, CHR ''0'']) @
        ''), .read_address(actor_address_'' @ i @ ''), .value('' @
        (if bank_live b \<noteq> None then ''actor_ram_value_'' else ''actor_value_'') @ i @ ''));'' @ nl @
      (case (bank_live b, bank_reduction b) of
         (Some live, Some r) \<Rightarrow> live_state_wrapper b r live (live_position v) clock reset active_low
       | _ \<Rightarrow> []))"

text \<open>The condition under which a query reads a bank's row.\<close>

definition bank_choice :: "view \<Rightarrow> string" where
  "bank_choice v = (let first = view_resource v in
     ''(probe_address >= 32'd'' @ show_nat first @ '' && probe_address < 32'd'' @ show_nat (first + bank_count (view_bank v)) @
     '' ? actor_value_'' @ show_int (bank_index (bank (view_bank v))) @ '' : 128'b0)'')"

definition actor_wrapper :: "bound_bank list \<Rightarrow> nat \<Rightarrow> string \<Rightarrow> string \<Rightarrow> bool \<Rightarrow> string" where
  "actor_wrapper bbs first clock reset active_low =
     (let vs = views 0 first bbs in
      ''wire [31:0] probe_address;'' @ nl @ ''wire [127:0] probe_value;'' @ nl @
      concat (map (bank_lines clock reset active_low) vs) @
      ''assign probe_value = '' @ join_text ('' |'' @ nl @ ''    '')
        ((''(probe_address < 32'd'' @ show_nat first @ '' ? probe_values[probe_address*64 +: 64] : 128'b0)'') #
         map bank_choice vs) @ '';'' @ nl)"

end
