(* ===== verification/Topo_Services.thy ===== *)
theory Topo_Services
  imports Topo_Wrapper
begin

text \<open>
  The composition of the debug top: the transport services (\<open>boundary\<close> and \<open>wrapper\<close> of
  \<open>tools/erl_hls_tools/topology_debug_services.py\<close>), the joining module (\<open>debug_wrapper\<close>) and the whole of
  \<open>instrument\<close> of \<open>tools/erl_hls_tools/topology_debug.py\<close> on the two elaborations Yosys wrote.
\<close>

section \<open>Debug services\<close>

definition rtl_identifier :: "string \<Rightarrow> bool" where
  "rtl_identifier s = (case s of [] \<Rightarrow> False | c # cs \<Rightarrow> (word_char c \<and> \<not> is_digit c) \<and>
     list_all (\<lambda>c. word_char c \<or> c = CHR ''$'') cs)"

record monitor =
  monitor_rx :: string
  monitor_tx :: string
  routed :: bool

definition stream_port ::
  "(string, port) dict \<Rightarrow> string \<Rightarrow> string \<Rightarrow> string \<times> nat \<Rightarrow> (topology_error, unit) result" where
  "stream_port ps pre dir entry = (let (sfx, n) = entry; name = pre @ ''_'' @ sfx;
       expected = (if sfx = ''tready'' then if dir = ''input'' then ''output'' else ''input'' else dir) in
     ensure (case map_of ps name of None \<Rightarrow> False | Some p \<Rightarrow> direction p = expected \<and> length (port_bits p) = n)
       (Rejected (''expected '' @ show_nat n @ ''-bit '' @ expected @ '' '' @ name)))"

definition stream_signals :: "(string \<times> nat) list" where
  "stream_signals = [(''tdata'', 32), (''tvalid'', 1), (''tready'', 1), (''tlast'', 1)]"

definition boundary ::
  "(string, port) dict \<Rightarrow> string option \<Rightarrow> string option \<Rightarrow> bool \<Rightarrow> (topology_error, monitor option) result" where
  "boundary ps rx tx route =
     (if rx = None \<and> tx = None \<and> \<not> route then Inr None
      else case (rx, tx) of
        (Some r, Some t) \<Rightarrow>
          bindE (ensure (r \<noteq> [] \<and> t \<noteq> [] \<and> r \<noteq> t)
            (Rejected ''monitor requires distinct --monitor-rx and --monitor-tx streams'')) (\<lambda>_.
          bindE (checkE (\<lambda>(pre, dir).
              bindE (ensure (rtl_identifier pre) (Rejected (''invalid stream prefix: '' @ pre))) (\<lambda>_.
              checkE (stream_port ps pre dir) stream_signals)) [(r, ''input''), (t, ''output'')]) (\<lambda>_.
          Inr (Some \<lparr>monitor_rx = r, monitor_tx = t, routed = route\<rparr>)))
      | _ \<Rightarrow> Inl (Rejected ''monitor requires distinct --monitor-rx and --monitor-tx streams''))"

text \<open>
  \<open>int.from_bytes(bytes.fromhex(fingerprint), "little")\<close> in 64 hexadecimal digits; a fingerprint is
  the lower-case text of a digest.
\<close>

fun hex_bytes :: "string \<Rightarrow> nat list" where
  "hex_bytes (a # b # s) = (16 * hex_value a + hex_value b) # hex_bytes s"
| "hex_bytes s = []"

definition hash_literal :: "string \<Rightarrow> string" where
  "hash_literal fingerprint = (let h = hex_string (foldr (\<lambda>b n. b + 256 * n) (hex_bytes fingerprint) 0) in
     replicate (64 - length h) (CHR ''0'') @ h)"

definition lines :: "string list \<Rightarrow> string" where
  "lines ls = concat (map (\<lambda>l. l @ nl) ls)"

definition monitor_text :: "string \<Rightarrow> string \<Rightarrow> monitor \<Rightarrow> string" where
  "monitor_text clk rst m = lines (
     [''hls_debug_monitor #(.ROUTED('' @ (if routed m then ''1'' else ''0'') @ '')) boundary_monitor ('',
      ''    .aclk('' @ clk @ ''), .aresetn(!('' @ rst @ '')),''] @
     concat (map (\<lambda>(side, pre). map (\<lambda>(sfx, _). ''    .app_'' @ side @ ''_'' @ sfx @ ''('' @
         CHR 0x5C # pre @ ''_'' @ sfx @ '' ),'') stream_signals) [(''rx'', monitor_rx m), (''tx'', monitor_tx m)]) @
     [''    .s_dbg_tdata(request_data), .s_dbg_tkeep(request_keep), .s_dbg_tlast(request_last),'',
      ''    .s_dbg_tvalid(request_valid[1]), .s_dbg_tready(request_ready[1]),'',
      ''    .m_dbg_tdata(response_data[32 +: 32]), .m_dbg_tkeep(response_keep[4 +: 4]),'',
      ''    .m_dbg_tlast(response_last[1]), .m_dbg_tvalid(response_valid[1]), .m_dbg_tready(response_ready[1]));''])"

definition services_wrapper ::
  "nat \<Rightarrow> nat \<Rightarrow> nat \<Rightarrow> string \<Rightarrow> string \<Rightarrow> string \<Rightarrow> bool \<Rightarrow> monitor option \<Rightarrow> string" where
  "services_wrapper rows_count channels_count actors fingerprint clock reset active_low mon =
     (let clk = escaped clock; rst = reset_term active_low reset; n = (if mon = None then 1 else 2) in
      lines [
       ''wire [31:0] request_data;'', ''wire [3:0] request_keep;'', ''wire request_last;'',
       ''wire ['' @ show_nat (n - 1) @ '':0] request_valid, request_ready, response_last, response_valid, response_ready;'',
       ''wire ['' @ show_nat (32 * n - 1) @ '':0] response_data;'',
       ''wire ['' @ show_nat (4 * n - 1) @ '':0] response_keep;'',
       ''hls_debug_route #(.PORTS('' @ show_nat n @ ''), .ENDPOINTS('' @
         (if mon = None then ''16'd2'' else ''32'h00010002'') @ '')) route ('',
       ''    .clk('' @ clk @ ''), .reset('' @ rst @ ''),'',
       ''    .s_data(s_dbg_tdata), .s_keep(s_dbg_tkeep), .s_last(s_dbg_tlast),'',
       ''    .s_valid(s_dbg_tvalid), .s_ready(s_dbg_tready),'',
       ''    .m_data(m_dbg_tdata), .m_keep(m_dbg_tkeep), .m_last(m_dbg_tlast),'',
       ''    .m_valid(m_dbg_tvalid), .m_ready(m_dbg_tready),'',
       ''    .request_data(request_data), .request_keep(request_keep), .request_last(request_last),'',
       ''    .request_valid(request_valid), .request_ready(request_ready),'',
       ''    .response_data(response_data), .response_keep(response_keep), .response_last(response_last),'',
       ''    .response_valid(response_valid), .response_ready(response_ready));'',
       ''hls_topology_debug #(.RESOURCES('' @ show_nat rows_count @ ''), .CHANNELS('' @ show_nat channels_count @
         ''), .ACTORS('' @ show_nat actors @ ''),'',
       ''    .FINGERPRINT(256'h'' @ hash_literal fingerprint @ '')) debug ('',
       ''    .clk('' @ clk @ ''), .reset('' @ rst @ ''),'',
       ''    .probe_address(probe_address), .probe_value(probe_value),'',
       ''    .s_data(request_data), .s_keep(request_keep), .s_last(request_last),'',
       ''    .s_valid(request_valid[0]), .s_ready(request_ready[0]),'',
       ''    .m_data(response_data[0 +: 32]), .m_keep(response_keep[0 +: 4]), .m_last(response_last[0]),'',
       ''    .m_valid(response_valid[0]), .m_ready(response_ready[0]));''] @
      (case mon of None \<Rightarrow> [] | Some m \<Rightarrow> monitor_text clk rst m))"

section \<open>The debug top\<close>

definition debug_ports :: "(string \<times> nat \<times> string) list" where
  "debug_ports = [(''input'', 32, ''s_dbg_tdata''), (''input'', 4, ''s_dbg_tkeep''), (''input'', 1, ''s_dbg_tlast''),
     (''input'', 1, ''s_dbg_tvalid''), (''output'', 1, ''s_dbg_tready''), (''output'', 32, ''m_dbg_tdata''),
     (''output'', 4, ''m_dbg_tkeep''), (''output'', 1, ''m_dbg_tlast''), (''output'', 1, ''m_dbg_tvalid''),
     (''input'', 1, ''m_dbg_tready'')]"

definition port_text :: "string \<times> nat \<times> string \<Rightarrow> string" where
  "port_text e = (let (d, w, n) = e in
     ''    '' @ d @ '' wire ['' @ show_int (int w - 1) @ '':0] '' @ escaped n)"

definition debug_wrapper ::
  "(string, port) dict \<Rightarrow> string \<Rightarrow> nat \<Rightarrow> nat \<Rightarrow> string \<Rightarrow> string \<Rightarrow> string \<Rightarrow> bool \<Rightarrow> bound_bank list \<Rightarrow>
   monitor option \<Rightarrow> (topology_error, string) result" where
  "debug_wrapper ps application_top rows_count channels_count fingerprint clock reset active_low bbs mon =
     bindE (ensure (\<not> list_ex (\<lambda>(_, _, n). n \<in> fst ` set ps) debug_ports)
       (Rejected ''application already exposes the reserved debug interface'')) (\<lambda>_.
     let actor_count = sum_list (map bank_count bbs); physical_count = rows_count - actor_count;
         taps_width = sum_list (map (\<lambda>bb. length (taps bb)) bbs);
         probes = show_nat (64 * physical_count) in
     Inr (lines [''// Generated passive topology debug wrapper. Application ports are unchanged.'',
            ''module hls_debug_application (''] @
        join_text ('','' @ nl) (map port_text (map (\<lambda>(n, p). (direction p, length (port_bits p), n)) ps @ debug_ports)) @ nl @
        '');'' @ nl @ ''wire ['' @ show_int (64 * int physical_count - 1) @ '':0] probe_values;'' @ nl @
        (if bbs = [] then [] else ''wire ['' @ show_int (int taps_width - 1) @ '':0] actor_writes;'' @ nl) @
        application_top @ '' application ('' @ join_text '', '' (map (\<lambda>(n, _). ''.'' @ escaped n @ ''('' @ escaped n @ '')'') ps) @
        '', .hls_probe_values(probe_values[0 +: '' @ probes @ ''])'' @
        (if bbs = [] then [] else '', .hls_actor_writes(actor_writes)'') @ '');'' @ nl @
        actor_wrapper bbs physical_count clock reset active_low @
        services_wrapper rows_count channels_count actor_count fingerprint clock reset active_low mon @
        ''endmodule'' @ nl))"

section \<open>Instrumentation\<close>

record options =
  top_module :: string
  clock_name :: string
  reset_name :: string
  instrumented_top :: string
  active_low :: bool
  actor_root :: string
  actor_projection :: "projection option"
  rx_prefix :: "string option"
  tx_prefix :: "string option"
  monitor_routed :: bool
  rtl_sources :: "(string \<times> string) list"

text \<open>A resource of the manifest, in the order of the identifiers.\<close>

datatype manifest_resource = Physical resource | Actor_Row actor_resource

record manifest =
  manifest_options :: options
  manifest_resources :: "manifest_resource list"
  manifest_unsupported :: "unsupported_queue list"
  manifest_probes :: "probe list"
  manifest_monitor :: "monitor option"
  manifest_banks :: bool

record instrumented =
  the_manifest :: manifest
  fingerprint :: string
  debug_top :: string
  exported :: hierarchy

definition check_control :: "(string, port) dict \<Rightarrow> string \<Rightarrow> (topology_error, unit) result" where
  "check_control ps c = ensure (case map_of ps c of None \<Rightarrow> False
     | Some p \<Rightarrow> direction p = ''input'' \<and> length (port_bits p) = 1) (Rejected (''expected one-bit input '' @ c))"

definition bind_actors ::
  "options \<Rightarrow> hierarchy \<Rightarrow> module \<Rightarrow> (topology_error, bound_bank list) result" where
  "bind_actors opt mods flat = (case actor_projection opt of
       None \<Rightarrow> Inr []
     | Some pj \<Rightarrow>
         bindE (flat_bit flat [] (clock_name opt)) (\<lambda>clock_bit.
         discover_actors pj (if actor_root opt = [] then [] else split_on (CHR ''.'') (actor_root opt))
           mods flat (top_module opt) clock_bit))"

text \<open>
  \<open>instrument\<close> between the two runs of Yosys; \<open>digest\<close> is the hash of the canonical dump of a manifest
  without its fingerprint.
\<close>

definition instrument ::
  "(manifest \<Rightarrow> string) \<Rightarrow> options \<Rightarrow> hierarchy \<Rightarrow> hierarchy \<Rightarrow> (topology_error, instrumented) result" where
  "instrument digest opt mods flat_design =
     bindE (checkE (\<lambda>n. ensure (rtl_identifier n) (Rejected (''invalid RTL identifier: '' @ n)))
       [top_module opt, clock_name opt, reset_name opt, instrumented_top opt]) (\<lambda>_.
     bindE (discover mods flat_design (top_module opt) (clock_name opt)) (\<lambda>probes.
     bindE (fifo_resources mods flat_design (top_module opt) probes) (\<lambda>(queues, unsupported).
     bindE (lookup flat_design (top_module opt)) (\<lambda>flat.
     let physicals = resources_for probes queues in
     bindE (bind_actors opt mods flat) (\<lambda>bbs.
     let rows = actor_resources bbs (length physicals); resources = map Physical physicals @ map Actor_Row rows; ps = ports flat in
     bindE (checkE (check_control ps) [clock_name opt, reset_name opt]) (\<lambda>_.
     bindE (boundary ps (rx_prefix opt) (tx_prefix opt) (monitor_routed opt)) (\<lambda>mon.
     let man = \<lparr>manifest_options = opt, manifest_resources = resources, manifest_unsupported = unsupported,
           manifest_probes = probes, manifest_monitor = mon, manifest_banks = (bbs \<noteq> [])\<rparr> in
     bindE (debug_wrapper ps (instrumented_top opt) (length resources) (length probes) (digest man)
       (clock_name opt) (reset_name opt) (active_low opt) bbs mon) (\<lambda>text.
     bindE (export_probes flat_design (top_module opt) physicals (instrumented_top opt) (map taps bbs)) (\<lambda>ex.
     Inr \<lparr>the_manifest = man, fingerprint = digest man, debug_top = text, exported = ex\<rparr>)))))))))"

end
