(* ===== verification/Topo_Layout.thy ===== *)
theory Topo_Layout
  imports Topo_Services
begin

text \<open>
  The agreement between the taps that the discovery of actors lays out and the slices that the generated
  wrapper reads: lengths of the parts, positions on the bus of all taps, and the row addresses of queries.
\<close>

section \<open>Lengths of a bank's taps\<close>

lemma less_bit_length: "n < 2 ^ bit_length n"
proof (induction n rule: bit_length.induct)
  case (1 n)
  then show ?case by (subst bit_length.simps) (cases "n = 0", auto)
qed

lemma slots_fit: "1 \<le> s \<Longrightarrow> s \<le> 2 ^ max 1 (bit_length (nat (s - 1)))" for s :: int
proof -
  assume "1 \<le> s"
  then have "nat (s - 1) < 2 ^ bit_length (nat (s - 1))" by (intro less_bit_length)
  also have "\<dots> \<le> 2 ^ max 1 (bit_length (nat (s - 1)))" by (intro power_increasing) auto
  finally have "int (nat (s - 1)) < int (2 ^ max 1 (bit_length (nat (s - 1))))" by (simp only: of_nat_less_iff)
  with \<open>1 \<le> s\<close> show ?thesis by simp
qed

lemma ram_port_Inr:
  "ram_port ram flat path (n, d, k) = Inr u \<Longrightarrow> \<exists>bits. flat_bits flat path n = Inr bits \<and> int (length bits) = k"
  by (auto simp: ram_port_def bindE_Inr Let_def)

lemma observation_port_Inr:
  "observation_port c app flat path err (n, d, k) = Inr u \<Longrightarrow> \<exists>bits. flat_bits flat path n = Inr bits \<and> int (length bits) = k"
  by (auto simp: observation_port_def bindE_Inr Let_def)

definition source_ok :: "bank \<Rightarrow> source \<Rightarrow> bool" where
  "source_ok b src \<longleftrightarrow> length (enable_taps src) = 1 + address_width src \<and> int (length (source_values src)) = width b \<and>
     slots b \<le> 2 ^ address_width src"

lemma ram_source_ok:
  assumes "ram_source b root m mods flat clock_bit = Inr src" and "1 \<le> slots b"
  shows "source_ok b src"
proof -
  let ?aw = "max 1 (bit_length (nat (slots b - 1)))"
  from assms(1) obtain r ram en addr data where
    ports: "checkE (ram_port ram flat (root @ [r])) [(''clk'', ''input'', 1), (''wr_en'', ''input'', 1),
        (''wr_addr'', ''input'', int ?aw), (''wr_data'', ''input'', width b)] = Inr ()"
    and bits: "flat_bits flat (root @ [r]) ''wr_en'' = Inr en" "flat_bits flat (root @ [r]) ''wr_addr'' = Inr addr"
      "flat_bits flat (root @ [r]) ''wr_data'' = Inr data"
    and src: "src = \<lparr>source_path = root @ [r], address_width = ?aw, enable_taps = en @ addr, source_values = data\<rparr>"
    unfolding ram_source_def Let_def bindE_Inr by (auto split: option.splits simp: bindE_Inr)
  from ports[unfolded checkE_Inr] have "int (length en) = 1" "int (length addr) = int ?aw" "int (length data) = width b"
    using bits by (auto dest!: ram_port_Inr)
  with slots_fit[OF assms(2)] show ?thesis by (auto simp: source_ok_def src)
qed

lemma observed_output_lengths:
  assumes "observed_output p n root m mods flat clock_bit who what = Inr (path, v, values)"
  shows "length v = 1" and "int (length values) = n"
proof -
  from assms obtain name c app where
    ports: "checkE (observation_port c app flat path (Rejected (who @ '' observation port mismatch'')))
            [(p, ''output'', n), (p @ ''_vld'', ''output'', 1), (p @ ''_rdy'', ''input'', 1)] = Inr ()"
    and bits: "flat_bits flat path (p @ ''_vld'') = Inr v" "flat_bits flat path p = Inr values"
    unfolding observed_output_def by (auto split: list.splits simp: bindE_Inr Let_def)
  from ports[unfolded checkE_Inr] bits show "length v = 1" "int (length values) = n"
    by (auto dest!: observation_port_Inr)
qed

lemma direct_source_ok:
  assumes "direct_source b root m mods flat clock_bit = Inr src"
  shows "source_ok b src \<and> slots b = 1 \<and> address_width src = 1"
proof -
  from assms obtain p path v vals where one: "slots b = 1"
    and "observed_output p (width b) root m mods flat clock_bit ''direct actor'' ''direct actor'' = Inr (path, v, vals)"
    and src: "src = \<lparr>source_path = path, address_width = 1, enable_taps = v @ [Constant ''0''], source_values = vals\<rparr>"
    by (auto simp: direct_source_def bindE_Inr split: option.splits)
  with observed_output_lengths show ?thesis by (auto simp: source_ok_def src)
qed

lemma sampled_length:
  assumes "sampled_array_source p n root m mods flat clock_bit what = Inr bs"
  shows "int (length bs) = 1 + n \<and> 0 \<le> n"
proof -
  from assms obtain path v vals where
    "observed_output p n root m mods flat clock_bit what what = Inr (path, v, vals)" "bs = v @ vals"
    by (auto simp: sampled_array_source_def bindE_Inr)
  with observed_output_lengths show ?thesis by fastforce
qed

lemma mailbox_length:
  assumes "mailbox_taps is_direct b selected src root m mods flat clock_bit = Inr mb" and "source_ok b src" and "1 \<le> slots b"
    and "is_direct \<Longrightarrow> slots b = 1"
  shows "length mb = (if bank_mailbox b = None then 0 else 1 + 24 * nat (slots b))"
proof (cases "bank_mailbox b")
  case None
  with assms(1) show ?thesis by (simp add: mailbox_taps_def)
next
  case (Some box)
  show ?thesis
  proof (cases is_direct)
    case True
    with assms(1) Some obtain offset where o: "0 \<le> as_int offset" "as_int offset \<le> width b - 24"
      "mb = take 1 (enable_taps src) @ slice (nat (as_int offset)) 24 (source_values src)"
      by (auto simp: mailbox_taps_def bindE_Inr split: option.splits)
    from assms(2) have "1 \<le> length (enable_taps src)" "int (length (source_values src)) = width b"
      by (simp_all add: source_ok_def)
    with o assms(4)[OF True] Some show ?thesis by (auto simp: slice_def)
  next
    case False
    with assms(1) Some obtain p where "mailbox_source p (slots b) root m mods flat clock_bit = Inr mb"
      by (auto simp: mailbox_taps_def bindE_Inr split: option.splits)
    with sampled_length[of p "24 * slots b"] have "int (length mb) = 1 + 24 * slots b" by (simp add: mailbox_source_def)
    with assms(3) Some show ?thesis by simp
  qed
qed

lemma live_length:
  assumes "live_taps version is_direct b root m mods flat clock_bit = Inr ls" and "1 \<le> slots b"
  shows "int (length ls) = (case bank_live b of None \<Rightarrow> 0 | Some l \<Rightarrow> 1 + live_width l * slots b) \<and>
    (case bank_live b of None \<Rightarrow> True | Some l \<Rightarrow> 0 \<le> live_width l * slots b)"
  using assms by (auto simp: live_taps_def bindE_Inr split: option.splits dest!: sampled_length)

lemma select_bits_Inr:
  assumes "select_bits values selected = Inr chosen"
  shows "chosen = map (\<lambda>i. values ! i) selected"
  using assms unfolding select_bits_def
  by (induction selected arbitrary: chosen) (auto simp: bindE_Inr split: if_splits)

section \<open>Bound banks\<close>

text \<open>The taps of a bank are its enable and address, its selected state, and its optional samples.\<close>

definition live_row_bits :: "bank \<Rightarrow> nat" where
  "live_row_bits b = (case bank_live b of None \<Rightarrow> 0 | Some l \<Rightarrow> 1 + nat (live_width l * slots b))"

definition mailbox_bits :: "bank \<Rightarrow> nat" where
  "mailbox_bits b = (if bank_mailbox b = None then 0 else 1 + 24 * nat (slots b))"

definition bound_ok :: "bound_bank \<Rightarrow> bool" where
  "bound_ok bb \<longleftrightarrow> (let b = bank bb; src = bound_source bb in
     1 \<le> slots b \<and> source_ok b src \<and> map actor_slot (bank_actors b) = map int [0..<nat (slots b)] \<and>
     (\<exists>selected keys keys' mb live. selected_fields b keys = Inr (selected, keys') \<and>
        taps bb = enable_taps src @ map (\<lambda>i. source_values src ! i) selected @ mb @ live \<and>
        length mb = mailbox_bits b \<and> length live = live_row_bits b))"

lemma selected_actors:
  "selected_fields b keys = Inr (selected, keys') \<Longrightarrow> map actor_slot (bank_actors b) = map int [0..<nat (slots b)]"
  by (auto simp: selected_fields_def bindE_Inr Let_def)

lemma bind_bank_Inr:
  assumes "bind_bank pj root m mods flat clock_bit (bound, keys) (i, b) = Inr (bound', keys')"
  shows "\<exists>bb. bound' = bound @ [bb] \<and> bank bb = b \<and> bank_index b = int i \<and> bound_ok bb"
proof -
  let ?direct = "length (shared_banks pj) \<le> i"
  obtain selected src chosen mb live where
    index: "bank_index b = int i" and pos: "1 \<le> slots b"
    and sel: "selected_fields b keys = Inr (selected, keys')"
    and src: "(if ?direct then direct_source else ram_source) b root m mods flat clock_bit = Inr src"
    and chosen: "select_bits (source_values src) selected = Inr chosen"
    and mb: "mailbox_taps ?direct b selected src root m mods flat clock_bit = Inr mb"
    and live: "live_taps (projection_schema pj) ?direct b root m mods flat clock_bit = Inr live"
    and bound': "bound' = bound @ [\<lparr>bank = b, bound_source = src, taps = enable_taps src @ chosen @ mb @ live\<rparr>]"
    using assms by (auto simp: bind_bank_def bindE_Inr Let_def)
  have ok: "source_ok b src" and one: "?direct \<Longrightarrow> slots b = 1"
    using src ram_source_ok[OF _ pos] direct_source_ok by (auto split: if_splits)
  have "length mb = mailbox_bits b"
    using mailbox_length[OF mb ok pos one] by (simp add: mailbox_bits_def)
  moreover have "length live = live_row_bits b"
    using live_length[OF live pos] by (auto simp: live_row_bits_def split: option.splits)
  ultimately show ?thesis
    using index pos ok sel select_bits_Inr[OF chosen] selected_actors[OF sel] unfolding bound'
    by (auto simp: bound_ok_def Let_def)
qed

lemma bind_banks_Inr:
  assumes "foldE (bind_bank pj root m mods flat clock_bit) st (enumerate k banks) = Inr st'"
  shows "\<exists>bbs. fst st' = fst st @ bbs \<and> map bank bbs = banks \<and>
    map (\<lambda>bb. bank_index (bank bb)) bbs = map int [k..<k + length banks] \<and> (\<forall>bb\<in>set bbs. bound_ok bb)"
  using assms
proof (induction banks arbitrary: st k)
  case (Cons b banks)
  obtain bound keys where st: "st = (bound, keys)" by fastforce
  from Cons.prems obtain u where u: "bind_bank pj root m mods flat clock_bit (bound, keys) (k, b) = Inr u"
    "foldE (bind_bank pj root m mods flat clock_bit) u (enumerate (Suc k) banks) = Inr st'"
    by (auto simp: bindE_Inr st)
  obtain bound' keys' where u': "u = (bound', keys')" by fastforce
  from bind_bank_Inr[OF u(1)[unfolded u']] obtain bb where
    bb: "bound' = bound @ [bb]" "bank bb = b" "bank_index b = int k" "bound_ok bb" by blast
  from Cons.IH[OF u(2)] obtain bbs where
    I: "fst st' = fst u @ bbs" "map bank bbs = banks" "map (\<lambda>bb. bank_index (bank bb)) bbs = map int [Suc k..<Suc k + length banks]"
      "\<forall>bb\<in>set bbs. bound_ok bb" by blast
  show ?case
  proof (intro exI conjI)
    show "fst st' = fst st @ bb # bbs" using I(1) bb(1) by (simp add: st u')
    show "map bank (bb # bbs) = b # banks" using I(2) bb(2) by simp
    show "map (\<lambda>bb. bank_index (bank bb)) (bb # bbs) = map int [k..<k + length (b # banks)]"
    proof -
      have "[k..<k + length (b # banks)] = k # [Suc k..<Suc k + length banks]"
        by (subst upt_conv_Cons) (simp_all del: upt_Suc)
      then show ?thesis using I(3) bb(2,3) by (simp only: list.map)
    qed
    show "\<forall>b\<in>set (bb # bbs). bound_ok b" using I(4) bb(4) by simp
  qed
qed simp

lemma discover_actors_Inr:
  assumes "discover_actors pj root mods flat top_name clock_bit = Inr bbs"
  shows "map bank bbs = shared_banks pj @ direct_banks pj" and "\<forall>bb\<in>set bbs. bound_ok bb"
    and "map (\<lambda>bb. bank_index (bank bb)) bbs = map int [0..<length bbs]" and "bbs \<noteq> []"
proof -
  from assms obtain m keys where ne: "shared_banks pj @ direct_banks pj \<noteq> []" and
    f: "foldE (bind_bank pj root m mods flat clock_bit) ([], []) (enumerate 0 (shared_banks pj @ direct_banks pj)) = Inr (bbs, keys)"
    by (auto simp: discover_actors_def bindE_Inr Let_def)
  from bind_banks_Inr[OF f] have I: "map bank bbs = shared_banks pj @ direct_banks pj" "\<forall>bb\<in>set bbs. bound_ok bb"
    "map (\<lambda>bb. bank_index (bank bb)) bbs = map int [0..<length (shared_banks pj @ direct_banks pj)]" by auto
  then have "length bbs = length (shared_banks pj @ direct_banks pj)" by (metis length_map)
  with I ne show "map bank bbs = shared_banks pj @ direct_banks pj" "\<forall>bb\<in>set bbs. bound_ok bb"
    "map (\<lambda>bb. bank_index (bank bb)) bbs = map int [0..<length bbs]" "bbs \<noteq> []" by auto
qed

section \<open>Slices of the tap bus\<close>

lemma slice_inside:
  assumes "k + n \<le> length ys"
  shows "slice (length xs + k) n (xs @ ys @ zs) = slice k n ys"
  using assms by (simp add: slice_def)

lemma slice_parts:
  "slice 0 (length xs) (xs @ ys) = xs" "slice (length xs) (length ys) (xs @ ys @ zs) = ys"
  by (simp_all add: slice_def)

lemma in_views:
  "v \<in> set (views at first bbs) \<longleftrightarrow> (\<exists>us bb vs. bbs = us @ bb # vs \<and>
     v = \<lparr>view_bank = bb, view_offset = at + length (concat (map taps us)),
          view_resource = first + sum_list (map bank_count us)\<rparr>)"
proof (induction bbs arbitrary: at first)
  case (Cons b bbs)
  let ?v = "\<lambda>at first us bb. \<lparr>view_bank = bb, view_offset = at + length (concat (map taps us)),
          view_resource = first + sum_list (map bank_count us)\<rparr>"
  have "(\<exists>us bb vs. b # bbs = us @ bb # vs \<and> v = ?v at first us bb) \<longleftrightarrow>
      v = ?v at first [] b \<or> (\<exists>us bb vs. bbs = us @ bb # vs \<and> v = ?v at first (b # us) bb)"
    unfolding Cons_eq_append_conv by blast
  also have "\<dots> \<longleftrightarrow> v \<in> set (views at first (b # bbs))"
    by (simp add: Cons.IH add.assoc)
  finally show ?case by blast
qed simp

lemma view_slices:
  assumes v: "v \<in> set (views 0 first bbs)" and ok: "\<forall>bb\<in>set bbs. bound_ok bb"
  defines "bus \<equiv> concat (map taps bbs)" and "b \<equiv> bank (view_bank v)" and "src \<equiv> bound_source (view_bank v)"
  shows "\<exists>selected keys keys'. selected_fields b keys = Inr (selected, keys') \<and>
      slice (view_offset v) (1 + row_width v) bus = enable_taps src \<and>
      slice (view_offset v + 1 + row_width v) (write_width v) bus = map (\<lambda>i. source_values src ! i) selected \<and>
      taps (view_bank v) = enable_taps src @ map (\<lambda>i. source_values src ! i) selected @
        slice (mailbox_position v) (mailbox_bits b) bus @ slice (live_position v) (live_row_bits b) bus"
proof -
  obtain us bb vs where bbs: "bbs = us @ bb # vs" and v': "view_bank v = bb" "view_offset v = length (concat (map taps us))"
    using v by (auto simp: in_views)
  have "bound_ok bb" using ok bbs by simp
  then obtain selected keys keys' mb live where sel: "selected_fields b keys = Inr (selected, keys')" and src: "source_ok b src"
    and t: "taps bb = enable_taps src @ map (\<lambda>i. source_values src ! i) selected @ mb @ live"
    and mb: "length mb = mailbox_bits b" and live: "length live = live_row_bits b"
    unfolding bound_ok_def b_def src_def v'(1) Let_def by blast
  let ?chosen = "map (\<lambda>i. source_values src ! i) selected"
  have bus: "bus = concat (map taps us) @ taps bb @ concat (map taps vs)" by (simp add: bus_def bbs)
  have read: "slice (view_offset v + k) n bus = slice k n (taps bb)" if "k + n \<le> length (taps bb)" for k n
    unfolding bus v'(2) by (rule slice_inside[OF that])
  have en: "length (enable_taps src) = 1 + row_width v" using src by (simp add: source_ok_def row_width_def src_def)
  have "int (length selected) = 25 + ram_reduction_width b" "0 \<le> ram_reduction_width b"
    using selected_fields_Inr[OF sel] by blast+
  then have ch: "length ?chosen = write_width v" by (simp add: write_width_def b_def)
  have mpos: "mailbox_position v = view_offset v + (length (enable_taps src) + length ?chosen)"
    using en ch by (simp add: mailbox_position_def)
  have lpos: "live_position v = view_offset v + (length (enable_taps src) + length ?chosen + length mb)"
    using mpos mb by (simp add: live_position_def has_mailbox_def mailbox_bits_def bank_count_def b_def)
  have "slice (view_offset v) (1 + row_width v) bus = enable_taps src"
    using read[of 0 "1 + row_width v"] t en by (simp add: slice_def)
  moreover have "slice (view_offset v + 1 + row_width v) (write_width v) bus = ?chosen"
    using read[of "1 + row_width v" "write_width v"] t en ch by (simp add: slice_def)
  moreover have "slice (mailbox_position v) (mailbox_bits b) bus = mb"
    unfolding mpos mb[symmetric] using read[of "length (enable_taps src) + length ?chosen" "length mb"] t
    by (simp add: slice_def)
  moreover have "slice (live_position v) (live_row_bits b) bus = live"
    unfolding lpos live[symmetric]
    using read[of "length (enable_taps src) + length ?chosen + length mb" "length live"] t by (simp add: slice_def)
  ultimately show ?thesis using sel t v'(1) by auto
qed

section \<open>Rows of queries\<close>

lemma views_later: "v \<in> set (views at first bbs) \<Longrightarrow> first \<le> view_resource v"
  by (auto simp: in_views)

lemma views_apart:
  assumes "v \<in> set (views at first bbs)" and "w \<in> set (views at first bbs)"
    and "view_resource v \<le> k" "k < view_resource v + bank_count (view_bank v)"
    and "view_resource w \<le> k" "k < view_resource w + bank_count (view_bank w)"
  shows "v = w"
  using assms
proof (induction bbs arbitrary: at first)
  case (Cons bb bbs)
  let ?tail = "views (at + length (taps bb)) (first + bank_count bb) bbs"
  have "x \<in> set ?tail \<Longrightarrow> first + bank_count bb \<le> view_resource x" for x by (rule views_later)
  with Cons.prems Cons.IH[of "at + length (taps bb)" "first + bank_count bb"] show ?case by fastforce
qed simp

lemma actor_resources_Cons:
  "actor_resources (bb # bbs) first = actor_resources [bb] first @ actor_resources bbs (first + length (bank_actors (bank bb)))"
  by (simp add: actor_resources_def enumerate_append_eq)

lemma actor_resource_row:
  assumes "r \<in> set (actor_resources bbs first)" and "\<forall>bb\<in>set bbs. bound_ok bb"
  shows "\<exists>us bb vs j. bbs = us @ bb # vs \<and> j < bank_count bb \<and> actor_id r = first + sum_list (map bank_count us) + j \<and>
    actor_slot (actor_of r) = int j \<and> actor_bank r = bank_index (bank bb)"
  using assms
proof (induction bbs arbitrary: first)
  case (Cons bb bbs)
  have slots: "map actor_slot (bank_actors (bank bb)) = map int [0..<bank_count bb]"
    using Cons.prems(2) by (simp add: bound_ok_def bank_count_def Let_def)
  then have len: "length (bank_actors (bank bb)) = bank_count bb" by (metis length_map length_upt minus_nat.diff_0)
  consider "r \<in> set (actor_resources [bb] first)" | "r \<in> set (actor_resources bbs (first + bank_count bb))"
    using Cons.prems(1) unfolding actor_resources_Cons[of bb bbs] len by auto
  then show ?case
  proof cases
    case 1
    then obtain j where j: "j < bank_count bb" "actor_id r = first + j" "actor_of r = bank_actors (bank bb) ! j"
      "actor_bank r = bank_index (bank bb)"
      by (auto simp: actor_resources_def in_set_enumerate_eq len) (metis add_diff_inverse_nat add_less_cancel_left leD)
    have "actor_slot (actor_of r) = map actor_slot (bank_actors (bank bb)) ! j" using j len by simp
    also have "\<dots> = int j" unfolding slots using j(1) by simp
    finally show ?thesis using j by (intro exI[of _ "[]"] exI[of _ bb] exI[of _ bbs] exI[of _ j]) simp
  next
    case 2
    from Cons.IH[OF 2] Cons.prems(2) obtain us b vs j where
      "bbs = us @ b # vs" "j < bank_count b" "actor_id r = first + bank_count bb + sum_list (map bank_count us) + j"
      "actor_slot (actor_of r) = int j" "actor_bank r = bank_index (bank b)" by auto
    then show ?thesis
      by (intro exI[of _ "bb # us"] exI[of _ b] exI[of _ vs] exI[of _ j]) simp
  qed
qed (simp add: actor_resources_def)

lemma row_address:
  fixes k resource count w :: nat
  assumes "resource \<le> k" and "k < resource + count" and "count \<le> 2 ^ w"
  shows "(int k mod 2 ^ w - int (resource mod 2 ^ w)) mod 2 ^ w = int k - int resource"
proof -
  have "(int k mod 2 ^ w - int (resource mod 2 ^ w)) mod 2 ^ w = (int k - int resource) mod 2 ^ w"
    by (simp add: zmod_int mod_diff_eq)
  also have "\<dots> = int k - int resource"
  proof (rule mod_pos_pos_trivial)
    show "0 \<le> int k - int resource" using assms(1) by simp
    have "k - resource < 2 ^ w" using assms by linarith
    then have "int (k - resource) < 2 ^ w" by (metis of_nat_less_iff of_nat_numeral of_nat_power)
    then show "int k - int resource < 2 ^ w" using assms(1) by (simp add: of_nat_diff)
  qed
  finally show ?thesis .
qed

lemma query_row:
  assumes r: "r \<in> set (actor_resources bbs first)" and ok: "\<forall>bb\<in>set bbs. bound_ok bb"
  shows "\<exists>v. v \<in> set (views 0 first bbs) \<and> view_resource v \<le> actor_id r \<and> actor_id r < view_resource v + bank_count (view_bank v) \<and>
    actor_bank r = bank_index (bank (view_bank v)) \<and>
    actor_slot (actor_of r) = (int (actor_id r) mod 2 ^ row_width v - int (row_base v)) mod 2 ^ row_width v"
proof -
  from actor_resource_row[OF r ok] obtain us bb vs j where j: "bbs = us @ bb # vs" "j < bank_count bb"
    "actor_id r = first + sum_list (map bank_count us) + j" "actor_slot (actor_of r) = int j" "actor_bank r = bank_index (bank bb)"
    by blast
  define v where "v = \<lparr>view_bank = bb, view_offset = 0 + length (concat (map taps us)),
      view_resource = first + sum_list (map bank_count us)\<rparr>"
  have v: "v \<in> set (views 0 first bbs)" unfolding in_views v_def using j(1) by blast
  have "bound_ok bb" using ok j(1) by simp
  then have "slots (bank bb) \<le> 2 ^ address_width (bound_source bb)" "1 \<le> slots (bank bb)"
    by (auto simp: bound_ok_def source_ok_def Let_def)
  then have "int (bank_count bb) \<le> int (2 ^ address_width (bound_source bb))" by (simp add: bank_count_def)
  then have fit: "bank_count bb \<le> 2 ^ row_width v" unfolding of_nat_le_iff by (simp add: row_width_def v_def)
  have "(int (actor_id r) mod 2 ^ row_width v - int (row_base v)) mod 2 ^ row_width v = int (actor_id r) - int (view_resource v)"
    unfolding row_base_def by (rule row_address[OF _ _ fit]) (use j in \<open>simp_all add: v_def\<close>)
  then show ?thesis using v j by (intro exI[of _ v]) (simp add: v_def)
qed

end
