(* ===== verification/Topo_Report.thy ===== *)
theory Topo_Report
  imports Topo_Layout
begin

text \<open>
  The reader of a topology query (\<open>tools/erl_hls_tools/topology_debug_report.py\<close>): \<open>validate\<close> checks that a
  manifest and the host's report belong together and that the observations fit the resources, \<open>text_report\<close>
  prints them. The fingerprint of a manifest is the \<open>digest\<close> of its body.
\<close>

section \<open>Reports\<close>

record sample =
  sample_id :: int
  sample_cycle :: int
  sample_value :: int

record wait_edge =
  edge_channel :: int
  edge_sort :: string
  edge_endpoint :: string
  edge_next :: "int list"

record report =
  report_schema :: int
  report_fingerprint :: string
  observations :: "sample list"
  changed_resources :: "int list"
  reobserved_blocked :: "int list"
  wait_edges :: "wait_edge list"
  candidate_cycles :: "int list list"
  truncated :: bool

text \<open>A manifest file: its schema, its body and its fingerprint.\<close>

record manifest_file =
  file_schema :: int
  file_body :: manifest
  file_fingerprint :: string

definition row_id :: "manifest_resource \<Rightarrow> nat" where
  "row_id r = (case r of Physical p \<Rightarrow> resource_id p | Actor_Row a \<Rightarrow> actor_id a)"

definition row_name :: "manifest_resource \<Rightarrow> string" where
  "row_name r = (case r of Physical p \<Rightarrow> resource_name p | Actor_Row a \<Rightarrow> actor_name (actor_of a))"

definition row_bits :: "manifest_resource \<Rightarrow> nat" where
  "row_bits r = (case r of Physical p \<Rightarrow> resource_width p | Actor_Row a \<Rightarrow> nat (actor_width a))"

definition fifo_capacity :: "manifest_resource \<Rightarrow> int option" where
  "fifo_capacity r = (case r of Physical p \<Rightarrow> (case physical p of Channel \<Rightarrow> None | Fifo q \<Rightarrow> Some (int (queue_capacity q)))
     | Actor_Row _ \<Rightarrow> None)"

definition check_sample ::
  "manifest_resource list \<Rightarrow> int \<Rightarrow> sample \<Rightarrow> (topology_error, int) result" where
  "check_sample rows previous s =
     bindE (ensure (0 \<le> sample_id s \<and> sample_id s < int (length rows) \<and>
          previous < sample_cycle s \<and> sample_cycle s < 2 ^ 64)
       (Rejected ''invalid resource or observation clock regression'')) (\<lambda>_.
     let r = rows ! nat (sample_id s) in
     bindE (ensure (0 \<le> sample_value s \<and> sample_value s < 2 ^ row_bits r) (Rejected ''value exceeds resource width'')) (\<lambda>_.
     bindE (ensure (case fifo_capacity r of None \<Rightarrow> True | Some c \<Rightarrow> \<not> sample_value s > c)
       (Rejected ''FIFO occupancy exceeds capacity'')) (\<lambda>_. Inr (sample_cycle s))))"

definition validate_report ::
  "(manifest \<Rightarrow> string) \<Rightarrow> manifest_file \<Rightarrow> report \<Rightarrow> (topology_error, manifest_resource list) result" where
  "validate_report digest mf rep = (let rows = manifest_resources (file_body mf) in
     bindE (ensure (\<not> (file_schema mf \<noteq> 5 \<or> report_schema rep \<noteq> 1)) (Rejected ''unsupported topology schema'')) (\<lambda>_.
     bindE (ensure (\<not> (file_fingerprint mf \<noteq> digest (file_body mf) \<or> report_fingerprint rep \<noteq> digest (file_body mf)))
       (Rejected ''manifest/report fingerprint mismatch'')) (\<lambda>_.
     bindE (ensure (map row_id rows = [0..<length rows]) (Rejected ''noncontiguous resource IDs'')) (\<lambda>_.
     bindE (foldE (check_sample rows) (-1) (observations rep)) (\<lambda>_. Inr rows)))))"

section \<open>Text\<close>

text \<open>\<open>rows[i]\<close>, where a negative index counts from the end.\<close>

definition row_at :: "manifest_resource list \<Rightarrow> int \<Rightarrow> (topology_error, manifest_resource) result" where
  "row_at rows i = (let j = (if i < 0 then i + int (length rows) else i) in
     if 0 \<le> j \<and> j < int (length rows) then Inr (rows ! nat j) else Inl Missing_Key)"

definition occupancy_line :: "manifest_resource list \<Rightarrow> int list \<Rightarrow> int \<times> sample \<Rightarrow> (topology_error, string list) result" where
  "occupancy_line rows changed entry = (let (i, s) = entry in
     bindE (row_at rows i) (\<lambda>r. Inr (case fifo_capacity r of None \<Rightarrow> []
       | Some c \<Rightarrow> [''  ['' @ show_int i @ ''] '' @ row_name r @ '': '' @ show_int (sample_value s) @ ''/'' @ show_int c @
           '' stored, '' @ show_int (c - sample_value s) @ '' free slots at cycle '' @ show_int (sample_cycle s) @
           (if i \<in> set changed then '' (changed on recheck)'' else [])])))"

definition edge_line :: "manifest_resource list \<Rightarrow> int list \<Rightarrow> wait_edge \<Rightarrow> (topology_error, string) result" where
  "edge_line rows blocked e = (let i = edge_channel e in
     bindE (row_at rows i) (\<lambda>r.
     Inr (''  ['' @ show_int i @ ''] '' @ row_name r @ '': '' @
       (if i \<in> set blocked then ''blocked on both visits'' else ''changed on recheck'') @
       (if edge_sort e = ''external_sink'' then ''; external sink '' @ edge_endpoint e
        else if edge_sort e = ''ambiguous'' then ''; constant, missing, or ambiguous connection''
        else (let targets = join_text '', '' (map show_int (filter (\<lambda>j. j \<in> set blocked) (edge_next e))) in
          ''; candidate blocked outputs: '' @ (if targets = [] then ''none observed'' else targets))))))"

text \<open>The en dash is printed in UTF-8.\<close>

definition text_report ::
  "(manifest \<Rightarrow> string) \<Rightarrow> manifest_file \<Rightarrow> report \<Rightarrow> (topology_error, string) result" where
  "text_report digest mf rep =
     bindE (validate_report digest mf rep) (\<lambda>rows.
     let samples = observations rep; blocked = reobserved_blocked rep; queues = manifest_unsupported (file_body mf) in
     bindE (mapE (occupancy_line rows (changed_resources rep)) (dict_of sample_id samples)) (\<lambda>fifos.
     bindE (mapE (edge_line rows blocked) (wait_edges rep)) (\<lambda>edges.
     Inr (join_text nl (
       [show_nat (length samples) @ '' passive queries; '' @ show_nat (length blocked) @ '' channels blocked on both visits.''] @
       (if samples = [] then [] else [''Observation cycles '' @ show_int (sample_cycle (hd samples)) @
          [CHR 0xE2, CHR 0x80, CHR 0x93] @ show_int (sample_cycle (last samples)) @ ''.'']) @
       concat fifos @ edges @
       map (\<lambda>c. ''Candidate cyclic group: '' @ join_text '', '' (map show_int c)) (candidate_cycles rep) @
       (if truncated rep then [''Exploration reached its query budget; unvisited dependencies remain.''] else []) @
       (if queues = [] then [] else [show_nat (length queues) @ '' FIFO implementations have handshake probes only.'']) @
       [''These are successive observations, not a coherent snapshot or proof of deadlock. '' @
        ''Free slots exclude same-cycle pop credit. Actor-internal waits require further probes.'']) @ nl))))"

section \<open>Instrumented manifests\<close>

definition manifest_file_of :: "instrumented \<Rightarrow> manifest_file" where
  "manifest_file_of ins = \<lparr>file_schema = 5, file_body = the_manifest ins, file_fingerprint = fingerprint ins\<rparr>"

lemma actor_resource_ids:
  "map actor_id (actor_resources bbs first) = [first..<first + length (actor_resources bbs first)]"
  by (rule nth_equalityI) (simp_all add: actor_resources_def nth_enumerate_eq split_beta)

lemma discovered_ids: "discover mods flat_design top_name clock = Inr ps \<Longrightarrow> map probe_id ps = [0..<length ps]"
  using discovered_probes(1) discover_channels by (auto simp: discover_def bindE_Inr Let_def)

lemma instrument_parts:
  assumes "instrument digest opt mods flat_design = Inr ins"
  obtains probes queues unsupported flat bbs mon where
    "discover mods flat_design (top_module opt) (clock_name opt) = Inr probes"
    "fifo_resources mods flat_design (top_module opt) probes = Inr (queues, unsupported)"
    "map_of flat_design (top_module opt) = Some flat" "bind_actors opt mods flat = Inr bbs"
    "the_manifest ins = \<lparr>manifest_options = opt, manifest_resources = map Physical (resources_for probes queues) @
        map Actor_Row (actor_resources bbs (length (resources_for probes queues))), manifest_unsupported = unsupported,
       manifest_probes = probes, manifest_monitor = mon, manifest_banks = (bbs \<noteq> [])\<rparr>"
    "fingerprint ins = digest (the_manifest ins)"
    "debug_wrapper (ports flat) (instrumented_top opt) (length (manifest_resources (the_manifest ins))) (length probes)
       (fingerprint ins) (clock_name opt) (reset_name opt) (active_low opt) bbs mon = Inr (debug_top ins)"
    "export_probes flat_design (top_module opt) (resources_for probes queues) (instrumented_top opt) (map taps bbs) = Inr (exported ins)"
proof -
  from assms show thesis
    by (auto simp: instrument_def Let_def bindE_Inr simp del: checkE.simps checkE_Inr intro!: that)
qed

lemma instrument_ids:
  assumes "instrument digest opt mods flat_design = Inr ins"
  shows "map row_id (manifest_resources (the_manifest ins)) = [0..<length (manifest_resources (the_manifest ins))]"
  using assms
proof (rule instrument_parts)
  fix probes queues unsupported flat bbs mon
  assume ps: "discover mods flat_design (top_module opt) (clock_name opt) = Inr probes"
    and man: "the_manifest ins = \<lparr>manifest_options = opt, manifest_resources = map Physical (resources_for probes queues) @
        map Actor_Row (actor_resources bbs (length (resources_for probes queues))), manifest_unsupported = unsupported,
       manifest_probes = probes, manifest_monitor = mon, manifest_banks = (bbs \<noteq> [])\<rparr>"
  note ids = resources_for_nth(1)[OF discovered_ids[OF ps], of queues]
  then have n: "length (resources_for probes queues) = length probes + length queues"
    by (metis length_map length_upt minus_nat.diff_0)
  have "map row_id (manifest_resources (the_manifest ins)) =
      map resource_id (resources_for probes queues) @ map actor_id (actor_resources bbs (length (resources_for probes queues)))"
    by (simp add: man row_id_def comp_def)
  also have "\<dots> = [0..<length (manifest_resources (the_manifest ins))]"
    unfolding ids actor_resource_ids by (simp add: man n upt_add_eq_append[of 0 "length probes + length queues"])
  finally show ?thesis .
qed

lemma instrument_plain:
  assumes "checkE (\<lambda>n. ensure (rtl_identifier n) (Rejected (''invalid RTL identifier: '' @ n)))
       [top_module opt, clock_name opt, reset_name opt, instrumented_top opt] = Inr ()"
    and "discover mods flat_design (top_module opt) (clock_name opt) = Inr probes"
    and "fifo_resources mods flat_design (top_module opt) probes = Inr (queues, unsupported)"
    and "lookup flat_design (top_module opt) = Inr flat"
    and "actor_projection opt = None" "rx_prefix opt = None" "tx_prefix opt = None" "\<not> monitor_routed opt"
    and "checkE (check_control (ports flat)) [clock_name opt, reset_name opt] = Inr ()"
    and free: "\<not> list_ex (\<lambda>(_, _, n). n \<in> fst ` set (ports flat)) debug_ports"
    and exports: "export_probes flat_design (top_module opt) (resources_for probes queues) (instrumented_top opt) [] = Inr ex"
  shows "\<exists>ins. instrument digest opt mods flat_design = Inr ins \<and>
    manifest_resources (the_manifest ins) = map Physical (resources_for probes queues) \<and>
    fingerprint ins = digest (the_manifest ins)"
proof -
  have quiet: "bind_actors opt mods flat = Inr []" "boundary (ports flat) (rx_prefix opt) (tx_prefix opt) (monitor_routed opt) = Inr None"
    by (simp_all add: bind_actors_def boundary_def assms)
  have no_rows: "actor_resources [] k = []" for k by (simp add: actor_resources_def)
  have wraps: "\<exists>x. debug_wrapper (ports flat) t n k f c r low bbs mon = Inr x" for t n k f c r low bbs mon
    unfolding debug_wrapper_def Let_def ensure_def using free by simp
  define man where "man = \<lparr>manifest_options = opt, manifest_resources = map Physical (resources_for probes queues) @ map Actor_Row [],
    manifest_unsupported = unsupported, manifest_probes = probes, manifest_monitor = (None :: monitor option),
    manifest_banks = (([] :: bound_bank list) \<noteq> [])\<rparr>"
  obtain x where x: "debug_wrapper (ports flat) (instrumented_top opt) (length (map Physical (resources_for probes queues) @ map Actor_Row []))
      (length probes) (digest man) (clock_name opt) (reset_name opt) (active_low opt) [] None = Inr x"
    using wraps by blast
  have "instrument digest opt mods flat_design = Inr \<lparr>the_manifest = man, fingerprint = digest man, debug_top = x, exported = ex\<rparr>"
    unfolding instrument_def Let_def
    by (simp only: assms(1-4,9) quiet no_rows bindE_simps prod.case flip: man_def) (simp only: x[simplified list.map] list.map exports bindE_simps)
  then show ?thesis by (auto simp: man_def)
qed

lemma instrument_fingerprint:
  assumes "instrument digest opt mods flat_design = Inr ins"
  shows "digest (the_manifest ins) = fingerprint ins"
  using assms
proof (rule instrument_parts)
  assume "fingerprint ins = digest (the_manifest ins)"
  then show ?thesis by (rule sym)
qed

section \<open>Accepted observations\<close>

definition sample_fits :: "manifest_resource list \<Rightarrow> sample \<Rightarrow> bool" where
  "sample_fits rows s \<longleftrightarrow> 0 \<le> sample_id s \<and> sample_id s < int (length rows) \<and> sample_cycle s < 2 ^ 64 \<and>
     0 \<le> sample_value s \<and> sample_value s < 2 ^ row_bits (rows ! nat (sample_id s)) \<and>
     (case fifo_capacity (rows ! nat (sample_id s)) of None \<Rightarrow> True | Some c \<Rightarrow> sample_value s \<le> c)"

lemma check_sample_Inr:
  "check_sample rows k s = Inr k' \<longleftrightarrow> sample_fits rows s \<and> k < sample_cycle s \<and> k' = sample_cycle s"
  by (auto simp: check_sample_def sample_fits_def bindE_Inr Let_def split: option.splits)

lemma check_samples:
  "(\<exists>k'. foldE (check_sample rows) k ss = Inr k') \<longleftrightarrow>
     (\<forall>s\<in>set ss. sample_fits rows s \<and> k < sample_cycle s) \<and> sorted_wrt (<) (map sample_cycle ss)"
proof (induction ss arbitrary: k)
  case (Cons s ss)
  have "(\<exists>k'. foldE (check_sample rows) k (s # ss) = Inr k') \<longleftrightarrow>
      sample_fits rows s \<and> k < sample_cycle s \<and> (\<exists>k'. foldE (check_sample rows) (sample_cycle s) ss = Inr k')"
    by (auto simp: bindE_Inr check_sample_Inr)
  also have "\<dots> \<longleftrightarrow> (\<forall>x\<in>set (s # ss). sample_fits rows x \<and> k < sample_cycle x) \<and> sorted_wrt (<) (map sample_cycle (s # ss))"
    unfolding Cons.IH by auto
  finally show ?case .
qed simp

lemma validate_report_Inr:
  assumes "file_schema mf = 5" "file_fingerprint mf = digest (file_body mf)"
    "map row_id (manifest_resources (file_body mf)) = [0..<length (manifest_resources (file_body mf))]"
  shows "(\<exists>rows. validate_report digest mf rep = Inr rows) \<longleftrightarrow>
    report_schema rep = 1 \<and> report_fingerprint rep = file_fingerprint mf \<and>
    (\<exists>k'. foldE (check_sample (manifest_resources (file_body mf))) (-1) (observations rep) = Inr k')"
  using assms(3) by (simp add: validate_report_def bindE_Inr Let_def assms(1) flip: assms(2))

end
