(* ===== verification/Topo_Contract.thy ===== *)
theory Topo_Contract
  imports Topo_Actors
begin

text \<open>
  What the structural check of a state RAM's write port (\<open>check_write_contract\<close> of
  \<open>tools/erl_hls_tools/topology_debug_actors.py\<close>) says of the values its nets take.
\<close>

section \<open>Values of a module's nets\<close>

text \<open>A multiplexer drives its output with the arm that its one-bit selector chooses.\<close>

definition mux_holds :: "(bit \<Rightarrow> bool) \<Rightarrow> cell \<Rightarrow> bool" where
  "mux_holds val c = (if cell_type c \<noteq> ''$mux'' then True else
     case (map_of (connections c) ''Y'', map_of (connections c) ''S'') of
       (Some y, Some [s]) \<Rightarrow> (case map_of (connections c) (if val s then ''B'' else ''A'') of
           Some arm \<Rightarrow> map val y = map val arm | None \<Rightarrow> True)
     | _ \<Rightarrow> True)"

text \<open>A valuation of all bits; a constant that is neither zero nor one (a don't-care) may have any value.\<close>

definition consistent :: "module \<Rightarrow> (bit \<Rightarrow> bool) \<Rightarrow> bool" where
  "consistent m val \<longleftrightarrow> \<not> val (Constant ''0'') \<and> val (Constant ''1'') \<and> list_all (mux_holds val) (map snd (cells m))"

section \<open>Following the enable preserves values\<close>

lemma filterE_member: "filterE f xs = Inr ys \<Longrightarrow> y \<in> set ys \<Longrightarrow> y \<in> set xs \<and> f y = Inr True"
  by (induction xs arbitrary: ys) (auto simp: bindE_Inr split: if_splits)

lemma mux_step:
  assumes "mux_on m bits c = Inr True" and "lookup (connections c) (if enabled then ''B'' else ''A'') = Inr arm"
    and "port_bits_of m ''wr_en'' = Inr [en]" and "mux_holds val c" and "val en = enabled"
  shows "map val bits = map val arm"
proof -
  from assms(1,3) have c: "cell_type c = ''$mux''" "map_of (connections c) ''Y'' = Some bits" "map_of (connections c) ''S'' = Some [en]"
    by (auto simp: mux_on_def port_bits_of_def bindE_Inr split: if_splits)
  from assms(4) c assms(2,5) show ?thesis by (simp add: mux_holds_def)
qed

lemma follow_enable_value:
  assumes "follow_enable m enabled seen bits = Inr reached" and "port_bits_of m ''wr_en'' = Inr [en]"
    and "consistent m val" and "val en = enabled"
  shows "map val bits = map val reached"
  using assms
proof (induction m enabled seen bits rule: follow_enable.induct)
  case (1 m enabled seen bits)
  from "1.prems"(1) have new: "bits \<notin> set seen" by (subst (asm) follow_enable.simps) (auto split: if_splits)
  with "1.prems"(1) obtain muxes where muxes: "filterE (mux_on m bits) (map snd (cells m)) = Inr muxes"
    by (subst (asm) follow_enable.simps) (auto split: sum.splits)
  show ?case
  proof (cases muxes)
    case Nil
    with "1.prems"(1) new muxes show ?thesis by (subst (asm) follow_enable.simps) simp
  next
    case (Cons c cs)
    with "1.prems"(1) new muxes obtain arm where arm: "lookup (connections c) (if enabled then ''B'' else ''A'') = Inr arm"
      and rest: "follow_enable m enabled (seen @ [bits]) arm = Inr reached"
      by (subst (asm) follow_enable.simps) (auto split: sum.splits)
    from filterE_member[OF muxes, of c] Cons have c: "c \<in> set (map snd (cells m))" "mux_on m bits c = Inr True" by auto
    with "1.prems"(3) have "mux_holds val c" by (auto simp: consistent_def list_all_iff)
    with mux_step[OF c(2) arm "1.prems"(2)] "1.prems"(4) have "map val bits = map val arm" by blast
    also have "\<dots> = map val reached"
      using "1.IH"[OF new muxes Cons arm rest "1.prems"(2-4)] .
    finally show ?thesis .
  qed
qed

lemma follows_value:
  assumes "follows m c n enabled expected = Inr ()" and "port_bits_of m ''wr_en'' = Inr [en]"
    and "consistent m val" and "val en = enabled"
  shows "\<exists>bits. map_of (connections c) n = Some bits \<and> map val bits = map val expected"
  using assms(1) follow_enable_value[OF _ assms(2-4), of "[]"] by (auto simp: follows_def bindE_Inr)

text \<open>The write port of a module, and what the check finds on it.\<close>

definition write_cells :: "module \<Rightarrow> cell list" where
  "write_cells m = filter (\<lambda>c. prefix ''$memwr'' (cell_type c)) (map snd (cells m))"

definition stored :: "cell \<Rightarrow> (bit \<Rightarrow> bool) \<Rightarrow> string \<Rightarrow> bool list" where
  "stored c val n = (case map_of (connections c) n of None \<Rightarrow> [] | Some bits \<Rightarrow> map val bits)"

lemma write_contract_parts:
  assumes "check_write_contract m = Inr ()"
  obtains wr addr data where "write_cells m = [wr]"
    "port_bits_of m ''wr_addr'' = Inr addr" "port_bits_of m ''wr_data'' = Inr data"
    "follows m wr ''ADDR'' True addr = Inr ()" "follows m wr ''DATA'' True data = Inr ()"
    "follows m wr ''EN'' True (replicate (length data) (Constant ''1'')) = Inr ()"
    "follows m wr ''EN'' False (replicate (length data) (Constant ''0'')) = Inr ()"
proof -
  from assms show thesis
    by (auto simp: check_write_contract_def write_cells_def Let_def bindE_Inr split: list.splits intro!: that)
qed

end
