(* ===== verification/Debug_Memories.thy ===== *)
theory Debug_Memories
  imports Topo_Resources "HOL-Library.Product_Lexorder" "HOL-Library.Multiset"
begin

text \<open>
  The check that instrumentation keeps application memories (\<open>tools/check_debug_memories.py\<close>), between the runs of
  Yosys: the module it rereads from the emitted Verilog and the two mapped modules are arguments.
  \<open>digest\<close> is the hash of a canonical dump of sorted parameters.
\<close>

section \<open>Inventories\<close>

type_synonym memory_entry = "int \<times> int \<times> int \<times> (string, string) dict"

text \<open>Dictionaries are compared without order, so an inventory is kept sorted by its keys.\<close>

definition kept_attributes :: "(string, string) dict \<Rightarrow> (string, string) dict" where
  "kept_attributes d = sort_key fst (filter (\<lambda>(k, _). k \<notin> {''src'', ''hdlname''}) d)"

definition inventory :: "module \<Rightarrow> (string, memory_entry) dict" where
  "inventory m = sort_key fst (map (\<lambda>(n, mem).
     (n, memory_width mem, memory_size mem, start_offset mem, kept_attributes (memory_attributes mem))) (memories m))"

record mapped =
  primitives :: "(string \<times> nat) list"
  unmapped_bits :: nat
  configurations :: "((string \<times> string) \<times> nat) list"

definition memory_cell :: "cell \<Rightarrow> bool" where
  "memory_cell c \<longleftrightarrow> prefix ''RAM'' (cell_type c) \<or> cell_type c = ''$mem_v2''"

definition increment :: "'k \<Rightarrow> ('k, nat) dict \<Rightarrow> ('k, nat) dict" where
  "increment k d = AList.update k ((case map_of d k of None \<Rightarrow> 0 | Some n \<Rightarrow> n) + 1) d"

definition configuration :: "((string, string) dict \<Rightarrow> string) \<Rightarrow> cell \<Rightarrow> string \<times> string" where
  "configuration digest c = (cell_type c, digest (sort_key fst (filter (\<lambda>(k, _). k \<noteq> ''MEMID'') (parameters c))))"

definition cell_bits :: "cell \<Rightarrow> (topology_error, nat) result" where
  "cell_bits c = (if cell_type c = ''$mem_v2''
     then bindE (lookup (parameters c) ''WIDTH'') (\<lambda>w. bindE (binary_number w) (\<lambda>a.
          bindE (lookup (parameters c) ''SIZE'') (\<lambda>s. bindE (binary_number s) (\<lambda>b. Inr (a * b)))))
     else Inr 0)"

definition mapped_memories :: "((string, string) dict \<Rightarrow> string) \<Rightarrow> module \<Rightarrow> (topology_error, mapped) result" where
  "mapped_memories digest m = (let cs = filter memory_cell (map snd (cells m)) in
     bindE (mapE cell_bits cs) (\<lambda>bits.
     Inr \<lparr>primitives = sort_key fst (fold increment (map cell_type cs) []), unmapped_bits = sum_list bits,
       configurations = sort_key fst (fold increment (map (configuration digest) cs) [])\<rparr>))"

record memory_report =
  original_memories :: "(string, memory_entry) dict"
  roundtrip_memories :: "(string, memory_entry) dict"
  mapping :: "(mapped \<times> mapped) option"

text \<open>\<open>top, = exported["modules"]\<close> demands exactly one module.\<close>

definition check_memories ::
  "((string, string) dict \<Rightarrow> string) \<Rightarrow> hierarchy \<Rightarrow> string \<Rightarrow> hierarchy \<Rightarrow> module \<Rightarrow> (module \<times> module) option \<Rightarrow>
   (topology_error, memory_report) result" where
  "check_memories digest original top_name export reread xc7 =
     (case export of
        [(_, em)] \<Rightarrow>
          bindE (lookup original top_name) (\<lambda>om.
          let expected = inventory om; actual = inventory reread in
          bindE (ensure (expected \<noteq> []) (Rejected ''memory check requires an application with memories'')) (\<lambda>_.
          bindE (ensure (inventory em = expected) (Rejected ''instrumentation changed application memory declarations'')) (\<lambda>_.
          bindE (ensure (actual = expected) (Rejected ''RTL export changed memory declarations'')) (\<lambda>_.
          bindE (case xc7 of None \<Rightarrow> Inr None
            | Some (preserved, verilog) \<Rightarrow>
                bindE (mapped_memories digest preserved) (\<lambda>p. bindE (mapped_memories digest verilog) (\<lambda>v.
                bindE (ensure (p = v) (Rejected ''RTL export changed mapped memory configurations'')) (\<lambda>_. Inr (Some (p, v)))))) (\<lambda>mp.
          Inr \<lparr>original_memories = expected, roundtrip_memories = actual, mapping = mp\<rparr>)))))
      | _ \<Rightarrow> Inl Bad_Number)"

section \<open>Counters\<close>

lemma increment_distinct: "distinct (map fst d) \<Longrightarrow> distinct (map fst (increment k d))"
  by (simp add: increment_def distinct_update)

lemma fold_increment_distinct: "distinct (map fst d) \<Longrightarrow> distinct (map fst (fold increment ks d))"
  by (induction ks arbitrary: d) (simp_all add: increment_distinct)

definition counted :: "('k, nat) dict \<Rightarrow> 'k \<Rightarrow> nat" where
  "counted d k = (case map_of d k of None \<Rightarrow> 0 | Some n \<Rightarrow> n)"

lemma counted_increment: "counted (increment k d) j = counted d j + (if j = k then 1 else 0)"
  by (simp add: counted_def increment_def update_conv')

lemma fold_increment_counted: "counted (fold increment ks d) k = counted d k + length (filter (\<lambda>j. j = k) ks)"
  by (induction ks arbitrary: d) (auto simp: counted_increment)

lemma fold_increment_positive:
  "\<forall>(k, n)\<in>set d. 0 < n \<Longrightarrow> distinct (map fst d) \<Longrightarrow> \<forall>(k, n)\<in>set (fold increment ks d). 0 < n"
proof (induction ks arbitrary: d)
  case (Cons k ks)
  have "\<forall>(j, n)\<in>set (increment k d). 0 < n"
    using Cons.prems by (auto simp: increment_def set_update)
  with Cons.IH[OF this increment_distinct[OF Cons.prems(2)]] show ?case by simp
qed simp

text \<open>The rows of a counter are the keys that occur, with the numbers of their occurrences.\<close>

lemma counter_rows: "set (fold increment ks []) = {(k, length (filter (\<lambda>j. j = k) ks)) | k. k \<in> set ks}"
proof -
  let ?d = "fold increment ks []"
  have d: "distinct (map fst ?d)" by (rule fold_increment_distinct) simp
  have pos: "\<forall>(k, n)\<in>set ?d. 0 < n" by (rule fold_increment_positive) simp_all
  have c: "counted ?d k = length (filter (\<lambda>j. j = k) ks)" for k using fold_increment_counted[of ks "[]" k] by (simp add: counted_def[of "[]"])
  have "(k, n) \<in> set ?d \<longleftrightarrow> k \<in> set ks \<and> n = length (filter (\<lambda>j. j = k) ks)" for k n
  proof
    assume kn: "(k, n) \<in> set ?d"
    with d have "map_of ?d k = Some n" by simp
    with c[of k] have n: "n = length (filter (\<lambda>j. j = k) ks)" by (simp add: counted_def)
    with pos kn have "filter (\<lambda>j. j = k) ks \<noteq> []" by auto
    with n show "k \<in> set ks \<and> n = length (filter (\<lambda>j. j = k) ks)" by (auto simp: filter_empty_conv)
  next
    assume k: "k \<in> set ks \<and> n = length (filter (\<lambda>j. j = k) ks)"
    then have "0 < n" by (auto simp: filter_empty_conv)
    with c[of k] k have "map_of ?d k = Some n" by (auto simp: counted_def split: option.splits)
    then show "(k, n) \<in> set ?d" by (rule map_of_SomeD)
  qed
  then show ?thesis by auto
qed

lemma counter_sorted_eq:
  "sort_key fst (fold increment ks []) = sort_key fst (fold increment js []) \<longleftrightarrow> mset ks = mset js"
proof
  assume "sort_key fst (fold increment ks []) = sort_key fst (fold increment js [])"
  then have "set (fold increment ks []) = set (fold increment js [])" by (metis set_sort)
  note rows = this[unfolded counter_rows]
  have "length (filter (\<lambda>j. j = k) ks) = length (filter (\<lambda>j. j = k) js)" for k
  proof (cases "k \<in> set ks \<or> k \<in> set js")
    case True
    with rows show ?thesis by (auto simp: set_eq_iff)
  next
    case False
    then have "filter (\<lambda>j. j = k) ks = []" "filter (\<lambda>j. j = k) js = []" by (auto simp: filter_empty_conv)
    then show ?thesis by simp
  qed
  moreover have "count (mset xs) k = length (filter (\<lambda>j. j = k) xs)" for xs :: "'a list" and k by (induction xs) auto
  ultimately show "mset ks = mset js" by (intro multiset_eqI) simp
next
  assume m: "mset ks = mset js"
  then have "set ks = set js" by (rule mset_eq_setD)
  moreover have "length (filter (\<lambda>j. j = k) ks) = length (filter (\<lambda>j. j = k) js)" for k
    using m by (metis mset_filter size_mset)
  ultimately have same: "set (fold increment ks []) = set (fold increment js [])" by (simp add: counter_rows)
  have d: "distinct (fold increment xs []) \<and> inj_on fst (set (fold increment xs []))" for xs :: "'a list"
    using fold_increment_distinct[of "[]" xs] by (simp add: distinct_map)
  show "sort_key fst (fold increment ks []) = sort_key fst (fold increment js [])"
    using same d[of ks] d[of js] by (intro map_sorted_distinct_set_unique[of fst]) (simp_all add: distinct_map)
qed

section \<open>What a passed check says\<close>

definition memory_cells :: "module \<Rightarrow> cell list" where
  "memory_cells m = filter memory_cell (map snd (cells m))"

lemma mapped_memories_Inr:
  "mapped_memories digest m = Inr r \<Longrightarrow>
     configurations r = sort_key fst (fold increment (map (configuration digest) (memory_cells m)) [])"
  by (auto simp: mapped_memories_def memory_cells_def bindE_Inr Let_def)

lemma check_memories_Inr:
  "check_memories digest original top_name [(n, em)] reread xc7 = Inr rep \<longleftrightarrow>
    (\<exists>om. map_of original top_name = Some om \<and> inventory om \<noteq> [] \<and> inventory em = inventory om \<and> inventory reread = inventory om \<and>
      original_memories rep = inventory om \<and> roundtrip_memories rep = inventory om \<and>
      (case xc7 of None \<Rightarrow> mapping rep = None | Some (p, v) \<Rightarrow>
        \<exists>r. mapped_memories digest p = Inr r \<and> mapped_memories digest v = Inr r \<and> mapping rep = Some (r, r)))"
  by (cases rep; cases xc7) (auto simp: check_memories_def bindE_Inr Let_def)

lemma export_inventory: "only_outputs_added m m' outs \<Longrightarrow> inventory m' = inventory m"
  by (simp add: only_outputs_added_def inventory_def)

end
