(* ===== verification/Topo_Taps.thy ===== *)
theory Topo_Taps
  imports Topo_Layout
begin

text \<open>
  Which nets of the flattened design the taps of a bank are: the enable, the address and the values of its state, the
  mailbox sample and the live sample; and that the wrapper reads each at its own position of the bus of all taps.
\<close>

section \<open>Sources of the taps\<close>

text \<open>A sampled port: its valid net, then its values.\<close>

definition sampled_from :: "module \<Rightarrow> string list \<Rightarrow> string \<Rightarrow> bit list \<Rightarrow> bit list \<Rightarrow> bool" where
  "sampled_from flat root p valid vals \<longleftrightarrow> (\<exists>name.
     flat_bits flat (root @ [name]) (p @ ''_vld'') = Inr valid \<and> flat_bits flat (root @ [name]) p = Inr vals)"

definition state_from :: "bool \<Rightarrow> module \<Rightarrow> string list \<Rightarrow> bank \<Rightarrow> bit list \<Rightarrow> bit list \<Rightarrow> bit list \<Rightarrow> bool" where
  "state_from is_direct flat root b enable address vals \<longleftrightarrow>
     (if is_direct
      then address = [Constant ''0''] \<and> (\<exists>p. bank_port b = Some p \<and> sampled_from flat root p enable vals)
      else \<exists>r. bank_ram b = Some r \<and> flat_bits flat (root @ [r]) ''wr_en'' = Inr enable \<and>
        flat_bits flat (root @ [r]) ''wr_addr'' = Inr address \<and> flat_bits flat (root @ [r]) ''wr_data'' = Inr vals)"

definition mailbox_from ::
  "bool \<Rightarrow> module \<Rightarrow> string list \<Rightarrow> mailbox \<Rightarrow> bit list \<Rightarrow> bit list \<Rightarrow> bit list \<Rightarrow> bit list \<Rightarrow> bool" where
  "mailbox_from is_direct flat root mb enable state valid vals \<longleftrightarrow>
     (if is_direct
      then \<exists>offset. mailbox_offset mb = Some offset \<and> valid = enable \<and> vals = slice (nat (as_int offset)) 24 state
      else \<exists>p. mailbox_port mb = Some p \<and> sampled_from flat root p valid vals)"

definition bank_from :: "bool \<Rightarrow> module \<Rightarrow> string list \<Rightarrow> bound_bank \<Rightarrow> bool" where
  "bank_from is_direct flat root bb \<longleftrightarrow> (let b = bank bb; src = bound_source bb in
     \<exists>enable address selected keys keys' mb live. selected_fields b keys = Inr (selected, keys') \<and>
       length enable = 1 \<and> length address = address_width src \<and> enable_taps src = enable @ address \<and>
       state_from is_direct flat root b enable address (source_values src) \<and>
       taps bb = enable @ address @ map (\<lambda>i. source_values src ! i) selected @ mb @ live \<and>
       (case bank_mailbox b of None \<Rightarrow> mb = [] | Some box \<Rightarrow> \<exists>valid vals. mb = valid @ vals \<and> length valid = 1 \<and>
          length vals = 24 * nat (slots b) \<and> mailbox_from is_direct flat root box enable (source_values src) valid vals) \<and>
       (case bank_live b of None \<Rightarrow> live = [] | Some l \<Rightarrow> \<exists>valid vals. live = valid @ vals \<and> length valid = 1 \<and>
          length vals = nat (slots b * live_width l) \<and> sampled_from flat root (live_port l) valid vals))"

section \<open>A bound bank has these sources\<close>

lemma observed_output_from:
  assumes "observed_output p n root m mods flat clock_bit who what = Inr (path, v, vals)"
  shows "sampled_from flat root p v vals"
  using assms unfolding observed_output_def sampled_from_def
  by (auto split: list.splits simp: bindE_Inr Let_def)

lemma ram_source_from:
  assumes "ram_source b root m mods flat clock_bit = Inr src"
  shows "\<exists>enable address. enable_taps src = enable @ address \<and> length enable = 1 \<and> length address = address_width src \<and>
    state_from False flat root b enable address (source_values src)"
proof -
  let ?aw = "max 1 (bit_length (nat (slots b - 1)))"
  from assms obtain r ram en addr data where
    ports: "checkE (ram_port ram flat (root @ [r])) [(''clk'', ''input'', 1), (''wr_en'', ''input'', 1),
        (''wr_addr'', ''input'', int ?aw), (''wr_data'', ''input'', width b)] = Inr ()"
    and bits: "flat_bits flat (root @ [r]) ''wr_en'' = Inr en" "flat_bits flat (root @ [r]) ''wr_addr'' = Inr addr"
      "flat_bits flat (root @ [r]) ''wr_data'' = Inr data" "bank_ram b = Some r"
    and src: "src = \<lparr>source_path = root @ [r], address_width = ?aw, enable_taps = en @ addr, source_values = data\<rparr>"
    unfolding ram_source_def Let_def bindE_Inr by (auto split: option.splits simp: bindE_Inr)
  from ports[unfolded checkE_Inr] have "int (length en) = 1" "int (length addr) = int ?aw"
    using bits by (auto dest!: ram_port_Inr)
  with bits src show ?thesis by (auto simp: state_from_def)
qed

lemma direct_source_from:
  assumes "direct_source b root m mods flat clock_bit = Inr src"
  shows "\<exists>enable address. enable_taps src = enable @ address \<and> length enable = 1 \<and> length address = address_width src \<and>
    state_from True flat root b enable address (source_values src)"
proof -
  from assms obtain p path v vals where p: "bank_port b = Some p"
    and out: "observed_output p (width b) root m mods flat clock_bit ''direct actor'' ''direct actor'' = Inr (path, v, vals)"
    and src: "src = \<lparr>source_path = path, address_width = 1, enable_taps = v @ [Constant ''0''], source_values = vals\<rparr>"
    by (auto simp: direct_source_def bindE_Inr split: option.splits)
  show ?thesis
    using p src observed_output_lengths(1)[OF out] observed_output_from[OF out]
    by (intro exI[of _ v] exI[of _ "[Constant ''0'']"]) (simp add: state_from_def)
qed

lemma sampled_array_from:
  assumes "sampled_array_source p n root m mods flat clock_bit what = Inr bs"
  shows "\<exists>valid vals. bs = valid @ vals \<and> length valid = 1 \<and> int (length vals) = n \<and> sampled_from flat root p valid vals"
proof -
  from assms obtain path v vals where
    out: "observed_output p n root m mods flat clock_bit what what = Inr (path, v, vals)" and "bs = v @ vals"
    by (auto simp: sampled_array_source_def bindE_Inr)
  with observed_output_lengths[OF out] observed_output_from[OF out] show ?thesis by blast
qed

lemma mailbox_taps_from:
  assumes "mailbox_taps is_direct b selected src root m mods flat clock_bit = Inr mb" and "source_ok b src" and "1 \<le> slots b"
    and "is_direct \<Longrightarrow> slots b = 1" and "enable_taps src = enable @ address" and "length enable = 1"
  shows "case bank_mailbox b of None \<Rightarrow> mb = [] | Some box \<Rightarrow> \<exists>valid vals. mb = valid @ vals \<and> length valid = 1 \<and>
    length vals = 24 * nat (slots b) \<and> mailbox_from is_direct flat root box enable (source_values src) valid vals"
proof (cases "bank_mailbox b")
  case None
  with assms(1) show ?thesis by (simp add: mailbox_taps_def)
next
  case (Some box)
  show ?thesis
  proof (cases is_direct)
    case True
    with assms(1) Some obtain offset where o: "mailbox_offset box = Some offset" "0 \<le> as_int offset" "as_int offset \<le> width b - 24"
      "mb = take 1 (enable_taps src) @ slice (nat (as_int offset)) 24 (source_values src)"
      by (auto simp: mailbox_taps_def bindE_Inr split: option.splits)
    have "int (length (source_values src)) = width b" using assms(2) by (simp add: source_ok_def)
    with o have "length (slice (nat (as_int offset)) 24 (source_values src)) = 24" by (auto simp: slice_def)
    moreover have "take 1 (enable_taps src) = enable" using assms(5,6) by simp
    ultimately have "mb = enable @ slice (nat (as_int offset)) 24 (source_values src) \<and> length enable = 1 \<and>
        length (slice (nat (as_int offset)) 24 (source_values src)) = 24 * nat (slots b) \<and>
        mailbox_from is_direct flat root box enable (source_values src) enable (slice (nat (as_int offset)) 24 (source_values src))"
      using o assms(4)[OF True] assms(6) True by (simp add: mailbox_from_def)
    with Some show ?thesis by (simp only: option.case) blast
  next
    case False
    with assms(1) Some obtain p where "mailbox_port box = Some p" "mailbox_source p (slots b) root m mods flat clock_bit = Inr mb"
      by (auto simp: mailbox_taps_def bindE_Inr split: option.splits)
    then have "sampled_array_source p (24 * slots b) root m mods flat clock_bit ''mailbox'' = Inr mb"
      by (simp add: mailbox_source_def)
    from sampled_array_from[OF this] obtain valid vals where s: "mb = valid @ vals" "length valid = 1"
      "int (length vals) = 24 * slots b" "sampled_from flat root p valid vals" by blast
    have "length vals = 24 * nat (slots b)" using s(3) by linarith
    moreover have "mailbox_from is_direct flat root box enable (source_values src) valid vals"
      using \<open>mailbox_port box = Some p\<close> False s(4) by (simp add: mailbox_from_def)
    ultimately show ?thesis using Some s(1,2) by (simp only: option.case) blast
  qed
qed

lemma live_taps_from:
  assumes "live_taps version is_direct b root m mods flat clock_bit = Inr ls"
  shows "case bank_live b of None \<Rightarrow> ls = [] | Some l \<Rightarrow> \<exists>valid vals. ls = valid @ vals \<and> length valid = 1 \<and>
    length vals = nat (slots b * live_width l) \<and> sampled_from flat root (live_port l) valid vals"
proof (cases "bank_live b")
  case None
  with assms show ?thesis by (simp add: live_taps_def)
next
  case (Some l)
  with assms have "sampled_array_source (live_port l) (live_width l * slots b) root m mods flat clock_bit ''live actor'' = Inr ls"
    by (auto simp: live_taps_def bindE_Inr)
  from sampled_array_from[OF this] obtain valid vals where
    "ls = valid @ vals" "length valid = 1" "int (length vals) = live_width l * slots b" "sampled_from flat root (live_port l) valid vals"
    by blast
  moreover from this(3) have "length vals = nat (slots b * live_width l)" by (simp add: mult.commute)
  ultimately show ?thesis using Some by (simp only: option.case) blast
qed

lemma bind_bank_from:
  assumes "bind_bank pj root m mods flat clock_bit (bound, keys) (i, b) = Inr (bound', keys')"
  shows "\<exists>bb. bound' = bound @ [bb] \<and> bank_index (bank bb) = int i \<and> bank_from (length (shared_banks pj) \<le> i) flat root bb"
proof -
  let ?direct = "length (shared_banks pj) \<le> i"
  obtain selected src chosen mb live where
    index: "bank_index b = int i" and pos: "1 \<le> slots b"
    and sel: "selected_fields b keys = Inr (selected, keys')"
    and src: "(if ?direct then direct_source else ram_source) b root m mods flat clock_bit = Inr src"
    and chosen: "select_bits (source_values src) selected = Inr chosen"
    and mb: "mailbox_taps ?direct b selected src root m mods flat clock_bit = Inr mb"
    and live: "live_taps (projection_schema pj) ?direct b root m mods flat clock_bit = Inr live"
    and bound': "bound' = bound @ [\<lparr>bank = b, bound_source = src, taps = enable_taps src @ chosen @ mb @ live\<rparr>]"
    using assms by (auto simp: bind_bank_def bindE_Inr Let_def)
  have ok: "source_ok b src" and one: "?direct \<Longrightarrow> slots b = 1"
    using src ram_source_ok[OF _ pos] direct_source_ok by (auto split: if_splits)
  have "\<exists>enable address. enable_taps src = enable @ address \<and> length enable = 1 \<and> length address = address_width src \<and>
      state_from ?direct flat root b enable address (source_values src)"
  proof (cases ?direct)
    case True
    with src direct_source_from show ?thesis by simp
  next
    case False
    with src ram_source_from show ?thesis by simp
  qed
  then obtain enable address where en: "enable_taps src = enable @ address" "length enable = 1" "length address = address_width src"
    "state_from ?direct flat root b enable address (source_values src)" by blast
  have "bank_from ?direct flat root \<lparr>bank = b, bound_source = src, taps = enable_taps src @ chosen @ mb @ live\<rparr>"
    unfolding bank_from_def Let_def bound_bank.simps
  proof (intro exI conjI)
    show "enable_taps src @ chosen @ mb @ live = enable @ address @ map (\<lambda>i. source_values src ! i) selected @ mb @ live"
      using en(1) select_bits_Inr[OF chosen] by simp
  qed (use sel en mailbox_taps_from[OF mb ok pos one en(1,2)] live_taps_from[OF live] in blast)+
  with index bound' show ?thesis by (intro exI conjI) simp_all
qed

lemma bind_banks_from:
  assumes "foldE (bind_bank pj root m mods flat clock_bit) st (enumerate k banks) = Inr st'"
    and "\<forall>bb\<in>set (fst st). bank_from (int (length (shared_banks pj)) \<le> bank_index (bank bb)) flat root bb"
  shows "\<forall>bb\<in>set (fst st'). bank_from (int (length (shared_banks pj)) \<le> bank_index (bank bb)) flat root bb"
  using assms
proof (induction banks arbitrary: st k)
  case (Cons b banks)
  obtain bound keys where st: "st = (bound, keys)" by fastforce
  from Cons.prems obtain u where u: "bind_bank pj root m mods flat clock_bit (bound, keys) (k, b) = Inr u"
    "foldE (bind_bank pj root m mods flat clock_bit) u (enumerate (Suc k) banks) = Inr st'"
    by (auto simp: bindE_Inr st)
  obtain bound' keys' where u': "u = (bound', keys')" by fastforce
  from bind_bank_from[OF u(1)[unfolded u']] obtain bb where
    bb: "bound' = bound @ [bb]" "bank_index (bank bb) = int k" "bank_from (length (shared_banks pj) \<le> k) flat root bb" by blast
  show ?case
    by (rule Cons.IH[OF u(2)]) (use Cons.prems(2) bb in \<open>auto simp: st u'\<close>)
qed simp

lemma discover_actors_from:
  assumes "discover_actors pj root mods flat top_name clock_bit = Inr bbs" and "bb \<in> set bbs"
  shows "bank_from (int (length (shared_banks pj)) \<le> bank_index (bank bb)) flat root bb"
proof -
  from assms(1) obtain m keys where
    f: "foldE (bind_bank pj root m mods flat clock_bit) ([], []) (enumerate 0 (shared_banks pj @ direct_banks pj)) = Inr (bbs, keys)"
    by (auto simp: discover_actors_def bindE_Inr Let_def)
  from bind_banks_from[OF f] assms(2) show ?thesis by simp
qed

section \<open>What the wrapper reads\<close>

text \<open>
  The vectors that the text of a bank connects: \<open>tap\<close> and \<open>tap_slice\<close> at the positions of its view, each with the nets
  it stands for.
\<close>

definition reads_netlist :: "bool \<Rightarrow> module \<Rightarrow> string list \<Rightarrow> bit list \<Rightarrow> view \<Rightarrow> bool" where
  "reads_netlist is_direct flat root bus v \<longleftrightarrow>
     (let b = bank (view_bank v); at = view_offset v; state = source_values (bound_source (view_bank v)) in
      state_from is_direct flat root b (slice at 1 bus) (slice (at + 1) (row_width v) bus) state \<and>
      (\<exists>selected keys keys'. selected_fields b keys = Inr (selected, keys') \<and> distinct selected \<and>
         slice (at + 1 + row_width v) (write_width v) bus = map (\<lambda>i. state ! i) selected) \<and>
      (case bank_mailbox b of None \<Rightarrow> True | Some mb \<Rightarrow> mailbox_from is_direct flat root mb (slice at 1 bus) state
         (slice (mailbox_position v) 1 bus) (slice (mailbox_position v + 1) (24 * bank_count (view_bank v)) bus)) \<and>
      (case bank_live b of None \<Rightarrow> True | Some l \<Rightarrow> sampled_from flat root (live_port l)
         (slice (live_position v) 1 bus) (slice (live_position v + 1) (nat (slots b * live_width l)) bus)))"

lemma slice_middle:
  "length xs = k \<Longrightarrow> length ys = n \<Longrightarrow> slice k n (xs @ ys @ zs) = ys"
  by (auto simp: slice_def)

lemma view_reads:
  assumes v: "v \<in> set (views 0 first bbs)" and bound: "bank_from is_direct flat root (view_bank v)"
  shows "reads_netlist is_direct flat root (concat (map taps bbs)) v"
proof -
  define b where "b = bank (view_bank v)"
  define src where "src = bound_source (view_bank v)"
  define bus where "bus = concat (map taps bbs)"
  obtain us bb vs where "bbs = us @ bb # vs" "view_bank v = bb" and off: "view_offset v = length (concat (map taps us))"
    using v by (auto simp: in_views)
  then have bus: "bus = concat (map taps us) @ taps (view_bank v) @ concat (map taps vs)" by (simp add: bus_def)
  from bound obtain enable address selected keys keys' mb live where
    sel: "selected_fields b keys = Inr (selected, keys')"
    and len: "length enable = 1" "length address = row_width v"
    and state: "state_from is_direct flat root b enable address (source_values src)"
    and t: "taps (view_bank v) = enable @ address @ map (\<lambda>i. source_values src ! i) selected @ mb @ live"
    and mb: "case bank_mailbox b of None \<Rightarrow> mb = [] | Some box \<Rightarrow> \<exists>valid vals. mb = valid @ vals \<and> length valid = 1 \<and>
          length vals = 24 * nat (slots b) \<and> mailbox_from is_direct flat root box enable (source_values src) valid vals"
    and live: "case bank_live b of None \<Rightarrow> live = [] | Some l \<Rightarrow> \<exists>valid vals. live = valid @ vals \<and> length valid = 1 \<and>
          length vals = nat (slots b * live_width l) \<and> sampled_from flat root (live_port l) valid vals"
    unfolding bank_from_def Let_def b_def src_def row_width_def by blast
  let ?chosen = "map (\<lambda>i. source_values src ! i) selected"
  have "int (length selected) = 25 + ram_reduction_width b" "0 \<le> ram_reduction_width b" and ds: "distinct selected"
    using selected_fields_Inr[OF sel] by blast+
  then have ch: "length ?chosen = write_width v" by (simp add: write_width_def b_def)
  have mlen: "length mb = (if has_mailbox v then 1 + 24 * bank_count (view_bank v) else 0)"
    using mb by (auto simp: has_mailbox_def bank_count_def b_def split: option.splits)
  let ?pre = "concat (map taps us)" and ?post = "concat (map taps vs)"
  have mpos: "mailbox_position v = length (?pre @ enable @ address @ ?chosen)"
    using off len ch by (simp add: mailbox_position_def)
  have lpos: "live_position v = length (?pre @ enable @ address @ ?chosen @ mb)"
    using mpos mlen by (simp add: live_position_def)
  have en: "slice (view_offset v) 1 bus = enable" and ad: "slice (view_offset v + 1) (row_width v) bus = address"
    and st: "slice (view_offset v + 1 + row_width v) (write_width v) bus = ?chosen"
    unfolding bus t using off len ch
      slice_middle[of ?pre _ enable 1 "address @ ?chosen @ mb @ live @ ?post"]
      slice_middle[of "?pre @ enable" _ address "row_width v" "?chosen @ mb @ live @ ?post"]
      slice_middle[of "?pre @ enable @ address" _ ?chosen "write_width v" "mb @ live @ ?post"]
    by simp_all
  have box: "mailbox_from is_direct flat root box enable (source_values src) (slice (mailbox_position v) 1 bus)
      (slice (mailbox_position v + 1) (24 * bank_count (view_bank v)) bus)" if "bank_mailbox b = Some box" for box
  proof -
    from mb that obtain valid vals where m: "mb = valid @ vals" "length valid = 1"
      "length vals = 24 * bank_count (view_bank v)" "mailbox_from is_direct flat root box enable (source_values src) valid vals"
      by (auto simp: bank_count_def b_def)
    have "slice (mailbox_position v) 1 bus = valid"
      unfolding bus t m(1) mpos using slice_middle[OF refl m(2), of "?pre @ enable @ address @ ?chosen" "vals @ live @ ?post"] by simp
    moreover have "slice (mailbox_position v + 1) (24 * bank_count (view_bank v)) bus = vals"
      unfolding bus t m(1) mpos
      using slice_middle[OF _ m(3), of "?pre @ enable @ address @ ?chosen @ valid" _ "live @ ?post"] m(2) by simp
    ultimately show ?thesis using m(4) by simp
  qed
  have sample: "sampled_from flat root (live_port l) (slice (live_position v) 1 bus)
      (slice (live_position v + 1) (nat (slots b * live_width l)) bus)" if "bank_live b = Some l" for l
  proof -
    from live that obtain valid vals where m: "live = valid @ vals" "length valid = 1"
      "length vals = nat (slots b * live_width l)" "sampled_from flat root (live_port l) valid vals"
      by auto
    have "slice (live_position v) 1 bus = valid"
      unfolding bus t m(1) lpos using slice_middle[OF refl m(2), of "?pre @ enable @ address @ ?chosen @ mb" "vals @ ?post"] by simp
    moreover have "slice (live_position v + 1) (nat (slots b * live_width l)) bus = vals"
      unfolding bus t m(1) lpos
      using slice_middle[OF _ m(3), of "?pre @ enable @ address @ ?chosen @ mb @ valid" _ ?post] m(2) by simp
    ultimately show ?thesis using m(4) by simp
  qed
  show ?thesis
    unfolding reads_netlist_def Let_def b_def[symmetric] src_def[symmetric] bus_def[symmetric] en ad st
    using state sel ds box sample by (auto split: option.splits)
qed

end
