(* ===== verification/Topo_Properties.thy ===== *)
theory Topo_Properties
  imports Topo_Report Topo_Contract Debug_Memories Topo_Taps
begin

text \<open>The properties of the topology debug generator, with a small elaborated design.\<close>

section \<open>A queue between two actors\<close>

definition io :: "string \<Rightarrow> nat \<Rightarrow> string \<Rightarrow> string \<times> port" where
  "io d b n = (n, \<lparr>direction = d, port_bits = [Net b]\<rparr>)"

definition instance_of :: "string \<Rightarrow> string \<Rightarrow> string \<times> cell" where
  "instance_of n t = (n, \<lparr>cell_type = t, parameters = [], connections = []\<rparr>)"

definition plain_module :: "(string \<times> port) list \<Rightarrow> (string \<times> cell) list \<Rightarrow> (string \<times> nat) list \<Rightarrow> module" where
  "plain_module ps cs ns = \<lparr>ports = ps, cells = cs, netnames = map (\<lambda>(n, b). (n, [Net b])) ns,
     memories = [], hdlname = []\<rparr>"

definition fifo_name :: string where
  "fifo_name = ''fifo_for_depth_2_ty_bits_32__no_bypass''"

definition fifo_module :: module where
  "fifo_module = plain_module [io ''input'' 1 ''clk'', io ''input'' 2 ''push_valid'', io ''output'' 3 ''push_ready'',
       io ''output'' 4 ''pop_valid'', io ''input'' 5 ''pop_ready''] [] []
     \<lparr>cells := [(''count'', \<lparr>cell_type = ''$dff'', parameters = [(''CLK_POLARITY'', ''1'')],
          connections = [(''CLK'', [Net 1]), (''Q'', [Net 7, Net 8])]\<rparr>),
        (''full'', \<lparr>cell_type = ''$eq'', parameters = [], connections = [(''A'', [Net 7, Net 8]),
          (''B'', [Constant ''0'', Constant ''1'']), (''Y'', [Net 9])]\<rparr>)],
      netnames := [(''slots'', [Net 7, Net 8]), (''is_full_bool'', [Net 9])]\<rparr>"

definition demo_hierarchy :: hierarchy where
  "demo_hierarchy = [
     (''top'', plain_module [io ''input'' 1 ''clk'', io ''output'' 2 ''out_vld'', io ''input'' 3 ''out_rdy'']
        [instance_of ''left'' ''source'', instance_of ''q'' fifo_name, instance_of ''right'' ''sink''] []),
     (''source'', plain_module [io ''input'' 1 ''clk'', io ''output'' 2 ''o_vld'', io ''input'' 3 ''o_rdy'',
        io ''output'' 4 ''m_valid'', io ''input'' 5 ''m_ready''] [] []),
     (fifo_name, fifo_module),
     (''sink'', plain_module [io ''input'' 1 ''clk'', io ''input'' 2 ''m_valid'', io ''output'' 3 ''m_ready''] [] [])]"

definition demo_flat :: hierarchy where
  "demo_flat = [(''top'', (plain_module [io ''input'' 1 ''clk'', io ''output'' 2 ''out_vld'', io ''input'' 3 ''out_rdy''] []
     [])
     \<lparr>netnames := [(''q.slots'', [Net 10, Net 11])] @ map (\<lambda>(n, b). (n, [Net b]))
      [(''clk'', 1), (''out_vld'', 2), (''out_rdy'', 3), (''left.clk'', 1), (''left.o_vld'', 2), (''left.o_rdy'', 3),
      (''left.m_valid'', 4), (''left.m_ready'', 5), (''q.clk'', 1), (''q.push_valid'', 4), (''q.push_ready'', 5),
      (''q.pop_valid'', 6), (''q.pop_ready'', 7), (''right.clk'', 1), (''right.m_valid'', 6), (''right.m_ready'', 7)]\<rparr>)]"

definition demo_probes :: "probe list" where
  "demo_probes = (let e = (\<lambda>path m q r x. \<lparr>at_path = path, at_module = m, at_port = q, role = r, external = x\<rparr>);
     p = (\<lambda>i n v r es as. \<lparr>probe_id = i, probe_name = n, valid_bit = Net v, ready_bit = Net r, endpoints = es,
        aliases = as, constant_handshake = False\<rparr>);
     a = [e [] ''top'' ''out'' Consumer True, e [''left''] ''source'' ''o'' Producer False];
     b = [e [''left''] ''source'' ''m'' Producer False, e [''q''] fifo_name ''push'' Consumer False];
     c = [e [''q''] fifo_name ''pop'' Producer False, e [''right''] ''sink'' ''m'' Consumer False] in
     [p 0 ''left/m'' 4 5 b b, p 1 ''left/o'' 2 3 (rev a) a, p 2 ''q/pop'' 6 7 c c])"

definition demo_queue :: queue where
  "demo_queue = \<lparr>queue_name = ''q'', queue_path = [''q''], queue_module = fifo_name, queue_capacity = 2,
     queue_width = 2, queue_bits = [Net 10, Net 11], queue_push = 0, queue_pop = 2\<rparr>"

lemma demo_discovers: "discover demo_hierarchy demo_flat ''top'' ''clk'' = Inr demo_probes"
  by code_simp

lemma demo_queues: "fifo_resources demo_hierarchy demo_flat ''top'' demo_probes = Inr ([demo_queue], [])"
  by code_simp

text \<open>Two actors that share a state RAM, with a mailbox sample of 24 bits each.\<close>

definition nets :: "nat \<Rightarrow> nat \<Rightarrow> bit list" where
  "nets from n = map Net [from..<from + n]"

definition ram_module :: module where
  "ram_module = \<lparr>ports = map (\<lambda>(n, bs). (n, \<lparr>direction = ''input'', port_bits = bs\<rparr>))
       [(''clk'', [Net 1]), (''wr_en'', [Net 2]), (''wr_addr'', [Net 3]), (''wr_data'', nets 10 33)],
     cells = [(''enable'', \<lparr>cell_type = ''$mux'', parameters = [], connections = [(''Y'', nets 50 33), (''S'', [Net 2]),
          (''A'', replicate 33 (Constant ''0'')), (''B'', replicate 33 (Constant ''1''))]\<rparr>),
        (''write'', \<lparr>cell_type = ''$memwr_v2'', parameters = [(''CLK_ENABLE'', ''1''), (''CLK_POLARITY'', ''1''),
          (''MEMID'', CHR 0x5C # ''rows'')], connections = [(''CLK'', [Net 1]), (''ADDR'', [Net 3]), (''DATA'', nets 10 33),
          (''EN'', nets 50 33)]\<rparr>)],
     netnames = [], memories = [(''rows'', \<lparr>memory_width = 33, memory_size = 2, start_offset = 0, memory_attributes = []\<rparr>)],
     hdlname = CHR 0x5C # ''hls_1r1w_ram''\<rparr>"

definition shell :: hierarchy where
  "shell = [(''top'', plain_module [] [instance_of ''ram'' ''rows'', (''app'', \<lparr>cell_type = ''app'', parameters = [],
        connections = [(''mb'', nets 50 48), (''mb_vld'', [Net 4]), (''mb_rdy'', [Constant ''1''])]\<rparr>)] []),
     (''rows'', ram_module),
     (''app'', plain_module [(''mb'', \<lparr>direction = ''output'', port_bits = nets 50 48\<rparr>), io ''output'' 4 ''mb_vld'',
        io ''input'' 5 ''mb_rdy''] [] [])]"

definition shell_flat :: module where
  "shell_flat = (plain_module [] [] [])\<lparr>netnames := [(''ram.clk'', [Net 1]), (''ram.wr_en'', [Net 2]), (''ram.wr_addr'', [Net 3]),
     (''ram.wr_data'', nets 10 33), (''app.mb'', nets 50 48), (''app.mb_vld'', [Net 4]), (''app.mb_rdy'', [Constant ''1'']),
     (''app.clk'', [Net 1])]\<rparr>"

definition demo_bank :: bank where
  "demo_bank = (let f = (\<lambda>i n. \<lparr>field_offset = Some (JInt i), live_offset = None, field_width = JInt n, observation_offset = JNull\<rparr>) in
     \<lparr>bank_index = 0, bank_slots = JInt 2, bank_width = JInt 33,
      bank_fields = [(''phase'', f 0 8), (''enter_pending'', f 8 1), (''failure'', f 9 16)], bank_reduction = None,
      bank_phases = [JStr ''idle''], bank_actors = map (\<lambda>(i, c). \<lparr>actor_slot = i, actor_key = replicate 64 c, actor_name = [c]\<rparr>)
        [(0, CHR ''a''), (1, CHR ''b'')], bank_ram = Some ''ram'', bank_port = None,
      bank_mailbox = Some \<lparr>mailbox_width = 24, mailbox_capacity = 4, mailbox_kind = ''shared'', mailbox_offset = None,
        mailbox_port = Some ''mb''\<rparr>, bank_live = None, bank_module = ''m'', bank_failures = JArr []\<rparr>)"

definition demo_projection :: projection where
  "demo_projection = \<lparr>projection_schema = 4, shared_banks = [demo_bank], direct_banks = []\<rparr>"

definition demo_bound :: bound_bank where
  "demo_bound = \<lparr>bank = demo_bank, bound_source = \<lparr>source_path = [''ram''], address_width = 1, enable_taps = [Net 2, Net 3],
     source_values = nets 10 33\<rparr>, taps = [Net 2, Net 3] @ nets 10 25 @ [Net 4] @ nets 50 48\<rparr>"

lemma demo_binds: "discover_actors demo_projection [] shell shell_flat ''top'' (Net 1) = Inr [demo_bound]"
  by code_simp

section \<open>Properties\<close>

text \<open>
  C10. A discovery that succeeds has walked the whole instance tree, every instance with handshakes
  in the clock domain of the application. Its probes carry their positions as identifiers, in name
  order, one per pair of flattened valid and ready bits; their aliases are exactly the handshakes of
  the instances that are no depth-zero FIFO, and the endpoints of a probe are the aliases no deeper
  alias of the same role extends: below every alias there is one.
\<close>

theorem discover_exact:
  assumes "discover mods flat_design top_name clock = Inr probes"
  shows "\<exists>flat root_clock. map_of flat_design top_name = Some flat \<and> flat_bit flat [] clock = Inr root_clock \<and>
    (\<forall>item\<in>set (descendants mods top_name). \<exists>i. item = Inr i \<and> in_domain flat root_clock i) \<and>
    probes \<noteq> [] \<and> map probe_id probes = [0..<length probes] \<and> sorted (map probe_name probes) \<and>
    distinct (map (\<lambda>p. (valid_bit p, ready_bit p)) probes) \<and>
    (\<Union>p\<in>set probes. {(valid_bit p, ready_bit p)} \<times> set (aliases p)) =
      (\<Union>i\<in>{i. Inr i \<in> set (descendants mods top_name)}. watched flat i) \<and>
    (\<forall>p\<in>set probes. aliases p \<noteq> [] \<and> set (endpoints p) \<subseteq> set (aliases p) \<and>
       probe_name p \<in> label ` set (endpoints p) \<and>
       (\<forall>e\<in>set (aliases p). \<exists>d\<in>set (endpoints p). role d = role e \<and> external d = external e \<and> prefix (at_path e) (at_path d)) \<and>
       (\<forall>e\<in>set (endpoints p). \<forall>d\<in>set (aliases p). strict_prefix (at_path e) (at_path d) \<longrightarrow>
          external e \<or> external d \<or> role d \<noteq> role e))"
proof -
  obtain flat root_clock ch where flat: "map_of flat_design top_name = Some flat" "flat_bit flat [] clock = Inr root_clock"
    and ch: "foldE (discover_at flat root_clock top_name) [] (descendants mods top_name) = Inr ch"
    and ps: "probes = number_probes (sort_key probe_name (map probe_of ch))" "probes \<noteq> []"
    using assms by (auto simp: discover_def bindE_Inr Let_def)
  note C = discover_channels[OF ch]
  note P = discovered_probes[of ch, folded ps(1)]
  have grp: "grouped ch" using C by blast
  have ends: "aliases p \<noteq> [] \<and> set (endpoints p) \<subseteq> set (aliases p) \<and> probe_name p \<in> label ` set (endpoints p) \<and>
       (\<forall>e\<in>set (aliases p). \<exists>d\<in>set (endpoints p). role d = role e \<and> external d = external e \<and> prefix (at_path e) (at_path d)) \<and>
       (\<forall>e\<in>set (endpoints p). \<forall>d\<in>set (aliases p). strict_prefix (at_path e) (at_path d) \<longrightarrow>
          external e \<or> external d \<or> role d \<noteq> role e)" if "p \<in> set probes" for p
  proof -
    from P(5)[OF grp] that have p: "aliases p \<noteq> []" "endpoints p = chosen_endpoints (aliases p)"
      "probe_name p = Min (set (map label (endpoints p)))" by blast+
    from p(1) obtain e where "e \<in> set (aliases p)" by (meson list.set_sel(1))
    then have "endpoints p \<noteq> []" using chosen_endpoints_below unfolding p(2) by fastforce
    then have "probe_name p \<in> label ` set (endpoints p)"
      unfolding p(3) set_map by (intro Min_in) simp_all
    moreover have "set (endpoints p) \<subseteq> set (aliases p)"
      unfolding p(2) by (auto simp: chosen_endpoints_iff)
    moreover have "\<exists>d\<in>set (endpoints p). role d = role e \<and> external d = external e \<and> prefix (at_path e) (at_path d)"
      if "e \<in> set (aliases p)" for e
      unfolding p(2) by (rule chosen_endpoints_below[OF that])
    moreover have "external e \<or> external d \<or> role d \<noteq> role e"
      if "e \<in> set (endpoints p)" "d \<in> set (aliases p)" "strict_prefix (at_path e) (at_path d)" for e d
      using that unfolding p(2) chosen_endpoints_iff by auto
    ultimately show ?thesis using p(1) by simp
  qed
  show ?thesis
    using flat ps(2) C P(1-4)[OF grp] ends by (intro exI[of _ flat] exI[of _ root_clock]) simp
qed

theorem discover_exact_witness:
  "\<exists>flat. map_of demo_flat ''top'' = Some flat \<and> map probe_id demo_probes = [0..<3] \<and>
    sorted (map probe_name demo_probes) \<and>
    (\<Union>p\<in>set demo_probes. {(valid_bit p, ready_bit p)} \<times> set (aliases p)) =
      (\<Union>i\<in>{i. Inr i \<in> set (descendants demo_hierarchy ''top'')}. watched flat i)"
proof -
  have "length demo_probes = 3" by code_simp
  from discover_exact[OF demo_discovers, unfolded this] show ?thesis
    by (elim exE conjE) (intro exI conjI, assumption+)
qed

text \<open>
  C14. When the queue search succeeds, its queues are, in the order of the walk, exactly the instances of
  recognized XLS FIFO modules with a depth of at least one. Each has the depth as its capacity, an
  occupancy of 1 to 32 bits that a flip-flop of the module's clock registers and whose full predicate is
  the comparison with that capacity, the flattened bits of that register, and the identifiers of the
  probes that observe its push and pop handshakes.
\<close>

theorem fifo_queues_exact:
  assumes "fifo_resources mods flat_design top_name ps = Inr (qs, unsupported)"
  shows "\<exists>flat insts. map_of flat_design top_name = Some flat \<and> descendants mods top_name = map Inr insts \<and>
    list_all2 (queue_of flat ps) (filter stateful insts) qs"
  using assms fifo_fold[where st = "([], [])"]
  unfolding fifo_resources_def bindE_Inr lookup_Inr by force

theorem fifo_queues_exact_witness:
  "\<exists>flat insts. map_of demo_flat ''top'' = Some flat \<and> descendants demo_hierarchy ''top'' = map Inr insts \<and>
    list_all2 (queue_of flat demo_probes) (filter stateful insts) [demo_queue]"
  by (rule fifo_queues_exact[OF demo_queues])

text \<open>
  Exporting the probes of a discovered design only adds outputs to the flattened module: its cells,
  memories, ports and nets stay as they are, and the added names were free. When the flattened occupancies
  have their modules' widths, the probe bus has 64 bits per resource, and the 64 bits at 64 times a
  resource's identifier are its own bits followed by constant zeros.
\<close>

theorem export_layout:
  assumes ps: "discover mods flat_design top_name clock = Inr ps"
    and qs: "fifo_resources mods flat_design top_name ps = Inr (qs, unsupported)"
    and widths: "\<forall>q\<in>set qs. length (queue_bits q) = queue_width q"
    and ex: "export_probes flat_design top_name (resources_for ps qs) output_top bank_taps = Inr export"
  shows "\<exists>m m' bus. map_of flat_design top_name = Some m \<and> export = [(output_top, m')] \<and>
    only_outputs_added m m' ((''hls_probe_values'', bus) #
      (if bank_taps = [] then [] else [(''hls_actor_writes'', concat bank_taps)])) \<and>
    length bus = 64 * (length ps + length qs) \<and>
    (\<forall>r\<in>set (resources_for ps qs). take 64 (drop (64 * resource_id r) bus) =
       resource_bits r @ replicate (64 - resource_width r) (Constant ''0'') \<and>
       length (resource_bits r) = resource_width r \<and> resource_width r \<le> 64)"
proof -
  let ?rs = "resources_for ps qs" and ?bus = "concat (map padded_bits (resources_for ps qs))"
  have ids: "map probe_id ps = [0..<length ps]"
    using ps discovered_probes(1) discover_channels by (auto simp: discover_def bindE_Inr Let_def)
  note R = resources_for_nth[OF ids, of qs]
  have "queue_width q \<le> 32" if "q \<in> set qs" for q
    using qs fifo_fold[where st = "([], [])"] that
    by (force simp: fifo_resources_def bindE_Inr queue_of_def Let_def list_all2_conv_all_nth in_set_conv_nth)
  with widths have fits: "length (resource_bits r) = resource_width r \<and> resource_width r \<le> 64" if "r \<in> set ?rs" for r
    using that unfolding R(2) by (fastforce simp: enumerate_eq_zip dest!: set_zip_rightD)
  then have chunks: "\<forall>x\<in>set (map padded_bits ?rs). length x = 64" by (simp add: padded_bits_def)
  have slice: "take 64 (drop (64 * resource_id r) ?bus) = padded_bits r" if "r \<in> set ?rs" for r
  proof -
    from that obtain i where i: "i < length ?rs" "r = ?rs ! i" by (auto simp: in_set_conv_nth)
    then have "resource_id r = i" using R(1) by (metis length_map length_upt minus_nat.diff_0 nth_map nth_upt plus_nat.add_0)
    with concat_chunk[OF chunks, of i] i show ?thesis by simp
  qed
  have "length ?rs = length ps + length qs" using R(1) by (metis length_map length_upt minus_nat.diff_0)
  moreover have "sum_list (map length xs) = 64 * length xs" if "\<forall>x\<in>set xs. length x = 64" for xs :: "bit list list"
    using that by (induction xs) simp_all
  ultimately have len: "length ?bus = 64 * (length ps + length qs)"
    using chunks by (simp only: length_concat length_map)
  from export_probes_Inr[OF ex] obtain m m' where "map_of flat_design top_name = Some m" "export = [(output_top, m')]"
    "only_outputs_added m m' ((''hls_probe_values'', ?bus) #
      (if bank_taps = [] then [] else [(''hls_actor_writes'', concat bank_taps)]))" by blast
  moreover have "\<forall>r\<in>set ?rs. take 64 (drop (64 * resource_id r) ?bus) =
       resource_bits r @ replicate (64 - resource_width r) (Constant ''0'') \<and>
       length (resource_bits r) = resource_width r \<and> resource_width r \<le> 64"
    using slice fits unfolding padded_bits_def by blast
  ultimately show ?thesis using len by blast
qed

theorem export_layout_witness:
  "\<exists>m m' bus. map_of demo_flat ''top'' = Some m \<and>
    export_probes demo_flat ''top'' (resources_for demo_probes [demo_queue]) ''probed'' [] = Inr [(''probed'', m')] \<and>
    only_outputs_added m m' [(''hls_probe_values'', bus)] \<and> length bus = 256 \<and>
    take 64 (drop 192 bus) = [Net 10, Net 11] @ replicate 62 (Constant ''0'')"
proof -
  let ?r = "\<lparr>resource_id = 3, resource_name = ''q'', resource_width = 2, resource_bits = [Net 10, Net 11], physical = Fifo demo_queue\<rparr>"
  have "case export_probes demo_flat ''top'' (resources_for demo_probes [demo_queue]) ''probed'' [] of Inl _ \<Rightarrow> False | Inr _ \<Rightarrow> True"
    by code_simp
  then obtain ex where ex: "export_probes demo_flat ''top'' (resources_for demo_probes [demo_queue]) ''probed'' [] = Inr ex"
    by (auto split: sum.splits)
  have n: "length demo_probes = 3" "?r \<in> set (resources_for demo_probes [demo_queue])" by code_simp+
  have w: "\<forall>q\<in>set [demo_queue]. length (queue_bits q) = queue_width q" by (simp add: demo_queue_def)
  from export_layout[OF demo_discovers demo_queues w ex] obtain m m' bus where
    E: "map_of demo_flat ''top'' = Some m" "ex = [(''probed'', m')]"
      "only_outputs_added m m' [(''hls_probe_values'', bus)]" "length bus = 64 * (length demo_probes + length [demo_queue])"
    and slices: "\<forall>r\<in>set (resources_for demo_probes [demo_queue]). take 64 (drop (64 * resource_id r) bus) =
       resource_bits r @ replicate (64 - resource_width r) (Constant ''0'') \<and>
       length (resource_bits r) = resource_width r \<and> resource_width r \<le> 64" by auto
  from bspec[OF slices n(2)] have "take 64 (drop 192 bus) = [Net 10, Net 11] @ replicate 62 (Constant ''0'')" by simp
  with E ex n(1) show ?thesis by auto
qed

section \<open>Actor taps\<close>

text \<open>
  C13. A state RAM that passes the structural check writes exactly when its write enable is set: in every
  valuation that respects the multiplexers, whatever the don't-care constants are, the one memory write port
  has all its enable bits equal to the module's \<open>wr_en\<close>, and when that is set it writes the values of
  \<open>wr_data\<close> at the address \<open>wr_addr\<close>.
\<close>

theorem write_contract_sound:
  assumes "check_write_contract m = Inr ()" and "port_bits_of m ''wr_en'' = Inr [en]" and "consistent m val"
  shows "\<exists>c addr data. write_cells m = [c] \<and> port_bits_of m ''wr_addr'' = Inr addr \<and> port_bits_of m ''wr_data'' = Inr data \<and>
    stored c val ''EN'' = replicate (length data) (val en) \<and>
    (val en \<longrightarrow> stored c val ''ADDR'' = map val addr \<and> stored c val ''DATA'' = map val data)"
proof -
  obtain c addr data where parts: "write_cells m = [c]" "port_bits_of m ''wr_addr'' = Inr addr" "port_bits_of m ''wr_data'' = Inr data"
    and follow: "follows m c ''ADDR'' True addr = Inr ()" "follows m c ''DATA'' True data = Inr ()"
      "follows m c ''EN'' True (replicate (length data) (Constant ''1'')) = Inr ()"
      "follows m c ''EN'' False (replicate (length data) (Constant ''0'')) = Inr ()"
    using assms(1) by (rule write_contract_parts)
  note val_of = follows_value[OF _ assms(2,3)]
  have "stored c val ''EN'' = replicate (length data) (val en)"
    using val_of[OF follow(3)] val_of[OF follow(4)] assms(3) by (cases "val en") (auto simp: stored_def consistent_def)
  moreover have "val en \<Longrightarrow> stored c val ''ADDR'' = map val addr \<and> stored c val ''DATA'' = map val data"
    using val_of[OF follow(1)] val_of[OF follow(2)] by (auto simp: stored_def)
  ultimately show ?thesis using parts by blast
qed

definition demo_values :: "bit \<Rightarrow> bool" where
  "demo_values b = (case b of Net n \<Rightarrow> n = 2 \<or> 10 \<le> n | Constant s \<Rightarrow> s = ''1'')"

theorem write_contract_sound_witness:
  "\<exists>c data. write_cells ram_module = [c] \<and> stored c demo_values ''EN'' = replicate (length data) True \<and>
     stored c demo_values ''DATA'' = map demo_values data \<and> length data = 33"
proof -
  have "check_write_contract ram_module = Inr ()" "port_bits_of ram_module ''wr_en'' = Inr [Net 2]" "consistent ram_module demo_values"
    by code_simp+
  from write_contract_sound[OF this] obtain c addr data where
    "write_cells ram_module = [c]" "port_bits_of ram_module ''wr_data'' = Inr data"
    "stored c demo_values ''EN'' = replicate (length data) (demo_values (Net 2))"
    "demo_values (Net 2) \<longrightarrow> stored c demo_values ''DATA'' = map demo_values data" by blast
  moreover have "demo_values (Net 2)" "port_bits_of ram_module ''wr_data'' = Inr (nets 10 33)" "length (nets 10 33) = 33"
    by code_simp+
  ultimately show ?thesis by (intro exI[of _ c] exI[of _ data]) simp
qed

text \<open>
  C11. The positions that the generated wrapper reads on the bus of all taps are the ones the discovery laid
  out: for every bank the enable and row address, the 25 state bits with the collection bits the RAM holds,
  the mailbox sample and the live sample are consecutive slices that make up exactly the bank's taps, and the
  state slice holds the observed values at the bank's selected, pairwise distinct bits. Each position holds the
  nets it stands for (\<open>reads_netlist\<close>): the first is the write enable of the bank's RAM (of a direct bank, the valid
  net of its port), the next ones the write address (the constant 0); the mailbox positions are the valid net and
  the values of the mailbox's own port (of a direct bank, the enable and the 24 state bits at the mailbox's offset),
  and the live positions the valid net and the values of the live port, in that order.
\<close>

theorem wrapper_reads_taps:
  assumes "discover_actors pj root mods flat top_name clock_bit = Inr bbs" and "v \<in> set (views 0 first bbs)"
  shows "\<exists>selected keys keys'. selected_fields (bank (view_bank v)) keys = Inr (selected, keys') \<and> distinct selected \<and>
    int (length selected) = 25 + ram_reduction_width (bank (view_bank v)) \<and>
    slice (view_offset v) (1 + row_width v) (concat (map taps bbs)) = enable_taps (bound_source (view_bank v)) \<and>
    slice (view_offset v + 1 + row_width v) (write_width v) (concat (map taps bbs)) =
      map (\<lambda>i. source_values (bound_source (view_bank v)) ! i) selected \<and>
    taps (view_bank v) = enable_taps (bound_source (view_bank v)) @
      map (\<lambda>i. source_values (bound_source (view_bank v)) ! i) selected @
      slice (mailbox_position v) (mailbox_bits (bank (view_bank v))) (concat (map taps bbs)) @
      slice (live_position v) (live_row_bits (bank (view_bank v))) (concat (map taps bbs)) \<and>
    reads_netlist (int (length (shared_banks pj)) \<le> bank_index (bank (view_bank v))) flat root (concat (map taps bbs)) v"
proof -
  have "view_bank v \<in> set bbs" using assms(2) by (auto simp: in_views)
  from view_reads[OF assms(2) discover_actors_from[OF assms(1) this]]
    view_slices[OF assms(2) discover_actors_Inr(2)[OF assms(1)]] selected_fields_Inr(1,2)
  show ?thesis by blast
qed

definition demo_view :: view where
  "demo_view = \<lparr>view_bank = demo_bound, view_offset = 0, view_resource = 7\<rparr>"

theorem wrapper_reads_taps_witness:
  "slice 0 2 (taps demo_bound) = [Net 2, Net 3] \<and>
   taps demo_bound = [Net 2, Net 3] @ slice 2 25 (taps demo_bound) @ slice 27 49 (taps demo_bound) \<and>
   (\<exists>name. flat_bits shell_flat [name] ''mb_vld'' = Inr (slice 27 1 (taps demo_bound)) \<and>
     flat_bits shell_flat [name] ''mb'' = Inr (slice 28 48 (taps demo_bound)))"
proof -
  have v: "demo_view \<in> set (views 0 7 [demo_bound])" by (simp add: demo_view_def)
  have n: "row_width demo_view = 1" "write_width demo_view = 25" "mailbox_position demo_view = 27" "live_position demo_view = 76"
    "mailbox_bits demo_bank = 49" "live_row_bits demo_bank = 0" "bank_count demo_bound = 2" by code_simp+
  from wrapper_reads_taps[OF demo_binds v] obtain selected where
    "slice (view_offset demo_view) (1 + row_width demo_view) (concat (map taps [demo_bound])) = enable_taps (bound_source (view_bank demo_view))"
    "slice (view_offset demo_view + 1 + row_width demo_view) (write_width demo_view) (concat (map taps [demo_bound])) =
      map (\<lambda>i. source_values (bound_source (view_bank demo_view)) ! i) selected"
    "taps (view_bank demo_view) = enable_taps (bound_source (view_bank demo_view)) @
      map (\<lambda>i. source_values (bound_source (view_bank demo_view)) ! i) selected @
      slice (mailbox_position demo_view) (mailbox_bits (bank (view_bank demo_view))) (concat (map taps [demo_bound])) @
      slice (live_position demo_view) (live_row_bits (bank (view_bank demo_view))) (concat (map taps [demo_bound]))"
    "reads_netlist (int (length (shared_banks demo_projection)) \<le> bank_index (bank (view_bank demo_view))) shell_flat []
      (concat (map taps [demo_bound])) demo_view"
    by blast
  moreover have "view_bank demo_view = demo_bound" "view_offset demo_view = 0" "bank demo_bound = demo_bank"
    "enable_taps (bound_source demo_bound) = [Net 2, Net 3]" by (simp_all add: demo_view_def demo_bound_def)
  moreover have "bank_mailbox demo_bank = Some \<lparr>mailbox_width = 24, mailbox_capacity = 4, mailbox_kind = ''shared'',
      mailbox_offset = None, mailbox_port = Some ''mb''\<rparr>" "bank_index demo_bank = 0" "length (shared_banks demo_projection) = 1"
    by code_simp+
  ultimately show ?thesis
    by (simp add: n slice_def numeral_2_eq_2 reads_netlist_def mailbox_from_def sampled_from_def Let_def)
qed

text \<open>
  C12. Every actor row of the manifest answers at its own identifier: exactly one bank of the wrapper claims
  the identifier, it is the row's bank, and the address computed from the low bits of the query alone, with
  wrap-around at the width of the row address, is the row's slot.
\<close>

theorem queries_reach_rows:
  assumes "discover_actors pj root mods flat top_name clock_bit = Inr bbs" and "r \<in> set (actor_resources bbs first)"
  shows "\<exists>v. v \<in> set (views 0 first bbs) \<and>
    (\<forall>w\<in>set (views 0 first bbs). w = v \<longleftrightarrow> view_resource w \<le> actor_id r \<and> actor_id r < view_resource w + bank_count (view_bank w)) \<and>
    actor_bank r = bank_index (bank (view_bank v)) \<and>
    actor_slot (actor_of r) = (int (actor_id r) mod 2 ^ row_width v - int (row_base v)) mod 2 ^ row_width v"
proof -
  from query_row[OF assms(2) discover_actors_Inr(2)[OF assms(1)]] obtain v where
    v: "v \<in> set (views 0 first bbs)" "view_resource v \<le> actor_id r" "actor_id r < view_resource v + bank_count (view_bank v)"
      "actor_bank r = bank_index (bank (view_bank v))"
      "actor_slot (actor_of r) = (int (actor_id r) mod 2 ^ row_width v - int (row_base v)) mod 2 ^ row_width v" by blast
  have "w = v" if "w \<in> set (views 0 first bbs)" "view_resource w \<le> actor_id r"
    "actor_id r < view_resource w + bank_count (view_bank w)" for w
    by (rule views_apart[OF that(1) v(1) that(2,3) v(2,3)])
  with v show ?thesis by (intro exI[of _ v]) blast
qed

theorem queries_reach_rows_witness:
  "list_all (\<lambda>r. \<exists>v. v \<in> set (views 0 7 [demo_bound]) \<and>
     actor_slot (actor_of r) = (int (actor_id r) mod 2 ^ row_width v - int (row_base v)) mod 2 ^ row_width v)
     (actor_resources [demo_bound] 7) \<and> map actor_id (actor_resources [demo_bound] 7) = [7, 8] \<and>
   map row_base (views 0 7 [demo_bound]) = [1]"
proof -
  have "map actor_id (actor_resources [demo_bound] 7) = [7, 8]" "map row_base (views 0 7 [demo_bound]) = [1]" by code_simp+
  with queries_reach_rows[OF demo_binds, of _ 7] show ?thesis unfolding list_all_iff by blast
qed

section \<open>Reports of instrumented designs\<close>

text \<open>
  The manifest that an instrumentation writes is accepted with a report exactly when the report has
  schema 1 and the manifest's fingerprint, its observations are in strictly increasing cycles of 64 bits, and
  each names a resource, fits its width and, for a queue, its capacity: the resources are numbered as the
  reader demands.
\<close>

theorem instrumented_report_accepted:
  assumes "instrument digest opt mods flat_design = Inr ins"
  shows "(\<exists>rows. validate_report digest (manifest_file_of ins) rep = Inr rows) \<longleftrightarrow>
    report_schema rep = 1 \<and> report_fingerprint rep = fingerprint ins \<and>
    (\<forall>s\<in>set (observations rep). sample_fits (manifest_resources (the_manifest ins)) s \<and> 0 \<le> sample_cycle s) \<and>
    sorted_wrt (<) (map sample_cycle (observations rep))"
proof -
  have written: "file_schema (manifest_file_of ins) = 5" "file_body (manifest_file_of ins) = the_manifest ins"
    "file_fingerprint (manifest_file_of ins) = fingerprint ins"
    by (simp_all add: manifest_file_of_def)
  have cycles: "(-1 < sample_cycle s) = (0 \<le> sample_cycle s)" for s by auto
  show ?thesis
    using validate_report_Inr[of "manifest_file_of ins" digest rep] instrument_fingerprint[OF assms] instrument_ids[OF assms]
    unfolding written check_samples cycles by simp
qed

definition demo_options :: options where
  "demo_options = \<lparr>top_module = ''top'', clock_name = ''clk'', reset_name = ''clk'', instrumented_top = ''probed'', active_low = False,
     actor_root = [], actor_projection = None, rx_prefix = None, tx_prefix = None, monitor_routed = False, rtl_sources = []\<rparr>"

definition demo_report :: report where
  "demo_report = \<lparr>report_schema = 1, report_fingerprint = replicate 64 (CHR ''0''),
     observations = [\<lparr>sample_id = 0, sample_cycle = 5, sample_value = 3\<rparr>, \<lparr>sample_id = 3, sample_cycle = 9, sample_value = 2\<rparr>],
     changed_resources = [], reobserved_blocked = [0], wait_edges = [], candidate_cycles = [], truncated = False\<rparr>"

lemma demo_exports:
  "\<exists>ex. export_probes demo_flat ''top'' (resources_for demo_probes [demo_queue]) ''probed'' [] = Inr ex"
proof -
  have "case export_probes demo_flat ''top'' (resources_for demo_probes [demo_queue]) ''probed'' [] of Inl _ \<Rightarrow> False | Inr _ \<Rightarrow> True"
    by code_simp
  then show ?thesis by (auto split: sum.splits)
qed

lemma demo_instrumented:
  "\<exists>ins. instrument (\<lambda>_. replicate 64 (CHR ''0'')) demo_options demo_hierarchy demo_flat = Inr ins \<and>
     manifest_resources (the_manifest ins) = map Physical (resources_for demo_probes [demo_queue]) \<and>
     fingerprint ins = replicate 64 (CHR ''0'')"
proof -
  let ?flat = "snd (hd demo_flat)"
  have names: "checkE (\<lambda>n. ensure (rtl_identifier n) (Rejected (''invalid RTL identifier: '' @ n)))
       [top_module demo_options, clock_name demo_options, reset_name demo_options, instrumented_top demo_options] = Inr ()"
    by code_simp
  have flat: "lookup demo_flat ''top'' = Inr ?flat" by (simp add: demo_flat_def lookup_def)
  have controls: "checkE (check_control (ports ?flat)) [''clk'', ''clk''] = Inr ()" by code_simp
  have free: "\<not> list_ex (\<lambda>(_, _, n). n \<in> fst ` set (ports ?flat)) debug_ports" by code_simp
  have opts: "top_module demo_options = ''top''" "clock_name demo_options = ''clk''" "reset_name demo_options = ''clk''"
    "instrumented_top demo_options = ''probed''" "actor_projection demo_options = None" "rx_prefix demo_options = None"
    "tx_prefix demo_options = None" "\<not> monitor_routed demo_options"
    by (simp_all add: demo_options_def)
  obtain ex where ex: "export_probes demo_flat ''top'' (resources_for demo_probes [demo_queue]) ''probed'' [] = Inr ex"
    using demo_exports by blast
  have "\<exists>ins. instrument (\<lambda>_. replicate 64 (CHR ''0'')) demo_options demo_hierarchy demo_flat = Inr ins \<and>
      manifest_resources (the_manifest ins) = map Physical (resources_for demo_probes [demo_queue]) \<and>
      fingerprint ins = (\<lambda>_. replicate 64 (CHR ''0'')) (the_manifest ins)"
    by (rule instrument_plain[where unsupported = "[]" and ex = ex and flat = ?flat])
      (simp_all only: opts demo_discovers demo_queues flat controls free ex list.map names[unfolded opts] simp_thms)
  then show ?thesis by simp
qed

theorem instrumented_report_accepted_witness:
  "case instrument (\<lambda>_. replicate 64 (CHR ''0'')) demo_options demo_hierarchy demo_flat of Inl _ \<Rightarrow> False
   | Inr ins \<Rightarrow> \<exists>rows. validate_report (\<lambda>_. replicate 64 (CHR ''0'')) (manifest_file_of ins) demo_report = Inr rows"
proof -
  obtain ins where ins: "instrument (\<lambda>_. replicate 64 (CHR ''0'')) demo_options demo_hierarchy demo_flat = Inr ins"
    and rows: "manifest_resources (the_manifest ins) = map Physical (resources_for demo_probes [demo_queue])"
    and fp: "fingerprint ins = replicate 64 (CHR ''0'')"
    using demo_instrumented by blast
  have "list_all (\<lambda>s. sample_fits (map Physical (resources_for demo_probes [demo_queue])) s \<and> 0 \<le> sample_cycle s)
      (observations demo_report)" by code_simp
  then have "\<forall>s\<in>set (observations demo_report). sample_fits (manifest_resources (the_manifest ins)) s \<and> 0 \<le> sample_cycle s"
    unfolding rows list_all_iff .
  moreover have "report_schema demo_report = 1" "report_fingerprint demo_report = fingerprint ins"
    "sorted_wrt (<) (map sample_cycle (observations demo_report))"
    by (simp_all add: demo_report_def fp)
  ultimately have "\<exists>rows. validate_report (\<lambda>_. replicate 64 (CHR ''0'')) (manifest_file_of ins) demo_report = Inr rows"
    using instrumented_report_accepted[OF ins, of demo_report] by blast
  with ins show ?thesis by simp
qed

section \<open>Memories\<close>

text \<open>
  The memory check on an exported design can only fail for what the external tools did: it passes exactly when
  the application has memories and the module reread from the emitted Verilog declares the same ones with the
  same dimensions and attributes, the export itself having kept them all; with a mapping, the two mapped modules
  then hold the same multiset of memory primitives with the same parameters.
\<close>

theorem memories_preserved:
  assumes "export_probes flat_design top_name rs output_top bank_taps = Inr ex" and "map_of flat_design top_name = Some m"
  shows "((\<exists>rep. check_memories digest flat_design top_name ex reread None = Inr rep) \<longleftrightarrow>
      memories m \<noteq> [] \<and> inventory reread = inventory m) \<and>
    (\<forall>p v rep. check_memories digest flat_design top_name ex reread (Some (p, v)) = Inr rep \<longrightarrow>
      mset (map (configuration digest) (memory_cells p)) = mset (map (configuration digest) (memory_cells v)))"
proof -
  from export_probes_Inr[OF assms(1)] assms(2) obtain m' outs where ex: "ex = [(output_top, m')]" and "only_outputs_added m m' outs"
    by auto
  then have inv: "inventory m' = inventory m" by (simp add: export_inventory)
  have empty: "inventory m = [] \<longleftrightarrow> memories m = []" by (auto simp: inventory_def dest: arg_cong[of _ _ length])
  have "(\<exists>rep. check_memories digest flat_design top_name ex reread None = Inr rep) \<longleftrightarrow>
      memories m \<noteq> [] \<and> inventory reread = inventory m"
  proof
    assume "\<exists>rep. check_memories digest flat_design top_name ex reread None = Inr rep"
    then show "memories m \<noteq> [] \<and> inventory reread = inventory m" using assms(2) empty by (auto simp: ex check_memories_Inr)
  next
    assume "memories m \<noteq> [] \<and> inventory reread = inventory m"
    then show "\<exists>rep. check_memories digest flat_design top_name ex reread None = Inr rep"
      using assms(2) empty inv unfolding ex check_memories_Inr
      by (intro exI[of _ "\<lparr>original_memories = inventory m, roundtrip_memories = inventory m, mapping = None\<rparr>"]) simp
  qed
  moreover have "mset (map (configuration digest) (memory_cells p)) = mset (map (configuration digest) (memory_cells v))"
    if "check_memories digest flat_design top_name ex reread (Some (p, v)) = Inr rep" for p v rep
  proof -
    from that obtain r where "mapped_memories digest p = Inr r" "mapped_memories digest v = Inr r"
      by (auto simp: ex check_memories_Inr)
    from mapped_memories_Inr[OF this(1)] mapped_memories_Inr[OF this(2)] show ?thesis
      unfolding counter_sorted_eq[symmetric] by simp
  qed
  ultimately show ?thesis by blast
qed

definition demo_ram_design :: hierarchy where
  "demo_ram_design = [(''top'', ram_module)]"

theorem memories_preserved_witness:
  "\<exists>ex rep. export_probes demo_ram_design ''top'' [] ''probed'' [] = Inr ex \<and>
     check_memories (\<lambda>d. concat (map snd d)) demo_ram_design ''top'' ex ram_module None = Inr rep"
proof -
  have "case export_probes demo_ram_design ''top'' [] ''probed'' [] of Inl _ \<Rightarrow> False | Inr _ \<Rightarrow> True" by code_simp
  then obtain ex where ex: "export_probes demo_ram_design ''top'' [] ''probed'' [] = Inr ex" by (auto split: sum.splits)
  have "map_of demo_ram_design ''top'' = Some ram_module" by (simp add: demo_ram_design_def)
  from memories_preserved[OF ex this, of "\<lambda>d. concat (map snd d)" ram_module] ex show ?thesis by (auto simp: ram_module_def)
qed

end
