(* ===== verification/Topo_Measure.thy ===== *)
theory Topo_Measure
  imports Complex_Main Topo_Report Topo_Layout
begin

text \<open>
  The area measurement of the debug logic (\<open>tools/erl_hls_tools/measure_topology_debug.py\<close>): the side car, a
  module that holds the diagnostic logic over unconstrained inputs, one input per observed net; the variants
  with and without actors, mailboxes and monitor; and the statistics of the cells Yosys reports.
\<close>

section \<open>Cells\<close>

text \<open>Means and variances are the exact quotients; the code rounds them to floats.\<close>

record distribution =
  best :: int
  mean :: rat
  variance :: rat
  worst :: int

definition mean_of :: "rat list \<Rightarrow> rat" where
  "mean_of xs = sum_list xs / of_nat (length xs)"

definition distribution_of :: "int list \<Rightarrow> (topology_error, distribution) result" where
  "distribution_of values = (case values of [] \<Rightarrow> Inl Bad_Number | v # vs \<Rightarrow>
     let qs = map of_int values; m = mean_of qs in
     Inr \<lparr>best = fold min vs v, mean = m, variance = mean_of (map (\<lambda>q. (q - m) ^ 2) qs), worst = fold max vs v\<rparr>)"

definition memory_luts :: "(string \<times> int) list" where
  "memory_luts = [(''RAM32M'', 4), (''RAM64M'', 4), (''RAM32X1S'', 1), (''RAM32X1S_1'', 1), (''RAM32X2S'', 1),
     (''RAM64X1S'', 1), (''RAM64X1S_1'', 1), (''RAM128X1S'', 2), (''RAM256X1S'', 4), (''RAM32X1D'', 2),
     (''RAM64X1D'', 2), (''RAM128X1D'', 4)]"

record counts =
  lut :: int
  lut_logic :: int
  lut_ram :: int
  flops :: int
  ramb18 :: int
  ramb36 :: int

definition count_at :: "(string \<times> int) list \<Rightarrow> string \<Rightarrow> int" where
  "count_at kinds k = (case map_of kinds k of None \<Rightarrow> 0 | Some n \<Rightarrow> n)"

definition sum_prefixed :: "string \<Rightarrow> (string \<times> int) list \<Rightarrow> int" where
  "sum_prefixed pre kinds = sum_list (map snd (filter (\<lambda>(k, _). prefix pre k) kinds))"

definition distributed :: "(string \<times> int) list \<Rightarrow> (string \<times> int) list" where
  "distributed kinds = filter (\<lambda>(k, _). prefix ''RAM'' k \<and> \<not> prefix ''RAMB'' k) kinds"

definition cell_counts :: "(string \<times> int) list \<Rightarrow> (topology_error, counts) result" where
  "cell_counts kinds = (let ram = distributed kinds in
     bindE (ensure (list_all (\<lambda>(k, _). map_of memory_luts k \<noteq> None) ram)
       (Rejected ''unaccounted distributed RAM primitives'')) (\<lambda>_.
     let logic = sum_prefixed ''LUT'' kinds;
         memory = sum_list (map (\<lambda>(k, n). the (map_of memory_luts k) * n) ram) in
     Inr \<lparr>lut = logic + memory, lut_logic = logic, lut_ram = memory, flops = sum_prefixed ''FD'' kinds,
       ramb18 = count_at kinds ''RAMB18E1'', ramb36 = count_at kinds ''RAMB36E1''\<rparr>))"

section \<open>Observed nets\<close>

definition nets_of :: "bit list \<Rightarrow> nat list" where
  "nets_of bs = concat (map (\<lambda>b. case b of Net n \<Rightarrow> [n] | Constant _ \<Rightarrow> []) bs)"

definition all_bits :: "resource list \<Rightarrow> bound_bank list \<Rightarrow> nat list" where
  "all_bits physicals banks =
     sort (uniq (concat (map (\<lambda>r. nets_of (resource_bits r)) physicals) @ concat (map (\<lambda>bb. nets_of (taps bb)) banks)))"

definition index_table :: "nat list \<Rightarrow> (nat \<times> nat) list" where
  "index_table bits = map (\<lambda>(i, b). (b, i)) (enumerate 0 bits)"

definition bit_text :: "(nat \<times> nat) list \<Rightarrow> bit \<Rightarrow> (topology_error, string) result" where
  "bit_text indices b = (case b of
       Net n \<Rightarrow> (case map_of indices n of None \<Rightarrow> Inl Missing_Key | Some i \<Rightarrow> Inr (''observed['' @ show_nat i @ '']''))
     | Constant c \<Rightarrow> Inr (''1'' @ CHR 0x27 # ''b'' @ c))"

definition vector_text :: "(nat \<times> nat) list \<Rightarrow> bit list \<Rightarrow> (topology_error, string) result" where
  "vector_text indices bs = bindE (mapE (bit_text indices) (rev bs)) (\<lambda>ts. Inr (''{'' @ join_text '', '' ts @ ''}''))"

section \<open>The side car\<close>

datatype mode = Physical_Only | Actor_State | With_Actors | Boundary_Only | All_Hooks

definition monitored :: "mode \<Rightarrow> bool" where
  "monitored m \<longleftrightarrow> m \<in> {Boundary_Only, All_Hooks}"

definition resource_line :: "(nat \<times> nat) list \<Rightarrow> resource \<Rightarrow> (topology_error, string) result" where
  "resource_line indices r = bindE (vector_text indices (padded_bits r))
     (\<lambda>v. Inr (''assign probe_values['' @ show_nat (64 * resource_id r) @ ''+:64] = '' @ v @ '';''))"

definition header_lines :: "mode \<Rightarrow> nat \<Rightarrow> string list" where
  "header_lines m observed = [''module measured(input wire clk, reset,'', ''input wire ['' @ show_int (int observed - 1) @ '':0] observed,'',
     ''input wire [31:0] s_data, input wire [3:0] s_keep, input wire s_last,s_valid,'',
     ''output wire s_ready, output wire [31:0] m_data, output wire [3:0] m_keep,''] @
   (if monitored m then [''output wire m_last,m_valid, input wire m_ready'',
      '', input wire [31:0] rx_data, tx_data,'', ''input wire rx_valid, rx_ready, rx_last, tx_valid, tx_ready, tx_last,'',
      ''input wire [31:0] s_mon_data, input wire [3:0] s_mon_keep,'', ''input wire s_mon_valid, s_mon_last, output wire s_mon_ready,'',
      ''output wire [31:0] m_mon_data, output wire [3:0] m_mon_keep,'',
      ''output wire m_mon_valid, m_mon_last, input wire m_mon_ready'', '');'']
    else [''output wire m_last,m_valid, input wire m_ready);''])"

definition monitor_connections :: string where
  "monitor_connections = join_text '', ''
     (concat (map (\<lambda>d. map (\<lambda>s. ''.app_'' @ d @ ''_t'' @ s @ ''('' @ d @ ''_'' @ s @ '')'') [''data'', ''valid'', ''ready'', ''last'']) [''rx'', ''tx'']) @
      concat (map (\<lambda>d. map (\<lambda>s. ''.'' @ d @ ''_dbg_t'' @ s @ ''('' @ d @ ''_mon_'' @ s @ '')'')
        [''data'', ''keep'', ''valid'', ''ready'', ''last'']) [''s'', ''m''])) @ '');''"

definition controller_line :: "nat \<Rightarrow> nat \<Rightarrow> nat \<Rightarrow> string \<Rightarrow> string" where
  "controller_line row_total channels physicals fp = ''hls_topology_debug #(.RESOURCES('' @ show_nat row_total @ ''), .CHANNELS('' @ show_nat channels @
     ''), .ACTORS('' @ show_nat (row_total - physicals) @ ''), .FINGERPRINT(256'' @ CHR 0x27 # ''h'' @
     hex_string (foldr (\<lambda>b n. b + 256 * n) (hex_bytes fp) 0) @ '')) controller (.*);''"

definition sidecar_text :: "mode \<Rightarrow> nat \<Rightarrow> bound_bank list \<Rightarrow> nat \<Rightarrow> manifest_file \<Rightarrow> string list \<Rightarrow> string list \<Rightarrow> string" where
  "sidecar_text m physicals selected observed mf probes writes =
     (let probing = (m \<noteq> Boundary_Only) in
      join_on (CHR 0x0A) (header_lines m observed @
       (if probing then [''wire ['' @ show_int (int physicals * 64 - 1) @ '':0] probe_values;''] else []) @ probes @ writes @
       (if probing then [actor_wrapper selected physicals ''clk'' ''reset'' False,
          controller_line (physicals + sum_list (map bank_count selected)) (length (manifest_probes (file_body mf))) physicals
            (file_fingerprint mf)]
        else [''assign s_ready=0; assign m_data=0; assign m_keep=0; assign m_last=0; assign m_valid=0;'']) @
       (if monitored m then [''hls_debug_monitor #(.ROUTED(1)) boundary (.aclk(clk), .aresetn(!reset),'', monitor_connections] else []) @
       [''endmodule'']) @ nl)"

definition sidecar ::
  "mode \<Rightarrow> resource list \<Rightarrow> bound_bank list \<Rightarrow> (nat \<times> nat) list \<Rightarrow> manifest_file \<Rightarrow> (topology_error, string) result" where
  "sidecar m physicals selected indices mf = (let bus = concat (map taps selected) in
     bindE (if m \<noteq> Boundary_Only then mapE (resource_line indices) physicals else Inr []) (\<lambda>probes.
     bindE (if selected = [] then Inr [] else bindE (vector_text indices bus) (\<lambda>v.
         Inr [''wire ['' @ show_int (int (length bus) - 1) @ '':0] actor_writes = '' @ v @ '';''])) (\<lambda>writes.
     Inr (sidecar_text m (length physicals) selected (length indices) mf probes writes))))"

section \<open>Variants\<close>

text \<open>A bank whose actors are observed without their mailboxes: its taps lose the mailbox sample.\<close>

definition mailbox_start :: "bound_bank \<Rightarrow> nat" where
  "mailbox_start bb = nat (1 + int (address_width (bound_source bb)) + 25 + ram_reduction_width (bank bb))"

definition without_mailbox :: "bound_bank list \<Rightarrow> bound_bank \<Rightarrow> bound_bank" where
  "without_mailbox banks bb = (let source = banks ! nat (bank_index (bank bb)); start = mailbox_start bb;
       n = (if bank_mailbox (bank source) = None then 0 else 1 + 24 * bank_count bb) in
     bb\<lparr>bank := (bank bb)\<lparr>bank_mailbox := None\<rparr>, taps := take start (taps source) @ drop (start + n) (taps source)\<rparr>)"

definition selected_banks :: "mode \<Rightarrow> bound_bank list \<Rightarrow> bound_bank list" where
  "selected_banks m banks = (case m of Actor_State \<Rightarrow> map (without_mailbox banks) banks
     | With_Actors \<Rightarrow> banks | All_Hooks \<Rightarrow> banks | _ \<Rightarrow> [])"

definition available_modes :: "bound_bank list \<Rightarrow> bool \<Rightarrow> mode list" where
  "available_modes banks monitor_rtl = [Physical_Only] @
     (if list_ex (\<lambda>bb. bank_mailbox (bank bb) \<noteq> None) banks then [Actor_State] else []) @ [With_Actors] @
     (if monitor_rtl then [Boundary_Only, All_Hooks] else [])"

definition chosen_modes :: "mode list \<Rightarrow> mode list option \<Rightarrow> (topology_error, mode list) result" where
  "chosen_modes available requested = (case requested of None \<Rightarrow> Inr available
     | Some ms \<Rightarrow> bindE (ensure (list_all (\<lambda>m. m \<in> set available) ms) (Rejected ''modes unavailable with these inputs''))
         (\<lambda>_. Inr (uniq ms)))"

section \<open>The measurement\<close>

definition rebound_banks ::
  "(manifest \<Rightarrow> string) \<Rightarrow> manifest_file \<Rightarrow> hierarchy \<Rightarrow> hierarchy \<Rightarrow> (topology_error, bound_bank list) result" where
  "rebound_banks digest mf mods flat_design = (let opt = manifest_options (file_body mf) in
     bindE (ensure (\<not> (file_schema mf \<noteq> 5 \<or> file_fingerprint mf \<noteq> digest (file_body mf)))
       (Rejected ''corrupt or unsupported manifest'')) (\<lambda>_.
     bindE (lookup flat_design (top_module opt)) (\<lambda>flat.
     bindE (ensure (actor_projection opt \<noteq> None) Missing_Key) (\<lambda>_. bind_actors opt mods flat))))"

definition physical_rows :: "manifest \<Rightarrow> resource list" where
  "physical_rows m = concat (map (\<lambda>r. case r of Physical p \<Rightarrow> [p] | Actor_Row _ \<Rightarrow> []) (manifest_resources m))"

text \<open>One mode: its side car, then the cells of every seed. \<open>yosys\<close> answers to a text and a seed.\<close>

definition measure_mode ::
  "(string \<Rightarrow> nat \<Rightarrow> (string \<times> int) list option) \<Rightarrow> nat \<Rightarrow> resource list \<Rightarrow> bound_bank list \<Rightarrow> (nat \<times> nat) list \<Rightarrow>
   manifest_file \<Rightarrow> mode \<Rightarrow> (topology_error, mode \<times> counts list) result" where
  "measure_mode yosys seeds physicals banks indices mf m =
     bindE (sidecar m physicals (selected_banks m banks) indices mf) (\<lambda>text.
     bindE (mapE (\<lambda>seed. case yosys text seed of None \<Rightarrow> Inl (Rejected ''yosys failed'') | Some kinds \<Rightarrow> cell_counts kinds) [1..<seeds + 1])
       (\<lambda>rows. Inr (m, rows)))"

definition summary_row :: "mode \<times> counts list \<Rightarrow> (topology_error, mode \<times> (string \<times> distribution) list) result" where
  "summary_row mr = bindE (mapE (\<lambda>(k, get). bindE (distribution_of (map get (snd mr))) (\<lambda>d. Inr (k, d)))
       [(''LUT'', lut), (''LUT_logic'', lut_logic), (''LUT_RAM'', lut_ram), (''FF'', flops), (''RAMB18'', ramb18), (''RAMB36'', ramb36)])
     (\<lambda>ds. Inr (fst mr, ds))"

definition measure_debug ::
  "(manifest \<Rightarrow> string) \<Rightarrow> (string \<Rightarrow> nat \<Rightarrow> (string \<times> int) list option) \<Rightarrow> int \<Rightarrow> bool \<Rightarrow> mode list option \<Rightarrow>
   manifest_file \<Rightarrow> hierarchy \<Rightarrow> hierarchy \<Rightarrow>
   (topology_error, (mode \<times> counts list) list \<times> (mode \<times> (string \<times> distribution) list) list) result" where
  "measure_debug digest yosys seeds monitor_rtl requested mf mods flat_design =
     bindE (ensure (\<not> seeds < 1) (Rejected ''--seeds must be positive'')) (\<lambda>_.
     bindE (rebound_banks digest mf mods flat_design) (\<lambda>banks.
     let physicals = physical_rows (file_body mf); indices = index_table (all_bits physicals banks) in
     bindE (chosen_modes (available_modes banks monitor_rtl) requested) (\<lambda>modes.
     bindE (mapE (measure_mode yosys (nat seeds) physicals banks indices mf) modes) (\<lambda>results.
     bindE (mapE summary_row results) (\<lambda>summary. Inr (results, summary))))))"

section \<open>Every observed net has an input\<close>

lemma index_table_keys: "map fst (index_table bits) = bits"
  by (simp add: index_table_def comp_def case_prod_unfold)

lemma index_table_some: "n \<in> set bits \<Longrightarrow> \<exists>i. map_of (index_table bits) n = Some i"
  by (metis index_table_keys list.set_map map_of_eq_None_iff not_None_eq)

lemma index_table_nth:
  assumes "distinct bits" and "map_of (index_table bits) n = Some i"
  shows "i < length bits \<and> bits ! i = n"
  using map_of_SomeD[OF assms(2)] by (auto simp: index_table_def in_set_enumerate_eq)

lemma all_bits_distinct: "distinct (all_bits physicals banks)"
  by (simp add: all_bits_def)

lemma nets_of_iff: "n \<in> set (nets_of bs) \<longleftrightarrow> Net n \<in> set bs"
  by (force simp: nets_of_def split: bit.splits)

lemma mapE_exists: "\<forall>x\<in>set xs. \<exists>y. f x = Inr y \<Longrightarrow> \<exists>ys. mapE f xs = Inr ys"
  by (induction xs) auto

lemma vector_text_total:
  assumes "\<forall>n. Net n \<in> set bs \<longrightarrow> n \<in> set bits"
  shows "\<exists>t. vector_text (index_table bits) bs = Inr t"
proof -
  have "\<exists>t. bit_text (index_table bits) b = Inr t" if "b \<in> set bs" for b
  proof (cases b)
    case (Net n)
    with that assms have "n \<in> set bits" by blast
    from index_table_some[OF this] Net show ?thesis by (auto simp: bit_text_def)
  qed (simp add: bit_text_def)
  then have "\<exists>ts. mapE (bit_text (index_table bits)) (rev bs) = Inr ts"
    by (intro mapE_exists) simp
  then show ?thesis by (auto simp: vector_text_def)
qed

lemma sidecar_total:
  assumes "\<forall>n. Net n \<in> set (concat (map taps selected)) \<longrightarrow> Net n \<in> set (concat (map taps banks))"
  shows "\<exists>text. sidecar m physicals selected (index_table (all_bits physicals banks)) mf = Inr text"
proof -
  let ?bits = "all_bits physicals banks"
  have "\<exists>t. resource_line (index_table ?bits) r = Inr t" if "r \<in> set physicals" for r
  proof -
    have "\<forall>n. Net n \<in> set (padded_bits r) \<longrightarrow> n \<in> set ?bits"
      using that by (auto simp: all_bits_def nets_of_iff padded_bits_def)
    from vector_text_total[OF this] show ?thesis by (auto simp: resource_line_def)
  qed
  then have "\<exists>probes. mapE (resource_line (index_table ?bits)) physicals = Inr probes" by (intro mapE_exists ballI)
  then obtain probes where probes: "mapE (resource_line (index_table ?bits)) physicals = Inr probes" ..
  have "\<forall>n. Net n \<in> set (concat (map taps selected)) \<longrightarrow> n \<in> set ?bits"
  proof (intro allI impI)
    fix n
    assume "Net n \<in> set (concat (map taps selected))"
    with assms have "Net n \<in> set (concat (map taps banks))" by blast
    then obtain bb where "bb \<in> set banks" "Net n \<in> set (taps bb)" by auto
    then have "n \<in> set (concat (map (\<lambda>bb. nets_of (taps bb)) banks))" by (auto simp: nets_of_iff)
    then show "n \<in> set ?bits" unfolding all_bits_def set_sort set_uniq set_append by blast
  qed
  from vector_text_total[OF this] obtain v where v: "vector_text (index_table ?bits) (concat (map taps selected)) = Inr v" by blast
  show ?thesis by (simp add: sidecar_def Let_def probes v)
qed

section \<open>Banks without mailboxes\<close>

lemma selected_fields_no_mailbox [simp]: "selected_fields (b\<lparr>bank_mailbox := None\<rparr>) keys = selected_fields b keys"
proof -
  have "collection_bits (b\<lparr>bank_mailbox := None\<rparr>) = collection_bits b" "state_field (b\<lparr>bank_mailbox := None\<rparr>) = state_field b"
    by (cases "bank_reduction b"; simp add: collection_bits_def state_field_def live_collection_def fun_eq_iff cong: option.case_cong)+
  then show ?thesis by (simp add: selected_fields_def)
qed

lemma without_mailbox_parts:
  assumes ok: "bound_ok bb" and here: "banks ! nat (bank_index (bank bb)) = bb"
  obtains selected keys keys' mb live where "selected_fields (bank bb) keys = Inr (selected, keys')"
    "taps bb = enable_taps (bound_source bb) @ map (\<lambda>i. source_values (bound_source bb) ! i) selected @ mb @ live"
    "length mb = mailbox_bits (bank bb)" "length live = live_row_bits (bank bb)"
    "taps (without_mailbox banks bb) = enable_taps (bound_source bb) @ map (\<lambda>i. source_values (bound_source bb) ! i) selected @ live"
proof -
  from ok obtain selected keys keys' mb live where sel: "selected_fields (bank bb) keys = Inr (selected, keys')"
    and src: "source_ok (bank bb) (bound_source bb)"
    and t: "taps bb = enable_taps (bound_source bb) @ map (\<lambda>i. source_values (bound_source bb) ! i) selected @ mb @ live"
    and mb: "length mb = mailbox_bits (bank bb)" and live: "length live = live_row_bits (bank bb)"
    unfolding bound_ok_def Let_def by blast
  have start: "mailbox_start bb = length (enable_taps (bound_source bb)) + length selected"
    using selected_fields_Inr(2,4)[OF sel] src by (simp add: mailbox_start_def source_ok_def nat_eq_iff)
  have "taps (without_mailbox banks bb) = enable_taps (bound_source bb) @ map (\<lambda>i. source_values (bound_source bb) ! i) selected @ live"
    using mb by (simp add: without_mailbox_def here Let_def start t mailbox_bits_def bank_count_def split: if_splits)
  with sel t mb live that show thesis by blast
qed

lemma without_mailbox_ok:
  assumes ok: "bound_ok bb" and here: "banks ! nat (bank_index (bank bb)) = bb"
  shows "bound_ok (without_mailbox banks bb)"
proof -
  obtain selected keys keys' mb live where sel: "selected_fields (bank bb) keys = Inr (selected, keys')"
    and live: "length live = live_row_bits (bank bb)"
    and t: "taps (without_mailbox banks bb) = enable_taps (bound_source bb) @ map (\<lambda>i. source_values (bound_source bb) ! i) selected @ [] @ live"
    using without_mailbox_parts[OF assms] by (metis append_Nil)
  have b: "bank (without_mailbox banks bb) = (bank bb)\<lparr>bank_mailbox := None\<rparr>" "bound_source (without_mailbox banks bb) = bound_source bb"
    by (simp_all add: without_mailbox_def Let_def)
  have sizes: "mailbox_bits ((bank bb)\<lparr>bank_mailbox := None\<rparr>) = 0"
    "live_row_bits ((bank bb)\<lparr>bank_mailbox := None\<rparr>) = live_row_bits (bank bb)"
    by (simp_all add: mailbox_bits_def live_row_bits_def split: option.split)
  have "1 \<le> slots (bank bb)" "source_ok (bank bb) (bound_source bb)"
    "map actor_slot (bank_actors (bank bb)) = map int [0..<nat (slots (bank bb))]"
    using ok by (simp_all add: bound_ok_def Let_def)
  moreover have "source_ok ((bank bb)\<lparr>bank_mailbox := None\<rparr>) (bound_source bb) = source_ok (bank bb) (bound_source bb)"
    by (simp add: source_ok_def)
  moreover have "\<exists>selected keys keys' mb live. selected_fields (bank bb) keys = Inr (selected, keys') \<and>
      taps (without_mailbox banks bb) = enable_taps (bound_source bb) @ map (\<lambda>i. source_values (bound_source bb) ! i) selected @ mb @ live \<and>
      length mb = 0 \<and> length live = live_row_bits (bank bb)"
    using sel t live by (metis list.size(3))
  ultimately show ?thesis by (simp add: bound_ok_def Let_def b sizes)
qed

lemma index_here:
  assumes "map (\<lambda>bb. bank_index (bank bb)) banks = map int [0..<length banks]" and "bb \<in> set banks"
  shows "banks ! nat (bank_index (bank bb)) = bb"
proof -
  from assms(2) obtain i where i: "i < length banks" "banks ! i = bb" by (auto simp: in_set_conv_nth)
  have "map (\<lambda>bb. bank_index (bank bb)) banks ! i = map int [0..<length banks] ! i" by (simp only: assms(1))
  with i show ?thesis by simp
qed

lemma without_mailbox_nets:
  assumes "bound_ok bb" and "banks ! nat (bank_index (bank bb)) = bb"
  shows "set (taps (without_mailbox banks bb)) \<subseteq> set (taps bb)"
  by (rule without_mailbox_parts[OF assms]) auto

text \<open>What the wrapper of the reduced banks reads.\<close>

lemma reduced_view:
  assumes all_ok: "\<forall>bb\<in>set banks. bound_ok bb" and here: "\<And>bb. bb \<in> set banks \<Longrightarrow> banks ! nat (bank_index (bank bb)) = bb"
    and v: "v \<in> set (views 0 first (selected_banks Actor_State banks))"
  defines "bus \<equiv> concat (map taps (selected_banks Actor_State banks))"
  shows "\<exists>bb\<in>set banks. \<exists>selected keys keys' mb. view_bank v = without_mailbox banks bb \<and> \<not> has_mailbox v \<and>
      selected_fields (bank bb) keys = Inr (selected, keys') \<and> length mb = mailbox_bits (bank bb) \<and>
      slice (view_offset v) (1 + row_width v) bus = enable_taps (bound_source bb) \<and>
      slice (view_offset v + 1 + row_width v) (write_width v) bus = map (\<lambda>i. source_values (bound_source bb) ! i) selected \<and>
      taps bb = enable_taps (bound_source bb) @ map (\<lambda>i. source_values (bound_source bb) ! i) selected @ mb @
        slice (live_position v) (live_row_bits (bank bb)) bus"
proof -
  have ok: "\<forall>rb\<in>set (selected_banks Actor_State banks). bound_ok rb" using all_ok here without_mailbox_ok by (auto simp: selected_banks_def)
  obtain rb where "view_bank v = rb" "rb \<in> set (selected_banks Actor_State banks)" using v by (auto simp: in_views)
  then obtain bb where bb: "bb \<in> set banks" "view_bank v = without_mailbox banks bb" by (auto simp: selected_banks_def)
  have parts: "bank (view_bank v) = (bank bb)\<lparr>bank_mailbox := None\<rparr>" "bound_source (view_bank v) = bound_source bb"
    by (simp_all add: bb(2) without_mailbox_def Let_def)
  then have none: "mailbox_bits ((bank bb)\<lparr>bank_mailbox := None\<rparr>) = 0"
    "live_row_bits ((bank bb)\<lparr>bank_mailbox := None\<rparr>) = live_row_bits (bank bb)" "\<not> has_mailbox v"
    by (simp_all add: mailbox_bits_def live_row_bits_def has_mailbox_def split: option.split)
  have empty: "slice k 0 xs = []" for k and xs :: "bit list" by (simp add: slice_def)
  obtain selected keys keys' where sel: "selected_fields (bank bb) keys = Inr (selected, keys')"
    and s1: "slice (view_offset v) (1 + row_width v) bus = enable_taps (bound_source bb)"
    and s2: "slice (view_offset v + 1 + row_width v) (write_width v) bus =
      map (\<lambda>i. source_values (bound_source bb) ! i) selected"
    and s3: "taps (view_bank v) = enable_taps (bound_source bb) @ map (\<lambda>i. source_values (bound_source bb) ! i) selected @
        slice (live_position v) (live_row_bits (bank bb)) bus"
    using view_slices[OF v ok, folded bus_def] unfolding parts selected_fields_no_mailbox none(1,2) empty append_Nil by blast
  obtain selected' keys2 keys3 mb live where full: "selected_fields (bank bb) keys2 = Inr (selected', keys3)"
    "taps bb = enable_taps (bound_source bb) @ map (\<lambda>i. source_values (bound_source bb) ! i) selected' @ mb @ live"
    "length mb = mailbox_bits (bank bb)"
    "taps (without_mailbox banks bb) = enable_taps (bound_source bb) @ map (\<lambda>i. source_values (bound_source bb) ! i) selected' @ live"
    using without_mailbox_parts[OF _ here[OF bb(1)]] all_ok bb(1) by metis
  have "length selected' = length selected" using selected_fields_Inr(2)[OF sel] selected_fields_Inr(2)[OF full(1)] by simp
  with s3 full(4) have same: "map (\<lambda>i. source_values (bound_source bb) ! i) selected' = map (\<lambda>i. source_values (bound_source bb) ! i) selected"
    "live = slice (live_position v) (live_row_bits (bank bb)) bus" by (simp_all add: bb(2))
  have "taps bb = enable_taps (bound_source bb) @ map (\<lambda>i. source_values (bound_source bb) ! i) selected @ mb @
        slice (live_position v) (live_row_bits (bank bb)) bus"
    using full(2) unfolding same by simp
  then show ?thesis using bb none(3) sel full(3) s1 s2 by blast
qed

section \<open>Counted cells\<close>

lemma cell_counts_total:
  assumes "cell_counts kinds = Inr c"
  shows "lut c = lut_logic c + lut_ram c" and "\<forall>(k, n)\<in>set (distributed kinds). k \<in> fst ` set memory_luts"
proof -
  from assms have known: "\<forall>(k, n)\<in>set (distributed kinds). map_of memory_luts k \<noteq> None"
    and c: "lut c = lut_logic c + lut_ram c" by (auto simp: cell_counts_def bindE_Inr Let_def list_all_iff)
  show "lut c = lut_logic c + lut_ram c" by (rule c)
  show "\<forall>(k, n)\<in>set (distributed kinds). k \<in> fst ` set memory_luts"
    using known by (auto simp del: map_of_eq_None_iff dest!: map_of_SomeD bspec intro: rev_image_eqI)
qed

end
