(* ===== verification/Topo_Measure_Properties.thy ===== *)
theory Topo_Measure_Properties
  imports Topo_Properties Topo_Measure
begin

text \<open>The property of the measured variants of the debug logic.\<close>

section \<open>Measured variants\<close>

text \<open>
  C21. In the variant of the measurement without mailboxes, the wrapper generated for the reduced banks reads, on the
  shortened bus, exactly what it reads for the full ones except the mailbox samples: for every bank the enable
  and row address, the selected state bits, and the live sample. The side car of every variant is written: each
  net it mentions has exactly one input, the one at its place among the observed nets.
\<close>

theorem variants_read_taps:
  assumes "discover_actors pj at_root mods flat top_name clock_bit = Inr banks"
    and "v \<in> set (views 0 first (selected_banks Actor_State banks))"
  shows "(\<exists>bb\<in>set banks. \<exists>selected keys keys' mb. view_bank v = without_mailbox banks bb \<and> \<not> has_mailbox v \<and>
      selected_fields (bank bb) keys = Inr (selected, keys') \<and> length mb = mailbox_bits (bank bb) \<and>
      slice (view_offset v) (1 + row_width v) (concat (map taps (selected_banks Actor_State banks))) = enable_taps (bound_source bb) \<and>
      slice (view_offset v + 1 + row_width v) (write_width v) (concat (map taps (selected_banks Actor_State banks))) =
        map (\<lambda>i. source_values (bound_source bb) ! i) selected \<and>
      taps bb = enable_taps (bound_source bb) @ map (\<lambda>i. source_values (bound_source bb) ! i) selected @ mb @
        slice (live_position v) (live_row_bits (bank bb)) (concat (map taps (selected_banks Actor_State banks)))) \<and>
    (\<forall>m. \<exists>text. sidecar m physicals (selected_banks m banks) (index_table (all_bits physicals banks)) mf = Inr text) \<and>
    (\<forall>n i. map_of (index_table (all_bits physicals banks)) n = Some i \<longrightarrow>
       i < length (all_bits physicals banks) \<and> all_bits physicals banks ! i = n)"
proof -
  note D = discover_actors_Inr[OF assms(1)]
  have here: "banks ! nat (bank_index (bank bb)) = bb" if "bb \<in> set banks" for bb by (rule index_here[OF D(3) that])
  have "\<forall>n. Net n \<in> set (concat (map taps (selected_banks m banks))) \<longrightarrow> Net n \<in> set (concat (map taps banks))" for m
    using D(2) without_mailbox_nets here by (cases m) (fastforce simp: selected_banks_def)+
  then have "\<forall>m. \<exists>text. sidecar m physicals (selected_banks m banks) (index_table (all_bits physicals banks)) mf = Inr text"
    using sidecar_total by blast
  moreover have "\<forall>n i. map_of (index_table (all_bits physicals banks)) n = Some i \<longrightarrow>
       i < length (all_bits physicals banks) \<and> all_bits physicals banks ! i = n"
    using index_table_nth[OF all_bits_distinct] by blast
  ultimately show ?thesis using reduced_view[OF D(2) here assms(2)] by blast
qed

theorem variants_read_taps_witness:
  "slice 0 2 (concat (map taps (selected_banks Actor_State [demo_bound]))) = [Net 2, Net 3] \<and>
   length (taps demo_bound) = 76 \<and> length (concat (map taps (selected_banks Actor_State [demo_bound]))) = 27"
proof -
  have v: "\<lparr>view_bank = without_mailbox [demo_bound] demo_bound, view_offset = 0, view_resource = 7\<rparr> \<in>
      set (views 0 7 (selected_banks Actor_State [demo_bound]))" by (simp add: selected_banks_def)
  have "row_width \<lparr>view_bank = without_mailbox [demo_bound] demo_bound, view_offset = 0, view_resource = 7\<rparr> = 1"
    "length (taps demo_bound) = 76" "length (concat (map taps (selected_banks Actor_State [demo_bound]))) = 27"
    "enable_taps (bound_source demo_bound) = [Net 2, Net 3]" by code_simp+
  with variants_read_taps[OF demo_binds v] show ?thesis by (auto simp: numeral_2_eq_2)
qed

end
