(* ===== verification/Area_Scripts.thy ===== *)
theory Area_Scripts
  imports Topo_Measure Diff_Run
begin

text \<open>
  The area measurements of the fabric router and of the receive path (\<open>tools/measure_fabric_router.py\<close>,
  \<open>tools/measure_application_frames.py\<close>): the generated Verilog around the router, the choice of the sources of each
  revision, the commands of every case and the rows that are reported. Git, the tools and the files are
  arguments: a file is its text, a tool's answer the types of the cells of a netlist.
\<close>

section \<open>The router wrapper\<close>

definition text_lines :: "string list \<Rightarrow> string" where
  "text_lines ls = concat (map (\<lambda>l. l @ [CHR 0x0A]) ls)"

text \<open>One 16-bit endpoint per port, from one.\<close>

definition endpoint_ids :: "nat \<Rightarrow> nat" where
  "endpoint_ids port_count = sum_list (map (\<lambda>p. (p + 1) * 2 ^ (16 * p)) [0..<port_count])"

definition module_lines :: "nat \<Rightarrow> string list" where
  "module_lines port_count =
    [''module router_area(input clk, reset,'',
     ''    input [32:0] rx, input rx_valid, output rx_ready,'',
     ''    output ['' @ show_int (33 * int port_count - 1) @ '':0] rx_payload, output ['' @ show_int (int port_count - 1) @ '':0] rx_payload_valid,'',
     ''    input ['' @ show_int (int port_count - 1) @ '':0] rx_payload_ready,'',
     ''    input ['' @ show_int (33 * int port_count - 1) @ '':0] tx_payload, input ['' @ show_int (int port_count - 1) @ '':0] tx_payload_valid,'',
     ''    output ['' @ show_int (int port_count - 1) @ '':0] tx_payload_ready,'',
     ''    output [32:0] tx, output tx_valid, input tx_ready);'']"

definition pair_lines :: "string list" where
  "pair_lines =
    [''__hls_fabric_router__PairIngress_0_next ingress('',
     ''    .clk(clk),.reset(reset),._shared_in(rx),._shared_in_vld(rx_valid),._shared_in_rdy(rx_ready),'',
     ''    ._endpoint_one_out(rx_payload[32:0]),._endpoint_one_out_vld(rx_payload_valid[0]),._endpoint_one_out_rdy(rx_payload_ready[0]),'',
     ''    ._endpoint_two_out(rx_payload[65:33]),._endpoint_two_out_vld(rx_payload_valid[1]),._endpoint_two_out_rdy(rx_payload_ready[1]));'',
     ''__hls_fabric_router__PairEgress_0_next egress('',
     ''    .clk(clk),.reset(reset),._shared_out(tx),._shared_out_vld(tx_valid),._shared_out_rdy(tx_ready),'',
     ''    ._endpoint_one_in(tx_payload[32:0]),._endpoint_one_in_vld(tx_payload_valid[0]),._endpoint_one_in_rdy(tx_payload_ready[0]),'',
     ''    ._endpoint_two_in(tx_payload[65:33]),._endpoint_two_in_vld(tx_payload_valid[1]),._endpoint_two_in_rdy(tx_payload_ready[1]));'']"

definition fabric_lines :: "nat \<Rightarrow> string list" where
  "fabric_lines port_count =
    [''wire [32:0] received;'',
     ''wire ['' @ show_int (32 * int port_count - 1) @ '':0] data;'',
     ''wire ['' @ show_int (int port_count - 1) @ '':0] last;'',
     ''hls_fabric_ingress #(.PORTS('' @ show_nat port_count @ ''),.ENDPOINTS('' @ show_nat (16 * port_count) @ [CHR 0x27] @ ''d'' @ show_nat (endpoint_ids port_count) @ '')) ingress('',
     ''    .clk(clk),.reset(reset),.s_data(rx[31:0]),.s_keep(4'' @ [CHR 0x27] @ ''hf),.s_last(rx[32]),.s_valid(rx_valid),.s_ready(rx_ready),'',
     ''    .m_data(received[31:0]),.m_last(received[32]),.m_keep(),.m_source(),.route_error(),'',
     ''    .m_valid(rx_payload_valid),.m_ready(rx_payload_ready));'',
     ''hls_fabric_egress #(.PORTS('' @ show_nat port_count @ ''),.ENDPOINTS('' @ show_nat (16 * port_count) @ [CHR 0x27] @ ''d'' @ show_nat (endpoint_ids port_count) @ '')) egress('',
     ''    .clk(clk),.reset(reset),.s_data(data),.s_keep('' @ show_nat (4 * port_count) @ [CHR 0x27] @ ''h'' @ replicate port_count CHR ''f'' @ ''),.s_last(last),'',
     ''    .s_valid(tx_payload_valid),.s_ready(tx_payload_ready),.s_destination('' @ show_nat (16 * port_count) @ [CHR 0x27] @ ''d0),'',
     ''    .m_data(tx[31:0]),.m_last(tx[32]),.m_keep(),.m_valid(tx_valid),.m_ready(tx_ready));'']"

definition port_lines :: "nat \<Rightarrow> string list" where
  "port_lines p =
    [''assign rx_payload['' @ show_nat (33 * p) @ ''+:33]=received;'',
     ''assign data['' @ show_nat (32 * p) @ ''+:32]=tx_payload['' @ show_nat (33 * p) @ ''+:32];'',
     ''assign last['' @ show_nat p @ '']=tx_payload['' @ show_nat (33 * p + 32) @ ''];'']"

definition router_wrapper :: "nat \<Rightarrow> bool \<Rightarrow> string" where
  "router_wrapper port_count old = text_lines (module_lines port_count @
     (if old then pair_lines else fabric_lines port_count @ concat (map port_lines [0..<port_count])) @ [''endmodule''])"

section \<open>The receive path\<close>

definition receivers :: string where
  "receivers = text_lines
    [''import axis;'',
     ''pub proc Raw { config(input: chan<axis::Beat> in, output: chan<axis::Frame> out) {'',
     ''  spawn axis::Rx(input, output); } init '' @ ''{ () }'' @ '' next(s: ()) '' @ ''{ s }'' @ '' }'',
     ''pub proc Reserved { config(input: chan<axis::Beat> in, output: chan<axis::Frame> out, credit: chan<u1> in) {'',
     ''  spawn axis::ReservedRx(input, output, credit); } init '' @ ''{ () }'' @ '' next(s: ()) '' @ ''{ s }'' @ '' }'',
     ''pub proc Checked { config(input: chan<axis::Beat> in, output: chan<axis::Frame> out) {'',
     ''  spawn axis::RxN<u32:3>(input, output); } init '' @ ''{ () }'' @ '' next(s: ()) '' @ ''{ s }'' @ '' }'']"

definition mapping_script :: "string \<Rightarrow> string \<Rightarrow> string" where
  "mapping_script verilog stats = text_lines
    [''read_verilog -sv '' @ verilog,
     ''hierarchy -check -top measured'',
     ''proc'',
     ''flatten'',
     ''opt'',
     ''check -assert'',
     ''scc -expect 0'',
     ''synth_xilinx -flatten -abc9 -arch xc7 -noiopad -top measured'',
     ''tee -o '' @ stats @ '' stat -json -tech xilinx'']"

section \<open>Sources of a revision\<close>

text \<open>The configuration of frames is a source exactly of the revisions whose axis library imports it.\<close>

definition imports_frame_config :: "string \<Rightarrow> bool" where
  "imports_frame_config axis = contains ''import frame_config;'' axis"

definition router_sources :: "string \<Rightarrow> string list" where
  "router_sources axis = [''priv/xls/lib/axis.x'', ''priv/xls/fabric/hls_fabric_router.x''] @
     (if imports_frame_config axis then [''priv/xls/lib/frame_config.x''] else [])"

definition receive_sources :: "string \<Rightarrow> (string \<times> string) list" where
  "receive_sources axis = [(''axis.x'', ''priv/xls/lib/axis.x''), (''regsvc.x'', ''src/examples/regsvc/regsvc.erl.x'')] @
     (if imports_frame_config axis then [(''frame_config.x'', ''priv/xls/lib/frame_config.x'')] else [])"

section \<open>Commands\<close>

text \<open>A command with the file of its standard output; a failed command stops the measurement.\<close>

type_synonym invocation = "string list \<times> string"

datatype area_error = Command_Failed "string list" | Bad_Cells topology_error | Bad_Seeds

definition run_all :: "(invocation \<Rightarrow> bool) \<Rightarrow> invocation list \<Rightarrow> (area_error, unit) result" where
  "run_all ok = checkE (\<lambda>c. ensure (ok c) (Command_Failed (fst c)))"

definition router_commands :: "string \<Rightarrow> string \<Rightarrow> string \<times> string \<Rightarrow> invocation list" where
  "router_commands xls old tn = (let (top, name) = tn in
     [([xls @ ''/ir_converter_main'', ''--warnings_as_errors=false'', ''--dslx_path='' @ old,
        ''--dslx_stdlib_path='' @ xls @ ''/xls/dslx/stdlib'', ''--top='' @ top, old @ ''/hls_fabric_router.x''], old @ ''/'' @ name @ ''.ir''),
      ([xls @ ''/opt_main'', old @ ''/'' @ name @ ''.ir''], old @ ''/'' @ name @ ''.opt.ir''),
      ([xls @ ''/codegen_main'', ''--pipeline_stages=1'', ''--delay_model=unit'', ''--flop_inputs=false'', ''--flop_outputs=true'',
        ''--use_system_verilog=false'', ''--reset=reset'', ''--fifo_module='', old @ ''/'' @ name @ ''.opt.ir''], old @ ''/'' @ name @ ''.v'')])"

definition receive_commands :: "string \<Rightarrow> string \<Rightarrow> string \<Rightarrow> string \<Rightarrow> string \<Rightarrow> invocation list" where
  "receive_commands home xls yosys directory name = (let pre = directory @ ''/'' @ name in
     [([xls @ ''/ir_converter_main'', ''--warnings_as_errors=false'',
        ''--top='' @ (if name = ''regsvc'' then ''Top'' else name), ''--dslx_path='' @ directory @ '':'' @ home @ ''/priv/xls/lib'',
        ''--dslx_stdlib_path='' @ xls @ ''/xls/dslx/stdlib'',
        directory @ ''/'' @ (if name = ''regsvc'' then ''regsvc.x'' else ''receivers.x'')], pre @ ''.ir''),
      ([xls @ ''/opt_main'', pre @ ''.ir''], pre @ ''.opt.ir''),
      ([xls @ ''/codegen_main'', ''--pipeline_stages=1'', ''--delay_model=unit'', ''--flop_inputs=false'', ''--flop_outputs=true'',
        ''--use_system_verilog=false'', ''--module_name=measured'', ''--reset=reset'', ''--fifo_module='', pre @ ''.opt.ir''], pre @ ''.v''),
      ([yosys, ''-Q'', ''-l'', pre @ ''.yosys.log'', ''-s'', pre @ ''.ys''], pre @ ''.log'')])"

section \<open>Rows\<close>

definition count_types :: "string list \<Rightarrow> (string \<times> int) list" where
  "count_types types = foldl (\<lambda>d t. AList.update t (count_at d t + 1) d) [] types"

definition router_variants :: "(string \<times> nat \<times> bool) list" where
  "router_variants = [(''baseline-2'', 2, True), (''current-1'', 1, False), (''current-2'', 2, False), (''current-3'', 3, False), (''current-8'', 8, False)]"

definition router_inputs :: "string \<Rightarrow> string \<Rightarrow> string list \<Rightarrow> string \<Rightarrow> bool \<Rightarrow> string list" where
  "router_inputs stage old fabric name former = (stage @ ''/'' @ name @ ''/router_area.v'') #
     (if former then [old @ ''/ingress.v'', old @ ''/egress.v''] else sort fabric)"

definition lift_cells :: "(topology_error, 'a) result \<Rightarrow> (area_error, 'a) result" where
  "lift_cells r = (case r of Inl e \<Rightarrow> Inl (Bad_Cells e) | Inr x \<Rightarrow> Inr x)"

text \<open>The report of the router: the types of the cells of every mapped variant, counted.\<close>

definition router_report ::
  "(invocation \<Rightarrow> bool) \<Rightarrow> (string \<Rightarrow> string list) \<Rightarrow> string \<Rightarrow> string \<Rightarrow> string \<Rightarrow>
    (area_error, (string \<times> nat \<times> (string \<times> int) list \<times> counts) list) result" where
  "router_report ok netlist xls yosys stage =
     bindE (run_all ok (concat (map (router_commands xls (stage @ ''/baseline'')) [(''PairIngress'', ''ingress''), (''PairEgress'', ''egress'')]))) (\<lambda>_.
     mapE (\<lambda>(name, port_count, former).
       bindE (run_all ok [([yosys, ''-Q'', ''-T'', ''-s'', stage @ ''/'' @ name @ ''/synth.ys''], stage @ ''/'' @ name @ ''/synth.log'')]) (\<lambda>_.
       let kinds = count_types (netlist name) in
       bindE (lift_cells (cell_counts kinds)) (\<lambda>cs. Inr (name, port_count, kinds, cs)))) router_variants)"

record receive_row =
  row_version :: string
  row_case :: string
  row_lut :: int
  row_ff :: int

definition receive_cases :: "(string \<times> string) list" where
  "receive_cases = concat (map (\<lambda>v. map (Pair v) [''Raw'', ''Reserved'', ''Checked'', ''regsvc'']) [''baseline'', ''branch''])"

definition receive_case ::
  "(invocation \<Rightarrow> bool) \<Rightarrow> (string \<Rightarrow> (string \<times> int) list) \<Rightarrow> string \<Rightarrow> string \<Rightarrow> string \<Rightarrow> string \<Rightarrow>
    string \<times> string \<Rightarrow> (area_error, receive_row) result" where
  "receive_case ok cells_of home xls yosys stage vn = (let (version, name) = vn; directory = stage @ ''/'' @ version in
     bindE (run_all ok (receive_commands home xls yosys directory name)) (\<lambda>_.
     let kinds = cells_of (directory @ ''/'' @ name @ ''.json'') in
     Inr \<lparr>row_version = version, row_case = name, row_lut = sum_prefixed ''LUT'' kinds, row_ff = sum_prefixed ''FD'' kinds\<rparr>))"

text \<open>The results file is written again after every row, so a failure leaves the rows before it.\<close>

fun kept_rows :: "('a \<Rightarrow> ('e, 'b) result) \<Rightarrow> 'a list \<Rightarrow> 'b list \<times> ('e, unit) result" where
  "kept_rows f [] = ([], Inr ())"
| "kept_rows f (x # xs) = (case f x of Inl e \<Rightarrow> ([], Inl e)
     | Inr y \<Rightarrow> (let (ys, r) = kept_rows f xs in (y # ys, r)))"

definition receive_report ::
  "(invocation \<Rightarrow> bool) \<Rightarrow> (string \<Rightarrow> (string \<times> int) list) \<Rightarrow> string \<Rightarrow> string \<Rightarrow> string \<Rightarrow> string \<Rightarrow>
    receive_row list \<times> (area_error, unit) result" where
  "receive_report ok cells_of home xls yosys stage = kept_rows (receive_case ok cells_of home xls yosys stage) receive_cases"

section \<open>What the reports say\<close>

text \<open>The endpoints of the ports fill the fields of the constant, and the constant its width.\<close>

lemma endpoint_ids_Suc: "endpoint_ids (Suc n) = endpoint_ids n + (n + 1) * 2 ^ (16 * n)"
  by (simp add: endpoint_ids_def)

lemma endpoint_ids_width: "port_count \<le> 65535 \<Longrightarrow> endpoint_ids port_count < 2 ^ (16 * port_count)"
proof (induction port_count)
  case (Suc n)
  then have "endpoint_ids n < 2 ^ (16 * n)" by simp
  then have "endpoint_ids (Suc n) < (n + 2) * 2 ^ (16 * n)" by (simp add: endpoint_ids_Suc)
  also have "\<dots> \<le> 65536 * 2 ^ (16 * n)" using Suc.prems by simp
  finally show ?case by (simp add: power_add)
qed (simp add: endpoint_ids_def)

lemma endpoint_ids_field:
  "port_count \<le> 65535 \<Longrightarrow> p < port_count \<Longrightarrow> endpoint_ids port_count div 2 ^ (16 * p) mod 65536 = p + 1"
proof (induction port_count)
  case (Suc n)
  show ?case
  proof (cases "p = n")
    case True
    have "endpoint_ids n < 2 ^ (16 * n)" using Suc.prems by (simp add: endpoint_ids_width)
    then have "(endpoint_ids n + (n + 1) * 2 ^ (16 * n)) div 2 ^ (16 * n) = n + 1"
      by (subst div_mult_self1) simp_all
    then show ?thesis using Suc.prems True by (simp only: endpoint_ids_Suc) simp
  next
    case False
    with Suc.prems have less: "p < n" by simp
    then obtain d where n: "n = p + Suc d" by (metis add_Suc_right less_imp_Suc_add)
    have "(2 :: nat) ^ (16 * n) = 2 ^ (16 * p) * (65536 * 2 ^ (16 * (n - p - 1)))"
      by (simp add: n power_add)
    then have "endpoint_ids (Suc n) = endpoint_ids n + 2 ^ (16 * p) * (65536 * ((n + 1) * 2 ^ (16 * (n - p - 1))))"
      by (simp add: endpoint_ids_Suc algebra_simps)
    then have "endpoint_ids (Suc n) div 2 ^ (16 * p) = endpoint_ids n div 2 ^ (16 * p) + 65536 * ((n + 1) * 2 ^ (16 * (n - p - 1)))"
      by simp
    then have "endpoint_ids (Suc n) div 2 ^ (16 * p) mod 65536 = endpoint_ids n div 2 ^ (16 * p) mod 65536"
      by (simp only: mod_mult_self2)
    then show ?thesis using Suc.IH Suc.prems less by simp
  qed
qed simp

text \<open>Counting the types accounts for every cell once.\<close>

lemma count_types_step: "count_at (AList.update t (count_at d t + 1) d) k = count_at d k + (if k = t then 1 else 0)"
  by (simp add: count_at_def update_conv')

lemma count_types_exact: "count_at (count_types types) k = int (length (filter ((=) k) types))"
proof -
  have "count_at (foldl (\<lambda>d t. AList.update t (count_at d t + 1) d) d0 types) k = count_at d0 k + int (length (filter ((=) k) types))" for d0
    by (induction types arbitrary: d0) (simp_all add: count_types_step)
  then show ?thesis by (simp add: count_types_def count_at_def)
qed

text \<open>The rows kept after a failure are those of the cases before it.\<close>

lemma kept_rows_prefix:
  assumes "kept_rows f xs = (ys, r)"
  shows "map Inr ys = map f (take (length ys) xs)"
    and "r = Inr () \<Longrightarrow> length ys = length xs"
    and "r = Inl e \<Longrightarrow> length ys < length xs \<and> f (xs ! length ys) = Inl e"
  using assms by (induction xs arbitrary: ys) (auto split: sum.splits prod.splits)

end
