(* ===== verification/Ir_Types.thy ===== *)
theory Ir_Types
  imports Prelude
begin

text \<open>
  The widths of XLS IR types (\<open>bit_width\<close> of \<open>tools/erl_hls_tools/xls_ir_census.py\<close>): a recursive-descent
  reader over the text without spaces. The cursor is the text that is left. Nested types recurse, so the
  reader takes fuel; every nested type is behind a bracket, hence the length of the text is enough.
\<close>

section \<open>The reader\<close>

datatype ir_error = Invalid_Type | Missing_Width | Trailing_Text | Line_Too_Long | No_Identity string
  | Inconsistent_Types | No_Procs | Out_Of_Fuel

text \<open>The characters of \<open>\s\<close> and of \<open>str.rstrip\<close>.\<close>

definition ir_space :: "char \<Rightarrow> bool" where
  "ir_space c \<longleftrightarrow> c \<in> set [CHR 0x20, CHR 0x09, CHR 0x0A, CHR 0x0B, CHR 0x0C, CHR 0x0D, CHR 0x1C, CHR 0x1D, CHR 0x1E, CHR 0x1F]"

definition squeeze :: "string \<Rightarrow> string" where
  "squeeze s = filter (\<lambda>c. \<not> ir_space c) s"

definition take_token :: "string \<Rightarrow> string \<Rightarrow> (ir_error, string) result" where
  "take_token token s = (if prefix token s then Inr (drop (length token) s) else Inl Invalid_Type)"

definition number :: "string \<Rightarrow> (ir_error, nat \<times> string) result" where
  "number s = (let ds = takeWhile is_digit s in
     if ds = [] then Inl Missing_Width else Inr (read_nat ds, dropWhile is_digit s))"

text \<open>The array dimensions after a type.\<close>

function dimensions :: "nat \<Rightarrow> string \<Rightarrow> (ir_error, nat \<times> string) result" where
  "dimensions w s =
     (if prefix ''['' s then
        (case number (tl s) of
           Inl e \<Rightarrow> Inl e
         | Inr (n, r) \<Rightarrow> (case take_token '']'' r of Inl e \<Rightarrow> Inl e | Inr r' \<Rightarrow> dimensions (w * n) r'))
      else Inr (w, s))"
  by pat_completeness auto
termination
proof (relation "measure (\<lambda>(_, s). length s)", goal_cases)
  case (2 w s res n r r')
  then have "r = dropWhile is_digit (tl s)" "length r' \<le> length r" "s \<noteq> []"
    by (auto simp: number_def take_token_def Let_def split: if_splits)
  then have "length r' \<le> length (tl s)" using length_dropWhile_le[of is_digit "tl s"] by simp
  with \<open>s \<noteq> []\<close> show ?case by (cases s) auto
qed simp

declare dimensions.simps [simp del]

fun read_type :: "nat \<Rightarrow> string \<Rightarrow> (ir_error, nat \<times> string) result"
  and read_members :: "nat \<Rightarrow> nat \<Rightarrow> string \<Rightarrow> (ir_error, nat \<times> string) result" where
  "read_type 0 s = Inl Out_Of_Fuel"
| "read_type (Suc fuel) s =
     (if prefix ''bits['' s then
        bindE (number (drop 5 s)) (\<lambda>(w, r). bindE (take_token '']'' r) (\<lambda>r'. dimensions w r'))
      else if prefix ''token'' s then dimensions 0 (drop 5 s)
      else bindE (take_token ''('' s) (\<lambda>r.
        bindE (if prefix '')'' r then Inr (0, r)
               else bindE (read_type fuel r) (\<lambda>(w, r'). read_members fuel w r')) (\<lambda>(w, r').
        bindE (take_token '')'' r') (\<lambda>r''. dimensions w r''))))"
| "read_members 0 w s = (if prefix '','' s then Inl Out_Of_Fuel else Inr (w, s))"
| "read_members (Suc fuel) w s =
     (if prefix '','' s then bindE (read_type fuel (tl s)) (\<lambda>(w', r). read_members fuel (w + w') r)
      else Inr (w, s))"

definition bit_width :: "string \<Rightarrow> (ir_error, nat) result" where
  "bit_width kind = (let s = squeeze kind in
     bindE (read_type (length s + 1) s) (\<lambda>(w, r). bindE (ensure (r = []) Trailing_Text) (\<lambda>_. Inr w)))"

section \<open>The language of types\<close>

datatype ir_type = Bits nat | Token | Tuple "ir_type list" | Array ir_type nat

fun type_bits :: "ir_type \<Rightarrow> nat" where
  "type_bits (Bits n) = n"
| "type_bits Token = 0"
| "type_bits (Tuple ts) = sum_list (map type_bits ts)"
| "type_bits (Array t n) = type_bits t * n"

definition numeral_of :: "nat \<Rightarrow> string \<Rightarrow> bool" where
  "numeral_of n ds \<longleftrightarrow> ds \<noteq> [] \<and> list_all is_digit ds \<and> read_nat ds = n"

inductive spells :: "ir_type \<Rightarrow> string \<Rightarrow> bool"
  and spells_members :: "ir_type list \<Rightarrow> string \<Rightarrow> bool" where
  bits: "numeral_of n ds \<Longrightarrow> spells (Bits n) (''bits['' @ ds @ '']'')"
| token: "spells Token ''token''"
| unit: "spells (Tuple []) ''()''"
| tuple: "spells t s \<Longrightarrow> spells_members ts r \<Longrightarrow> spells (Tuple (t # ts)) (''('' @ s @ r @ '')'')"
| array: "spells t s \<Longrightarrow> numeral_of n ds \<Longrightarrow> spells (Array t n) (s @ ''['' @ ds @ '']'')"
| last: "spells_members [] []"
| more: "spells t s \<Longrightarrow> spells_members ts r \<Longrightarrow> spells_members (t # ts) ('','' @ s @ r)"

section \<open>Spelled types are read\<close>

lemma digits_end: "\<not> is_digit CHR '']''" "\<not> is_digit CHR ''[''" "\<not> is_digit CHR '',''"
  by (simp_all add: in_range_def less_eq_char_def)

lemma number_numeral: "numeral_of n ds \<Longrightarrow> number (ds @ CHR '']'' # r) = Inr (n, CHR '']'' # r)"
proof -
  assume n: "numeral_of n ds"
  then have "takeWhile is_digit (ds @ CHR '']'' # r) = ds" "dropWhile is_digit (ds @ CHR '']'' # r) = CHR '']'' # r"
    by (auto simp: numeral_of_def list_all_iff digits_end takeWhile_append2 dropWhile_append2)
  with n show ?thesis by (simp add: number_def numeral_of_def)
qed

lemma take_token_append [simp]: "take_token t (t @ r) = Inr r"
  by (simp add: take_token_def)

lemma take_token_char [simp]: "take_token [c] (c # r) = Inr r"
  by (simp add: take_token_def)

lemma dimensions_stop [simp]: "\<not> prefix ''['' s \<Longrightarrow> dimensions w s = Inr (w, s)"
  by (subst dimensions.simps) simp

lemma dimensions_step:
  "numeral_of n ds \<Longrightarrow> dimensions w (CHR ''['' # ds @ CHR '']'' # r) = dimensions (w * n) r"
  by (subst dimensions.simps) (simp add: number_numeral)

lemma spelled_start: "spells t s \<Longrightarrow> s \<noteq> [] \<and> hd s \<noteq> CHR '')'' \<and> hd s \<noteq> CHR '',''"
  by (induction t s rule: spells_spells_members.inducts(1)[where ?P2.0 = "\<lambda>_ _. True"]) (auto simp: hd_append)

lemma spelled_read:
  "spells t s \<Longrightarrow> length s \<le> fuel \<Longrightarrow> read_type fuel (s @ rest) = dimensions (type_bits t) rest"
  "spells_members ts s \<Longrightarrow> length s \<le> fuel \<Longrightarrow> \<not> prefix '','' rest \<Longrightarrow> \<not> prefix ''['' rest \<Longrightarrow>
     read_members fuel w (s @ rest) = Inr (w + sum_list (map type_bits ts), rest)"
proof (induction t s and ts s arbitrary: fuel rest and fuel rest w rule: spells_spells_members.inducts)
  case (bits n ds)
  then show ?case by (cases fuel) (simp_all add: number_numeral)
next
  case token
  then show ?case by (cases fuel) simp_all
next
  case unit
  then show ?case by (cases fuel) simp_all
next
  case (tuple t s ts r)
  from tuple.prems obtain k where k: "fuel = Suc k" "length s \<le> k" "length r \<le> k" by (cases fuel) auto
  from spelled_start[OF tuple.hyps(1)] have "\<not> prefix '')'' (s @ r @ CHR '')'' # rest)" by (cases s) auto
  moreover have "\<not> prefix ''['' (r @ CHR '')'' # rest)"
    using tuple.hyps(2) by cases auto
  ultimately show ?case
    using tuple.IH(1)[OF k(2), of "r @ CHR '')'' # rest"] tuple.IH(2)[OF k(3), of "CHR '')'' # rest"] k by simp
next
  case (array t s n ds)
  then show ?case by (simp add: dimensions_step)
next
  case last
  then show ?case by (cases fuel) simp_all
next
  case (more t s ts r)
  from more.prems(1) obtain k where k: "fuel = Suc k" "length s \<le> k" "length r \<le> k" by (cases fuel) auto
  have "\<not> prefix ''['' (r @ rest)" using more.hyps(2) more.prems(3) by cases auto
  then show ?case
    using more.IH(1)[OF k(2), of "r @ rest"] more.IH(2)[OF k(3) more.prems(2,3)] k by (simp add: add.assoc)
qed

section \<open>Only spelled types are read\<close>

lemma number_Inr:
  assumes "number s = Inr (n, r)"
  shows "\<exists>ds. numeral_of n ds \<and> s = ds @ r"
  using assms by (intro exI[of _ "takeWhile is_digit s"])
    (auto simp: number_def numeral_of_def Let_def list_all_iff dest: set_takeWhileD split: if_splits)

lemma token_Inr [simp]: "take_token t s = Inr r \<longleftrightarrow> s = t @ r"
  by (auto simp: take_token_def elim!: prefixE)

lemma dimensions_Inr:
  assumes "dimensions w s = Inr (w', r)" and "spells t u" and "type_bits t = w"
  shows "\<exists>t' d. spells t' (u @ d) \<and> type_bits t' = w' \<and> s = d @ r"
  using assms
proof (induction w s arbitrary: t u rule: dimensions.induct)
  case (1 w s)
  show ?case
  proof (cases "prefix ''['' s")
    case False
    with 1 show ?thesis by auto
  next
    case True
    with "1.prems"(1) obtain n r1 r2 where n: "number (tl s) = Inr (n, r1)" "take_token '']'' r1 = Inr r2"
      and rest: "dimensions (w * n) r2 = Inr (w', r)"
      by (subst (asm) dimensions.simps) (auto split: sum.splits)
    from number_Inr[OF n(1)] obtain ds where ds: "numeral_of n ds" "tl s = ds @ r1" by blast
    with True n(2) have s: "s = (''['' @ ds @ '']'') @ r2" by (cases s) auto
    from array[OF "1.prems"(2) ds(1)] have t: "spells (Array t n) (u @ ''['' @ ds @ '']'')" by simp
    from "1.IH"[OF True n(1) refl n(2) rest t] "1.prems"(3) obtain t' d where
      "spells t' ((u @ ''['' @ ds @ '']'') @ d)" "type_bits t' = w'" "r2 = d @ r" by auto
    with s show ?thesis by (intro exI[of _ t'] exI[of _ "(''['' @ ds @ '']'') @ d"]) simp
  qed
qed

lemma read_Inr:
  "read_type fuel s = Inr (w, r) \<Longrightarrow> \<exists>t u. spells t u \<and> s = u @ r \<and> type_bits t = w"
  "read_members fuel w s = Inr (w', r) \<Longrightarrow> \<exists>ts u. spells_members ts u \<and> s = u @ r \<and> w' = w + sum_list (map type_bits ts)"
proof (induction fuel s and fuel w s arbitrary: w r and w' r rule: read_type_read_members.induct)
  case (2 fuel s)
  consider (b) "prefix ''bits['' s" | (t) "\<not> prefix ''bits['' s" "prefix ''token'' s"
    | (p) "\<not> prefix ''bits['' s" "\<not> prefix ''token'' s" by blast
  then show ?case
  proof cases
    case b
    with "2.prems" obtain n r1 r2 where n: "number (drop 5 s) = Inr (n, r1)" "r1 = '']'' @ r2" "dimensions n r2 = Inr (w, r)"
      by (auto simp: bindE_Inr)
    from number_Inr[OF n(1)] obtain ds where ds: "numeral_of n ds" "drop 5 s = ds @ r1" by blast
    from b ds(2) n(2) have s: "s = (''bits['' @ ds @ '']'') @ r2" by (auto elim!: prefixE)
    from dimensions_Inr[OF n(3) bits[OF ds(1)]] s show ?thesis by auto
  next
    case t
    with "2.prems" have d: "dimensions 0 (drop 5 s) = Inr (w, r)" by simp
    from t have "s = ''token'' @ drop 5 s" by (auto elim!: prefixE)
    with dimensions_Inr[OF d token] show ?thesis by (metis append.assoc type_bits.simps(2))
  next
    case p
    with "2.prems" obtain r1 w1 r2 r3 where s: "s = ''('' @ r1" and r2: "r2 = '')'' @ r3" "dimensions w1 r3 = Inr (w, r)"
      and inner: "(if prefix '')'' r1 then Inr (0, r1) else bindE (read_type fuel r1) (\<lambda>(w, r'). read_members fuel w r')) = Inr (w1, r2)"
      by (auto simp: bindE_Inr)
    have "\<exists>t u. spells t u \<and> s = u @ r3 \<and> type_bits t = w1"
    proof (cases "prefix '')'' r1")
      case True
      with inner s r2 show ?thesis by (intro exI[of _ "Tuple []"] exI[of _ "''()''"]) (auto intro: unit)
    next
      case False
      with inner obtain w2 r4 where m: "read_type fuel r1 = Inr (w2, r4)" "read_members fuel w2 r4 = Inr (w1, r2)"
        by (auto simp: bindE_Inr)
      have tok: "take_token ''('' s = Inr r1" using s by simp
      from "2.IH"(1)[OF p tok False m(1)] obtain t u where t: "spells t u" "r1 = u @ r4" "type_bits t = w2" by auto
      from "2.IH"(2)[OF p tok False m(1) refl m(2)] obtain ts v where
        ts: "spells_members ts v" "r4 = v @ r2" "w1 = w2 + sum_list (map type_bits ts)" by blast
      from tuple[OF t(1) ts(1)] t ts s r2 show ?thesis
        by (intro exI[of _ "Tuple (t # ts)"] exI[of _ "''('' @ u @ v @ '')''"]) auto
    qed
    then obtain t u where t: "spells t u" "s = u @ r3" "type_bits t = w1" by blast
    from dimensions_Inr[OF r2(2) t(1,3)] t(2) show ?thesis by (metis append.assoc)
  qed
next
  case (4 fuel w s)
  show ?case
  proof (cases "prefix '','' s")
    case False
    with "4.prems" show ?thesis by (intro exI[of _ "[]"]) (auto intro: last)
  next
    case True
    with "4.prems" obtain w1 r1 where m: "read_type fuel (tl s) = Inr (w1, r1)" "read_members fuel (w + w1) r1 = Inr (w', r)"
      by (auto simp: bindE_Inr)
    from "4.IH"(1)[OF True m(1)] obtain t u where t: "spells t u" "tl s = u @ r1" "type_bits t = w1" by blast
    from "4.IH"(2)[OF True m(1) refl m(2)] obtain ts v where
      ts: "spells_members ts v" "r1 = v @ r" "w' = w + w1 + sum_list (map type_bits ts)" by blast
    from True t(2) ts(2) have "s = ('','' @ u @ v) @ r" by (cases s) auto
    with more[OF t(1) ts(1)] t ts show ?thesis by (intro exI[of _ "t # ts"] exI[of _ "'','' @ u @ v"]) auto
  qed
next
  case (3 w s)
  then show ?case by (intro exI[of _ "[]"]) (auto intro: last split: if_splits)
qed auto

lemma read_shortens: "read_type fuel s = Inr (w, r) \<Longrightarrow> length r < length s"
  using read_Inr(1) spelled_start by fastforce

lemma dimensions_fueled: "dimensions w s \<noteq> Inl Out_Of_Fuel"
proof (induction w s rule: dimensions.induct)
  case (1 w s)
  then show ?case
    by (subst dimensions.simps) (auto simp: number_def take_token_def Let_def split: sum.splits if_splits)
qed

lemma token_fueled [simp]: "take_token t s \<noteq> Inl Out_Of_Fuel" "number s \<noteq> Inl Out_Of_Fuel"
  by (simp_all add: take_token_def number_def Let_def)

lemma read_fueled:
  "length s < fuel \<Longrightarrow> read_type fuel s \<noteq> Inl Out_Of_Fuel"
  "length s < fuel \<Longrightarrow> read_members fuel w s \<noteq> Inl Out_Of_Fuel"
proof (induction fuel s and fuel w s rule: read_type_read_members.induct)
  case (2 fuel s)
  show ?case
  proof
    assume out: "read_type (Suc fuel) s = Inl Out_Of_Fuel"
    then obtain r where p: "\<not> prefix ''bits['' s" "\<not> prefix ''token'' s" and r: "s = ''('' @ r" "\<not> prefix '')'' r"
      and inner: "bindE (read_type fuel r) (\<lambda>(w, r'). read_members fuel w r') = Inl Out_Of_Fuel"
      by (auto simp: bindE_Inl dimensions_fueled split: if_splits)
    have len: "length r < fuel" using r(1) "2.prems" by simp
    have tok: "take_token ''('' s = Inr r" using r(1) by simp
    from "2.IH"(1)[OF p tok r(2) len] have first: "read_type fuel r \<noteq> Inl Out_Of_Fuel" by simp
    with inner obtain w r' where m: "read_type fuel r = Inr (w, r')" "read_members fuel w r' = Inl Out_Of_Fuel"
      by (auto simp: bindE_Inl)
    with read_shortens[OF m(1)] len have "length r' < fuel" by simp
    from "2.IH"(2)[OF p tok r(2) m(1) refl this] m(2) show False by simp
  qed
next
  case (4 fuel w s)
  show ?case
  proof
    assume out: "read_members (Suc fuel) w s = Inl Out_Of_Fuel"
    then have p: "prefix '','' s" and inner: "bindE (read_type fuel (tl s)) (\<lambda>(w', r). read_members fuel (w + w') r) = Inl Out_Of_Fuel"
      by (auto split: if_splits)
    from p have len: "length (tl s) < fuel" using "4.prems" by (cases s) auto
    with "4.IH"(1)[OF p len] inner obtain w' r where m: "read_type fuel (tl s) = Inr (w', r)" "read_members fuel (w + w') r = Inl Out_Of_Fuel"
      by (auto simp: bindE_Inl)
    with read_shortens[OF m(1)] len have "length r < fuel" by simp
    from "4.IH"(2)[OF p m(1) refl this] m(2) show False by simp
  qed
qed simp_all

lemma bit_width_Inr: "bit_width kind = Inr n \<longleftrightarrow> (\<exists>t. spells t (squeeze kind) \<and> type_bits t = n)"
proof
  assume "bit_width kind = Inr n"
  then have "read_type (length (squeeze kind) + 1) (squeeze kind) = Inr (n, [])"
    by (auto simp: bit_width_def Let_def bindE_Inr)
  with read_Inr(1) show "\<exists>t. spells t (squeeze kind) \<and> type_bits t = n" by fastforce
next
  assume "\<exists>t. spells t (squeeze kind) \<and> type_bits t = n"
  then obtain t where "spells t (squeeze kind)" "type_bits t = n" by blast
  with spelled_read(1)[OF this(1), of "length (squeeze kind) + 1" "[]"] show "bit_width kind = Inr n"
    by (simp add: bit_width_def Let_def ensure_def del: read_type.simps)
qed

lemma bit_width_fueled: "bit_width kind \<noteq> Inl Out_Of_Fuel"
  using read_fueled(1)[of "squeeze kind" "length (squeeze kind) + 1"]
  by (auto simp: bit_width_def Let_def bindE_Inl)

end
