(* ===== verification/Ir_Census.thy ===== *)
theory Ir_Census
  imports Ir_Types "HOL-Library.Multiset"
begin

text \<open>
  The census of optimized XLS procs (\<open>census\<close> of \<open>tools/erl_hls_tools/xls_ir_census.py\<close>). A file is the list of
  its lines, each with its line feed; the regular expressions are written out as the deterministic scans they
  are. \<open>included\<close> is the search with the user's expression, \<open>digest\<close> the hash of the file.
\<close>

section \<open>Lines\<close>

definition name_char :: "char \<Rightarrow> bool" where
  "name_char c \<longleftrightarrow> word_char c \<or> c = CHR ''.''"

definition rstrip :: "string \<Rightarrow> string" where
  "rstrip s = rev (dropWhile ir_space (rev s))"

definition strip_top :: "string \<Rightarrow> string" where
  "strip_top l = (if prefix ''top '' l then drop 4 l else l)"

definition header :: "string \<Rightarrow> bool" where
  "header l \<longleftrightarrow> prefix ''proc '' (strip_top l) \<or> prefix ''fn '' (strip_top l)"

definition proc_name :: "string \<Rightarrow> string option" where
  "proc_name l = (if prefix ''proc '' (strip_top l)
     then (let r = drop 5 (strip_top l); n = takeWhile name_char r; r' = dropWhile name_char r in
       if n \<noteq> [] \<and> (prefix ''<'' r' \<or> prefix ''('' r') then Some n else None)
     else None)"

record node =
  node_name :: string
  node_type :: string
  operation :: string
  arguments :: string

text \<open>The operation and arguments behind \<open> = \<close>; the arguments end with the line.\<close>

definition call_of :: "string \<Rightarrow> (string \<times> string) option" where
  "call_of s = (if prefix '' = '' s
     then (let r = drop 3 s; f = takeWhile word_char r; r' = dropWhile word_char r in
       if f \<noteq> [] \<and> prefix ''('' r' \<and> tl r' \<noteq> [] \<and> last (tl r') = CHR '')'' then Some (f, butlast (tl r')) else None)
     else None)"

text \<open>The type is the shortest text in front of such a call.\<close>

fun typed_call :: "string \<Rightarrow> (string \<times> string \<times> string) option" where
  "typed_call [] = None"
| "typed_call (c # cs) = (case call_of (c # cs) of Some (f, args) \<Rightarrow> Some ([], f, args)
     | None \<Rightarrow> map_option (\<lambda>(k, f, args). (c # k, f, args)) (typed_call cs))"

definition node_of :: "string \<Rightarrow> node option" where
  "node_of line = (let l = rstrip line in
     if prefix ''  '' l
     then (let r = drop 2 l; n = takeWhile name_char r; r' = dropWhile name_char r in
       if n \<noteq> [] \<and> prefix '': '' r'
       then map_option (\<lambda>(k, f, args). \<lparr>node_name = n, node_type = k, operation = f, arguments = args\<rparr>)
         (typed_call (drop 2 r'))
       else None)
     else None)"

text \<open>The identity at a position of the arguments, and the first one at the start or behind a comma.\<close>

definition element_at :: "string \<Rightarrow> string option" where
  "element_at s = (if prefix ''state_element='' s
     then (let r = drop 14 s; n = takeWhile name_char r; r' = dropWhile name_char r in
       if n \<noteq> [] \<and> (r' = [] \<or> prefix '','' r') then Some n else None)
     else None)"

fun element_after_comma :: "string \<Rightarrow> string option" where
  "element_after_comma [] = None"
| "element_after_comma (c # cs) = (if c = CHR '',''
     then (case element_at (dropWhile ir_space cs) of Some n \<Rightarrow> Some n | None \<Rightarrow> element_after_comma cs)
     else element_after_comma cs)"

definition state_element :: "string \<Rightarrow> string option" where
  "state_element s = (case element_at s of Some n \<Rightarrow> Some n | None \<Rightarrow> element_after_comma s)"

section \<open>Counting\<close>

record tally =
  op_counts :: "(string, nat) dict"
  state_widths :: "(string, nat) dict"
  access_bits :: "(string, nat) dict"

record proc_report =
  proc_id :: string
  proc_state_bits :: nat
  proc_state :: "(string \<times> nat) list"
  proc_nodes :: nat
  proc_operations :: "(string \<times> nat) list"
  proc_access :: "(string \<times> nat) list"

record census_report =
  ir_sha256 :: string
  include_text :: string
  census_bits :: nat
  census_nodes :: nat
  procs :: "proc_report list"

definition empty_tally :: tally where
  "empty_tally = \<lparr>op_counts = [], state_widths = [], access_bits = []\<rparr>"

text \<open>\<open>counter[key] += n\<close>.\<close>

definition bump :: "string \<Rightarrow> nat \<Rightarrow> (string, nat) dict \<Rightarrow> (string, nat) dict" where
  "bump k n d = AList.update k ((case map_of d k of None \<Rightarrow> 0 | Some m \<Rightarrow> m) + n) d"

definition accessors :: "string list" where
  "accessors = [''sel'', ''priority_sel'', ''one_hot_sel'', ''array_index'', ''array_update'']"

definition read_state :: "node \<Rightarrow> (string, nat) dict \<Rightarrow> (ir_error, (string, nat) dict) result" where
  "read_state n d = (if operation n \<noteq> ''state_read'' then Inr d
     else (case state_element (arguments n) of
         None \<Rightarrow> Inl (No_Identity (node_name n))
       | Some e \<Rightarrow> bindE (bit_width (node_type n)) (\<lambda>w.
           bindE (ensure (\<not> (case map_of d e of None \<Rightarrow> False | Some w' \<Rightarrow> w' \<noteq> w)) Inconsistent_Types) (\<lambda>_.
           Inr (AList.update e w d)))))"

definition count_node :: "tally \<Rightarrow> node \<Rightarrow> (ir_error, tally) result" where
  "count_node t n =
     bindE (read_state n (state_widths t)) (\<lambda>d.
     bindE (if operation n \<in> set accessors
            then bindE (bit_width (node_type n)) (\<lambda>w. Inr (bump (operation n) w (access_bits t)))
            else Inr (access_bits t)) (\<lambda>a.
     Inr \<lparr>op_counts = bump (operation n) 1 (op_counts t), state_widths = d, access_bits = a\<rparr>))"

definition sum_of :: "(string \<times> nat) list \<Rightarrow> nat" where
  "sum_of d = sum_list (map snd d)"

definition report_of :: "string \<Rightarrow> tally \<Rightarrow> proc_report" where
  "report_of name t = \<lparr>proc_id = name, proc_state_bits = sum_of (state_widths t), proc_state = sort_key fst (state_widths t),
     proc_nodes = sum_of (op_counts t), proc_operations = sort_key fst (op_counts t), proc_access = sort_key fst (access_bits t)\<rparr>"

record scan =
  scan_reports :: "proc_report list"
  scan_current :: "string option"
  scan_tally :: tally

definition finish :: "scan \<Rightarrow> proc_report list" where
  "finish st = scan_reports st @ (case scan_current st of None \<Rightarrow> [] | Some n \<Rightarrow> [report_of n (scan_tally st)])"

definition scan_line :: "(string \<Rightarrow> bool) \<Rightarrow> scan \<Rightarrow> string \<Rightarrow> (ir_error, scan) result" where
  "scan_line included st line =
     bindE (ensure (\<not> int (length line) > 4000000) Line_Too_Long) (\<lambda>_.
     let st' = (if header line
         then \<lparr>scan_reports = finish st,
               scan_current = (case proc_name line of None \<Rightarrow> None | Some n \<Rightarrow> if included n then Some n else None),
               scan_tally = empty_tally\<rparr>
         else st) in
     (case (scan_current st', node_of line) of
        (Some _, Some n) \<Rightarrow> bindE (count_node (scan_tally st') n) (\<lambda>t. Inr (st'\<lparr>scan_tally := t\<rparr>))
      | _ \<Rightarrow> Inr st'))"

definition census ::
  "string \<Rightarrow> (string \<Rightarrow> bool) \<Rightarrow> (string list \<Rightarrow> string) \<Rightarrow> string list \<Rightarrow> (ir_error, census_report) result" where
  "census include_expr included digest ls =
     bindE (foldE (scan_line included) \<lparr>scan_reports = [], scan_current = None, scan_tally = empty_tally\<rparr> ls) (\<lambda>st.
     let reports = finish st in
     bindE (ensure (reports \<noteq> []) No_Procs) (\<lambda>_.
     Inr \<lparr>ir_sha256 = digest ls, include_text = include_expr, census_bits = sum_list (map proc_state_bits reports),
       census_nodes = sum_list (map proc_nodes reports), procs = reports\<rparr>))"

section \<open>Sections of a file\<close>

text \<open>The specification: a file is read section by section, from one header to the next.\<close>

fun sections :: "string list \<Rightarrow> (string \<times> string list) list" where
  "sections [] = []"
| "sections (l # ls) = (if header l then (l, takeWhile (\<lambda>x. \<not> header x) ls) # sections ls else sections ls)"

definition chosen :: "(string \<Rightarrow> bool) \<Rightarrow> string \<times> string list \<Rightarrow> bool" where
  "chosen included s \<longleftrightarrow> (case proc_name (fst s) of None \<Rightarrow> False | Some n \<Rightarrow> included n)"

definition nodes_in :: "string list \<Rightarrow> node list" where
  "nodes_in ls = List.map_filter node_of ls"

definition section_report :: "string \<times> string list \<Rightarrow> (ir_error, proc_report) result" where
  "section_report s = bindE (foldE count_node empty_tally (nodes_in (snd s))) (\<lambda>t.
     Inr (report_of (the (proc_name (fst s))) t))"

lemma header_no_node: "header l \<Longrightarrow> node_of l = None"
proof -
  assume h: "header l"
  have "\<not> prefix ''  '' (rstrip l)"
  proof
    assume p: "prefix ''  '' (rstrip l)"
    have "prefix (rstrip l) l"
      unfolding rstrip_def by (metis prefixI rev_append rev_rev_ident takeWhile_dropWhile_id)
    with p have "prefix ''  '' l" by (rule prefix_order.trans)
    with h show False by (auto simp: header_def strip_top_def elim!: prefixE split: if_splits)
  qed
  then show ?thesis by (simp add: node_of_def Let_def)
qed

definition current_report :: "scan \<Rightarrow> string list \<Rightarrow> proc_report list \<Rightarrow> bool" where
  "current_report st ls rs \<longleftrightarrow> (case scan_current st of None \<Rightarrow> rs = []
     | Some n \<Rightarrow> (\<exists>t. foldE count_node (scan_tally st) (nodes_in ls) = Inr t \<and> rs = [report_of n t]))"

lemma nodes_in_Cons: "nodes_in (l # ls) = (case node_of l of None \<Rightarrow> nodes_in ls | Some n \<Rightarrow> n # nodes_in ls)"
  by (simp add: nodes_in_def List.map_filter_simps split: option.split)

lemma nodes_in_header: "header l \<Longrightarrow> nodes_in (l # ls) = nodes_in ls"
  by (simp add: nodes_in_Cons header_no_node)

lemma scan_header:
  assumes "header l" and "scan_line inc st l = Inr st'"
  shows "scan_reports st' = finish st" and "scan_tally st' = empty_tally"
    and "scan_current st' = (if chosen inc (l, ls) then proc_name l else None)"
  using assms header_no_node[OF assms(1)]
  by (auto simp: scan_line_def chosen_def bindE_Inr Let_def split: option.splits if_splits)

lemma scan_body:
  assumes "\<not> header l" and "scan_line inc st l = Inr st'"
  shows "scan_reports st' = scan_reports st" and "scan_current st' = scan_current st"
    and "scan_current st \<noteq> None \<Longrightarrow>
      foldE count_node (scan_tally st) (nodes_in (l # ls)) = foldE count_node (scan_tally st') (nodes_in ls)"
  using assms by (auto simp: scan_line_def nodes_in_Cons bindE_Inr Let_def split: option.splits)

lemma current_report_Nil: "current_report st [] rs \<Longrightarrow> finish st = scan_reports st @ rs"
  by (auto simp: current_report_def nodes_in_def List.map_filter_simps finish_def split: option.splits)

lemma scan_sections:
  assumes "foldE (scan_line inc) st ls = Inr st'"
  shows "\<exists>cur rs. current_report st (takeWhile (\<lambda>x. \<not> header x) ls) cur \<and>
    list_all2 (\<lambda>s r. section_report s = Inr r) (filter (chosen inc) (sections ls)) rs \<and>
    finish st' = scan_reports st @ cur @ rs"
  using assms
proof (induction ls arbitrary: st)
  case Nil
  then show ?case
    by (cases "scan_current st") (auto simp: current_report_def nodes_in_def List.map_filter_simps finish_def)
next
  case (Cons l ls)
  from Cons.prems obtain st1 where st1: "scan_line inc st l = Inr st1" "foldE (scan_line inc) st1 ls = Inr st'"
    by (auto simp: bindE_Inr)
  from Cons.IH[OF st1(2)] obtain cur rs where IH: "current_report st1 (takeWhile (\<lambda>x. \<not> header x) ls) cur"
    "list_all2 (\<lambda>s r. section_report s = Inr r) (filter (chosen inc) (sections ls)) rs"
    "finish st' = scan_reports st1 @ cur @ rs" by blast
  show ?case
  proof (cases "header l")
    case False
    have "current_report st (takeWhile (\<lambda>x. \<not> header x) (l # ls)) cur"
      using IH(1) scan_body(2,3)[OF False st1(1)] False
      by (simp add: current_report_def split: option.splits)
    with IH(2,3) scan_body(1)[OF False st1(1)] False show ?thesis by auto
  next
    case True
    let ?s = "(l, takeWhile (\<lambda>x. \<not> header x) ls)"
    note h = scan_header[OF True st1(1)]
    have "finish st' = scan_reports st @ (case scan_current st of None \<Rightarrow> [] | Some n \<Rightarrow> [report_of n (scan_tally st)]) @ cur @ rs"
      using IH(3) h(1) by (simp add: finish_def)
    moreover have "current_report st [] (case scan_current st of None \<Rightarrow> [] | Some n \<Rightarrow> [report_of n (scan_tally st)])"
      by (simp add: current_report_def nodes_in_def List.map_filter_simps split: option.split)
    moreover have "list_all2 (\<lambda>s r. section_report s = Inr r) (filter (chosen inc) (sections (l # ls))) (cur @ rs)"
    proof (cases "chosen inc ?s")
      case True
      then obtain n where n: "proc_name l = Some n" by (auto simp: chosen_def split: option.splits)
      with IH(1) h(2) h(3)[of "snd ?s"] True obtain t where "foldE count_node empty_tally (nodes_in (snd ?s)) = Inr t" "cur = [report_of n t]"
        by (auto simp: current_report_def)
      with n True IH(2) \<open>header l\<close> show ?thesis by (simp add: section_report_def)
    next
      case False
      with IH(1) h(3)[of "snd ?s"] have "cur = []" by (simp add: current_report_def)
      with False IH(2) \<open>header l\<close> show ?thesis by simp
    qed
    ultimately show ?thesis using True by (metis takeWhile.simps(2))
  qed
qed

section \<open>What a tally counts\<close>

lemma map_of_bump: "map_of (bump k n d) k' = (if k' = k then Some ((case map_of d k of None \<Rightarrow> 0 | Some m \<Rightarrow> m) + n) else map_of d k')"
  by (simp add: bump_def update_conv)

lemma sum_of_update:
  assumes "distinct (map fst d)"
  shows "sum_of (AList.update k v d) + (case map_of d k of None \<Rightarrow> 0 | Some m \<Rightarrow> m) = sum_of d + v"
  using assms by (induction d) (auto simp: sum_of_def)

lemma distinct_bump: "distinct (map fst d) \<Longrightarrow> distinct (map fst (bump k n d))"
  by (simp add: bump_def distinct_update)

lemma sum_of_bump: "distinct (map fst d) \<Longrightarrow> sum_of (bump k n d) = sum_of d + n"
  using sum_of_update[of d k "(case map_of d k of None \<Rightarrow> 0 | Some m \<Rightarrow> m) + n"] by (simp add: bump_def)

text \<open>The state elements a list of nodes reads, with the widths of the reads.\<close>

definition reads :: "node list \<Rightarrow> string \<Rightarrow> nat \<Rightarrow> bool" where
  "reads ns e w \<longleftrightarrow> (\<exists>n\<in>set ns. operation n = ''state_read'' \<and> state_element (arguments n) = Some e \<and> bit_width (node_type n) = Inr w)"

definition tallies :: "node list \<Rightarrow> tally \<Rightarrow> bool" where
  "tallies ns t \<longleftrightarrow> distinct (map fst (op_counts t)) \<and> distinct (map fst (state_widths t)) \<and> sum_of (op_counts t) = length ns \<and>
     (\<forall>f. (case map_of (op_counts t) f of None \<Rightarrow> 0 | Some k \<Rightarrow> k) = length (filter (\<lambda>n. operation n = f) ns)) \<and>
     (\<forall>e w. map_of (state_widths t) e = Some w \<longleftrightarrow> reads ns e w)"

lemma reads_snoc: "reads (ns @ [n]) e w \<longleftrightarrow> reads ns e w \<or>
    operation n = ''state_read'' \<and> state_element (arguments n) = Some e \<and> bit_width (node_type n) = Inr w"
  by (auto simp: reads_def)

lemma read_state_Inr:
  assumes "read_state n d = Inr d'" and "distinct (map fst d)"
  shows "distinct (map fst d')" and "map_of d' e = Some w \<longleftrightarrow> map_of d e = Some w \<or>
    operation n = ''state_read'' \<and> state_element (arguments n) = Some e \<and> bit_width (node_type n) = Inr w"
proof -
  have "distinct (map fst d') \<and> (map_of d' e = Some w \<longleftrightarrow> map_of d e = Some w \<or>
      operation n = ''state_read'' \<and> state_element (arguments n) = Some e \<and> bit_width (node_type n) = Inr w)"
  proof (cases "operation n = ''state_read''")
    case False
    with assms show ?thesis by (simp add: read_state_def)
  next
    case True
    with assms(1) obtain e0 w0 where e0: "state_element (arguments n) = Some e0" "bit_width (node_type n) = Inr w0"
      "d' = AList.update e0 w0 d" and "case map_of d e0 of None \<Rightarrow> True | Some w' \<Rightarrow> w' = w0"
      by (cases "state_element (arguments n)") (auto simp: read_state_def bindE_Inr split: option.splits)
    then have same: "map_of d e0 = None \<or> map_of d e0 = Some w0" by (auto split: option.splits)
    have "map_of d' e = (if e = e0 then Some w0 else map_of d e)" by (simp add: e0(3) update_conv')
    moreover have "distinct (map fst d')" using assms(2) by (simp add: e0(3) distinct_update)
    ultimately show ?thesis using True e0(1,2) same by auto
  qed
  then show "distinct (map fst d')" "map_of d' e = Some w \<longleftrightarrow> map_of d e = Some w \<or>
    operation n = ''state_read'' \<and> state_element (arguments n) = Some e \<and> bit_width (node_type n) = Inr w" by blast+
qed

lemma count_node_tallies:
  assumes "tallies ns t" and "count_node t n = Inr t'"
  shows "tallies (ns @ [n]) t'"
proof -
  from assms(2) have d: "read_state n (state_widths t) = Inr (state_widths t')"
    and c: "op_counts t' = bump (operation n) 1 (op_counts t)"
    by (auto simp: count_node_def bindE_Inr)
  from assms(1) have t: "distinct (map fst (op_counts t))" "distinct (map fst (state_widths t))" by (simp_all add: tallies_def)
  have "(case map_of (op_counts t') f of None \<Rightarrow> 0 | Some k \<Rightarrow> k) = length (filter (\<lambda>n. operation n = f) (ns @ [n]))" for f
    using assms(1) by (simp add: c map_of_bump tallies_def)
  then show ?thesis
    using assms(1) t c distinct_bump[OF t(1)] sum_of_bump[OF t(1)] read_state_Inr[OF d t(2)]
    by (simp add: tallies_def reads_snoc)
qed

lemma fold_tallies: "foldE count_node empty_tally ns = Inr t \<Longrightarrow> tallies ns t"
proof (induction ns arbitrary: t rule: rev_induct)
  case Nil
  then have "t = empty_tally" by simp
  then show ?case by (simp add: tallies_def empty_tally_def sum_of_def reads_def)
next
  case (snoc n ns)
  then obtain u where "foldE count_node empty_tally ns = Inr u" "count_node u n = Inr t"
    by (auto simp: foldE_append bindE_Inr)
  with snoc.IH count_node_tallies show ?case by blast
qed

section \<open>What a report says\<close>

definition describes :: "string \<times> string list \<Rightarrow> proc_report \<Rightarrow> bool" where
  "describes s r \<longleftrightarrow> proc_name (fst s) = Some (proc_id r) \<and> proc_nodes r = length (nodes_in (snd s)) \<and>
     sorted_wrt (<) (map fst (proc_state r)) \<and> proc_state_bits r = sum_list (map snd (proc_state r)) \<and>
     (\<forall>e w. (e, w) \<in> set (proc_state r) \<longleftrightarrow> reads (nodes_in (snd s)) e w) \<and>
     (\<forall>f. f \<in> operation ` set (nodes_in (snd s)) \<longrightarrow>
        (f, length (filter (\<lambda>n. operation n = f) (nodes_in (snd s)))) \<in> set (proc_operations r))"

lemma sorted_distinct: "sorted xs \<Longrightarrow> distinct xs \<Longrightarrow> sorted_wrt (<) xs"
  by (simp add: strict_sorted_iff)

lemma section_described:
  assumes "section_report s = Inr r" and "proc_name (fst s) \<noteq> None"
  shows "describes s r"
proof -
  from assms obtain t n where t: "foldE count_node empty_tally (nodes_in (snd s)) = Inr t" and n: "proc_name (fst s) = Some n"
    and r: "r = report_of n t"
    by (auto simp: section_report_def bindE_Inr)
  note T = fold_tallies[OF t, unfolded tallies_def]
  have keys: "sorted_wrt (<) (map fst (proc_state r))"
    using T by (intro sorted_distinct) (simp_all add: r report_of_def distinct_map)
  have "sum_list (map snd (sort_key fst d)) = sum_list (map snd d)" for d :: "(string \<times> nat) list"
    by (metis mset_map mset_sort sum_mset_sum_list)
  then have bits: "proc_state_bits r = sum_list (map snd (proc_state r))" by (simp add: r report_of_def sum_of_def)
  have states: "(e, w) \<in> set (proc_state r) \<longleftrightarrow> reads (nodes_in (snd s)) e w" for e w
    using T by (simp add: r report_of_def flip: map_of_eq_Some_iff)
  have ops: "(f, length (filter (\<lambda>n. operation n = f) (nodes_in (snd s)))) \<in> set (proc_operations r)"
    if "f \<in> operation ` set (nodes_in (snd s))" for f
  proof -
    from that have "filter (\<lambda>n. operation n = f) (nodes_in (snd s)) \<noteq> []" by (auto simp: filter_empty_conv)
    with T have "map_of (op_counts t) f = Some (length (filter (\<lambda>n. operation n = f) (nodes_in (snd s))))"
      by (cases "map_of (op_counts t) f") (metis (no_types, lifting) length_0_conv option.case(1), metis (no_types, lifting) option.case(2))
    then show ?thesis by (auto simp: r report_of_def dest: map_of_SomeD)
  qed
  show ?thesis unfolding describes_def using keys bits states ops n T by (simp add: r report_of_def)
qed

end
