(* ===== verification/Ir_Properties.thy ===== *)
theory Ir_Properties
  imports Ir_Census
begin

text \<open>The properties of the census of XLS IR, with a small file.\<close>

text \<open>
  C28. The width reader accepts exactly the texts that spell a type once their spaces are gone, with the width
  the type has: tuples add up, arrays multiply, a token is empty. It always ends, with a width or one of its
  three complaints, never for want of fuel.
\<close>

theorem bit_width_exact:
  "(bit_width kind = Inr n) = (\<exists>t. spells t (squeeze kind) \<and> type_bits t = n) \<and>
   bit_width kind \<noteq> Inl Out_Of_Fuel"
  using bit_width_Inr bit_width_fueled by blast

text \<open>
  C17. A census reports exactly the chosen procs, in the order of the file. The report of a proc counts the
  nodes between its header and the next, by operation, and lists each state element they read once, in order,
  with the width of every one of its reads; the state bits are the sum over the distinct elements, and the totals
  are sums over the procs.
\<close>

theorem census_exact:
  assumes "census include_expr included digest ls = Inr rep"
  shows "list_all2 describes (filter (chosen included) (sections ls)) (procs rep) \<and> procs rep \<noteq> [] \<and>
    census_bits rep = sum_list (map proc_state_bits (procs rep)) \<and>
    census_nodes rep = sum_list (map (\<lambda>s. length (nodes_in (snd s))) (filter (chosen included) (sections ls)))"
proof -
  from assms obtain st where st: "foldE (scan_line included) \<lparr>scan_reports = [], scan_current = None, scan_tally = empty_tally\<rparr> ls = Inr st"
    and rep: "finish st \<noteq> []" "procs rep = finish st" "census_bits rep = sum_list (map proc_state_bits (finish st))"
      "census_nodes rep = sum_list (map proc_nodes (finish st))"
    by (auto simp: census_def bindE_Inr Let_def)
  from scan_sections[OF st] have "list_all2 (\<lambda>s r. section_report s = Inr r) (filter (chosen included) (sections ls)) (procs rep)"
    by (auto simp: current_report_def rep(2))
  then have D: "list_all2 describes (filter (chosen included) (sections ls)) (procs rep)"
    by (rule list.rel_mono_strong) (auto simp: chosen_def intro!: section_described split: option.splits)
  have "sum_list (map proc_nodes rs) = sum_list (map (\<lambda>s. length (nodes_in (snd s))) ss)"
    if "list_all2 describes ss rs" for ss rs
    using that by induction (auto simp: describes_def)
  with D rep show ?thesis by simp
qed

definition demo_ir :: "string list" where
  "demo_ir = [''top proc __counter<>(x: bits[1]) {'', ''  n: (bits[8], bits[1][3]) = state_read(state_element=__n, id=2)'',
     ''  m: (bits[8], bits[1][3]) = state_read(predicate=p, state_element=__n, id=3)'', ''  literal.4: bits[8] = literal(value=1)'',
     ''}'', ''fn other(x: bits[8]) {'', ''  y: bits[8] = add(x, x)'', ''}'']"

theorem census_exact_witness:
  "case census [] (\<lambda>_. True) (\<lambda>_. []) demo_ir of Inl _ \<Rightarrow> False | Inr rep \<Rightarrow>
     census_nodes rep = 3 \<and> map proc_state (procs rep) = [[(''__n'', 11)]]"
proof -
  have "case census [] (\<lambda>_. True) (\<lambda>_. []) demo_ir of Inl _ \<Rightarrow> False | Inr rep \<Rightarrow> map proc_state (procs rep) = [[(''__n'', 11)]]"
    by code_simp
  then obtain rep where rep: "census [] (\<lambda>_. True) (\<lambda>_. []) demo_ir = Inr rep" "map proc_state (procs rep) = [[(''__n'', 11)]]"
    by (auto split: sum.splits)
  have "map (\<lambda>s. length (nodes_in (snd s))) (filter (chosen (\<lambda>_. True)) (sections demo_ir)) = [3]" by code_simp
  with census_exact[OF rep(1)] rep show ?thesis by simp
qed

end
