(* ===== verification/Compact_Build.thy ===== *)
theory Compact_Build
  imports Prelude
begin

text \<open>
  Lossless compaction of build trees (\<open>tools/compact_build.py\<close>): which files are candidates, and the verified
  replacement of one file by its compressed copy. Other processes may act between any two looks at the tree:
  \<open>others k\<close> is what they do before the \<open>k\<close>-th look. The private temporary directory that holds a copy is not
  touched by them; making it, renaming the copy and cleaning it up can each fail. A path is the list of its components below the root.
\<close>

section \<open>Files and their revisions\<close>

record stat =
  st_dev :: nat
  st_ino :: nat
  st_size :: nat
  st_mtime_ns :: int
  st_ctime_ns :: int
  st_mode :: nat
  st_uid :: nat
  st_gid :: nat
  st_nlink :: nat
  st_flags :: nat
  st_blocks :: nat

definition signature :: "stat \<Rightarrow> nat list \<times> int list" where
  "signature i = ([st_dev i, st_ino i, st_size i, st_mode i, st_uid i, st_gid i, st_nlink i, st_flags i], [st_mtime_ns i, st_ctime_ns i])"

definition allocated :: "stat \<Rightarrow> nat" where
  "allocated i = st_blocks i * 512"

text \<open>\<open>S_ISREG\<close>: the format bits of the mode are those of a regular file.\<close>

definition regular :: "stat \<Rightarrow> bool" where
  "regular i \<longleftrightarrow> st_mode i div 4096 mod 16 = 8"

definition compressed :: "stat \<Rightarrow> bool" where
  "compressed i \<longleftrightarrow> odd (st_flags i div 32)"

section \<open>Candidates\<close>

text \<open>A directory: its subdirectories, marked when they are symbolic links, and its other entries.\<close>

datatype directory = Directory (subdirectories: "(string \<times> bool \<times> directory) list") (entries: "(string \<times> stat) list")

definition suffixes :: "string list" where
  "suffixes = [''.json'', ''.log'', ''.console'', ''.ir'', ''.v'', ''.sv'', ''.vvp'']"

definition profiles :: "string list" where
  "profiles = [''default'', ''test'', ''prod'']"

text \<open>\<open>Path.suffix\<close>: from the last dot, unless that is the first or last character.\<close>

definition suffix :: "string \<Rightarrow> string" where
  "suffix name = (let ext = takeWhile (\<lambda>c. c \<noteq> CHR ''.'') (rev name); stem = drop (length ext + 1) (rev name) in
     if ext = [] \<or> stem = [] then [] else CHR ''.'' # rev ext)"

definition hidden :: "string \<Rightarrow> bool" where
  "hidden name \<longleftrightarrow> prefix ''.'' name"

definition entered :: "bool \<Rightarrow> string \<Rightarrow> bool \<Rightarrow> bool" where
  "entered at_root name link \<longleftrightarrow> \<not> hidden name \<and> \<not> link \<and> \<not> (at_root \<and> name \<in> set profiles)"

definition eligible :: "(stat \<Rightarrow> bool) \<Rightarrow> nat \<Rightarrow> nat \<Rightarrow> string \<Rightarrow> stat \<Rightarrow> bool" where
  "eligible old user minimum name i \<longleftrightarrow>
     suffix name \<in> set suffixes \<and> \<not> hidden name \<and>
     regular i \<and> st_nlink i = 1 \<and> st_uid i = user \<and> old i \<and>
     st_size i \<ge> minimum \<and> allocated i \<ge> minimum \<and> \<not> compressed i"

fun walk_tree :: "bool \<Rightarrow> directory \<Rightarrow> (string list \<times> string \<times> stat) list" where
  "walk_tree at_root (Directory ds es) =
     map (\<lambda>(name, i). ([], name, i)) es @
     concat (map (\<lambda>(name, link, d).
       if entered at_root name link then map (\<lambda>(path, n, i). (name # path, n, i)) (walk_tree False d) else []) ds)"

datatype compact_error = Bad_Root | Missing_File | Changed_Since_Scan | Copy_Failed | Not_Compressed
  | Source_Changed | Metadata_Mismatch | Content_Mismatch | Changed_During_Verification
  | No_Directory | Replace_Failed | Cleanup_Failed

definition candidates ::
  "(stat \<Rightarrow> bool) \<Rightarrow> nat \<Rightarrow> nat \<Rightarrow> bool \<Rightarrow> string \<Rightarrow> directory option \<Rightarrow> (compact_error, (string list \<times> stat) list) result" where
  "candidates old user minimum root_link root_name root =
     (if root_link \<or> root_name \<noteq> ''_build'' then Inl Bad_Root
      else case root of None \<Rightarrow> Inl Bad_Root | Some d \<Rightarrow>
        Inr (rev (sort_key (\<lambda>(_, i). allocated i) (rev (map (\<lambda>(path, n, i). (path @ [n], i))
          (filter (\<lambda>(_, n, i). eligible old user minimum n i) (walk_tree True d)))))))"

section \<open>Verified replacement\<close>

type_synonym world = "string list \<Rightarrow> (stat \<times> string) option"

record environment =
  others :: "nat \<Rightarrow> world \<Rightarrow> world"
  ditto :: "stat \<times> string \<Rightarrow> (stat \<times> string) option"
  digest :: "string \<Rightarrow> string"
  no_directory :: "string list \<Rightarrow> bool"
  no_replace :: "string list \<Rightarrow> bool"
  no_cleanup :: "string list \<Rightarrow> bool"

text \<open>\<open>path.lstat()\<close> with a comparison of revisions.\<close>

definition same_revision :: "world \<Rightarrow> string list \<Rightarrow> stat \<Rightarrow> compact_error \<Rightarrow> (compact_error, unit) result" where
  "same_revision w path scanned err = (case w path of None \<Rightarrow> Inl Missing_File
     | Some (i, _) \<Rightarrow> ensure (signature i = signature scanned) err)"

definition same_metadata :: "stat \<Rightarrow> stat \<Rightarrow> bool" where
  "same_metadata after scanned \<longleftrightarrow> \<not> (\<not> regular after \<or> st_size after \<noteq> st_size scanned \<or>
     (st_mode after, st_uid after, st_gid after, st_mtime_ns after) \<noteq>
     (st_mode scanned, st_uid scanned, st_gid scanned, st_mtime_ns scanned))"

text \<open>The looks are numbered from the first one of \<open>compact_one\<close>.\<close>

definition verify_copy ::
  "environment \<Rightarrow> string list \<Rightarrow> stat \<times> string \<Rightarrow> stat \<Rightarrow> world \<Rightarrow> world \<times> (compact_error, string) result" where
  "verify_copy env path copied scanned w =
     (let w2 = others env 2 w; w3 = others env 3 w2; w4 = others env 4 w3; (after, bytes) = copied in
      case same_revision w2 path scanned Source_Changed of Inl e \<Rightarrow> (w2, Inl e) | Inr _ \<Rightarrow>
      if \<not> same_metadata after scanned then (w2, Inl Metadata_Mismatch)
      else case w3 path of None \<Rightarrow> (w3, Inl Missing_File) | Some (_, source) \<Rightarrow>
      if digest env bytes \<noteq> digest env source then (w3, Inl Content_Mismatch)
      else case same_revision w4 path scanned Changed_During_Verification of Inl e \<Rightarrow> (w4, Inl e)
      | Inr _ \<Rightarrow> (w4, Inr (digest env source)))"

text \<open>The block that holds the temporary directory.\<close>

definition compact_body ::
  "environment \<Rightarrow> string list \<Rightarrow> stat \<Rightarrow> world \<Rightarrow> world \<times> (compact_error, nat \<times> string) result" where
  "compact_body env path scanned w1 =
     (case Option.bind (w1 path) (ditto env) of None \<Rightarrow> (w1, Inl Copy_Failed) | Some copied \<Rightarrow>
      if \<not> compressed (fst copied) then (w1, Inl Not_Compressed)
      else case verify_copy env path copied scanned w1 of
        (w2, Inl e) \<Rightarrow> (w2, Inl e)
      | (w2, Inr d) \<Rightarrow>
          (let saved = int (allocated scanned) - int (allocated (fst copied)); w3 = others env 5 w2 in
           if saved \<le> 0 then (w2, Inr (0, d))
           else if no_replace env path then (w3, Inl Replace_Failed)
           else (w3(path \<mapsto> copied), Inr (nat saved, d))))"

text \<open>
  Leaving the block cleans the directory up. An error there replaces the outcome of the block, also after the
  rename.
\<close>

definition compact_one ::
  "environment \<Rightarrow> string list \<Rightarrow> stat \<Rightarrow> world \<Rightarrow> world \<times> (compact_error, nat \<times> string) result" where
  "compact_one env path scanned w =
     (let w0 = others env 0 w in
      case same_revision w0 path scanned Changed_Since_Scan of Inl e \<Rightarrow> (w0, Inl e) | Inr _ \<Rightarrow>
      if no_directory env path then (w0, Inl No_Directory)
      else (case compact_body env path scanned (others env 1 w0) of (w', res) \<Rightarrow>
        (w', if no_cleanup env path then Inl Cleanup_Failed else res)))"

section \<open>Applying a plan\<close>

record receipt_file =
  file_path :: "string list"
  file_sha256 :: string
  file_saved :: nat

record compact_receipt =
  eligible_bytes :: nat
  saved_bytes :: nat
  receipt_files :: "receipt_file list"
  complete :: bool

text \<open>The loop stops at the first exception; the receipt is written in any case.\<close>

fun apply_plan ::
  "environment \<Rightarrow> (string list \<times> stat) list \<Rightarrow> world \<Rightarrow> compact_receipt \<Rightarrow> world \<times> compact_receipt \<times> compact_error option" where
  "apply_plan env [] w r = (w, r\<lparr>complete := True\<rparr>, None)"
| "apply_plan env ((path, i) # plan) w r =
     (case compact_one env path i w of
        (w', Inl e) \<Rightarrow> (w', r, Some e)
      | (w', Inr (saved, d)) \<Rightarrow> apply_plan env plan w'
          (r\<lparr>saved_bytes := saved_bytes r + saved,
             receipt_files := receipt_files r @ [\<lparr>file_path = path, file_sha256 = d, file_saved = saved\<rparr>]\<rparr>))"

definition eligible_total :: "(string list \<times> stat) list \<Rightarrow> nat" where
  "eligible_total plan = sum_list (map (\<lambda>(_, i). allocated i) plan)"

definition compact :: "environment \<Rightarrow> (string list \<times> stat) list \<Rightarrow> world \<Rightarrow> world \<times> compact_receipt \<times> compact_error option" where
  "compact env plan w = apply_plan env plan w
     \<lparr>eligible_bytes = eligible_total plan, saved_bytes = 0, receipt_files = [], complete = False\<rparr>"

text \<open>The report without \<open>--apply\<close>: allocated bytes by the first component, greatest first.\<close>

definition add_group :: "(string, nat) dict \<Rightarrow> string list \<times> stat \<Rightarrow> (string, nat) dict" where
  "add_group groups entry = (let name = hd (fst entry) in
     AList.update name ((case map_of groups name of None \<Rightarrow> 0 | Some n \<Rightarrow> n) + allocated (snd entry)) groups)"

definition size_report :: "(string list \<times> stat) list \<Rightarrow> (string \<times> nat) list" where
  "size_report plan = rev (sort_key snd (rev (foldl add_group [] plan)))"

section \<open>One replacement\<close>

lemma same_revision_Inr [simp]:
  "same_revision w path scanned err = Inr u \<longleftrightarrow> (\<exists>i b. w path = Some (i, b) \<and> signature i = signature scanned)"
  by (auto simp: same_revision_def split: option.splits)

text \<open>The file has the scanned revision.\<close>

definition at_revision :: "world \<Rightarrow> string list \<Rightarrow> stat \<Rightarrow> bool" where
  "at_revision w path scanned \<longleftrightarrow> (case w path of None \<Rightarrow> False | Some (i, _) \<Rightarrow> signature i = signature scanned)"

lemma at_revision_same: "same_revision w path scanned err = Inr u \<Longrightarrow> at_revision w path scanned"
  by (auto simp: at_revision_def)

lemma verify_copy_Inr:
  assumes "verify_copy env path copied scanned w = (w', Inr d)"
  shows "w' = others env 4 (others env 3 (others env 2 w))" and "same_metadata (fst copied) scanned"
    and "\<exists>i s. others env 3 (others env 2 w) path = Some (i, s) \<and> d = digest env s \<and> digest env (snd copied) = digest env s"
    and "at_revision (others env 2 w) path scanned" and "at_revision w' path scanned"
  using assms by (auto simp: verify_copy_def Let_def at_revision_def split: prod.splits sum.splits option.splits if_splits)

text \<open>What a block that ends well leaves.\<close>

lemma compact_body_Inr:
  assumes "compact_body env path scanned w1 = (w', Inr (saved, d))"
  obtains copied w4 i s where
    "ditto env (the (w1 path)) = Some copied" "w4 = others env 4 (others env 3 (others env 2 w1))"
    "same_metadata (fst copied) scanned" "compressed (fst copied)" "others env 3 (others env 2 w1) path = Some (i, s)"
    "at_revision (others env 2 w1) path scanned" "at_revision w4 path scanned"
    "d = digest env s" "digest env (snd copied) = digest env s"
    "saved = allocated scanned - allocated (fst copied)"
    "w' = (if allocated (fst copied) < allocated scanned then (others env 5 w4)(path \<mapsto> copied) else w4)"
proof -
  from assms obtain copied where c: "Option.bind (w1 path) (ditto env) = Some copied" "compressed (fst copied)"
    by (auto simp: compact_body_def Let_def split: option.splits if_splits)
  with assms obtain w4 where v: "verify_copy env path copied scanned w1 = (w4, Inr d)"
    and r: "saved = allocated scanned - allocated (fst copied)"
      "w' = (if allocated (fst copied) < allocated scanned then (others env 5 w4)(path \<mapsto> copied) else w4)"
    by (auto simp: compact_body_def Let_def split: sum.splits prod.splits if_splits)
  from c have "ditto env (the (w1 path)) = Some copied" by (cases "w1 path") auto
  with verify_copy_Inr[OF v] c r that show thesis by blast
qed

lemma compact_one_Inr:
  "compact_one env path scanned w = (w', Inr (saved, d)) \<Longrightarrow>
    compact_body env path scanned (others env 1 (others env 0 w)) = (w', Inr (saved, d)) \<and> \<not> no_cleanup env path"
  by (auto simp: compact_one_def Let_def split: sum.splits if_splits prod.splits)

lemma compact_one_Inl:
  "compact_one env path scanned w = (w', Inl e) \<Longrightarrow> w' = others env 0 w \<or>
    (\<exists>res. compact_body env path scanned (others env 1 (others env 0 w)) = (w', res) \<and>
      (e = Cleanup_Failed \<and> no_cleanup env path \<or> res = Inl e))"
  by (auto simp: compact_one_def Let_def split: sum.splits if_splits prod.splits)

end
