(* ===== verification/Compact_Properties.thy ===== *)
theory Compact_Properties
  imports Compact_Build
begin

text \<open>The properties of lossless compaction: what is replaced, by what, and which files are looked at.\<close>

section \<open>Interference\<close>

text \<open>The tree at the \<open>k\<close>-th look, when the tool itself has changed nothing.\<close>

fun looks :: "environment \<Rightarrow> nat \<Rightarrow> world \<Rightarrow> world" where
  "looks env 0 w = others env 0 w"
| "looks env (Suc k) w = others env (Suc k) (looks env k w)"

lemma looks_num:
  "looks env 1 w = others env 1 (others env 0 w)" "looks env 2 w = others env 2 (looks env 1 w)"
  "looks env 3 w = others env 3 (looks env 2 w)" "looks env 4 w = others env 4 (looks env 3 w)"
  "looks env 5 w = others env 5 (looks env 4 w)"
  by (simp_all add: numeral_eq_Suc)

lemma verify_copy_Inl:
  "verify_copy env path copied scanned (looks env 1 w) = (w', Inl e) \<Longrightarrow> \<exists>k\<le>4. w' = looks env k w"
  unfolding verify_copy_def Let_def looks_num(2-4)[symmetric]
  by (auto split: prod.splits sum.splits option.splits if_splits intro: exI[of _ "2 :: nat"] exI[of _ "3 :: nat"] exI[of _ "4 :: nat"])

lemma compact_body_Inl:
  assumes "compact_body env path scanned (looks env 1 w) = (w', Inl e)"
  shows "\<exists>k\<le>5. w' = looks env k w"
proof (cases "Option.bind (looks env 1 w path) (ditto env)")
  case None
  with assms show ?thesis by (auto simp: compact_body_def intro: exI[of _ "1 :: nat"])
next
  case (Some copied)
  show ?thesis
  proof (cases "compressed (fst copied)")
    case False
    with assms Some show ?thesis by (auto simp: compact_body_def intro: exI[of _ "1 :: nat"])
  next
    case True
    obtain w2 v where v: "verify_copy env path copied scanned (looks env 1 w) = (w2, v)" by fastforce
    show ?thesis
    proof (cases v)
      case (Inl e')
      with assms Some True v have "w' = w2" by (simp add: compact_body_def)
      with verify_copy_Inl v Inl obtain k where "k \<le> 4" "w' = looks env k w" by blast
      then show ?thesis by (intro exI[of _ k]) simp
    next
      case (Inr d)
      with assms Some True v have "w' = others env 5 w2" by (auto simp: compact_body_def Let_def split: if_splits)
      moreover have "w2 = looks env 4 w"
        using verify_copy_Inr(1) v Inr unfolding looks_num(2-4) by blast
      ultimately show ?thesis using looks_num(5) by (intro exI[of _ 5]) simp
    qed
  qed
qed

text \<open>A verified file: what was in place, and what a replacement puts there.\<close>

definition put_in_place :: "environment \<Rightarrow> string list \<Rightarrow> stat \<Rightarrow> world \<Rightarrow> world \<Rightarrow> nat \<Rightarrow> string \<Rightarrow> bool" where
  "put_in_place env path scanned w w' saved d \<longleftrightarrow> (\<exists>i s. looks env 3 w path = Some (i, s) \<and> d = digest env s \<and>
     at_revision (looks env 2 w) path scanned \<and> at_revision (looks env 4 w) path scanned \<and>
     (if saved = 0 then w' = looks env 4 w
      else \<exists>c. w' = (looks env 5 w)(path \<mapsto> (c, s)) \<and> same_metadata c scanned \<and> allocated c + saved = allocated scanned))"

lemma body_in_place:
  assumes "compact_body env path scanned (looks env 1 w) = (w', Inr (saved, d))" and "inj (digest env)"
  shows "put_in_place env path scanned w w' saved d"
proof -
  obtain copied w4 i s where
    c: "w4 = looks env 4 w" "same_metadata (fst copied) scanned" "looks env 3 w path = Some (i, s)"
      "at_revision (looks env 2 w) path scanned" "at_revision w4 path scanned"
      "d = digest env s" "digest env (snd copied) = digest env s"
      "saved = allocated scanned - allocated (fst copied)"
      "w' = (if allocated (fst copied) < allocated scanned then (others env 5 w4)(path \<mapsto> copied) else w4)"
    by (rule compact_body_Inr[OF assms(1), folded looks_num(2), folded looks_num(3), folded looks_num(4)])
  have "snd copied = s" using c(7) assms(2) by (simp add: inj_eq)
  then have "copied = (fst copied, s)" by (metis prod.collapse)
  moreover have "others env 5 w4 = looks env 5 w" by (simp add: c(1) looks_num(5))
  ultimately show ?thesis using c by (simp add: put_in_place_def exI[of _ "fst copied"])
qed

lemma compact_one_in_place:
  "compact_one env path scanned w = (w', Inr (saved, d)) \<Longrightarrow> inj (digest env) \<Longrightarrow> put_in_place env path scanned w w' saved d"
  using body_in_place compact_one_Inr unfolding looks_num(1) by blast

lemma compact_one_error:
  assumes "compact_one env path scanned w = (w', Inl e)" and "inj (digest env)"
  shows "(\<exists>k\<le>5. w' = looks env k w) \<or>
    e = Cleanup_Failed \<and> no_cleanup env path \<and> (\<exists>saved d. put_in_place env path scanned w w' saved d)"
  using compact_one_Inl[OF assms(1), folded looks_num(1)]
proof (elim disjE exE conjE)
  assume "w' = others env 0 w"
  then show ?thesis by (intro disjI1 exI[of _ 0]) simp
next
  fix res
  assume body: "compact_body env path scanned (looks env 1 w) = (w', res)"
  {
    assume "res = Inl e"
    with body compact_body_Inl show ?thesis by blast
  next
    assume e: "e = Cleanup_Failed" "no_cleanup env path"
    show ?thesis
    proof (cases res)
      case (Inl e')
      with body compact_body_Inl show ?thesis by blast
    next
      case (Inr v)
      with body body_in_place[OF _ assms(2)] e show ?thesis by (cases v) blast
    qed
  }
qed

text \<open>
  C15. Whatever other processes do meanwhile, compacting a file either changes nothing itself (on every
  error but one, and when compression saves nothing), or it ends by putting a copy in place that has the scanned
  revision's size, mode, owner and modification time, fewer allocated bytes by exactly the savings it reports,
  and the very bytes whose hash it returns, which the source held between two looks at the scanned revision. The
  one error is that of cleaning up the temporary directory: it can come after such a replacement. The digest is
  taken to be injective.
\<close>

theorem replacement_verified:
  assumes "compact_one env path scanned w = (w', res)" and "inj (digest env)"
  shows "case res of
      Inl e \<Rightarrow> (\<exists>k\<le>5. w' = looks env k w) \<or> e = Cleanup_Failed \<and> no_cleanup env path \<and>
        (\<exists>i s c. looks env 3 w path = Some (i, s) \<and> at_revision (looks env 2 w) path scanned \<and>
          at_revision (looks env 4 w) path scanned \<and> w' = (looks env 5 w)(path \<mapsto> (c, s)) \<and> same_metadata c scanned \<and>
          allocated c < allocated scanned)
    | Inr (saved, d) \<Rightarrow> (\<exists>i s. looks env 3 w path = Some (i, s) \<and> d = digest env s \<and>
        at_revision (looks env 2 w) path scanned \<and> at_revision (looks env 4 w) path scanned \<and>
        (if saved = 0 then w' = looks env 4 w
         else \<exists>c. w' = (looks env 5 w)(path \<mapsto> (c, s)) \<and> same_metadata c scanned \<and> allocated c + saved = allocated scanned))"
proof (cases res)
  case (Inl e)
  from compact_one_error[OF assms[unfolded Inl]] show ?thesis
  proof (elim disjE conjE exE)
    fix saved d
    assume "put_in_place env path scanned w w' saved d" "e = Cleanup_Failed" "no_cleanup env path"
    then show ?thesis unfolding Inl put_in_place_def
      by (cases "saved = 0") (force intro: exI[of _ "4 :: nat"])+
  qed (unfold Inl sum.case, blast)
next
  case (Inr v)
  with compact_one_in_place[of env path scanned w w' "fst v" "snd v"] assms show ?thesis
    by (cases v) (simp add: put_in_place_def)
qed

definition demo_stat :: stat where
  "demo_stat = \<lparr>st_dev = 1, st_ino = 2, st_size = 9, st_mtime_ns = 5, st_ctime_ns = 6, st_mode = 33188, st_uid = 7, st_gid = 7,
     st_nlink = 1, st_flags = 0, st_blocks = 3\<rparr>"

definition demo_env :: environment where
  "demo_env = \<lparr>others = \<lambda>_ w. w, ditto = \<lambda>(i, s). Some (i\<lparr>st_flags := 32, st_blocks := 1\<rparr>, s), digest = \<lambda>s. s,
     no_directory = \<lambda>_. False, no_replace = \<lambda>_. False, no_cleanup = \<lambda>_. False\<rparr>"

definition demo_tree :: world where
  "demo_tree = [[''a'', ''b.log''] \<mapsto> (demo_stat, ''some text'')]"

lemma demo_injective: "inj (digest demo_env)"
  by (simp add: demo_env_def)

lemma demo_compacts:
  "compact_one demo_env [''a'', ''b.log''] demo_stat demo_tree =
     (demo_tree([''a'', ''b.log''] \<mapsto> (demo_stat\<lparr>st_flags := 32, st_blocks := 1\<rparr>, ''some text'')), Inr (1024, ''some text''))"
  by (simp add: compact_one_def compact_body_def verify_copy_def demo_env_def demo_tree_def demo_stat_def Let_def same_revision_def ensure_def
      same_metadata_def regular_def compressed_def allocated_def signature_def)

theorem replacement_verified_witness:
  "\<exists>i s c w'. looks demo_env 3 demo_tree [''a'', ''b.log''] = Some (i, s) \<and>
     w' = (looks demo_env 5 demo_tree)([''a'', ''b.log''] \<mapsto> (c, s)) \<and> allocated c + 1024 = allocated demo_stat"
  using replacement_verified[OF demo_compacts demo_injective] by auto

section \<open>Idle trees\<close>

definition idle :: "environment \<Rightarrow> bool" where
  "idle env \<longleftrightarrow> (\<forall>k w. others env k w = w)"

text \<open>What a build can read of a file.\<close>

definition readable :: "world \<Rightarrow> string list \<Rightarrow> (string \<times> nat \<times> nat \<times> nat \<times> nat \<times> int) option" where
  "readable w path = map_option (\<lambda>(i, s). (s, st_size i, st_mode i, st_uid i, st_gid i, st_mtime_ns i)) (w path)"

lemma looks_idle: "idle env \<Longrightarrow> looks env k w = w"
  by (induction k) (simp_all add: idle_def)

lemma same_signature_metadata:
  "signature i = signature j \<Longrightarrow> same_metadata c j \<Longrightarrow>
    (st_size c, st_mode c, st_uid c, st_gid c, st_mtime_ns c) = (st_size i, st_mode i, st_uid i, st_gid i, st_mtime_ns i)"
  by (simp add: signature_def same_metadata_def)

text \<open>A replacement in an idle tree: nothing but the file's allocation changes.\<close>

definition smaller_copy :: "world \<Rightarrow> world \<Rightarrow> string list \<Rightarrow> stat \<Rightarrow> nat \<Rightarrow> bool" where
  "smaller_copy w w' path scanned saved \<longleftrightarrow> (if saved = 0 then w' path = w path
     else \<exists>c. map_option fst (w' path) = Some c \<and> allocated c + saved = allocated scanned)"

lemma put_idle:
  assumes "idle env" and "put_in_place env path scanned w w' saved d"
  shows "readable w' = readable w" and "\<exists>i s. w path = Some (i, s) \<and> d = digest env s"
    and "smaller_copy w w' path scanned saved" and "\<And>p. p \<noteq> path \<Longrightarrow> w' p = w p"
proof -
  from assms obtain i s where w: "w path = Some (i, s)" "d = digest env s" "signature i = signature scanned"
    and res: "if saved = 0 then w' = w
      else \<exists>c. w' = w(path \<mapsto> (c, s)) \<and> same_metadata c scanned \<and> allocated c + saved = allocated scanned"
    unfolding put_in_place_def looks_idle[OF assms(1)] by (auto simp: at_revision_def)
  show "\<exists>i s. w path = Some (i, s) \<and> d = digest env s" using w by blast
  from res show "w' p = w p" if "p \<noteq> path" for p using that by (auto split: if_splits)
  from res show "smaller_copy w w' path scanned saved" by (auto simp: smaller_copy_def split: if_splits)
  show "readable w' = readable w"
  proof (cases "saved = 0")
    case False
    with res obtain c where c: "w' = w(path \<mapsto> (c, s))" "same_metadata c scanned" by auto
    from same_signature_metadata[OF w(3) c(2)] have "readable (w(path \<mapsto> (c, s))) p = readable w p" for p
      using w(1) by (auto simp: readable_def)
    with c(1) show ?thesis by auto
  qed (use res in simp)
qed

text \<open>The receipts of a plan with distinct paths, against the tree before and after.\<close>

definition receipts_exact :: "environment \<Rightarrow> world \<Rightarrow> world \<Rightarrow> (string list \<times> stat) list \<Rightarrow> receipt_file list \<Rightarrow> bool" where
  "receipts_exact env w w' plan fs \<longleftrightarrow> length fs \<le> length plan \<and>
     (\<forall>k<length fs. file_path (fs ! k) = fst (plan ! k) \<and>
        (\<exists>c. readable w (fst (plan ! k)) = Some c \<and> file_sha256 (fs ! k) = digest env (fst c)) \<and>
        (distinct (map fst plan) \<longrightarrow> smaller_copy w w' (fst (plan ! k)) (snd (plan ! k)) (file_saved (fs ! k))))"

lemma receipts_exact_Cons:
  assumes one: "put_in_place env path i w w1 saved d" and idle: "idle env"
    and rest: "receipts_exact env w1 w' plan fs" and same: "path \<notin> set (map fst plan) \<Longrightarrow> w' path = w1 path"
  shows "receipts_exact env w w' ((path, i) # plan) (\<lparr>file_path = path, file_sha256 = d, file_saved = saved\<rparr> # fs)"
  unfolding receipts_exact_def
proof (intro conjI allI impI)
  note P = put_idle[OF idle one]
  show "length (\<lparr>file_path = path, file_sha256 = d, file_saved = saved\<rparr> # fs) \<le> length ((path, i) # plan)"
    using rest by (simp add: receipts_exact_def)
  fix k
  assume k: "k < length (\<lparr>file_path = path, file_sha256 = d, file_saved = saved\<rparr> # fs)"
  let ?f = "(\<lparr>file_path = path, file_sha256 = d, file_saved = saved\<rparr> # fs) ! k" and ?e = "((path, i) # plan) ! k"
  show "file_path ?f = fst ?e" using k rest by (cases k) (simp_all add: receipts_exact_def)
  show "\<exists>c. readable w (fst ?e) = Some c \<and> file_sha256 ?f = digest env (fst c)"
  proof (cases k)
    case 0
    with P(2) show ?thesis by (auto simp: readable_def)
  next
    case (Suc j)
    with k rest P(1) show ?thesis by (simp add: receipts_exact_def)
  qed
  show "smaller_copy w w' (fst ?e) (snd ?e) (file_saved ?f)" if d: "distinct (map fst ((path, i) # plan))"
  proof (cases k)
    case 0
    from d same have "w' path = w1 path" by simp
    with P(3) 0 show ?thesis by (auto simp: smaller_copy_def split: if_splits)
  next
    case (Suc j)
    with k have j: "j < length fs" by simp
    with rest d Suc have "smaller_copy w1 w' (fst (plan ! j)) (snd (plan ! j)) (file_saved (fs ! j))"
      by (simp add: receipts_exact_def)
    moreover have "fst (plan ! j) \<noteq> path"
    proof -
      have "j < length plan" using j rest by (simp add: receipts_exact_def)
      then have "fst (plan ! j) \<in> set (map fst plan)" by (metis nth_map nth_mem length_map)
      with d show ?thesis by auto
    qed
    ultimately show ?thesis using P(4) Suc by (auto simp: smaller_copy_def split: if_splits)
  qed
qed

lemma apply_plan_idle:
  assumes "idle env" and "inj (digest env)" and "apply_plan env plan w r = (w', r', e)" and "\<not> complete r"
  shows "readable w' = readable w \<and> (complete r' \<longleftrightarrow> e = None) \<and> eligible_bytes r' = eligible_bytes r \<and>
    (\<forall>p. p \<notin> set (map fst plan) \<longrightarrow> w' p = w p) \<and>
    (\<exists>fs. receipt_files r' = receipt_files r @ fs \<and> saved_bytes r' = saved_bytes r + sum_list (map file_saved fs) \<and>
       (e = None \<longrightarrow> length fs = length plan) \<and> receipts_exact env w w' plan fs)"
  using assms
proof (induction env plan w r rule: apply_plan.induct[case_names Nil Cons])
  case (Nil env w r)
  then show ?case by (auto simp: receipts_exact_def intro!: exI[of _ "[]"])
next
  case (Cons env path i plan w r)
  show ?case
  proof (cases "snd (compact_one env path i w)")
    case (Inl err)
    then obtain w1 where one: "compact_one env path i w = (w1, Inl err)" by (metis prod.collapse)
    with Cons.prems(3) have r: "w' = w1" "r' = r" "e = Some err" by simp_all
    from compact_one_error[OF one Cons.prems(2)] have "readable w' = readable w \<and> (\<forall>p. p \<noteq> path \<longrightarrow> w' p = w p)"
      unfolding r looks_idle[OF Cons.prems(1)] using put_idle(1,4)[OF Cons.prems(1)] by blast
    with r Cons.prems(4) show ?thesis by (auto simp: receipts_exact_def intro!: exI[of _ "[]"])
  next
    case (Inr v)
    then obtain w1 saved d where one: "compact_one env path i w = (w1, Inr (saved, d))" by (metis prod.collapse)
    let ?f = "\<lparr>file_path = path, file_sha256 = d, file_saved = saved\<rparr>"
    let ?r = "r\<lparr>saved_bytes := saved_bytes r + saved, receipt_files := receipt_files r @ [?f]\<rparr>"
    note put = compact_one_in_place[OF one Cons.prems(2)]
    note P = put_idle[OF Cons.prems(1) put]
    from Cons.prems(3) one have "apply_plan env plan w1 ?r = (w', r', e)" by simp
    from Cons.IH[OF one[symmetric] refl refl Cons.prems(1,2) this] Cons.prems(4) obtain fs where
      IH: "readable w' = readable w1" "complete r' = (e = None)" "eligible_bytes r' = eligible_bytes r"
        "\<forall>p. p \<notin> set (map fst plan) \<longrightarrow> w' p = w1 p" "receipt_files r' = receipt_files ?r @ fs"
        "saved_bytes r' = saved_bytes ?r + sum_list (map file_saved fs)" "e = None \<longrightarrow> length fs = length plan"
        "receipts_exact env w1 w' plan fs" by auto
    have "receipts_exact env w w' ((path, i) # plan) (?f # fs)"
      by (rule receipts_exact_Cons[OF put Cons.prems(1) IH(8)]) (use IH(4) in blast)
    moreover have "\<forall>p. p \<notin> set (map fst ((path, i) # plan)) \<longrightarrow> w' p = w p" using IH(4) P(4) by simp
    ultimately show ?thesis using IH P(1) by (intro conjI exI[of _ "?f # fs"]) simp_all
  qed
qed

text \<open>
  C30. In an idle tree, compaction is lossless: whether or not it ends early, every file still has its bytes, size,
  mode, owner and modification time (its inode, change time, flags and allocation do change), no file appears or
  disappears, and files outside the plan are not touched at all. The receipt lists the files of a prefix of the plan
  in order, each with the hash of its bytes and, where the plan names no path twice, the allocated bytes that its copy
  saves against the scan; a file that saves nothing is left as it was. The total saved is their sum. The receipt is
  complete exactly when there was no error, and then it lists the whole plan.
\<close>

theorem compaction_lossless:
  assumes "idle env" and "inj (digest env)" and "compact env plan w = (w', r, e)"
  shows "readable w' = readable w \<and> (\<forall>p. p \<notin> set (map fst plan) \<longrightarrow> w' p = w p) \<and>
    (complete r \<longleftrightarrow> e = None) \<and> eligible_bytes r = eligible_total plan \<and>
    saved_bytes r = sum_list (map file_saved (receipt_files r)) \<and> length (receipt_files r) \<le> length plan \<and>
    (complete r \<longrightarrow> length (receipt_files r) = length plan) \<and>
    (\<forall>k<length (receipt_files r). file_path (receipt_files r ! k) = fst (plan ! k) \<and>
       (\<exists>c. readable w (fst (plan ! k)) = Some c \<and> file_sha256 (receipt_files r ! k) = digest env (fst c)) \<and>
       (distinct (map fst plan) \<longrightarrow>
          (if file_saved (receipt_files r ! k) = 0 then w' (fst (plan ! k)) = w (fst (plan ! k))
           else \<exists>c. map_option fst (w' (fst (plan ! k))) = Some c \<and>
             allocated c + file_saved (receipt_files r ! k) = allocated (snd (plan ! k)))))"
proof -
  from apply_plan_idle[OF assms(1,2) assms(3)[unfolded compact_def]]
  have facts: "readable w' = readable w" "\<forall>p. p \<notin> set (map fst plan) \<longrightarrow> w' p = w p" "complete r = (e = None)"
    "eligible_bytes r = eligible_total plan" "saved_bytes r = sum_list (map file_saved (receipt_files r))"
    "e = None \<longrightarrow> length (receipt_files r) = length plan" "receipts_exact env w w' plan (receipt_files r)"
    by auto
  then show ?thesis unfolding receipts_exact_def smaller_copy_def by (intro conjI) blast+
qed

theorem compaction_lossless_witness:
  "case compact demo_env [([''a'', ''b.log''], demo_stat)] demo_tree of (w', r, e) \<Rightarrow>
     readable w' [''a'', ''b.log''] = readable demo_tree [''a'', ''b.log''] \<and> saved_bytes r = sum_list (map file_saved (receipt_files r)) \<and>
     file_path (receipt_files r ! 0) = [''a'', ''b.log''] \<and>
     (file_saved (receipt_files r ! 0) = 0 \<or>
      (\<exists>c. map_option fst (w' [''a'', ''b.log'']) = Some c \<and> allocated c + file_saved (receipt_files r ! 0) = 1536))"
proof -
  obtain w' r e where c: "compact demo_env [([''a'', ''b.log''], demo_stat)] demo_tree = (w', r, e)" by (metis prod_cases3)
  then have "complete r" by (auto simp: compact_def demo_compacts)
  moreover have "idle demo_env" by (simp add: idle_def demo_env_def)
  moreover have "allocated demo_stat = 1536" by (simp add: allocated_def demo_stat_def)
  ultimately show ?thesis using compaction_lossless[OF _ demo_injective c] c by (auto split: if_splits)
qed

section \<open>Candidates\<close>

text \<open>A file below directories that the walk enters.\<close>

inductive file_in :: "bool \<Rightarrow> directory \<Rightarrow> string list \<Rightarrow> string \<Rightarrow> stat \<Rightarrow> bool" where
  here: "(name, i) \<in> set es \<Longrightarrow> file_in at_root (Directory ds es) [] name i"
| below: "(n, link, d) \<in> set ds \<Longrightarrow> entered at_root n link \<Longrightarrow> file_in False d path name i \<Longrightarrow>
    file_in at_root (Directory ds es) (n # path) name i"

lemma walk_tree_file: "(path, name, i) \<in> set (walk_tree at_root d) \<longleftrightarrow> file_in at_root d path name i"
proof
  show "(path, name, i) \<in> set (walk_tree at_root d) \<Longrightarrow> file_in at_root d path name i"
    by (induction at_root d arbitrary: path rule: walk_tree.induct) (auto split: if_splits intro: file_in.intros)
next
  show "file_in at_root d path name i \<Longrightarrow> (path, name, i) \<in> set (walk_tree at_root d)"
    by (induction rule: file_in.induct) force+
qed

text \<open>
  The candidates are exactly the eligible files below directories that are neither hidden nor links nor,
  at the root, profiles: generated text of one link, owned by the user, old, large and not yet compressed. They
  come in descending order of allocated bytes.
\<close>

theorem candidates_exact:
  assumes "candidates old user minimum root_link root_name root = Inr plan"
  shows "\<exists>d. root = Some d \<and> \<not> root_link \<and> root_name = ''_build'' \<and>
    (\<forall>p i. (p, i) \<in> set plan \<longleftrightarrow> (\<exists>path name. p = path @ [name] \<and> file_in True d path name i \<and> eligible old user minimum name i)) \<and>
    sorted_wrt (\<lambda>a b. allocated (snd a) \<ge> allocated (snd b)) plan"
proof -
  from assms obtain d where d: "root = Some d" "\<not> root_link" "root_name = ''_build''"
    and plan: "plan = rev (sort_key (\<lambda>(_, i). allocated i) (rev (map (\<lambda>(path, n, i). (path @ [n], i))
          (filter (\<lambda>(_, n, i). eligible old user minimum n i) (walk_tree True d)))))"
    by (auto simp: candidates_def split: if_splits option.splits)
  have "(p, i) \<in> set plan \<longleftrightarrow> (\<exists>path name. p = path @ [name] \<and> file_in True d path name i \<and> eligible old user minimum name i)" for p i
    unfolding plan walk_tree_file[symmetric] by (auto simp: image_iff)
  moreover have "sorted_wrt (\<lambda>a b. allocated (snd a) \<ge> allocated (snd b)) plan"
  proof -
    have "sorted (map (\<lambda>(_, i). allocated i) (rev plan))" unfolding plan by simp
    then show ?thesis by (simp add: sorted_wrt_rev sorted_wrt_map case_prod_unfold)
  qed
  ultimately show ?thesis using d by blast
qed

theorem candidates_exact_witness:
  "case candidates (\<lambda>_. True) 7 1 False ''_build'' (Some (Directory [(''test'', False, Directory [] [(''x.log'', demo_stat)]),
      (''out'', False, Directory [] [(''b.log'', demo_stat)])] [(''.c.v'', demo_stat)])) of
     Inl _ \<Rightarrow> False | Inr plan \<Rightarrow> plan = [([''out'', ''b.log''], demo_stat)] \<and>
     sorted_wrt (\<lambda>a b. allocated (snd a) \<ge> allocated (snd b)) plan"
proof -
  have c: "candidates (\<lambda>_. True) 7 1 False ''_build'' (Some (Directory [(''test'', False, Directory [] [(''x.log'', demo_stat)]),
      (''out'', False, Directory [] [(''b.log'', demo_stat)])] [(''.c.v'', demo_stat)])) = Inr [([''out'', ''b.log''], demo_stat)]"
    by (simp add: candidates_def eligible_def entered_def suffix_def suffixes_def hidden_def profiles_def demo_stat_def regular_def
        allocated_def compressed_def Let_def)
  from candidates_exact[OF c] show ?thesis unfolding c by simp
qed

end
