(* ===== verification/Ci_Diagnostics.thy ===== *)
theory Ci_Diagnostics
  imports Prelude
begin

text \<open>
  The bounded bundle of CI diagnostics (\<open>tools/ci_diagnostics.py\<close>): which files come first, and what of each is
  kept. A file is what the tool reads of it while the workflow is over and nothing writes any more. Decoding
  JSON, joining a name to a log directory and resolving a path below the root are arguments; the first fails with
  \<open>None\<close> where the code catches an exception.
\<close>

definition file_bytes :: int where "file_bytes = 256 * 1024"
definition total_bytes :: int where "total_bytes = 4 * 1024 * 1024"
definition file_count :: nat where "file_count = 256"

definition netlists :: "string list" where
  "netlists = [''flat.json'', ''hierarchy.json'', ''instrumented.json'']"

record diagnostic =
  diag_path :: string
  diag_name :: string
  diag_suffix :: string
  diag_resolved :: string
  diag_bytes :: string

record outside =
  decode :: "string \<Rightarrow> json option"
  join_path :: "string \<Rightarrow> string \<Rightarrow> string"
  resolve_path :: "string \<Rightarrow> string option"

definition diag_size :: "diagnostic \<Rightarrow> int" where
  "diag_size f = int (length (diag_bytes f))"

section \<open>Priorities\<close>

text \<open>\<open>record\<close>: the object in a file, empty when it is too long or none, and the budget that is left.\<close>

definition read_record :: "outside \<Rightarrow> int \<Rightarrow> diagnostic \<Rightarrow> (string, json) dict \<times> int" where
  "read_record env remaining f =
     (if diag_size f > min file_bytes remaining then ([], remaining)
      else (case decode env (diag_bytes f) of Some (JObj kvs) \<Rightarrow> kvs | _ \<Rightarrow> [], remaining - diag_size f))"

definition matched :: "outside \<Rightarrow> diagnostic list \<Rightarrow> json option \<Rightarrow> diagnostic option" where
  "matched env files v = (case v of
       Some (JStr s) \<Rightarrow> (case resolve_path env s of None \<Rightarrow> None | Some p \<Rightarrow> find (\<lambda>f. diag_resolved f = p) files)
     | _ \<Rightarrow> None)"

definition failed_step :: "json list \<Rightarrow> (string, json) dict" where
  "failed_step steps = (case find (\<lambda>s. case s of
         JObj kvs \<Rightarrow> map_of kvs ''status'' = Some (JStr ''failed'') \<or> map_of kvs ''status'' = Some (JStr ''running'') | _ \<Rightarrow> False)
       (rev steps) of Some (JObj kvs) \<Rightarrow> kvs | _ \<Rightarrow> [])"

definition evidence_names :: "string list" where
  "evidence_names = [''stderr.log'', ''command.json'', ''time.json'', ''stdout.log'']"

definition prioritize :: "nat \<Rightarrow> diagnostic option \<Rightarrow> (string, nat) dict \<Rightarrow> (string, nat) dict" where
  "prioritize p f d = (case f of None \<Rightarrow> d | Some x \<Rightarrow> AList.update (diag_path x) p d)"

definition receipt_evidence ::
  "outside \<Rightarrow> diagnostic list \<Rightarrow> (string, nat) dict \<times> int \<Rightarrow> diagnostic \<Rightarrow> (string, nat) dict \<times> int" where
  "receipt_evidence env files st receipt = (let (priorities, budget) = st; (metadata, rest) = read_record env budget receipt in
     if map_of metadata ''status'' \<noteq> Some (JStr ''failed'') then (priorities, rest)
     else (let marked = AList.update (diag_path receipt) 0 priorities in
       case map_of metadata ''steps'' of
         Some (JArr steps) \<Rightarrow>
           (let failed = failed_step steps in
            case map_of failed ''log'' of
              Some (JStr log) \<Rightarrow>
                (let evidence = fold (\<lambda>n. prioritize 1 (matched env files (Some (JStr (join_path env log n))))) evidence_names marked;
                     (stdout, rest') = (case matched env files (Some (JStr (join_path env log ''command.json''))) of
                        None \<Rightarrow> (map_of failed ''stdout'', rest)
                      | Some c \<Rightarrow> (let (command, r) = read_record env rest c in (map_of command ''stdout'', r))) in
                 (prioritize 1 (matched env files stdout) evidence, rest'))
            | _ \<Rightarrow> (marked, rest))
       | _ \<Rightarrow> (marked, rest)))"

text \<open>Sorting by tuples, the first component first.\<close>

definition by_size :: "diagnostic list \<Rightarrow> diagnostic list" where
  "by_size fs = sort_key diag_size (sort_key diag_path fs)"

definition regression_priorities :: "outside \<Rightarrow> diagnostic list \<Rightarrow> (string, nat) dict \<times> int" where
  "regression_priorities env files = (let receipts = filter (\<lambda>f. diag_name f = ''regression.json'') files in
     foldl (receipt_evidence env files) (map (\<lambda>f. (diag_path f, 2)) receipts, total_bytes) (by_size receipts))"

section \<open>The bundle\<close>

datatype outcome = Omitted string | Retained int bool

record item =
  item_path :: string
  item_bytes :: int
  item_outcome :: outcome

record diag_report =
  payload_bytes :: int
  matched_files :: nat
  unlisted_files :: nat
  items :: "item list"
  archive :: "(string \<times> string) list"

definition add_item :: "diag_report \<Rightarrow> item \<Rightarrow> diag_report" where
  "add_item b i = b\<lparr>items := items b @ [i]\<rparr>"

definition add_file :: "diag_report \<Rightarrow> diagnostic \<Rightarrow> diag_report" where
  "add_file b f = (let n = diag_size f; kept = min n file_bytes;
       omit = (\<lambda>why. add_item b \<lparr>item_path = diag_path f, item_bytes = n, item_outcome = Omitted why\<rparr>) in
     if diag_name f \<in> set netlists then omit ''generated netlist''
     else if n > file_bytes \<and> diag_suffix f \<noteq> ''.log'' then omit ''file limit''
     else if payload_bytes b + kept > total_bytes then omit ''bundle limit''
     else (let data = drop (nat (n - kept)) (diag_bytes f) in
       (add_item b \<lparr>item_path = diag_path f, item_bytes = n, item_outcome = Retained (int (length data)) (kept < n)\<rparr>)
         \<lparr>payload_bytes := payload_bytes b + int (length data), archive := archive b @ [(diag_path f, data)]\<rparr>))"

definition priority_of :: "(string, nat) dict \<Rightarrow> diagnostic \<Rightarrow> nat" where
  "priority_of d f = (case map_of d (diag_path f) of None \<Rightarrow> 3 | Some p \<Rightarrow> p)"

definition ordered :: "outside \<Rightarrow> diagnostic list \<Rightarrow> diagnostic list" where
  "ordered env files = sort_key (priority_of (fst (regression_priorities env files))) (by_size files)"

text \<open>A match of the workflow's patterns, with the tests that admit it.\<close>

record glob_match =
  match_file :: diagnostic
  match_regular :: bool
  match_link :: bool
  match_inside :: bool

definition admitted :: "string \<Rightarrow> glob_match list \<Rightarrow> diagnostic list" where
  "admitted out ms = map snd (dict_of diag_path (map match_file (filter (\<lambda>m.
     match_regular m \<and> \<not> match_link m \<and> match_inside m \<and> diag_resolved (match_file m) \<noteq> out) ms)))"

definition collect :: "outside \<Rightarrow> string \<Rightarrow> glob_match list \<Rightarrow> diag_report" where
  "collect env out ms = (let fs = ordered env (admitted out ms) in
     foldl add_file \<lparr>payload_bytes = 0, matched_files = length fs, unlisted_files = length fs - file_count, items = [], archive = []\<rparr>
       (take file_count fs))"

section \<open>Bounds\<close>

definition within :: "diag_report \<Rightarrow> bool" where
  "within b \<longleftrightarrow> 0 \<le> payload_bytes b \<and> payload_bytes b \<le> total_bytes \<and>
     payload_bytes b = int (sum_list (map (\<lambda>(_, data). length data) (archive b)))"

lemma add_file_within: "within b \<Longrightarrow> within (add_file b f)"
  by (auto simp: within_def add_file_def add_item_def Let_def diag_size_def file_bytes_def min_def)

lemma add_file_items:
  "\<exists>outcome. items (add_file b f) = items b @ [\<lparr>item_path = diag_path f, item_bytes = diag_size f, item_outcome = outcome\<rparr>]"
  by (auto simp: add_file_def add_item_def Let_def)

text \<open>What may be kept of a file: all of it, or the last bytes of a log.\<close>

definition kept_of :: "diagnostic \<Rightarrow> string \<times> string \<Rightarrow> bool" where
  "kept_of f e \<longleftrightarrow> fst e = diag_path f \<and> Sublist.suffix (snd e) (diag_bytes f) \<and> int (length (snd e)) = min (diag_size f) file_bytes \<and>
     (snd e = diag_bytes f \<or> diag_suffix f = ''.log'') \<and> diag_name f \<notin> set netlists"

lemma add_file_archive:
  "archive (add_file b f) = archive b \<or> (\<exists>e. archive (add_file b f) = archive b @ [e] \<and> kept_of f e)"
proof (cases "archive (add_file b f) = archive b")
  case False
  let ?data = "drop (nat (diag_size f - min (diag_size f) file_bytes)) (diag_bytes f)"
  from False have "archive (add_file b f) = archive b @ [(diag_path f, ?data)]"
    and c: "diag_name f \<notin> set netlists" "diag_size f \<le> file_bytes \<or> diag_suffix f = ''.log''"
    by (auto simp: add_file_def add_item_def Let_def split: if_splits)
  moreover have "kept_of f (diag_path f, ?data)"
    using c by (auto simp: kept_of_def suffix_drop diag_size_def file_bytes_def min_def)
  ultimately show ?thesis by blast
qed simp

text \<open>The whole bundle.\<close>

lemma fold_within: "within b \<Longrightarrow> within (foldl add_file b fs)"
  by (induction fs arbitrary: b) (simp_all add: add_file_within)

lemma fold_items: "map item_path (items (foldl add_file b fs)) = map item_path (items b) @ map diag_path fs"
proof (induction fs arbitrary: b)
  case (Cons f fs)
  from add_file_items[of b f] Cons show ?case by auto
qed simp

lemma fold_archive: "\<exists>es. archive (foldl add_file b fs) = archive b @ es \<and> (\<forall>e\<in>set es. \<exists>f\<in>set fs. kept_of f e) \<and> length es \<le> length fs"
proof (induction fs arbitrary: b)
  case (Cons f fs)
  from Cons[of "add_file b f"] obtain es where es: "archive (foldl add_file b (f # fs)) = archive (add_file b f) @ es"
    "\<forall>e\<in>set es. \<exists>f\<in>set fs. kept_of f e" "length es \<le> length fs" by auto
  from add_file_archive[of b f] show ?case
  proof
    assume "archive (add_file b f) = archive b"
    with es show ?thesis by (intro exI[of _ es]) auto
  next
    assume "\<exists>e. archive (add_file b f) = archive b @ [e] \<and> kept_of f e"
    then obtain e where "archive (add_file b f) = archive b @ [e]" "kept_of f e" by blast
    with es show ?thesis by (intro exI[of _ "e # es"]) auto
  qed
qed (auto intro: exI[of _ "[]"])

lemma fold_counts: "matched_files (foldl add_file b fs) = matched_files b \<and> unlisted_files (foldl add_file b fs) = unlisted_files b"
proof (induction fs arbitrary: b)
  case (Cons f fs)
  have "matched_files (add_file b f) = matched_files b" "unlisted_files (add_file b f) = unlisted_files b"
    by (simp_all add: add_file_def add_item_def Let_def)
  with Cons show ?case by simp
qed simp

lemma set_by_size [simp]: "set (by_size fs) = set fs"
  by (simp add: by_size_def)

lemma set_ordered [simp]: "set (ordered env fs) = set fs" "length (ordered env fs) = length fs"
  by (simp_all add: ordered_def by_size_def)

lemma ordered_sorted: "sorted (map (priority_of (fst (regression_priorities env fs))) (ordered env fs))"
  by (simp add: ordered_def)

lemma admitted_matches: "f \<in> set (admitted out ms) \<Longrightarrow>
    \<exists>m\<in>set ms. match_file m = f \<and> match_regular m \<and> \<not> match_link m \<and> match_inside m \<and> diag_resolved f \<noteq> out"
proof -
  assume f: "f \<in> set (admitted out ms)"
  have "set (map snd (fold (\<lambda>x d. AList.update (diag_path x) x d) xs d)) \<subseteq> set xs \<union> set (map snd d)" for xs and d :: "(string, diagnostic) dict"
  proof (induction xs arbitrary: d)
    case (Cons x xs)
    have "set (map snd (AList.update (diag_path x) x d)) \<subseteq> insert x (set (map snd d))" by (induction d) auto
    with Cons[of "AList.update (diag_path x) x d"] show ?case by auto
  qed simp
  from this[of _ "[]"] f show ?thesis by (fastforce simp: admitted_def dict_of_def)
qed

section \<open>Metadata budget\<close>

lemma read_record_budget: "0 \<le> r \<Longrightarrow> 0 \<le> snd (read_record env r f) \<and> snd (read_record env r f) \<le> r"
  by (auto simp: read_record_def diag_size_def min_def)

lemma receipt_evidence_budget:
  assumes "0 \<le> snd st"
  shows "0 \<le> snd (receipt_evidence env files st f) \<and> snd (receipt_evidence env files st f) \<le> snd st"
proof -
  obtain d r where st: "st = (d, r)" by (cases st)
  note one = read_record_budget[of r env f]
  have "0 \<le> snd (read_record env (snd (read_record env r f)) c) \<and> snd (read_record env (snd (read_record env r f)) c) \<le> r" for c
    using one read_record_budget[of "snd (read_record env r f)" env c] assms st by simp
  with one assms show ?thesis
    by (simp add: receipt_evidence_def st Let_def split_beta split: option.split json.split)
qed

lemma fold_budget:
  "0 \<le> snd st \<Longrightarrow> 0 \<le> snd (foldl (receipt_evidence env files) st fs) \<and> snd (foldl (receipt_evidence env files) st fs) \<le> snd st"
proof (induction fs arbitrary: st)
  case (Cons f fs)
  from receipt_evidence_budget[OF Cons.prems, of env files f] Cons.IH[of "receipt_evidence env files st f"] show ?case by simp
qed simp

end
