(* ===== verification/Ci_Properties.thy ===== *)
theory Ci_Properties
  imports Ci_Diagnostics
begin

text \<open>The property of the diagnostics bundle, with two files of one failed regression.\<close>

text \<open>
  C29. A bundle stays within its limits whatever the workflow matched: at most 4 MiB of payload, which is the sum of
  what is archived, and at most 256 listed files, the first ones by priority, with the number of those left out.
  Every archived file was admitted (a regular file inside the root, no link, not the bundle itself) and is no
  netlist; it is kept whole, or is a log of which exactly the last 256 KiB are kept. Reading receipts for the
  priorities never exceeds its own budget.
\<close>

theorem diagnostics_bounded:
  "0 \<le> payload_bytes (collect env out ms) \<and> payload_bytes (collect env out ms) \<le> 4194304 \<and>
   payload_bytes (collect env out ms) = int (sum_list (map (\<lambda>(_, data). length data) (archive (collect env out ms)))) \<and>
   map item_path (items (collect env out ms)) = map diag_path (take 256 (ordered env (admitted out ms))) \<and>
   sorted (map (priority_of (fst (regression_priorities env (admitted out ms)))) (ordered env (admitted out ms))) \<and>
   matched_files (collect env out ms) = length (admitted out ms) \<and>
   unlisted_files (collect env out ms) = length (admitted out ms) - 256 \<and>
   length (archive (collect env out ms)) \<le> 256 \<and>
   (\<forall>e\<in>set (archive (collect env out ms)). \<exists>m\<in>set ms. match_regular m \<and> \<not> match_link m \<and> match_inside m \<and>
      diag_resolved (match_file m) \<noteq> out \<and> kept_of (match_file m) e) \<and>
   (0 \<le> snd (regression_priorities env (admitted out ms)) \<and> snd (regression_priorities env (admitted out ms)) \<le> 4194304)"
proof -
  let ?fs = "ordered env (admitted out ms)"
  let ?b = "\<lparr>payload_bytes = 0, matched_files = length ?fs, unlisted_files = length ?fs - file_count, items = [], archive = []\<rparr>"
  have c: "collect env out ms = foldl add_file ?b (take 256 ?fs)" by (simp add: collect_def Let_def file_count_def)
  have "within ?b" by (simp add: within_def total_bytes_def)
  from fold_within[OF this, of "take 256 ?fs"] have w: "within (collect env out ms)" by (simp add: c)
  obtain es where es: "archive (collect env out ms) = es" "\<forall>e\<in>set es. \<exists>f\<in>set (take 256 ?fs). kept_of f e" "length es \<le> 256"
    using fold_archive[of ?b "take 256 ?fs"] by (auto simp: c)
  have kept: "\<exists>m\<in>set ms. match_regular m \<and> \<not> match_link m \<and> match_inside m \<and>
      diag_resolved (match_file m) \<noteq> out \<and> kept_of (match_file m) e" if "e \<in> set (archive (collect env out ms))" for e
  proof -
    from that es obtain f where "f \<in> set (take 256 ?fs)" "kept_of f e" by blast
    then have "f \<in> set (admitted out ms)" "kept_of f e" by (auto dest: in_set_takeD)
    then show ?thesis using admitted_matches[of f out ms] by auto
  qed
  have budget: "0 \<le> snd (regression_priorities env (admitted out ms)) \<and> snd (regression_priorities env (admitted out ms)) \<le> 4194304"
    unfolding regression_priorities_def Let_def using fold_budget[of "(_, total_bytes)"] by (simp add: total_bytes_def)
  have "map item_path (items (collect env out ms)) = map diag_path (take 256 ?fs)" by (simp add: c fold_items)
  moreover have "matched_files (collect env out ms) = length (admitted out ms)" "unlisted_files (collect env out ms) = length (admitted out ms) - 256"
    by (simp_all add: c fold_counts file_count_def)
  ultimately show ?thesis
    using w kept budget es ordered_sorted[of env "admitted out ms"] by (simp add: within_def total_bytes_def)
qed

definition demo_log :: diagnostic where
  "demo_log = \<lparr>diag_path = ''out/stderr.log'', diag_name = ''stderr.log'', diag_suffix = ''.log'', diag_resolved = ''out/stderr.log'',
     diag_bytes = ''boom''\<rparr>"

definition demo_receipt :: diagnostic where
  "demo_receipt = \<lparr>diag_path = ''regression.json'', diag_name = ''regression.json'', diag_suffix = ''.json'',
     diag_resolved = ''regression.json'', diag_bytes = ''{ }''\<rparr>"

definition demo_outside :: outside where
  "demo_outside = \<lparr>decode = (\<lambda>s. if s = ''{ }'' then Some (JObj [(''status'', JStr ''failed''),
       (''steps'', JArr [JObj [(''status'', JStr ''failed''), (''log'', JStr ''out'')]])]) else None),
     join_path = (\<lambda>a b. a @ ''/'' @ b), resolve_path = Some\<rparr>"

definition demo_matches :: "glob_match list" where
  "demo_matches = map (\<lambda>f. \<lparr>match_file = f, match_regular = True, match_link = False, match_inside = True\<rparr>) [demo_log, demo_receipt]"

theorem diagnostics_bounded_witness:
  "map item_path (items (collect demo_outside ''b.zip'' demo_matches)) = [''regression.json'', ''out/stderr.log''] \<and>
   (\<exists>m\<in>set demo_matches. match_regular m \<and> kept_of (match_file m) (''out/stderr.log'', ''boom''))"
proof -
  have o: "ordered demo_outside (admitted ''b.zip'' demo_matches) = [demo_receipt, demo_log]"
    by (simp add: demo_matches_def demo_log_def demo_receipt_def demo_outside_def admitted_def dict_of_def ordered_def by_size_def
        regression_priorities_def receipt_evidence_def read_record_def matched_def failed_step_def evidence_names_def prioritize_def
        priority_of_def diag_size_def file_bytes_def total_bytes_def Let_def)
  have a: "archive (collect demo_outside ''b.zip'' demo_matches) = [(''regression.json'', ''{ }''), (''out/stderr.log'', ''boom'')]"
    by (simp add: collect_def o add_file_def add_item_def netlists_def file_bytes_def total_bytes_def file_count_def diag_size_def
        demo_log_def demo_receipt_def Let_def)
  show ?thesis
    using diagnostics_bounded[of demo_outside "''b.zip''" demo_matches] unfolding o a by (auto simp: demo_log_def demo_receipt_def)
qed

end
