(* ===== verification/Contract_Check.thy ===== *)
theory Contract_Check
  imports Dslx_Reader
begin

text \<open>
  The source contract gate (\<open>tools/check_source_contracts.py\<close>): the audited inventory, the identity of a gap and
  the comparison with the gaps of a base revision. \<open>fnmatchcase\<close>, the Erlang scanner, digests, the text of a
  file and the trees that Git lists are arguments.
\<close>

section \<open>Rows of the audit\<close>

record audit_row =
  row_path :: string
  row_line :: nat
  row_id :: string
  row_rule :: string
  row_fingerprint :: string
  row_reason :: "string option"
  row_module :: "string option"

text \<open>What the Erlang scanner prints for one file.\<close>

record erlang_file =
  erl_path :: string
  erl_module :: "string option"
  erl_line :: nat
  erl_gaps :: "audit_row list"

definition dslx_row :: "finding \<Rightarrow> audit_row" where
  "dslx_row f = (case f of
      Gap p l i r fp \<Rightarrow> \<lparr>row_path = p, row_line = l, row_id = i, row_rule = r, row_fingerprint = fp, row_reason = None, row_module = None\<rparr>
    | Parse_Failure p l why \<Rightarrow> \<lparr>row_path = p, row_line = l, row_id = ''source'', row_rule = ''parse'', row_fingerprint = [],
        row_reason = Some why, row_module = None\<rparr>)"

definition modules_named :: "erlang_file list \<Rightarrow> string \<Rightarrow> nat" where
  "modules_named files m = length (filter (\<lambda>f. erl_module f = Some m) files)"

definition duplicate_row :: "(string \<Rightarrow> string) \<Rightarrow> erlang_file \<Rightarrow> string \<Rightarrow> audit_row" where
  "duplicate_row sha f m = \<lparr>row_path = erl_path f, row_line = erl_line f, row_id = ''module:'' @ m, row_rule = ''module_identity'',
     row_fingerprint = sha m, row_reason = Some (''duplicate Erlang module '' @ m @ ''; source identity is ambiguous''), row_module = None\<rparr>"

definition file_rows :: "(string \<Rightarrow> string) \<Rightarrow> erlang_file list \<Rightarrow> erlang_file \<Rightarrow> audit_row list" where
  "file_rows sha files f = (case erl_module f of
      None \<Rightarrow> erl_gaps f
    | Some m \<Rightarrow>
        (if modules_named files m = 1 then map (\<lambda>g. g\<lparr>row_module := Some m\<rparr>) (erl_gaps f) else erl_gaps f) @
        (if modules_named files m > 1 then [duplicate_row sha f m] else []))"

definition erlang_findings :: "(string \<Rightarrow> string) \<Rightarrow> erlang_file list \<Rightarrow> audit_row list" where
  "erlang_findings sha files = concat (map (file_rows sha files) files)"

section \<open>The inventory\<close>

record rules =
  glob :: "string \<Rightarrow> string \<Rightarrow> bool"
  include_patterns :: "string list"
  exclude_patterns :: "string list"

definition has_ending :: "string list \<Rightarrow> string \<Rightarrow> bool" where
  "has_ending es p \<longleftrightarrow> list_ex (\<lambda>e. suffix e p) es"

definition selected :: "rules \<Rightarrow> string list \<Rightarrow> string list" where
  "selected rs ps = sort (uniq (filter (\<lambda>p. has_ending [''.erl'', ''.hrl'', ''.x''] p \<and>
     list_ex (glob rs p) (include_patterns rs) \<and> \<not> list_ex (glob rs p) (exclude_patterns rs)) ps))"

text \<open>A tree: the texts of its files and the Erlang scanner on some of them.\<close>

record tree =
  texts :: "string \<Rightarrow> string"
  scan_erlang :: "string list \<Rightarrow> erlang_file list"

record hashes =
  hash_text :: "string \<Rightarrow> string"
  hash_tokens :: "string list \<Rightarrow> string"

definition tree_findings :: "hashes \<Rightarrow> tree \<Rightarrow> string list \<Rightarrow> audit_row list" where
  "tree_findings h t ps = (let erlang = filter (has_ending [''.erl'', ''.hrl'']) ps in
     (if erlang = [] then [] else erlang_findings (hash_text h) (scan_erlang t erlang)) @
     map dslx_row (findings (hash_tokens h) (texts t) (filter (has_ending [''.x'']) ps)))"

section \<open>Comparison\<close>

datatype owner = Module string | Path string

definition gap_key :: "audit_row \<Rightarrow> owner \<times> string \<times> string" where
  "gap_key r = ((case row_module r of Some m \<Rightarrow> Module m | None \<Rightarrow> Path (row_path r)), row_id r, row_rule r)"

definition regressions :: "audit_row list \<Rightarrow> audit_row list \<Rightarrow> audit_row list" where
  "regressions gaps prior = filter (\<lambda>r. row_rule r \<in> {''parse'', ''module_identity''} \<or>
     \<not> list_ex (\<lambda>p. gap_key p = gap_key r \<and> row_fingerprint p = row_fingerprint r) prior) gaps"

text \<open>\<open>main\<close>: the tracked and base names, the paths of the command line already resolved, and the verdict.\<close>

record audit =
  audit_files :: nat
  audit_gaps :: "audit_row list"
  audit_new :: "audit_row list"

definition baseline :: "hashes \<Rightarrow> rules \<Rightarrow> tree \<Rightarrow> string list \<Rightarrow> audit_row list" where
  "baseline h rs t names = (let ps = selected rs names in if ps = [] then [] else tree_findings h t ps)"

definition run_audit ::
  "hashes \<Rightarrow> rules \<Rightarrow> tree \<Rightarrow> string list \<Rightarrow> (string \<Rightarrow> bool) \<Rightarrow> string list \<Rightarrow> bool \<Rightarrow> tree \<Rightarrow> string list \<Rightarrow> audit" where
  "run_audit h rs current tracked is_file args strict base base_names =
     (let inventory = filter is_file (selected rs tracked);
          ps = (if uniq args = [] then inventory else uniq args);
          rows = tree_findings h current (sort (uniq (inventory @ ps)));
          gaps = filter (\<lambda>r. row_path r \<in> set ps \<or> row_rule r = ''module_identity'') rows;
          prior = (if strict then [] else baseline h rs base base_names) in
      \<lparr>audit_files = length ps, audit_gaps = gaps, audit_new = regressions gaps prior\<rparr>)"

definition audit_status :: "audit \<Rightarrow> int" where
  "audit_status a = (if audit_new a = [] then 0 else 1)"

section \<open>Debt that may stay\<close>

lemma regressions_iff:
  "r \<in> set (regressions gaps prior) \<longleftrightarrow> r \<in> set gaps \<and> (row_rule r \<in> {''parse'', ''module_identity''} \<or>
     (\<forall>p\<in>set prior. gap_key p = gap_key r \<longrightarrow> row_fingerprint p \<noteq> row_fingerprint r))"
  by (auto simp: regressions_def list_ex_iff)

text \<open>The same declarations somewhere else: a file with another path and other lines.\<close>

definition moved_gap :: "audit_row \<Rightarrow> audit_row \<Rightarrow> bool" where
  "moved_gap g g' \<longleftrightarrow> row_id g = row_id g' \<and> row_rule g = row_rule g' \<and> row_fingerprint g = row_fingerprint g'"

definition moved :: "erlang_file \<Rightarrow> erlang_file \<Rightarrow> bool" where
  "moved f f' \<longleftrightarrow> erl_module f = erl_module f' \<and> list_all2 moved_gap (erl_gaps f) (erl_gaps f')"

lemma modules_named_unique:
  assumes "distinct (map erl_module files)" and "f \<in> set files" and "erl_module f = Some m"
  shows "modules_named files m = 1"
  using assms by (induction files) (force simp: modules_named_def filter_empty_conv image_iff)+

lemma file_rows_unique:
  assumes "distinct (map erl_module files)" and "f \<in> set files" and "erl_module f = Some m"
  shows "file_rows sha files f = map (\<lambda>g. g\<lparr>row_module := Some m\<rparr>) (erl_gaps f)"
  using modules_named_unique[OF assms] assms(3) by (simp add: file_rows_def)

lemma moved_rows:
  assumes "moved f f'" and "erl_module f = Some m" and "g' \<in> set (erl_gaps f')"
  shows "\<exists>g\<in>set (erl_gaps f). gap_key (g\<lparr>row_module := Some m\<rparr>) = gap_key (g'\<lparr>row_module := Some m\<rparr>) \<and>
    row_fingerprint g = row_fingerprint g'"
proof -
  from assms(1,3) obtain i where i: "i < length (erl_gaps f')" "g' = erl_gaps f' ! i" "length (erl_gaps f) = length (erl_gaps f')"
    by (auto simp: moved_def list_all2_lengthD in_set_conv_nth)
  with assms(1) have "moved_gap (erl_gaps f ! i) g'" by (simp add: moved_def list_all2_nthD)
  moreover from i have "erl_gaps f ! i \<in> set (erl_gaps f)" by simp
  ultimately show ?thesis by (intro bexI[of _ "erl_gaps f ! i"]) (simp_all add: gap_key_def moved_gap_def)
qed

lemma duplicate_found:
  assumes "f \<in> set files" and "erl_module f = Some m" and "modules_named files m > 1"
  shows "duplicate_row sha f m \<in> set (erlang_findings sha files)"
  using assms by (force simp: erlang_findings_def file_rows_def)

end
