(* ===== verification/Contract_Properties.thy ===== *)
theory Contract_Properties
  imports Contract_Check
begin

text \<open>The properties of the source contract gate.\<close>

text \<open>
  Moving modules is free: when every module name is unique in both trees and every current file is a file of
  the base with another path, other lines or another place in the order, but the same declarations, then the
  gate reports nothing beyond unreadable files.
\<close>

theorem moved_debt_accepted:
  assumes "distinct (map erl_module current)" and "distinct (map erl_module base)" and "\<forall>f\<in>set current. erl_module f \<noteq> None"
    and "\<forall>f'\<in>set current. \<exists>f\<in>set base. moved f f'"
  shows "regressions (erlang_findings sha current) (erlang_findings sha base) =
    filter (\<lambda>r. row_rule r \<in> {''parse'', ''module_identity''}) (erlang_findings sha current)"
proof -
  have "\<exists>p\<in>set (erlang_findings sha base). gap_key p = gap_key r \<and> row_fingerprint p = row_fingerprint r"
    if "r \<in> set (erlang_findings sha current)" for r
  proof -
    from that obtain f' where f': "f' \<in> set current" "r \<in> set (file_rows sha current f')" by (auto simp: erlang_findings_def)
    with assms(3) obtain m where m: "erl_module f' = Some m" by auto
    with f' obtain g' where g': "g' \<in> set (erl_gaps f')" "r = g'\<lparr>row_module := Some m\<rparr>"
      by (auto simp: file_rows_unique[OF assms(1) f'(1) m])
    from assms(4) f'(1) obtain f where f: "f \<in> set base" "moved f f'" by blast
    with m have mf: "erl_module f = Some m" by (simp add: moved_def)
    from moved_rows[OF f(2) mf g'(1)] obtain g where g: "g \<in> set (erl_gaps f)"
      "gap_key (g\<lparr>row_module := Some m\<rparr>) = gap_key r" "row_fingerprint g = row_fingerprint r"
      using g'(2) by auto
    have "g\<lparr>row_module := Some m\<rparr> \<in> set (erlang_findings sha base)"
      unfolding erlang_findings_def set_concat set_map
      using f(1) g(1) file_rows_unique[OF assms(2) f(1) mf, of sha] by (intro UN_I[of "file_rows sha base f"] imageI) simp_all
    with g(2,3) show ?thesis by force
  qed
  then show ?thesis unfolding regressions_def by (intro filter_cong refl) (auto simp: list_ex_iff)
qed

definition demo_gap :: audit_row where
  "demo_gap = \<lparr>row_path = ''a.erl'', row_line = 3, row_id = ''function:f/1'', row_rule = ''public_doc'', row_fingerprint = ''f00'',
     row_reason = None, row_module = None\<rparr>"

definition demo_file :: erlang_file where
  "demo_file = \<lparr>erl_path = ''a.erl'', erl_module = Some ''a'', erl_line = 1, erl_gaps = [demo_gap]\<rparr>"

definition demo_moved :: erlang_file where
  "demo_moved = \<lparr>erl_path = ''lib/a.erl'', erl_module = Some ''a'', erl_line = 2, erl_gaps = [demo_gap\<lparr>row_path := ''lib/a.erl'', row_line := 9\<rparr>]\<rparr>"

theorem moved_debt_accepted_witness:
  "regressions (erlang_findings id [demo_moved]) (erlang_findings id [demo_file]) = [] \<and>
   length (erlang_findings id [demo_moved]) = 1"
proof -
  have "moved demo_file demo_moved" by (simp add: moved_def moved_gap_def demo_file_def demo_moved_def)
  then have "regressions (erlang_findings id [demo_moved]) (erlang_findings id [demo_file]) =
      filter (\<lambda>r. row_rule r \<in> {''parse'', ''module_identity''}) (erlang_findings id [demo_moved])"
    by (intro moved_debt_accepted) (simp_all add: demo_moved_def)
  then show ?thesis
    by (simp add: erlang_findings_def file_rows_def modules_named_def demo_moved_def demo_gap_def)
qed

text \<open>
  Two files with one module name are rejected by every audit, whatever the base holds, whichever paths
  were asked for and whether or not the audit is strict: both appear among the new gaps.
\<close>

theorem duplicates_rejected:
  assumes "ps = (if uniq args = [] then filter is_file (selected rs tracked) else uniq args)"
    and "files = scan_erlang current (filter (has_ending [''.erl'', ''.hrl'']) (sort (uniq (filter is_file (selected rs tracked) @ ps))))"
    and "f \<in> set files" and "erl_module f = Some m" and "modules_named files m > 1"
    and "list_ex (has_ending [''.erl'', ''.hrl'']) (filter is_file (selected rs tracked) @ ps)"
  shows "duplicate_row (hash_text h) f m \<in> set (audit_new (run_audit h rs current tracked is_file args strict base base_names)) \<and>
    audit_status (run_audit h rs current tracked is_file args strict base base_names) = 1"
proof -
  let ?names = "sort (uniq (filter is_file (selected rs tracked) @ ps))"
  have "filter (has_ending [''.erl'', ''.hrl'']) ?names \<noteq> []" using assms(6) by (auto simp: filter_empty_conv list_ex_iff)
  then have "duplicate_row (hash_text h) f m \<in> set (tree_findings h current ?names)"
    using duplicate_found[OF assms(3-5)] assms(2) by (simp add: tree_findings_def Let_def)
  then have "duplicate_row (hash_text h) f m \<in> set (audit_new (run_audit h rs current tracked is_file args strict base base_names))"
    using assms(1) by (auto simp: run_audit_def regressions_iff duplicate_row_def Let_def)
  then show ?thesis by (auto simp: audit_status_def)
qed

definition demo_rules :: rules where
  "demo_rules = \<lparr>glob = (\<lambda>_ _. True), include_patterns = [[]], exclude_patterns = []\<rparr>"

theorem duplicates_rejected_witness:
  "audit_status (run_audit \<lparr>hash_text = id, hash_tokens = concat\<rparr> demo_rules \<lparr>texts = (\<lambda>_. []), scan_erlang = (\<lambda>_. [demo_file, demo_moved])\<rparr>
     [''a.erl'', ''lib/a.erl''] (\<lambda>_. True) [] False \<lparr>texts = (\<lambda>_. []), scan_erlang = (\<lambda>_. [demo_file, demo_moved])\<rparr> [''a.erl'', ''lib/a.erl'']) = 1"
  by (rule duplicates_rejected[OF refl refl, where f = demo_file and m = "''a''", THEN conjunct2])
    (auto simp: demo_file_def demo_moved_def modules_named_def demo_rules_def selected_def has_ending_def suffix_def)

end
