(* ===== verification/Package_Boundaries.thy ===== *)
theory Package_Boundaries
  imports Prelude
begin

text \<open>
  The boundary between runtime and build packages (\<open>tools/erl_hls_tools/package_boundaries.py\<close>): the built
  applications that are inspected and the violations in the snapshot that the Erlang audit prints. Globbing is
  an argument, already sorted.
\<close>

section \<open>Inspected applications\<close>

text \<open>\<open>Path.stem\<close> of a path: its last component without the extension.\<close>

definition path_stem :: "string \<Rightarrow> string" where
  "path_stem p = (let name = last (split_on (CHR ''/'') p); ext = takeWhile (\<lambda>c. c \<noteq> CHR ''.'') (rev name);
       base = drop (length ext + 1) (rev name) in
     if ext = [] \<or> base = [] then name else rev base)"

definition app_paths :: "(string \<Rightarrow> string \<Rightarrow> string list) \<Rightarrow> string \<Rightarrow> string list" where
  "app_paths globs dir = concat (map (\<lambda>dep.
     concat (map (\<lambda>d. globs d ''*.app'') ((dep @ ''/ebin'') # globs dep ''apps/*/ebin''))) (globs dir ''*''))"

definition application_files :: "(string \<Rightarrow> string \<Rightarrow> string list) \<Rightarrow> string \<Rightarrow> string \<Rightarrow> string list" where
  "application_files globs root profile = map snd (dict_of path_stem (concat (map (\<lambda>kind.
     app_paths globs (root @ ''/_build/'' @ profile @ ''/'' @ kind)) [''lib'', ''checkouts''])))"

section \<open>Violations\<close>

record application =
  app_name :: string
  app_modules :: "string list"
  app_dependencies :: "string list"

record runtime_module =
  rt_module :: string
  rt_imports :: "string list"
  rt_types :: "string list"

record snapshot =
  applications :: "application list"
  runtime_modules :: "runtime_module list"

text \<open>The stems of the application files and of the BEAM files of a release.\<close>

record release =
  released_apps :: "string list"
  released_beams :: "string list"

datatype violation =
    Missing_Application string
  | Application_Dependency string string
  | Imports string string string
  | Types string string string
  | Missing_Release
  | Release_Application string
  | Release_Module string string
  | Missing_Release_Application string

definition owners :: "snapshot \<Rightarrow> (string, string) dict" where
  "owners s = fold (\<lambda>(m, a). AList.update m a)
     (concat (map (\<lambda>app. map (\<lambda>m. (m, app_name app)) (app_modules app)) (applications s))) []"

definition sorted_set :: "string list \<Rightarrow> string list" where
  "sorted_set xs = sort (uniq xs)"

definition forbidden_owner :: "snapshot \<Rightarrow> string list \<Rightarrow> string \<Rightarrow> string option" where
  "forbidden_owner s forbidden m = (case map_of (owners s) m of None \<Rightarrow> None | Some a \<Rightarrow> if a \<in> set forbidden then Some a else None)"

definition edge_violations ::
  "snapshot \<Rightarrow> string list \<Rightarrow> (string \<Rightarrow> string \<Rightarrow> violation) \<Rightarrow> string list \<Rightarrow> violation list" where
  "edge_violations s forbidden kind targets =
     concat (map (\<lambda>t. case forbidden_owner s forbidden t of None \<Rightarrow> [] | Some a \<Rightarrow> [kind t a]) targets)"

definition release_violations :: "snapshot \<Rightarrow> string list \<Rightarrow> string list \<Rightarrow> release \<Rightarrow> violation list" where
  "release_violations s runtimes forbidden r =
     (if released_apps r = [] then [Missing_Release] else []) @
     map Release_Application (filter (\<lambda>a. a \<in> set forbidden) (released_apps r)) @
     edge_violations s forbidden Release_Module (released_beams r) @
     map Missing_Release_Application (sorted_set (filter (\<lambda>n. n \<notin> set (released_apps r)) runtimes))"

definition violations :: "snapshot \<Rightarrow> string list \<Rightarrow> string list \<Rightarrow> release option \<Rightarrow> violation list" where
  "violations s runtimes forbidden rel =
     map Missing_Application (sorted_set (filter (\<lambda>n. n \<notin> app_name ` set (applications s)) runtimes)) @
     concat (map (\<lambda>app. if app_name app \<in> set runtimes
       then map (Application_Dependency (app_name app)) (sorted_set (filter (\<lambda>d. d \<in> set forbidden) (app_dependencies app)))
       else []) (applications s)) @
     concat (map (\<lambda>m. edge_violations s forbidden (Imports (rt_module m)) (rt_imports m) @
       edge_violations s forbidden (Types (rt_module m)) (rt_types m)) (runtime_modules s)) @
     (case rel of None \<Rightarrow> [] | Some r \<Rightarrow> release_violations s runtimes forbidden r)"

text \<open>The exit status of \<open>main\<close>.\<close>

definition boundary_status :: "violation list \<Rightarrow> int" where
  "boundary_status vs = (if vs = [] then 0 else 1)"

section \<open>Owners and emptiness\<close>

text \<open>The last application that lists a module owns it.\<close>

definition owner :: "snapshot \<Rightarrow> string \<Rightarrow> string option" where
  "owner s m = map_option app_name (find (\<lambda>app. m \<in> set (app_modules app)) (rev (applications s)))"

lemma fold_update_pairs: "map_of (fold (\<lambda>(m, a). AList.update m a) ps d) = map_of d ++ map_of (rev ps)"
proof (induction ps arbitrary: d)
  case (Cons p ps)
  obtain m a where "p = (m, a)" by (cases p)
  then show ?case
    using fun_cong[OF Cons[of "AList.update m a d"]] by (intro ext) (simp add: map_add_def update_conv split: option.split)
qed simp

lemma owner_step: "map_of (rev (map (\<lambda>m. (m, a)) ms)) m = (if m \<in> set ms then Some a else None)"
proof -
  have "map_of (map (\<lambda>m. (m, a)) ms) m = (if m \<in> set ms then Some a else None)" for ms by (induction ms) auto
  from this[of "rev ms"] show ?thesis by (simp add: rev_map)
qed

lemma owners_owner: "map_of (owners s) m = owner s m"
proof -
  have "map_of (rev (concat (map (\<lambda>app. map (\<lambda>m. (m, app_name app)) (app_modules app)) apps))) m =
      map_option app_name (find (\<lambda>app. m \<in> set (app_modules app)) (rev apps))" for apps
    by (induction apps rule: rev_induct) (simp_all add: owner_step map_add_def)
  then show ?thesis by (simp add: owners_def fold_update_pairs owner_def)
qed

lemma sorted_set_Nil [simp]: "sorted_set xs = [] \<longleftrightarrow> xs = []"
  unfolding sorted_set_def by (metis set_empty set_sort set_uniq)

lemma edge_violations_Nil:
  "edge_violations s forbidden kind targets = [] \<longleftrightarrow> (\<forall>t\<in>set targets. \<forall>a. owner s t = Some a \<longrightarrow> a \<notin> set forbidden)"
  by (auto simp: edge_violations_def forbidden_owner_def owners_owner split: option.splits)

definition boundary_holds :: "snapshot \<Rightarrow> string list \<Rightarrow> string list \<Rightarrow> bool" where
  "boundary_holds s runtimes forbidden \<longleftrightarrow>
     (\<forall>n\<in>set runtimes. \<exists>app\<in>set (applications s). app_name app = n) \<and>
     (\<forall>app\<in>set (applications s). app_name app \<in> set runtimes \<longrightarrow> set (app_dependencies app) \<inter> set forbidden = {}) \<and>
     (\<forall>m\<in>set (runtime_modules s). \<forall>t\<in>set (rt_imports m) \<union> set (rt_types m). \<forall>a. owner s t = Some a \<longrightarrow> a \<notin> set forbidden)"

definition release_holds :: "snapshot \<Rightarrow> string list \<Rightarrow> string list \<Rightarrow> release \<Rightarrow> bool" where
  "release_holds s runtimes forbidden r \<longleftrightarrow>
     released_apps r \<noteq> [] \<and> set runtimes \<subseteq> set (released_apps r) \<and> set (released_apps r) \<inter> set forbidden = {} \<and>
     (\<forall>b\<in>set (released_beams r). \<forall>a. owner s b = Some a \<longrightarrow> a \<notin> set forbidden)"

text \<open>
  C16. The package audit passes exactly when the boundary holds: every runtime application was built and
  declares no forbidden dependency, no runtime module calls or names a type of a module whose owner (the
  last application that lists it) is forbidden, and a release, when there is one, holds applications, all the
  runtime ones and neither a forbidden application nor a module of one.
\<close>

theorem violations_exact:
  "boundary_status (violations s runtimes forbidden rel) = 0 \<longleftrightarrow>
     boundary_holds s runtimes forbidden \<and> (case rel of None \<Rightarrow> True | Some r \<Rightarrow> release_holds s runtimes forbidden r)"
proof -
  have edges: "concat (map (\<lambda>m. edge_violations s forbidden (Imports (rt_module m)) (rt_imports m) @
      edge_violations s forbidden (Types (rt_module m)) (rt_types m)) ms) = [] \<longleftrightarrow>
      (\<forall>m\<in>set ms. \<forall>t\<in>set (rt_imports m) \<union> set (rt_types m). \<forall>a. owner s t = Some a \<longrightarrow> a \<notin> set forbidden)" for ms
    by (auto simp: edge_violations_Nil)
  have rel: "(case rel of None \<Rightarrow> [] | Some r \<Rightarrow> release_violations s runtimes forbidden r) = [] \<longleftrightarrow>
      (case rel of None \<Rightarrow> True | Some r \<Rightarrow> release_holds s runtimes forbidden r)"
    by (auto simp: release_violations_def release_holds_def edge_violations_Nil filter_empty_conv split: option.split)
  have deps: "concat (map (\<lambda>app. if app_name app \<in> set runtimes
       then map (Application_Dependency (app_name app)) (sorted_set (filter (\<lambda>d. d \<in> set forbidden) (app_dependencies app))) else []) apps) = [] \<longleftrightarrow>
      (\<forall>app\<in>set apps. app_name app \<in> set runtimes \<longrightarrow> set (app_dependencies app) \<inter> set forbidden = {})" for apps
    by (induction apps) (auto simp: filter_empty_conv)
  have missing: "map Missing_Application (sorted_set (filter (\<lambda>n. n \<notin> app_name ` set (applications s)) runtimes)) = [] \<longleftrightarrow>
      (\<forall>n\<in>set runtimes. \<exists>app\<in>set (applications s). app_name app = n)"
    by (auto simp: filter_empty_conv)
  have "boundary_status vs = 0 \<longleftrightarrow> vs = []" for vs by (simp add: boundary_status_def)
  then show ?thesis
    by (simp only: violations_def boundary_holds_def append_is_Nil_conv deps edges rel missing conj_assoc)
qed

definition demo_snapshot :: snapshot where
  "demo_snapshot = \<lparr>applications = [\<lparr>app_name = ''rt'', app_modules = [''m''], app_dependencies = [''kernel'']\<rparr>,
     \<lparr>app_name = ''compiler'', app_modules = [''compile''], app_dependencies = []\<rparr>],
     runtime_modules = [\<lparr>rt_module = ''m'', rt_imports = [''lists''], rt_types = [''compile'']\<rparr>]\<rparr>"

theorem violations_exact_witness:
  "boundary_status (violations demo_snapshot [''rt''] [''compiler''] None) = 1 \<and>
   \<not> boundary_holds demo_snapshot [''rt''] [''compiler'']"
proof -
  have v: "boundary_status (violations demo_snapshot [''rt''] [''compiler''] None) = 1" by code_simp
  with violations_exact[of demo_snapshot "[''rt'']" "[''compiler'']" None] show ?thesis by simp
qed

end
