(* ===== verification/Spec2Isabelle.thy ===== *)
theory Spec2Isabelle
  imports Profile_Properties Verify_Properties Child_Properties Diff_Properties Source_Properties Dslx_Properties Regression_Properties Topo_Properties
    Topo_Measure_Properties Area_Scripts Ir_Properties Compact_Properties Ci_Properties Contract_Properties Package_Boundaries
begin

text \<open>
  Verification of the Python tools of erl_hls.

  \<^bold>\<open>The program.\<close> erl_hls compiles Erlang actors to hardware through DSLX and XLS. The Erlang compiler
  writes DSLX; the Python tools around it carry the build and the evidence: they run the external
  compilers over a content-addressed cache and publish results, check the correctness of the compiler by
  generated programs, audit sources, select and run regressions, explain timing profiles and instrument
  the resulting netlists with passive probes. This development models those tools. The Erlang compiler,
  the DSLX and RTL libraries and the external tools are not part of it.

  \<^bold>\<open>Conventions.\<close> A Python function is a HOL function. A raise is \<open>Inl\<close> of the component's error
  datatype in a sum, a normal return is \<open>Inr\<close>; \<open>bindE\<close>, \<open>ensure\<close>, \<open>checkE\<close>, \<open>mapE\<close> and \<open>foldE\<close> of \<open>Prelude\<close>
  are sequencing, a guard and the three loops. Dictionaries are association lists in insertion order,
  decoded JSON documents are the type \<open>json\<close> where the code inspects types and records otherwise. Python's
  integers are \<open>int\<close> or \<open>nat\<close>; strings are byte lists. The digest function, the external tools, the
  directory contents and the random generator are arguments of the definitions that use them. Definitions
  compute: the witnesses run them on concrete inputs.

  \<^bold>\<open>Timing profiles\<close> (\<open>tools/erl_hls_tools/hls_profile.py\<close>). \<open>Profile\<close> holds the document and \<open>validate\<close>, whose
  last step is a queue-driven topological sort over an in-degree table; \<open>Profile_Valid\<close> shows that it accepts
  exactly the well-formed profiles with an acyclic dependency graph. \<open>Profile_Paths\<close> holds \<open>longest_path\<close> (scores
  over the order, then a walk back over recorded predecessors, bounded by the number of events, which the
  order makes enough) and \<open>observed_predecessors\<close> (a worklist, terminating because selected events grow), with
  their optimality and closure lemmas. \<open>Profile_Window\<close> holds \<open>window\<close> and \<open>observed_overlay\<close>, and why both
  return valid profiles. \<open>Profile_Perfetto\<close> is the export to a Chrome trace: rows in order, one slice per event, the
  two ends of every flow, and counter names that can be read back. \<open>Profile_Verify\<close> is the check of such a trace after
  its import (\<open>tools/verify_perfetto_profile.py\<close>), with Python's equality of decoded JSON: rows that pass it pin down event
  identifiers, times, shown durations, edges and samples.

  \<^bold>\<open>Differential testing\<close> (\<open>tools/compiler_differential_cases.py\<close>, \<open>tools/compiler_differential.py\<close>).
  \<open>Diff_Syntax\<close>: expression trees, typing, scoping, costs, reductions, canonical JSON. \<open>Diff_Generate\<close>: the
  generator over a random source as a state monad; \<open>Diff_Generated\<close>: every draw yields well-typed, closed,
  height-bounded programs. \<open>Diff_Reduce\<close>: reductions keep typing and strictly lower the cost. \<open>Diff_Emit\<close>: the
  Erlang emitter. \<open>Diff_Run\<close>: one batch over the tools' answers, and the RTL vectors. \<open>Diff_Minimize\<close>: the
  reducer under its run budget. \<open>Diff_Campaign\<close>: the coverage counter and a whole campaign of batches up to the first
  failure, none after it, with its summary and exit status.

  \<^bold>\<open>Builds\<close> (\<open>priv/tools/compile_xls.py\<close>). \<open>Build_Paths\<close>: relative paths and the errors. \<open>Build_Inputs\<close>: the
  inventory of an input tree whose links may form cycles; it ends because the ancestors of a directory are
  different directories of the tree, and it refuses exactly the trees with a reachable cycle. \<open>Build_Child\<close>: the supervision
  of a tool's process, whose wait loop has fuel for one poll per 20 ms of the timeout and one more, which is enough
  because naps never return early; every end but an exit stops the group, and waiting for a killed process that never ends
  is a run that does not return. \<open>Build_Cache\<close>: a stage's identity, entry and checks; \<open>saved\<close> is the effect of \<open>save\<close>,
  which also takes the file of the same name with \<open>.new\<close>. \<open>Build_Publish\<close>: any number of concurrent publishers of one
  entry, each with its own name for the product, as a step relation; the locale \<open>entry_store\<close> states what a store of
  entries promises for usable names, proves agreement of the publishers by rule induction, and is interpreted on the stage
  cache; every call of \<open>stage\<close> is a run of that protocol, and without usable names publishers disagree.
  \<open>Build_Execute\<close>: specifications, the run of all stages, the release, built aside, renamed in and linked last, with a
  fault possible before each of these steps (\<open>publish_point\<close>); \<open>Build_Facts\<close>: its lemmas, among them what every stage of
  a run has recorded. \<open>Build_Flat\<close>: the flat DSLX recipe and its options.

  \<^bold>\<open>Source bundles\<close> (\<open>priv/tools/compile_source_build.py\<close>). \<open>Source_Build\<close>: normalization and planning of a
  bundle into stages; \<open>Source_Facts\<close>: planned names are distinct and accepted by the executor, relative listings
  lead back to their files.

  \<^bold>\<open>DSLX audit\<close> (\<open>tools/dslx_source_contracts.py\<close>). \<open>Dslx_Lex\<close>: the lexer. \<open>Dslx_Reader\<close>: the recursive-descent
  reader, with fuel \<open>2 * length + 2\<close> of the tokens where two readers call each other and the length
  itself elsewhere: each call consumes a token, or hands the same tokens to the next reader once, so the fuel never
  runs out (\<open>Dslx_Facts\<close>); and every error names a line of the source, for no bracket is looked up that has no closing
  one (\<open>Dslx_Located\<close>).

  \<^bold>\<open>Regressions\<close> (\<open>tools/regression_inventory.py\<close>, \<open>tools/ci_plan.py\<close>, \<open>tools/regression_steps.py\<close>,
  \<open>tools/run_regression.py\<close>, \<open>tools/regression_cases.py\<close>). \<open>Regression_Inventory\<close>: the inventory, selection by changed paths and the CI
  plan. \<open>Regression_Steps\<close>: cases as lists of steps. \<open>Regression_Run\<close>: execution over a file system and a supply
  of command outcomes, and the receipt of every step. \<open>Regression_Cases\<close> and \<open>Regression_Catalogue\<close>: the cases as
  lists of operations with the files they name. \<open>Regression_Ready\<close>: an analysis in the manner of definite
  initialization (optimized IR and Verilog files of the stage are there before they are named), sound for the execution
  of the steps when tools do not remove files, patterns match what they say and the Erlang fixture writers write the
  wrappers that their sources name; \<open>Regression_Checked\<close> evaluates it on every case.

  \<^bold>\<open>Netlist instrumentation\<close> (\<open>tools/erl_hls_tools/topology_debug*.py\<close>). \<open>Topo_Netlist\<close>: elaborated netlists,
  handshakes and the instance walk, which terminates because a module never occurs among its own ancestors.
  \<open>Topo_Discover\<close>: the grouping of handshakes into probes with their deepest endpoints. \<open>Topo_Resources\<close>: the
  registered occupancies of XLS FIFOs, the numbering of resources and the export of their bits. \<open>Topo_Fields\<close>: the
  compiler's projections of actor state and their validation. \<open>Topo_Actors\<close>: the write contract of a state RAM
  (the walk through its multiplexers terminates because every step but the first looks at a new arm), the
  observation sources and the taps of every bank. \<open>Topo_Contract\<close>: what the contract says of the values of the
  nets. \<open>Topo_Wrapper\<close> and \<open>Topo_Services\<close>: the generated Verilog as text, and \<open>instrument\<close> on the two
  elaborations. \<open>Topo_Layout\<close>: the slices the Verilog reads are those the discovery laid out. \<open>Topo_Taps\<close>: the nets of
  the design that each of these positions holds. \<open>Topo_Report\<close>: the
  reader of query reports, which accepts the manifests \<open>instrument\<close> writes. \<open>Debug_Memories\<close>
  (\<open>tools/check_debug_memories.py\<close>): the check that the export keeps the memories. \<open>Topo_Measure\<close>
  (\<open>tools/erl_hls_tools/measure_topology_debug.py\<close>): the side cars of the measured variants, whose banks without
  mailboxes keep the layout of the others, and the cell statistics, as exact rationals.

  \<^bold>\<open>Analyses of outputs.\<close> \<open>Ir_Types\<close>, \<open>Ir_Census\<close> (\<open>tools/erl_hls_tools/xls_ir_census.py\<close>): the reader of type
  widths, with the length of the text as fuel, and the census of procs. \<open>Compact_Build\<close> (\<open>tools/compact_build.py\<close>):
  candidates, the verified replacement of a file while other processes change the tree and with a cleanup that can fail
  after it, the plan and its receipt.
  \<open>Ci_Diagnostics\<close> (\<open>tools/ci_diagnostics.py\<close>): the bounded bundle of a failed run. \<open>Contract_Check\<close>
  (\<open>tools/check_source_contracts.py\<close>): the comparison of source contracts with a base. \<open>Package_Boundaries\<close>
  (\<open>tools/erl_hls_tools/package_boundaries.py\<close>): the boundary between runtime and build applications.
  \<open>Area_Scripts\<close> (\<open>tools/measure_fabric_router.py\<close>, \<open>tools/measure_application_frames.py\<close>): the router wrapper,
  whose constant gives every port the endpoint after its index, the commands of the cases and the counted cells.

  \<^bold>\<open>How the parts meet.\<close> The source planner's stages are accepted by the executor's own checks
  (\<open>Source_Properties\<close>); the flat recipe's too (\<open>Build_Properties\<close>); the regression runner executes the steps
  that the case methods build from the inventory's selection; the reducer runs batches of the generator's
  programs, and a campaign hands its failed batch to the reducer; every step a regression case appends runs in the
  runner's semantics; the memory check accepts every export that rereads unchanged; the measurement binds the
  banks of a written manifest again by the discovery that \<open>instrument\<close> used.

  \<^bold>\<open>Not modelled.\<close> Command lines, the handlers that turn signals into exceptions, durations and the names of temporary directories; digests
  of directory trees; Git; the SVG drawing of profiles, which is layout in floating point; the Yosys scripts of the
  measurement, whose answers are arguments; the scripts that only run tools and compare files with them
  (\<open>tools/measure_direct_actor_debug.py\<close>, \<open>tools/check_actor_observation_ports.py\<close>, \<open>testing.py\<close>), and
  the test programs, whose subjects are the modules above.
\<close>

end
